(* ===== verification/Prelude.thy ===== *)
theory Prelude
  imports Main
    "HOL-Library.List_Lexorder" "HOL-Library.Char_ord" "HOL-Library.Product_Lexorder"
    "HOL-Library.Sublist" "HOL-Library.Multiset"
begin

text \<open>
  What the components share.  Go strings are byte strings (\<open>string\<close>, a list of
  \<open>char\<close>, ordered lexicographically by byte value as Go orders them), so the
  functions of the packages \<open>strings\<close> and \<open>strconv\<close> that the source uses are
  written out here over bytes: \<open>TrimSpace\<close> with the UTF-8 encodings of the Unicode
  spaces, \<open>Index\<close>/\<open>LastIndex\<close>/\<open>Split\<close> for a one-byte separator, \<open>HasPrefix\<close>,
  \<open>Contains\<close>, \<open>Atoi\<close> with its 64-bit range check and \<open>Itoa\<close>.  A Go map that
  is iterated is an association list (any order of its keys), read with \<open>map_of\<close>.
  The second half holds the list, sorting and digit lemmas the component proofs use.
\<close>

named_theorems tables \<open>tables of the taxonomy, unfolded when a proof enumerates them\<close>
named_theorems engine_defs \<open>definitions of the rule engine\<close>

type_synonym 'a gomap = "(string \<times> 'a) list"

abbreviation dash :: char where "dash \<equiv> CHR ''-''"
abbreviation colon :: char where "colon \<equiv> CHR '':''"
abbreviation slash :: char where "slash \<equiv> CHR ''/''"
abbreviation nul :: char where "nul \<equiv> CHR 0x00"
abbreviation newline :: char where "newline \<equiv> CHR 0x0A"
abbreviation carriage :: char where "carriage \<equiv> CHR 0x0D"

definition get_or :: "'a gomap \<Rightarrow> string \<Rightarrow> 'a \<Rightarrow> 'a" where
  "get_or m k d = (case map_of m k of None \<Rightarrow> d | Some v \<Rightarrow> v)"

definition has_key :: "'a gomap \<Rightarrow> string \<Rightarrow> bool" where
  "has_key m k \<longleftrightarrow> map_of m k \<noteq> None"

section \<open>The functions of package strings\<close>

fun has_prefix :: "string \<Rightarrow> string \<Rightarrow> bool" where
  "has_prefix [] s = True"
| "has_prefix (c # p) [] = False"
| "has_prefix (c # p) (d # s) = (c = d \<and> has_prefix p s)"

definition has_suffix :: "string \<Rightarrow> string \<Rightarrow> bool" where
  "has_suffix p s = has_prefix (rev p) (rev s)"

definition trim_prefix :: "string \<Rightarrow> string \<Rightarrow> string" where
  "trim_prefix p s = (if has_prefix p s then drop (length p) s else s)"

definition trim_suffix :: "string \<Rightarrow> string \<Rightarrow> string" where
  "trim_suffix p s = (if has_suffix p s then take (length s - length p) s else s)"

definition contains_char :: "string \<Rightarrow> char \<Rightarrow> bool" where
  "contains_char s c = list_ex (\<lambda>x. x = c) s"

text \<open>\<open>cut_first c s\<close>: the parts before and after the first \<open>c\<close> (\<open>strings.Index\<close>
  followed by the two slices), None when \<open>Index\<close> is negative; \<open>cut_last\<close> is the same
  with \<open>LastIndex\<close>.\<close>

fun cut_first :: "char \<Rightarrow> string \<Rightarrow> (string \<times> string) option" where
  "cut_first c [] = None"
| "cut_first c (x # xs) =
     (if x = c then Some ([], xs)
      else map_option (\<lambda>(p, q). (x # p, q)) (cut_first c xs))"

definition cut_last :: "char \<Rightarrow> string \<Rightarrow> (string \<times> string) option" where
  "cut_last c s = map_option (\<lambda>(p, q). (rev q, rev p)) (cut_first c (rev s))"

fun split_on :: "char \<Rightarrow> string \<Rightarrow> string list" where
  "split_on c [] = [[]]"
| "split_on c (x # xs) =
     (if x = c then [] # split_on c xs
      else (case split_on c xs of [] \<Rightarrow> [[x]] | p # ps \<Rightarrow> (x # p) # ps))"

fun join_with :: "string \<Rightarrow> string list \<Rightarrow> string" where
  "join_with sep [] = []"
| "join_with sep [s] = s"
| "join_with sep (s # t # ss) = s @ sep @ join_with sep (t # ss)"

definition space1 :: "char \<Rightarrow> bool" where
  "space1 a = (a = CHR '' '' \<or> a = CHR 0x09 \<or> a = CHR 0x0A \<or> a = CHR 0x0B \<or> a = CHR 0x0C \<or> a = CHR 0x0D)"

definition space2 :: "char \<Rightarrow> char \<Rightarrow> bool" where
  "space2 a b = (a = CHR 0xC2 \<and> (b = CHR 0x85 \<or> b = CHR 0xA0))"

definition space3 :: "char \<Rightarrow> char \<Rightarrow> char \<Rightarrow> bool" where
  "space3 a b c = (
     (a = CHR 0xE1 \<and> b = CHR 0x9A \<and> c = CHR 0x80) \<or>
     (a = CHR 0xE2 \<and> b = CHR 0x80 \<and>
        (CHR 0x80 \<le> c \<and> c \<le> CHR 0x8A \<or> c = CHR 0xA8 \<or> c = CHR 0xA9 \<or> c = CHR 0xAF)) \<or>
     (a = CHR 0xE2 \<and> b = CHR 0x81 \<and> c = CHR 0x9F) \<or>
     (a = CHR 0xE3 \<and> b = CHR 0x80 \<and> c = CHR 0x80))"

fun trim_front :: "(char \<Rightarrow> char \<Rightarrow> bool) \<Rightarrow> (char \<Rightarrow> char \<Rightarrow> char \<Rightarrow> bool) \<Rightarrow> string \<Rightarrow> string" where
  "trim_front s2 s3 [] = []"
| "trim_front s2 s3 [a] = (if space1 a then [] else [a])"
| "trim_front s2 s3 [a, b] =
     (if space1 a then trim_front s2 s3 [b] else if s2 a b then [] else [a, b])"
| "trim_front s2 s3 (a # b # c # s) =
     (if space1 a then trim_front s2 s3 (b # c # s)
      else if s2 a b then trim_front s2 s3 (c # s)
      else if s3 a b c then trim_front s2 s3 s
      else a # b # c # s)"

definition trim_left :: "string \<Rightarrow> string" where
  "trim_left = trim_front space2 space3"

definition trim_right :: "string \<Rightarrow> string" where
  "trim_right s = rev (trim_front (\<lambda>b a. space2 a b) (\<lambda>c b a. space3 a b c) (rev s))"

definition trim_space :: "string \<Rightarrow> string" where
  "trim_space s = trim_right (trim_left s)"

definition trim_right_char :: "char \<Rightarrow> string \<Rightarrow> string" where
  "trim_right_char c s = rev (dropWhile (\<lambda>x. x = c) (rev s))"

definition trim_char :: "char \<Rightarrow> string \<Rightarrow> string" where
  "trim_char c s = trim_right_char c (dropWhile (\<lambda>x. x = c) s)"

text \<open>ASCII case mapping (the taxonomy's own words are ASCII).\<close>

definition is_upper :: "char \<Rightarrow> bool" where
  "is_upper c = (65 \<le> (of_char c :: nat) \<and> of_char c \<le> (90 :: nat))"

definition is_lower :: "char \<Rightarrow> bool" where
  "is_lower c = (97 \<le> (of_char c :: nat) \<and> of_char c \<le> (122 :: nat))"

definition to_lower :: "char \<Rightarrow> char" where
  "to_lower c = (if is_upper c then char_of ((of_char c :: nat) + 32) else c)"

definition to_upper :: "char \<Rightarrow> char" where
  "to_upper c = (if is_lower c then char_of ((of_char c :: nat) - 32) else c)"

section \<open>The functions of package strconv\<close>

definition is_digit :: "char \<Rightarrow> bool" where
  "is_digit c = (48 \<le> (of_char c :: int) \<and> of_char c \<le> (57 :: int))"

definition digit_value :: "char \<Rightarrow> int" where
  "digit_value c = of_char c - 48"

definition decimal :: "string \<Rightarrow> int" where
  "decimal s = foldl (\<lambda>n c. 10 * n + digit_value c) 0 s"

definition max_int64 :: int where "max_int64 = 9223372036854775807"

text \<open>\<open>strconv.Atoi\<close> on a string of digits: the range error is None.\<close>

definition atoi_digits :: "string \<Rightarrow> int option" where
  "atoi_digits s = (if decimal s \<le> max_int64 then Some (decimal s) else None)"

definition digit_char :: "int \<Rightarrow> char" where
  "digit_char d = char_of (48 + d)"

function itoa_nat :: "int \<Rightarrow> string" where
  "itoa_nat n = (if n < 10 then [digit_char n] else itoa_nat (n div 10) @ [digit_char (n mod 10)])"
  by pat_completeness auto
termination by (relation "measure nat") auto

declare itoa_nat.simps [simp del]

definition itoa :: "int \<Rightarrow> string" where
  "itoa i = (if i < 0 then dash # itoa_nat (- i) else itoa_nat i)"

section \<open>Association lists\<close>

lemma get_or_Nil [simp]: "get_or [] k d = d"
  by (simp add: get_or_def)

lemma get_or_Cons [simp]: "get_or ((k', v) # m) k d = (if k' = k then v else get_or m k d)"
  by (simp add: get_or_def)

lemma has_key_Nil [simp]: "\<not> has_key [] k"
  by (simp add: has_key_def)

lemma has_key_Cons [simp]: "has_key ((k', v) # m) k = (k' = k \<or> has_key m k)"
  by (simp add: has_key_def)

lemma has_key_iff: "has_key m k \<longleftrightarrow> k \<in> fst ` set m"
  by (induction m) auto

section \<open>Cutting and joining\<close>

lemma cut_first_None_iff [simp]: "cut_first c s = None \<longleftrightarrow> c \<notin> set s"
  by (induction s) auto

lemma cut_first_None [simp]: "c \<notin> set s \<Longrightarrow> cut_first c s = None"
  by simp

lemma cut_first_Some:
  "cut_first c s = Some (p, q) \<Longrightarrow> s = p @ c # q \<and> c \<notin> set p"
  by (induction s arbitrary: p q) (auto split: if_splits)

lemma cut_first_append [simp]:
  "c \<notin> set p \<Longrightarrow> cut_first c (p @ c # q) = Some (p, q)"
  by (induction p) auto

lemma cut_last_None_iff [simp]: "cut_last c s = None \<longleftrightarrow> c \<notin> set s"
  by (simp add: cut_last_def)

lemma cut_last_None [simp]: "c \<notin> set s \<Longrightarrow> cut_last c s = None"
  by simp

lemma cut_last_append [simp]:
  "c \<notin> set q \<Longrightarrow> cut_last c (p @ c # q) = Some (p, q)"
  by (simp add: cut_last_def)

lemma cut_last_Some:
  assumes "cut_last c s = Some (p, q)"
  shows "s = p @ c # q \<and> c \<notin> set q"
proof -
  from assms obtain p' q' where e: "cut_first c (rev s) = Some (p', q')" "p = rev q'" "q = rev p'"
    by (auto simp: cut_last_def)
  from cut_first_Some [OF e(1)] have "rev s = p' @ c # q'" "c \<notin> set p'" by auto
  then show ?thesis using e by (metis append.assoc append_Cons append_Nil rev.simps(2) rev_append rev_rev_ident set_rev)
qed

lemma contains_char_iff [simp]: "contains_char s c \<longleftrightarrow> c \<in> set s"
  by (auto simp: contains_char_def list_ex_iff)

lemma has_prefix_iff: "has_prefix p s \<longleftrightarrow> (\<exists>t. s = p @ t)"
  by (induction p s rule: has_prefix.induct) auto

lemma has_prefix_append [simp]: "has_prefix p (p @ t)"
  by (auto simp: has_prefix_iff)

lemma has_suffix_iff: "has_suffix p s \<longleftrightarrow> (\<exists>t. s = t @ p)"
  unfolding has_suffix_def has_prefix_iff
  by (metis rev_append rev_rev_ident)

lemma trim_suffix_append [simp]: "trim_suffix p (s @ p) = s"
  by (auto simp: trim_suffix_def has_suffix_iff)

lemma trim_prefix_append [simp]: "trim_prefix p (p @ s) = s"
  by (auto simp: trim_prefix_def has_prefix_iff)

lemma split_on_nonempty [simp]: "split_on c s \<noteq> []"
  by (induction s) (auto split: list.splits)

lemma split_on_no_sep: "c \<notin> set s \<Longrightarrow> split_on c s = [s]"
  by (induction s) auto

lemma split_on_append:
  "c \<notin> set p \<Longrightarrow> split_on c (p @ c # q) = p # split_on c q"
  by (induction p) auto

lemma join_split_on: "join_with [c] (split_on c s) = s"
proof (induction s)
  case (Cons x xs)
  show ?case
  proof (cases "split_on c xs")
    case (Cons p ps)
    then show ?thesis using Cons.IH by (cases ps) (auto simp del: split_on_nonempty)
  qed simp
qed simp

section \<open>Decimal numbers\<close>

lemma of_char_digit_char: "0 \<le> d \<Longrightarrow> d < 10 \<Longrightarrow> (of_char (digit_char d) :: int) = 48 + d"
  by (simp add: digit_char_def)

lemma is_digit_digit_char [simp]: "0 \<le> d \<Longrightarrow> d < 10 \<Longrightarrow> is_digit (digit_char d)"
  by (simp add: is_digit_def of_char_digit_char)

lemma digit_value_digit_char [simp]: "0 \<le> d \<Longrightarrow> d < 10 \<Longrightarrow> digit_value (digit_char d) = d"
  by (simp add: digit_value_def of_char_digit_char)

lemma decimal_append_single [simp]: "decimal (s @ [c]) = 10 * decimal s + digit_value c"
  by (simp add: decimal_def)

lemma decimal_single: "decimal [c] = digit_value c"
  by (simp add: decimal_def)

lemma decimal_itoa_nat [simp]: "0 \<le> n \<Longrightarrow> decimal (itoa_nat n) = n"
  by (induction n rule: itoa_nat.induct, subst itoa_nat.simps) (auto simp: decimal_single)

lemma itoa_nat_digits: "0 \<le> n \<Longrightarrow> list_all is_digit (itoa_nat n)"
  by (induction n rule: itoa_nat.induct, subst itoa_nat.simps) auto

lemma itoa_nat_nonempty [simp]: "itoa_nat n \<noteq> []"
  by (subst itoa_nat.simps) auto

lemma not_digit_separators [simp]:
  "\<not> is_digit colon" "\<not> is_digit slash" "\<not> is_digit dash" "\<not> is_digit nul"
  by (simp_all add: is_digit_def)

lemma no_separator_in_digits:
  "list_all is_digit s \<Longrightarrow> colon \<notin> set s \<and> slash \<notin> set s \<and> dash \<notin> set s \<and> nul \<notin> set s"
  using not_digit_separators by (auto simp: list_all_iff)

lemma itoa_nat_no_separator [simp]:
  assumes "0 \<le> n"
  shows "colon \<notin> set (itoa_nat n)" "slash \<notin> set (itoa_nat n)" "dash \<notin> set (itoa_nat n)" "nul \<notin> set (itoa_nat n)"
  using no_separator_in_digits [OF itoa_nat_digits [OF assms]] by blast+

section \<open>Sorting\<close>

lemma sort_key_eq_by_mset:
  assumes "mset xs = mset ys" and "inj_on f (set xs)"
  shows "sort_key f xs = sort_key f ys"
proof -
  have "sort_key f ys = sort_key f xs"
  proof (rule properties_for_sort_key)
    show "mset (sort_key f xs) = mset ys" using assms(1) by simp
    show "sorted (map f (sort_key f xs))" by simp
    fix k assume "k \<in> set (sort_key f xs)"
    have sub: "\<And>zs. set zs \<subseteq> set xs \<Longrightarrow> filter (\<lambda>x. f k = f x) zs = filter (\<lambda>x. x = k) zs"
    proof -
      fix zs assume "set zs \<subseteq> set xs"
      moreover have "k \<in> set xs" using \<open>k \<in> set (sort_key f xs)\<close> by simp
      ultimately show "filter (\<lambda>x. f k = f x) zs = filter (\<lambda>x. x = k) zs"
        using assms(2) by (intro filter_cong) (auto dest: inj_onD)
    qed
    have rep: "\<And>zs. filter (\<lambda>x. x = k) zs = replicate (count (mset zs) k) k"
      by (induct_tac zs) auto
    have "set (sort_key f xs) \<subseteq> set xs" "set ys \<subseteq> set xs"
      using assms(1) by (auto dest: mset_eq_setD)
    then show "filter (\<lambda>y. f k = f y) (sort_key f xs) = filter (\<lambda>x. f k = f x) ys"
      using assms(1) by (simp add: sub rep)
  qed
  then show ?thesis by simp
qed

lemma sorted_hd_min:
  "sorted (map f (x # xs)) \<Longrightarrow> y \<in> set (x # xs) \<Longrightarrow> f x \<le> f y"
  by auto

lemma hd_sort_key_min:
  "sort_key f xs = y # ys \<Longrightarrow> x \<in> set xs \<Longrightarrow> f y \<le> f x"
  by (metis set_sort sorted_hd_min sorted_sort_key)

lemma sort_key_eq_Nil [simp]: "sort_key f xs = [] \<longleftrightarrow> xs = []"
  by (metis length_0_conv length_sort)

lemma map_insort_key: "map f (insort_key (\<lambda>x. g (f x)) x xs) = insort_key g (f x) (map f xs)"
  by (induction xs) auto

lemma map_sort_key: "map f (sort_key (\<lambda>x. g (f x)) xs) = sort_key g (map f xs)"
  by (induction xs) (auto simp: map_insort_key)

section \<open>Printed integers\<close>

lemma itoa_nat_inj: "0 \<le> m \<Longrightarrow> 0 \<le> n \<Longrightarrow> itoa_nat m = itoa_nat n \<Longrightarrow> m = n"
  by (metis decimal_itoa_nat)

lemma itoa_inj [simp]: "itoa i = itoa j \<longleftrightarrow> i = j"
proof
  assume e: "itoa i = itoa j"
  have d: "\<And>n s. 0 \<le> n \<Longrightarrow> itoa_nat n \<noteq> dash # s"
    by (metis itoa_nat_no_separator(3) list.set_intros(1))
  show "i = j"
  proof (cases "i < 0 \<longleftrightarrow> j < 0")
    case True
    then show ?thesis using e itoa_nat_inj [of "- i" "- j"] itoa_nat_inj [of i j]
      by (auto simp: itoa_def split: if_splits)
  next
    case False
    then show ?thesis using e d [of i "itoa_nat (- j)"] d [of j "itoa_nat (- i)"]
      by (auto simp: itoa_def split: if_splits)
  qed
qed simp

lemma itoa_no_nul [simp]: "nul \<notin> set (itoa i)"
  by (simp add: itoa_def)

lemma concat_map_if_Nil: "concat (map (\<lambda>x. if P x then [] else [f x]) xs) = [] \<longleftrightarrow> list_all P xs"
  by (induction xs) auto

lemma concat_map_split_Nil:
  "concat (map (\<lambda>(d, v). if P d v then [] else [f d v]) xs) = [] \<longleftrightarrow> list_all (\<lambda>(d, v). P d v) xs"
  by (induction xs) (auto split: if_splits)

lemma card_image_cong_kernel:
  assumes "finite A" "\<And>x y. x \<in> A \<Longrightarrow> y \<in> A \<Longrightarrow> f x = f y \<longleftrightarrow> g x = g y"
  shows "card (f ` A) = card (g ` A)"
  using assms
proof (induction A rule: finite_induct)
  case (insert x A)
  have "f x \<in> f ` A \<longleftrightarrow> g x \<in> g ` A" using insert.prems by (auto simp: image_iff)
  then show ?case using insert by (simp add: card_insert_if)
qed simp

section \<open>Trimming only removes\<close>

lemma set_trim_front: "set (trim_front s2 s3 s) \<subseteq> set s"
  by (induction s2 s3 s rule: trim_front.induct) auto

lemma set_trim_space: "set (trim_space s) \<subseteq> set s"
proof -
  have "set (trim_right t) \<subseteq> set t" for t
    using set_trim_front [of _ _ "rev t"] by (simp add: trim_right_def)
  then show ?thesis using set_trim_front [of _ _ s] by (fastforce simp: trim_space_def trim_left_def)
qed

lemma trim_front_stop:
  assumes "\<not> space1 a" "\<And>b. \<not> s2 a b" "\<And>b c. \<not> s3 a b c"
  shows "trim_front s2 s3 (a # s) = a # s"
proof (cases s)
  case (Cons b t)
  then show ?thesis using assms by (cases t) auto
qed (use assms in simp)

definition plain_edge :: "char \<Rightarrow> bool" where
  "plain_edge a = (\<not> space1 a \<and> (of_char a :: nat) < 128)"

lemma plain_edge_left: "plain_edge a \<Longrightarrow> trim_left (a # s) = a # s"
  unfolding trim_left_def
  by (rule trim_front_stop) (auto simp: plain_edge_def space2_def space3_def)

lemma plain_edge_right:
  assumes "plain_edge a"
  shows "trim_right (s @ [a]) = s @ [a]"
proof -
  have "\<not> space1 a" "a \<noteq> CHR 0x85" "a \<noteq> CHR 0xA0" "\<not> CHR 0x80 \<le> a" "a \<noteq> CHR 0x9F"
    "a \<noteq> CHR 0xA8" "a \<noteq> CHR 0xA9" "a \<noteq> CHR 0xAF" "a \<noteq> CHR 0x80"
    using assms by (auto simp: plain_edge_def less_eq_char_def)
  then have "trim_front (\<lambda>b a. space2 a b) (\<lambda>c b a. space3 a b c) (a # rev s) = a # rev s"
    by (intro trim_front_stop) (auto simp: space2_def space3_def)
  then show ?thesis by (simp add: trim_right_def)
qed

lemma trim_space_plain:
  assumes "plain_edge a" "plain_edge b"
  shows "trim_space (a # s @ [b]) = a # s @ [b]"
  using plain_edge_left [OF assms(1)] plain_edge_right [OF assms(2), of "a # s"]
  by (simp add: trim_space_def)

lemma trim_front_length: "length (trim_front s2 s3 s) \<le> length s"
  by (induction s2 s3 s rule: trim_front.induct) auto

lemma trim_front_idem [simp]: "trim_front s2 s3 (trim_front s2 s3 s) = trim_front s2 s3 s"
  by (induction s2 s3 s rule: trim_front.induct) auto

lemma trim_right_idem [simp]: "trim_right (trim_right s) = trim_right s"
  by (simp add: trim_right_def)

lemma trim_front_extend:
  assumes "trim_front s2 s3 x = x" "x \<noteq> []" "\<And>a. \<not> s2 a c" "\<And>a. \<not> s3 a c d" "\<And>a b. \<not> s3 a b c"
  shows "trim_front s2 s3 (x @ c # d # ys) = x @ c # d # ys"
proof (cases "(s2, s3, x)" rule: trim_front.cases)
  case (2 s2 s3 a)
  then show ?thesis using assms by (auto split: if_splits)
next
  case (3 s2 s3 a b)
  have "\<not> space1 a" using 3 assms(1) trim_front_length [of s2 s3 "[b]"] by (auto split: if_splits)
  then show ?thesis using 3 assms by (auto split: if_splits)
next
  case (4 s2 s3 a b e s)
  have n1: "\<not> space1 a" using 4 assms(1) trim_front_length [of s2 s3 "b # e # s"] by (auto split: if_splits)
  have n2: "\<not> s2 a b" using 4 n1 assms(1) trim_front_length [of s2 s3 "e # s"] by (auto split: if_splits)
  have "\<not> s3 a b e" using 4 n1 n2 assms(1) trim_front_length [of s2 s3 s] by (auto split: if_splits)
  then show ?thesis using 4 n1 n2 by simp
qed (use assms in simp)

lemma trim_front_suffix: "\<exists>p. s = p @ trim_front s2 s3 s"
proof (induction s2 s3 s rule: trim_front.induct)
  case (4 s2 s3 a b c s)
  then show ?case by (auto intro: exI [of _ "[]"]) (metis append_Cons)+
qed auto

lemma trim_front_prefix:
  assumes "trim_front s2 s3 (p @ q) = p @ q"
  shows "trim_front s2 s3 p = p"
proof (cases "(s2, s3, p)" rule: trim_front.cases)
  case (2 s2 s3 a)
  have "\<not> space1 a" using 2 assms trim_front_length [of s2 s3 q] by (cases q; cases "tl q") (auto split: if_splits)
  then show ?thesis using 2 by simp
next
  case (3 s2 s3 a b)
  have n1: "\<not> space1 a" using 3 assms trim_front_length [of s2 s3 "b # q"] by (cases q) (auto split: if_splits)
  have "\<not> s2 a b" using 3 n1 assms trim_front_length [of s2 s3 q] by (cases q) (auto split: if_splits)
  then show ?thesis using 3 n1 by simp
next
  case (4 s2 s3 a b c s)
  have n1: "\<not> space1 a" using 4 assms trim_front_length [of s2 s3 "b # c # s @ q"] by (auto split: if_splits)
  have n2: "\<not> s2 a b" using 4 n1 assms trim_front_length [of s2 s3 "c # s @ q"] by (auto split: if_splits)
  have "\<not> s3 a b c" using 4 n1 n2 assms trim_front_length [of s2 s3 "s @ q"] by (auto split: if_splits)
  then show ?thesis using 4 n1 n2 by simp
qed simp

lemma trim_space_idem [simp]: "trim_space (trim_space s) = trim_space s"
proof -
  have "trim_left (trim_left s) = trim_left s" by (simp add: trim_left_def)
  moreover obtain p where "rev (trim_left s) = p @ trim_front (\<lambda>b a. space2 a b) (\<lambda>c b a. space3 a b c) (rev (trim_left s))"
    using trim_front_suffix by blast
  then have "trim_left s = trim_right (trim_left s) @ rev p"
    unfolding trim_right_def by (metis rev_append rev_rev_ident)
  ultimately have "trim_left (trim_right (trim_left s)) = trim_right (trim_left s)"
    unfolding trim_left_def by (metis trim_front_prefix)
  then show ?thesis by (simp add: trim_space_def)
qed

lemma split_on_join:
  "ws \<noteq> [] \<Longrightarrow> list_all (\<lambda>w. c \<notin> set w) ws \<Longrightarrow> split_on c (join_with [c] ws) = ws"
  by (induction "[c]" ws rule: join_with.induct) (auto simp: split_on_no_sep split_on_append)

lemma set_map_filter_iff:
  "y \<in> set (List.map_filter f xs) \<longleftrightarrow> (\<exists>x \<in> set xs. f x = Some y)"
  by (induction xs) (auto simp: map_filter_def)

end
