(* ===== verification/Taxonomy.thy ===== *)
theory Taxonomy
  imports Prelude
begin

text \<open>
  The type/state taxonomy of \<open>conformance/state.go\<close>: the 29 artifact type tokens with
  the state domains each owns, the ordered value set of each domain, and the legality
  of a state transition (the explicit D1 table for the execution state, the two
  terminal outcomes of a note, strictly increasing position elsewhere).  The locale
  \<open>forward_table\<close> states what the forward-only domains share; it is interpreted on
  every value table of the source.
\<close>

section \<open>Names\<close>

definition DomainContentState :: string where "DomainContentState = ''content-state''"
definition DomainExecutionState :: string where "DomainExecutionState = ''execution-state''"
definition DomainPlanningState :: string where "DomainPlanningState = ''planning-state''"
definition DomainContainerState :: string where "DomainContainerState = ''container-state''"
definition DomainExistenceState :: string where "DomainExistenceState = ''existence-state''"
definition DomainNoteState :: string where "DomainNoteState = ''note-state''"
definition DomainPhase :: string where "DomainPhase = ''phase''"

lemmas domain_names = DomainContentState_def DomainExecutionState_def DomainPlanningState_def
  DomainContainerState_def DomainExistenceState_def DomainNoteState_def DomainPhase_def

declare domain_names [tables]

definition stateFields :: "string list" where
  "stateFields = [DomainContentState, DomainExecutionState, DomainPlanningState,
     DomainContainerState, DomainExistenceState, DomainNoteState]"

definition relationshipFields :: "string list" where
  "relationshipFields = [''amends'', ''supersedes'', ''derives-from'', ''depends-on'',
     ''validates'', ''discusses'', ''replies-to'', ''assigned-to'']"

definition versionedTypes :: "string list" where
  "versionedTypes = [''scp'', ''plan'']"

definition projectionTypes :: "string list" where
  "projectionTypes = [''ctr'', ''tkt'', ''ses'']"

definition workItemTypes :: "string list" where
  "workItemTypes = [''sto'', ''ts'', ''bug'', ''td'', ''ch'', ''spk'']"

section \<open>The type table\<close>

record TypeInfo =
  Token :: string
  Owned :: "string list"
  IsKnowledge :: bool

definition type_row :: "string \<Rightarrow> string list \<Rightarrow> bool \<Rightarrow> string \<times> TypeInfo" where
  "type_row t owned k = (t, \<lparr>Token = t, Owned = owned, IsKnowledge = k\<rparr>)"

definition typeTokens :: "TypeInfo gomap" where
  "typeTokens = [
     type_row ''vis'' [DomainContentState, DomainExistenceState] True,
     type_row ''str'' [DomainContentState, DomainExistenceState] True,
     type_row ''req'' [DomainContentState, DomainExistenceState] True,
     type_row ''scp'' [DomainContentState, DomainExistenceState] True,
     type_row ''epc'' [DomainContentState, DomainExistenceState] True,
     type_row ''plan'' [DomainContentState, DomainPlanningState, DomainExistenceState] True,
     type_row ''ctr'' [DomainContainerState, DomainExistenceState] False,
     type_row ''tkt'' [] False,
     type_row ''sto'' [DomainExecutionState, DomainExistenceState] False,
     type_row ''ts'' [DomainExecutionState, DomainExistenceState] False,
     type_row ''bug'' [DomainExecutionState, DomainExistenceState] False,
     type_row ''td'' [DomainExecutionState, DomainExistenceState] False,
     type_row ''ch'' [DomainExecutionState, DomainExistenceState] False,
     type_row ''spk'' [DomainExecutionState, DomainExistenceState] False,
     type_row ''ses'' [DomainExistenceState] False,
     type_row ''rvw'' [DomainContentState, DomainExistenceState] True,
     type_row ''cmt'' [DomainContentState, DomainExistenceState, DomainNoteState] False,
     type_row ''mbr'' [DomainContentState, DomainExistenceState] False,
     type_row ''adr'' [DomainContentState, DomainExistenceState] True,
     type_row ''dec'' [DomainContentState, DomainExistenceState] True,
     type_row ''arc'' [DomainContentState, DomainExistenceState] True,
     type_row ''spec'' [DomainContentState, DomainExistenceState] True,
     type_row ''std'' [DomainContentState, DomainExistenceState] True,
     type_row ''run'' [DomainContentState, DomainExistenceState] True,
     type_row ''rel'' [DomainContentState, DomainExistenceState] True,
     type_row ''shr'' [DomainContentState, DomainExistenceState] True,
     type_row ''gls'' [DomainContentState, DomainExistenceState] True,
     type_row ''trc'' [DomainContentState, DomainExistenceState] True,
     type_row ''fnd'' [DomainContentState, DomainExistenceState] True]"

definition dimensionTokens :: "string list" where
  "dimensionTokens = [''intent'', ''requirements'', ''architecture'', ''decisions'',
     ''specifications'', ''standards'', ''operations'', ''quality'', ''planning'',
     ''records'', ''research'', ''vocabulary'']"

declare stateFields_def [tables] relationshipFields_def [tables] versionedTypes_def [tables]
  projectionTypes_def [tables] workItemTypes_def [tables] type_row_def [tables]
  typeTokens_def [tables] dimensionTokens_def [tables]

definition TypeInfoFor :: "string \<Rightarrow> TypeInfo option" where
  "TypeInfoFor token = map_of typeTokens token"

definition IsKnownType :: "string \<Rightarrow> bool" where
  "IsKnownType token = has_key typeTokens token"

definition TypeTokenCount :: nat where
  "TypeTokenCount = length typeTokens"

definition OwnedDomains :: "string \<Rightarrow> string list" where
  "OwnedDomains token = (case map_of typeTokens token of None \<Rightarrow> [] | Some info \<Rightarrow> Owned info)"

definition IsVersionedType :: "string \<Rightarrow> bool" where
  "IsVersionedType token = List.member versionedTypes token"

definition IsDimensionToken :: "string \<Rightarrow> bool" where
  "IsDimensionToken s = List.member dimensionTokens s"

definition IsWorkItemType :: "string \<Rightarrow> bool" where
  "IsWorkItemType token = List.member workItemTypes token"

definition IsProjectionType :: "string \<Rightarrow> bool" where
  "IsProjectionType token = List.member projectionTypes token"

definition NumberGroup :: "string \<Rightarrow> string" where
  "NumberGroup typeToken =
     (if typeToken = ''tkt'' then ''ticket''
      else if typeToken = ''cmt'' then ''note''
      else if IsWorkItemType typeToken then ''work-item''
      else '''')"

section \<open>Value sets\<close>

definition executionStateValues :: "string list" where
  "executionStateValues = [''planned'', ''todo'', ''in-progress'', ''in-review'', ''done'', ''canceled'']"

definition planningStateValues :: "string list" where
  "planningStateValues = [''draft'', ''approved'', ''immutable'', ''superseded'']"

definition containerStateValues :: "string list" where
  "containerStateValues = [''planned'', ''active'', ''completed'']"

definition existenceStateValues :: "string list" where
  "existenceStateValues = [''active'', ''archived'', ''retired'']"

definition noteStateValues :: "string list" where
  "noteStateValues = [''open'', ''resolved'', ''dismissed'']"

definition phaseValues :: "string list" where
  "phaseValues = [''discovery'', ''mvp'', ''milestone'', ''release'', ''growth'', ''maturity'', ''sunset'']"

definition contentStateVariants :: "string list gomap" where
  "contentStateVariants = [
     (''living'', [''draft'', ''review'', ''approved'', ''amended'']),
     (''adr'', [''proposed'', ''accepted'', ''superseded'']),
     (''decision'', [''draft'', ''accepted'', ''superseded''])]"

declare executionStateValues_def [tables] planningStateValues_def [tables]
  containerStateValues_def [tables] existenceStateValues_def [tables]
  noteStateValues_def [tables] phaseValues_def [tables] contentStateVariants_def [tables]

definition contentStateVariant :: "string \<Rightarrow> string list" where
  "contentStateVariant typeToken =
     (if typeToken = ''adr'' then get_or contentStateVariants ''adr'' []
      else if typeToken = ''dec'' then get_or contentStateVariants ''decision'' []
      else get_or contentStateVariants ''living'' [])"

definition domainValues :: "string \<Rightarrow> string \<Rightarrow> string list" where
  "domainValues domain typeToken =
     (if domain = DomainContentState then contentStateVariant typeToken
      else if domain = DomainExecutionState then executionStateValues
      else if domain = DomainPlanningState then planningStateValues
      else if domain = DomainContainerState then containerStateValues
      else if domain = DomainExistenceState then existenceStateValues
      else if domain = DomainNoteState then noteStateValues
      else if domain = DomainPhase then phaseValues
      else [])"

text \<open>\<open>indexOf\<close> returns -1 for an absent value, as the source does.\<close>

fun indexOf :: "string list \<Rightarrow> string \<Rightarrow> int" where
  "indexOf [] v = -1"
| "indexOf (x # xs) v = (if x = v then 0 else let i = indexOf xs v in if i < 0 then -1 else i + 1)"

definition contains :: "string list \<Rightarrow> string \<Rightarrow> bool" where
  "contains values v = (indexOf values v \<ge> 0)"

definition ValidStateValue :: "string \<Rightarrow> string \<Rightarrow> string \<Rightarrow> bool" where
  "ValidStateValue domain typeToken v = contains (domainValues domain typeToken) v"

definition ValidPhaseValue :: "string \<Rightarrow> bool" where
  "ValidPhaseValue v = contains phaseValues v"

section \<open>Legal transitions\<close>

definition isLegalExecutionTransition :: "string \<Rightarrow> string \<Rightarrow> bool" where
  "isLegalExecutionTransition src dst =
     (if src = ''planned'' then dst = ''todo'' \<or> dst = ''canceled''
      else if src = ''todo'' then dst = ''in-progress'' \<or> dst = ''canceled''
      else if src = ''in-progress'' then dst = ''in-review'' \<or> dst = ''todo'' \<or> dst = ''canceled''
      else if src = ''in-review'' then dst = ''done'' \<or> dst = ''in-progress'' \<or> dst = ''canceled''
      else if src = ''done'' then dst = ''canceled''
      else if src = ''canceled'' then dst = ''todo''
      else False)"

definition isLegalTransition :: "string \<Rightarrow> string \<Rightarrow> string \<Rightarrow> string \<Rightarrow> bool" where
  "isLegalTransition domain typeToken src dst =
     (if src = ''-'' \<or> domain = DomainPhase then True
      else let values = domainValues domain typeToken in
        if indexOf values src < 0 \<or> indexOf values dst < 0 then False
        else if domain = DomainExecutionState then isLegalExecutionTransition src dst
        else if domain = DomainNoteState then src = ''open'' \<and> (dst = ''resolved'' \<or> dst = ''dismissed'')
        else indexOf values dst > indexOf values src)"

section \<open>Lookups\<close>

lemma indexOf_ge [simp]: "-1 \<le> indexOf xs v"
  by (induction xs) (auto simp: Let_def)

lemma indexOf_nonneg_iff [simp]: "0 \<le> indexOf xs v \<longleftrightarrow> v \<in> set xs"
  by (induction xs) (auto simp: Let_def)

lemma indexOf_neg_iff [simp]: "indexOf xs v < 0 \<longleftrightarrow> v \<notin> set xs"
  using indexOf_nonneg_iff [of xs v] by linarith

lemma indexOf_less: "indexOf xs v < int (length xs)"
  by (induction xs) (auto simp: Let_def)

lemma contains_iff [simp]: "contains values v \<longleftrightarrow> v \<in> set values"
  by (simp add: contains_def)

lemma List_member_iff [simp]: "List.member xs v \<longleftrightarrow> v \<in> set xs"
  by simp

text \<open>The rows of the type table, for proofs that enumerate the 29 tokens.\<close>

lemma known_type_cases:
  "IsKnownType t \<longleftrightarrow> t \<in> {''vis'', ''str'', ''req'', ''scp'', ''epc'', ''plan'', ''ctr'', ''tkt'',
     ''sto'', ''ts'', ''bug'', ''td'', ''ch'', ''spk'', ''ses'', ''rvw'', ''cmt'', ''mbr'', ''adr'', ''dec'',
     ''arc'', ''spec'', ''std'', ''run'', ''rel'', ''shr'', ''gls'', ''trc'', ''fnd''}"
  by (auto simp: IsKnownType_def typeTokens_def type_row_def)

lemma TypeInfoFor_known: "IsKnownType t \<longleftrightarrow> (\<exists>info. TypeInfoFor t = Some info)"
  by (simp add: IsKnownType_def TypeInfoFor_def has_key_def)

lemma OwnedDomains_unknown: "\<not> IsKnownType t \<Longrightarrow> OwnedDomains t = []"
  by (simp add: IsKnownType_def OwnedDomains_def has_key_def)

lemma known_type_chars:
  assumes "IsKnownType t"
  shows "t \<noteq> []" "colon \<notin> set t" "slash \<notin> set t" "nul \<notin> set t" "dash \<notin> set t"
  using assms by (auto simp: known_type_cases)

section \<open>Forward-only tables\<close>

text \<open>What the source calls forward-only: a legal move stays inside the value set and
  strictly increases the position, so a history of legal moves never revisits a value
  and is no longer than the set.\<close>

locale forward_table =
  fixes vals :: "string list" and legal :: "string \<Rightarrow> string \<Rightarrow> bool"
  assumes legal_in: "legal a b \<Longrightarrow> a \<in> set vals \<and> b \<in> set vals"
    and legal_up: "legal a b \<Longrightarrow> indexOf vals a < indexOf vals b"
begin

lemma history_indices: "successively legal vs \<Longrightarrow> sorted_wrt (<) (map (indexOf vals) vs)"
proof -
  assume "successively legal vs"
  then have "successively (\<lambda>a b. indexOf vals a < indexOf vals b) vs"
    by (rule successively_mono) (auto dest: legal_up)
  then show ?thesis
    by (subst sorted_wrt_map) (simp add: successively_conv_sorted_wrt transp_def)
qed

lemma history_distinct: "successively legal vs \<Longrightarrow> distinct vs"
  using history_indices [of vs] strict_sorted_iff distinct_map by blast

lemma history_in: "successively legal vs \<Longrightarrow> 2 \<le> length vs \<Longrightarrow> set vs \<subseteq> set vals"
proof (induction vs)
  case (Cons a vs)
  then obtain b ws where w: "vs = b # ws" by (cases vs) auto
  with Cons.prems have ab: "legal a b" and s: "successively legal vs" by auto
  show ?case
  proof (cases ws)
    case Nil then show ?thesis using w legal_in [OF ab] by simp
  next
    case Cons then show ?thesis using w s legal_in [OF ab] Cons.IH by auto
  qed
qed simp

lemma history_bounded:
  assumes "successively legal vs"
  shows "length vs \<le> max 1 (length vals)"
proof (cases "2 \<le> length vs")
  case True
  then have "card (set vs) \<le> card (set vals)" by (intro card_mono) (auto dest: history_in [OF assms])
  moreover have "card (set vs) = length vs" using history_distinct [OF assms] by (rule distinct_card)
  ultimately show ?thesis using card_length [of vals] by linarith
qed simp

lemma no_return: "successively legal (a # vs @ [b]) \<Longrightarrow> a \<noteq> b"
  using history_distinct by fastforce

end

definition isForwardDomain :: "string \<Rightarrow> bool" where
  "isForwardDomain domain = (domain \<noteq> DomainExecutionState \<and> domain \<noteq> DomainPhase)"

definition forwardMove :: "string \<Rightarrow> string \<Rightarrow> string \<Rightarrow> string \<Rightarrow> bool" where
  "forwardMove domain typeToken a b =
     (isForwardDomain domain \<and> a \<noteq> ''-'' \<and> isLegalTransition domain typeToken a b)"

lemma domainValues_note [simp]: "domainValues DomainNoteState t = noteStateValues"
  by (simp add: domainValues_def tables)

interpretation forward: forward_table "domainValues d t" "forwardMove d t" for d t
proof unfold_locales
  fix a b assume "forwardMove d t a b"
  then show "a \<in> set (domainValues d t) \<and> b \<in> set (domainValues d t)"
    and "indexOf (domainValues d t) a < indexOf (domainValues d t) b"
    by (auto simp: forwardMove_def isForwardDomain_def isLegalTransition_def Let_def
          noteStateValues_def split: if_splits)
qed

section \<open>The execution state\<close>

inductive exec_reach :: "string \<Rightarrow> string \<Rightarrow> bool" where
  exec_refl: "exec_reach a a"
| exec_step: "exec_reach a b \<Longrightarrow> isLegalExecutionTransition b c \<Longrightarrow> exec_reach a c"

lemma exec_reach_into:
  "exec_reach a b \<Longrightarrow> a = b \<or> b \<in> set executionStateValues - {''planned''}"
  by (induction rule: exec_reach.induct)
    (auto simp: isLegalExecutionTransition_def executionStateValues_def split: if_splits)

lemma exec_canceled: "a \<in> set executionStateValues \<Longrightarrow> exec_reach a ''canceled''"
proof (cases "a = ''canceled''")
  case False
  assume "a \<in> set executionStateValues"
  with False have "isLegalExecutionTransition a ''canceled''"
    by (auto simp: isLegalExecutionTransition_def executionStateValues_def)
  then show ?thesis using exec_step exec_refl by blast
qed (simp add: exec_refl)

lemma exec_from_canceled:
  assumes "exec_reach a ''canceled''"
  shows "exec_reach a ''todo'' \<and> exec_reach a ''in-progress'' \<and> exec_reach a ''in-review'' \<and> exec_reach a ''done''"
proof -
  have t: "exec_reach a ''todo''"
    using assms by (rule exec_step) (simp add: isLegalExecutionTransition_def)
  then have p: "exec_reach a ''in-progress''"
    by (rule exec_step) (simp add: isLegalExecutionTransition_def)
  then have r: "exec_reach a ''in-review''"
    by (rule exec_step) (simp add: isLegalExecutionTransition_def)
  then have "exec_reach a ''done''"
    by (rule exec_step) (simp add: isLegalExecutionTransition_def)
  with t p r show ?thesis by blast
qed

section \<open>Properties\<close>

text \<open>In every domain the source calls forward-only (all but the execution state
  and the phase attribute), a history of values whose consecutive pairs are legal
  transitions never revisits a value and is no longer than the domain's value set.\<close>

lemma forward_history:
  assumes "isForwardDomain d" and "''-'' \<notin> set vs"
    and "successively (isLegalTransition d t) vs"
  shows "distinct vs \<and> length vs \<le> max 1 (length (domainValues d t))"
proof -
  have "successively (forwardMove d t) vs"
    using assms(3) by (rule successively_mono) (use assms(1,2) in \<open>auto simp: forwardMove_def\<close>)
  then show ?thesis using forward.history_distinct forward.history_bounded by blast
qed

lemma forward_history_witness:
  "distinct [''draft'', ''approved'', ''superseded'']
   \<and> length [''draft'', ''approved'', ''superseded''] \<le> max 1 (length (domainValues DomainPlanningState ''plan''))"
  by (rule forward_history)
    (simp_all add: isForwardDomain_def isLegalTransition_def domainValues_def tables Let_def)

text \<open>The D1 table is exactly the documented rule: one position forward along
  planned, todo, in-progress, in-review, done; one step back from in-review or
  in-progress; to canceled from every other state; from canceled back to todo; every
  other pair, and every value outside the set, is refused.  The marker '-' always starts.\<close>

lemma execution_table_is_documented_rule:
  "isLegalTransition DomainExecutionState t a b \<longleftrightarrow>
     a = ''-'' \<or>
     (let i = indexOf executionStateValues a; j = indexOf executionStateValues b in
        i \<ge> 0 \<and> j \<ge> 0 \<and>
        (j = i + 1 \<and> b \<noteq> ''canceled''
         \<or> j = i - 1 \<and> (i = 2 \<or> i = 3)
         \<or> b = ''canceled'' \<and> a \<noteq> ''canceled''
         \<or> a = ''canceled'' \<and> b = ''todo''))"
proof (cases "a \<in> set executionStateValues \<and> b \<in> set executionStateValues")
  case True
  then have "a \<in> {''planned'', ''todo'', ''in-progress'', ''in-review'', ''done'', ''canceled''}"
    and "b \<in> {''planned'', ''todo'', ''in-progress'', ''in-review'', ''done'', ''canceled''}"
    by (auto simp: executionStateValues_def)
  then show ?thesis
    by (elim insertE emptyE)
      (simp_all add: isLegalTransition_def isLegalExecutionTransition_def domainValues_def tables Let_def)
next
  case False
  then have "indexOf executionStateValues a < 0 \<or> indexOf executionStateValues b < 0"
    by auto
  then show ?thesis
    by (auto simp: isLegalTransition_def domainValues_def domain_names Let_def)
qed

text \<open>Along the D1 table every execution state can be brought to every state except
  back to planned, which is only ever a starting point.\<close>

theorem execution_reachability:
  assumes "a \<in> set executionStateValues"
  shows "exec_reach a b \<longleftrightarrow> a = b \<or> b \<in> set executionStateValues \<and> b \<noteq> ''planned''"
proof
  assume "exec_reach a b"
  then show "a = b \<or> b \<in> set executionStateValues \<and> b \<noteq> ''planned''"
    using exec_reach_into by blast
next
  assume "a = b \<or> b \<in> set executionStateValues \<and> b \<noteq> ''planned''"
  then show "exec_reach a b"
    using exec_canceled [OF assms] exec_from_canceled [OF exec_canceled [OF assms]] exec_refl
    by (auto simp: executionStateValues_def)
qed

theorem execution_reachability_witness:
  "exec_reach ''done'' ''in-review'' \<and> \<not> exec_reach ''done'' ''planned''"
  using execution_reachability [of "''done''" "''in-review''"]
    execution_reachability [of "''done''" "''planned''"]
  by (simp add: executionStateValues_def)

lemma owned_domains_table:
  "DomainExecutionState \<in> set (OwnedDomains t) \<longleftrightarrow> t \<in> set workItemTypes"
  "DomainPlanningState \<in> set (OwnedDomains t) \<longleftrightarrow> t = ''plan''"
  "DomainContainerState \<in> set (OwnedDomains t) \<longleftrightarrow> t = ''ctr''"
  "DomainNoteState \<in> set (OwnedDomains t) \<longleftrightarrow> t = ''cmt''"
  by (simp_all add: OwnedDomains_def typeTokens_def type_row_def domain_names workItemTypes_def)

text \<open>The type table is coherent: 29 distinct tokens, each row filed under its own
  token, owning distinct state domains of the six; the execution state is owned exactly
  by the work items, the planning, container and note states by plan, ctr and cmt, and
  the types that carry an issue number are the work items, tickets and notes.\<close>

theorem type_table_coherent:
  "TypeTokenCount = 29 \<and> distinct (map fst typeTokens)
   \<and> list_all (\<lambda>(k, info). Token info = k \<and> distinct (Owned info)
        \<and> set (Owned info) \<subseteq> set stateFields) typeTokens
   \<and> (DomainExecutionState \<in> set (OwnedDomains t) \<longleftrightarrow> IsWorkItemType t)
   \<and> (DomainPlanningState \<in> set (OwnedDomains t) \<longleftrightarrow> t = ''plan'')
   \<and> (DomainContainerState \<in> set (OwnedDomains t) \<longleftrightarrow> t = ''ctr'')
   \<and> (DomainNoteState \<in> set (OwnedDomains t) \<longleftrightarrow> t = ''cmt'')
   \<and> (NumberGroup t \<noteq> '''' \<longleftrightarrow> IsWorkItemType t \<or> t = ''tkt'' \<or> t = ''cmt'')"
proof -
  have "TypeTokenCount = 29" "distinct (map fst typeTokens)"
    "list_all (\<lambda>(k, info). Token info = k \<and> distinct (Owned info)
        \<and> set (Owned info) \<subseteq> set stateFields) typeTokens"
    by (simp_all add: TypeTokenCount_def tables)
  moreover have "NumberGroup t \<noteq> '''' \<longleftrightarrow> IsWorkItemType t \<or> t = ''tkt'' \<or> t = ''cmt''"
    by (simp add: NumberGroup_def)
  ultimately show ?thesis by (simp add: owned_domains_table IsWorkItemType_def)
qed

lemma type_table_domains: "d \<in> set (OwnedDomains t) \<Longrightarrow> d \<noteq> DomainPhase"
  by (auto simp: OwnedDomains_def typeTokens_def type_row_def domain_names split: if_splits)

end
