(* ===== verification/Naming.thy ===== *)
theory Naming
  imports Taxonomy
begin

text \<open>
  The naming helpers of \<open>conformance/filename.go\<close> and \<open>conformance/keys.go\<close>: the filename
  projection \<open><token>-<id>[-v<nn>]\<close> read by Rule 2, the JSON authoring name gateway, and
  the conversions between the camelCase authoring keys and the kebab-case domain and
  relationship names of the engine.  The key conversions are those of ASCII keys: the
  registry names are ASCII, and no other key converts to one of them.
\<close>

section \<open>Filenames\<close>

record parsedFilename =
  pf_Token :: string
  pf_IDPart :: string
  pf_Version :: int
  pf_HasVersion :: bool

text \<open>The match of the expression \<open>-v([0-9]+)$\<close>: the maximal run of digits at the end,
  preceded by \<open>-v\<close>.  \<open>Atoi\<close>'s range error is ignored by the caller, which keeps the
  value it returned, the largest 64-bit integer.\<close>

definition versionSuffix :: "string \<Rightarrow> (string \<times> string) option" where
  "versionSuffix rest =
     (let ds = takeWhile is_digit (rev rest); pre = dropWhile is_digit (rev rest) in
      if ds = [] then None
      else (case pre of
              v # d # p \<Rightarrow> if v = CHR ''v'' \<and> d = dash then Some (rev p, rev ds) else None
            | _ \<Rightarrow> None))"

definition parseFilename :: "string \<Rightarrow> parsedFilename option" where
  "parseFilename name =
     (if name = '''' then None
      else case cut_first dash name of
        None \<Rightarrow> Some \<lparr>pf_Token = name, pf_IDPart = '''', pf_Version = 0, pf_HasVersion = False\<rparr>
      | Some (token, rest) \<Rightarrow>
          (case versionSuffix rest of
             None \<Rightarrow> Some \<lparr>pf_Token = token, pf_IDPart = rest, pf_Version = 0, pf_HasVersion = False\<rparr>
           | Some (idpart, digits) \<Rightarrow>
               Some \<lparr>pf_Token = token, pf_IDPart = idpart,
                     pf_Version = min (decimal digits) max_int64, pf_HasVersion = True\<rparr>))"

definition filenameTypeToken :: "string \<Rightarrow> string" where
  "filenameTypeToken name = (case parseFilename name of None \<Rightarrow> '''' | Some p \<Rightarrow> pf_Token p)"

definition IsJSONAuthoringName :: "string \<Rightarrow> bool" where
  "IsJSONAuthoringName name =
     (if \<not> has_suffix ''.json'' name then False
      else let base = trim_suffix ''.json'' name in
        case cut_first dash base of
          None \<Rightarrow> False
        | Some (token, rest) \<Rightarrow> token \<noteq> '''' \<and> rest \<noteq> '''' \<and> IsKnownType token)"

definition stripAuthoringExtension :: "string \<Rightarrow> string" where
  "stripAuthoringExtension base =
     (if has_suffix ''.md'' base then trim_suffix ''.md'' base
      else if has_suffix ''.json'' base then trim_suffix ''.json'' base
      else base)"

text \<open>The projection the parser inverts.\<close>

definition renderFilename :: "string \<Rightarrow> string \<Rightarrow> int option \<Rightarrow> string" where
  "renderFilename token idpart version = token @ [dash] @ idpart @
     (case version of None \<Rightarrow> '''' | Some n \<Rightarrow> ''-v'' @ itoa_nat n)"

section \<open>Keys\<close>

definition is_alnum :: "char \<Rightarrow> bool" where
  "is_alnum c = (is_upper c \<or> is_lower c \<or> is_digit c)"

text \<open>\<open>strings.FieldsFunc\<close>: the maximal runs of characters that are not separators.\<close>

fun fieldsFrom :: "(char \<Rightarrow> bool) \<Rightarrow> string \<Rightarrow> string \<Rightarrow> string list" where
  "fieldsFrom sep cur [] = (if cur = [] then [] else [rev cur])"
| "fieldsFrom sep cur (c # cs) =
     (if sep c then (if cur = [] then fieldsFrom sep [] cs else rev cur # fieldsFrom sep [] cs)
      else fieldsFrom sep (c # cur) cs)"

definition capitalize :: "string \<Rightarrow> string" where
  "capitalize w = (case w of [] \<Rightarrow> [] | c # cs \<Rightarrow> to_upper c # map to_lower cs)"

definition SectionKey :: "string \<Rightarrow> string" where
  "SectionKey name = (case fieldsFrom (\<lambda>c. \<not> is_alnum c) [] name of
       [] \<Rightarrow> '''' | w # ws \<Rightarrow> map to_lower w @ concat (map capitalize ws))"

definition jsonStateKeyToDomain :: "string gomap" where
  "jsonStateKeyToDomain = [
     (''contentState'', DomainContentState), (''executionState'', DomainExecutionState),
     (''planningState'', DomainPlanningState), (''containerState'', DomainContainerState),
     (''existenceState'', DomainExistenceState), (''noteState'', DomainNoteState),
     (''phase'', DomainPhase)]"

definition jsonRelKeyToField :: "string gomap" where
  "jsonRelKeyToField = [(''amends'', ''amends''), (''supersedes'', ''supersedes''),
     (''derivesFrom'', ''derives-from''), (''dependsOn'', ''depends-on''), (''validates'', ''validates'')]"

fun camelToKebabFrom :: "bool \<Rightarrow> string \<Rightarrow> string" where
  "camelToKebabFrom first [] = []"
| "camelToKebabFrom first (c # cs) =
     (if \<not> first \<and> is_upper c then dash # to_lower c # camelToKebabFrom False cs
      else to_lower c # camelToKebabFrom False cs)"

definition camelToKebab :: "string \<Rightarrow> string" where
  "camelToKebab s = camelToKebabFrom True s"

definition stateKeyToKebab :: "string \<Rightarrow> string" where
  "stateKeyToKebab key = (case map_of jsonStateKeyToDomain key of
       Some d \<Rightarrow> d | None \<Rightarrow> camelToKebab key)"

definition relationshipKeyToKebab :: "string \<Rightarrow> string" where
  "relationshipKeyToKebab key = (case map_of jsonRelKeyToField key of
       Some f \<Rightarrow> f | None \<Rightarrow> camelToKebab key)"

definition upper_first :: "string \<Rightarrow> string" where
  "upper_first p = (case p of [] \<Rightarrow> [] | c # cs \<Rightarrow> to_upper c # cs)"

definition StateKeyCamel :: "string \<Rightarrow> string" where
  "StateKeyCamel domain = (case split_on dash domain of
       [] \<Rightarrow> '''' | p # ps \<Rightarrow> p @ concat (map upper_first ps))"

definition isStateField :: "string \<Rightarrow> bool" where
  "isStateField f = list_ex (\<lambda>d. d = f) stateFields"

definition isRelationshipField :: "string \<Rightarrow> bool" where
  "isRelationshipField field = list_ex (\<lambda>f. f = field) relationshipFields"

section \<open>Lemmas\<close>

lemma isStateField_iff [simp]: "isStateField f \<longleftrightarrow> f \<in> set stateFields"
  by (auto simp: isStateField_def list_ex_iff)

lemma isRelationshipField_iff [simp]: "isRelationshipField f \<longleftrightarrow> f \<in> set relationshipFields"
  by (auto simp: isRelationshipField_def list_ex_iff)

lemma takeWhile_digits:
  "list_all is_digit ds \<Longrightarrow> \<not> is_digit c \<Longrightarrow> takeWhile is_digit (ds @ c # xs) = ds \<and> dropWhile is_digit (ds @ c # xs) = c # xs"
  by (induction ds) auto

lemma not_digit_v [simp]: "\<not> is_digit CHR ''v''"
  by (simp add: is_digit_def)

lemma versionSuffix_render:
  assumes "list_all is_digit ds" "ds \<noteq> []"
  shows "versionSuffix (idpart @ ''-v'' @ ds) = Some (idpart, ds)"
proof -
  have r: "rev (idpart @ ''-v'' @ ds) = rev ds @ CHR ''v'' # dash # rev idpart" by simp
  have "list_all is_digit (rev ds)" using assms(1) by (simp add: list_all_iff)
  from takeWhile_digits [OF this, of "CHR ''v''" "dash # rev idpart"]
  show ?thesis unfolding versionSuffix_def r Let_def using assms(2) by simp
qed

text \<open>The filename grammar round trips: for a dash-free token, parsing a rendered
  filename gives back token, id part and version; a filename without version suffix
  gives them back when its id part does not itself end in one.\<close>

theorem filename_roundtrip:
  assumes "token \<noteq> ''''" "dash \<notin> set token"
    and "case version of None \<Rightarrow> versionSuffix idpart = None | Some n \<Rightarrow> 0 \<le> n \<and> n \<le> max_int64"
  shows "parseFilename (renderFilename token idpart version) =
     Some \<lparr>pf_Token = token, pf_IDPart = idpart,
           pf_Version = (case version of None \<Rightarrow> 0 | Some n \<Rightarrow> n), pf_HasVersion = (version \<noteq> None)\<rparr>"
proof (cases version)
  case None
  then show ?thesis using assms by (simp add: parseFilename_def renderFilename_def)
next
  case (Some n)
  have "versionSuffix (idpart @ ''-v'' @ itoa_nat n) = Some (idpart, itoa_nat n)"
    using assms(3) Some by (intro versionSuffix_render itoa_nat_digits itoa_nat_nonempty) simp
  then show ?thesis using assms Some by (simp add: parseFilename_def renderFilename_def)
qed

theorem filename_roundtrip_witness:
  "parseFilename (renderFilename ''plan'' ''q3-v2x'' (Some 7)) =
     Some \<lparr>pf_Token = ''plan'', pf_IDPart = ''q3-v2x'', pf_Version = 7, pf_HasVersion = True\<rparr>"
  using filename_roundtrip [where token = "''plan''" and version = "Some 7" and idpart = "''q3-v2x''"] by (simp add: max_int64_def)

text \<open>The authoring spelling of every state domain, of phase and of every relationship
  field converts back to the engine's own name, and the six section keys of a JSON
  authoring file are the camelCase form of the registry names.\<close>

theorem key_spelling_roundtrip:
  "map (\<lambda>d. stateKeyToKebab (StateKeyCamel d)) (DomainPhase # stateFields) = DomainPhase # stateFields
   \<and> map (\<lambda>f. relationshipKeyToKebab (StateKeyCamel f)) relationshipFields = relationshipFields
   \<and> map SectionKey [''Alternatives Considered'', ''Acceptance Criteria'', ''Out of Scope'',
        ''Work Items'', ''Projected Status'', ''Change Log'', ''Investigation Summary'', ''Context'']
     = [''alternativesConsidered'', ''acceptanceCriteria'', ''outOfScope'', ''workItems'',
        ''projectedStatus'', ''changeLog'', ''investigationSummary'', ''context'']"
  by code_simp

end
