(* ===== verification/References.thy ===== *)
theory References
  imports Naming
begin

text \<open>
  The reference grammar of Rule 5 (\<open>conformance/rules.go\<close>, \<open>parseReference\<close>), shared by
  the validator, the exchange layer and the runtime:
  \<open><type>:<id>[:<version>]\<close>, \<open><namespace>/<type>:<id>[:<version>]\<close>, and the bare id of the
  referrer's own type.  Each error return of the source is a constructor of
  \<open>ref_error\<close>.  The grammar theorem states exactly which strings are accepted and what
  they denote, independently of the order of the cuts the parser makes.
\<close>

record reference =
  ref_Namespace :: string
  ref_Type :: string
  ref_ID :: string
  ref_Version :: int
  ref_HasVersion :: bool

datatype ref_error =
    EmptyReference
  | EmptyNamespace string
  | UnknownReferenceType string string
  | MissingTypeToken string
  | InvalidReferenceVersion string
  | InvalidReferenceId string

definition allDigits :: "string \<Rightarrow> bool" where
  "allDigits s = (s \<noteq> '''' \<and> list_all is_digit s)"

definition cutNamespace :: "string \<Rightarrow> string \<Rightarrow> ref_error + (string \<times> string)" where
  "cutNamespace s defNamespace = (case cut_first slash s of
       None \<Rightarrow> Inr (defNamespace, s)
     | Some (ns, rest) \<Rightarrow> if ns = '''' then Inl (EmptyNamespace s) else Inr (ns, rest))"

definition cutType :: "string \<Rightarrow> string \<Rightarrow> string \<Rightarrow> ref_error + (string \<times> string)" where
  "cutType s rest defType = (case cut_first colon rest of
       Some (t, rest') \<Rightarrow>
         if IsKnownType t then Inr (t, rest') else Inl (UnknownReferenceType s t)
     | None \<Rightarrow>
         if defType = '''' then Inl (MissingTypeToken s)
         else if IsKnownType defType then Inr (defType, rest)
         else Inl (UnknownReferenceType s defType))"

definition cutVersion :: "string \<Rightarrow> string \<Rightarrow> ref_error + (string \<times> int \<times> bool)" where
  "cutVersion s rest = (case cut_last colon rest of
       None \<Rightarrow> Inr (rest, 0, False)
     | Some (rest', sfx) \<Rightarrow>
         if allDigits sfx then
           (case atoi_digits sfx of
              None \<Rightarrow> Inl (InvalidReferenceVersion s)
            | Some ver \<Rightarrow> Inr (rest', ver, True))
         else Inr (rest, 0, False))"

definition parseReference :: "string \<Rightarrow> string \<Rightarrow> string \<Rightarrow> ref_error + reference" where
  "parseReference s0 defNamespace defType =
     (let s = trim_space s0 in
      if s = '''' then Inl EmptyReference
      else case cutNamespace s defNamespace of
        Inl e \<Rightarrow> Inl e
      | Inr (ns, rest) \<Rightarrow>
        (case cutType s rest defType of
           Inl e \<Rightarrow> Inl e
         | Inr (t, rest') \<Rightarrow>
           (case cutVersion s rest' of
              Inl e \<Rightarrow> Inl e
            | Inr (idpart, ver, hasv) \<Rightarrow>
                if idpart = '''' \<or> contains_char idpart colon then Inl (InvalidReferenceId s)
                else Inr \<lparr>ref_Namespace = ns, ref_Type = t, ref_ID = idpart,
                          ref_Version = ver, ref_HasVersion = hasv\<rparr>)))"

definition renderReference :: "reference \<Rightarrow> string" where
  "renderReference r = ref_Namespace r @ [slash] @ ref_Type r @ [colon] @ ref_ID r @
     (if ref_HasVersion r then colon # itoa (ref_Version r) else '''')"

section \<open>The grammar\<close>

text \<open>What a trimmed reference may look like: an optional namespace part and a body.\<close>

definition refBody :: "string \<Rightarrow> string \<Rightarrow> reference \<Rightarrow> bool" where
  "refBody body defType r \<longleftrightarrow>
     ref_ID r \<noteq> '''' \<and> colon \<notin> set (ref_ID r) \<and> IsKnownType (ref_Type r) \<and>
     (\<not> ref_HasVersion r \<and> ref_Version r = 0 \<and>
        (body = ref_ID r \<and> ref_Type r = defType \<or> body = ref_Type r @ colon # ref_ID r)
      \<or> ref_HasVersion r \<and>
        (\<exists>ds. allDigits ds \<and> decimal ds \<le> max_int64 \<and> ref_Version r = decimal ds \<and>
           body = ref_Type r @ colon # ref_ID r @ colon # ds))"

definition refShape :: "string \<Rightarrow> string \<Rightarrow> string \<Rightarrow> reference \<Rightarrow> bool" where
  "refShape s defNamespace defType r \<longleftrightarrow>
     (slash \<notin> set s \<and> ref_Namespace r = defNamespace \<and> refBody s defType r)
     \<or> (\<exists>body. s = ref_Namespace r @ slash # body \<and> ref_Namespace r \<noteq> ''''
          \<and> slash \<notin> set (ref_Namespace r) \<and> refBody body defType r)"

lemma allDigits_no_colon: "allDigits s \<Longrightarrow> colon \<notin> set s"
  by (auto simp: allDigits_def dest: no_separator_in_digits)

lemma IsKnownType_nonempty: "\<not> IsKnownType ''''"
  using known_type_chars(1) by blast

lemma cutVersion_ok:
  "cutVersion s rest = Inr (idpart, ver, hasv) \<and> colon \<notin> set idpart \<longleftrightarrow>
     colon \<notin> set idpart \<and>
     (\<not> hasv \<and> ver = 0 \<and> rest = idpart
      \<or> hasv \<and> (\<exists>ds. allDigits ds \<and> decimal ds \<le> max_int64 \<and> ver = decimal ds
                  \<and> rest = idpart @ colon # ds))"
  (is "?L \<longleftrightarrow> ?R")
proof
  assume ?L
  show ?R
  proof (cases "cut_last colon rest")
    case None
    with \<open>?L\<close> show ?thesis by (auto simp: cutVersion_def)
  next
    case (Some p)
    obtain a sfx where p: "p = (a, sfx)" by (cases p)
    with Some have rest: "rest = a @ colon # sfx" using cut_last_Some by metis
    with \<open>?L\<close> Some p show ?thesis
      by (auto simp: cutVersion_def atoi_digits_def split: if_splits)
  qed
next
  assume ?R
  then consider "\<not> hasv" "ver = 0" "rest = idpart" "colon \<notin> set idpart"
    | ds where "hasv" "colon \<notin> set idpart" "allDigits ds" "decimal ds \<le> max_int64"
        "ver = decimal ds" "rest = idpart @ colon # ds" by blast
  then show ?L
  proof cases
    case 1
    then have "cut_last colon rest = None" by simp
    then show ?thesis using 1 by (simp add: cutVersion_def)
  next
    case 2
    then have "cut_last colon rest = Some (idpart, ds)" by (simp add: allDigits_no_colon)
    then show ?thesis using 2 by (simp add: cutVersion_def atoi_digits_def)
  qed
qed

lemma parse_body:
  "(\<exists>t rest'. cutType s body defType = Inr (t, rest') \<and>
      (\<exists>idpart ver hasv. cutVersion s rest' = Inr (idpart, ver, hasv)
         \<and> idpart \<noteq> '''' \<and> colon \<notin> set idpart \<and>
         r = \<lparr>ref_Namespace = ns, ref_Type = t, ref_ID = idpart, ref_Version = ver, ref_HasVersion = hasv\<rparr>))
   \<longleftrightarrow> ref_Namespace r = ns \<and> refBody body defType r"
  (is "?L \<longleftrightarrow> ?R")
proof
  assume ?L
  then obtain t rest' idpart ver hasv where
    t: "cutType s body defType = Inr (t, rest')" and
    v: "cutVersion s rest' = Inr (idpart, ver, hasv)" "idpart \<noteq> ''''" "colon \<notin> set idpart" and
    r: "r = \<lparr>ref_Namespace = ns, ref_Type = t, ref_ID = idpart, ref_Version = ver, ref_HasVersion = hasv\<rparr>"
    by blast
  have ver: "\<not> hasv \<and> ver = 0 \<and> rest' = idpart
      \<or> hasv \<and> (\<exists>ds. allDigits ds \<and> decimal ds \<le> max_int64 \<and> ver = decimal ds
                  \<and> rest' = idpart @ colon # ds)"
    using cutVersion_ok v by blast
  show ?R
  proof (cases "cut_first colon body")
    case None
    with t have "rest' = body" "t = defType" "IsKnownType t"
      by (auto simp: cutType_def split: if_splits)
    moreover from None have "colon \<notin> set body" by simp
    ultimately show ?thesis using ver v r by (auto simp: refBody_def)
  next
    case (Some p)
    with t have "p = (t, rest')" "IsKnownType t" by (auto simp: cutType_def split: if_splits prod.splits)
    moreover from this Some have "body = t @ colon # rest'" using cut_first_Some by metis
    ultimately show ?thesis using ver v r by (auto simp: refBody_def)
  qed
next
  assume R: ?R
  then have k: "IsKnownType (ref_Type r)" "ref_ID r \<noteq> ''''" "colon \<notin> set (ref_ID r)"
    by (auto simp: refBody_def)
  have nc: "colon \<notin> set (ref_Type r)" "ref_Type r \<noteq> ''''" using known_type_chars k(1) by blast+
  from R have "\<exists>rest'. cutType s body defType = Inr (ref_Type r, rest') \<and>
      (\<not> ref_HasVersion r \<and> ref_Version r = 0 \<and> rest' = ref_ID r
      \<or> ref_HasVersion r \<and> (\<exists>ds. allDigits ds \<and> decimal ds \<le> max_int64
           \<and> ref_Version r = decimal ds \<and> rest' = ref_ID r @ colon # ds))"
    using k nc unfolding refBody_def cutType_def by auto
  then obtain rest' where "cutType s body defType = Inr (ref_Type r, rest')"
    "cutVersion s rest' = Inr (ref_ID r, ref_Version r, ref_HasVersion r)"
    using cutVersion_ok k(3) by blast
  then show ?L using R k by (intro exI conjI) auto
qed

lemma parseReference_Inr:
  "parseReference s0 ns0 defType = Inr r \<longleftrightarrow>
     trim_space s0 \<noteq> '''' \<and>
     (\<exists>ns rest. cutNamespace (trim_space s0) ns0 = Inr (ns, rest) \<and>
       (\<exists>t rest'. cutType (trim_space s0) rest defType = Inr (t, rest') \<and>
        (\<exists>idpart ver hasv. cutVersion (trim_space s0) rest' = Inr (idpart, ver, hasv)
         \<and> idpart \<noteq> '''' \<and> colon \<notin> set idpart \<and>
         r = \<lparr>ref_Namespace = ns, ref_Type = t, ref_ID = idpart, ref_Version = ver, ref_HasVersion = hasv\<rparr>)))"
  by (auto simp: parseReference_def Let_def split: sum.splits prod.splits if_splits)

lemma parseReference_iff:
  "parseReference s defNamespace defType = Inr r \<longleftrightarrow> refShape (trim_space s) defNamespace defType r"
proof -
  let ?s = "trim_space s"
  have "parseReference s defNamespace defType = Inr r \<longleftrightarrow>
     ?s \<noteq> '''' \<and> (\<exists>ns rest. cutNamespace ?s defNamespace = Inr (ns, rest)
        \<and> ref_Namespace r = ns \<and> refBody rest defType r)"
    unfolding parseReference_Inr parse_body ..
  also have "\<dots> \<longleftrightarrow> refShape ?s defNamespace defType r"
  proof (cases "cut_first slash ?s")
    case None
    then have ns: "slash \<notin> set ?s" by simp
    have "\<not> refBody '''' defType r" by (auto simp: refBody_def)
    then show ?thesis using None ns by (auto simp: cutNamespace_def refShape_def)
  next
    case (Some p)
    obtain ns rest where p: "p = (ns, rest)" by (cases p)
    with Some have s: "?s = ns @ slash # rest" "slash \<notin> set ns" using cut_first_Some by metis+
    have "\<And>ns' rest'. ?s = ns' @ slash # rest' \<and> slash \<notin> set ns' \<Longrightarrow> ns' = ns \<and> rest' = rest"
      using Some p by (metis cut_first_append option.inject prod.inject)
    then show ?thesis using Some p s by (auto simp: cutNamespace_def refShape_def)
  qed
  finally show ?thesis .
qed

lemma parsed_type_known: "parseReference s ns t = Inr r \<Longrightarrow> IsKnownType (ref_Type r)"
  by (auto simp: parseReference_iff refShape_def refBody_def)

lemma parsed_id_ok:
  "parseReference s ns t = Inr r \<Longrightarrow> ref_ID r \<noteq> [] \<and> colon \<notin> set (ref_ID r)"
  by (auto simp: parseReference_iff refShape_def refBody_def)

text \<open>C3: \<open>parseReference\<close> accepts exactly the documented grammar: it returns \<open>r\<close> iff the
  trimmed string is an optional \<open><namespace>/\<close> (cut at the first slash, defaulting to the
  referrer's namespace) followed by a bare id of the referrer's type, a
  \<open><type>:<id>\<close> or a \<open><type>:<id>:<digits>\<close>, with a known type, a non-empty id without
  colon and a version in the 64-bit range.\<close>

theorem reference_grammar:
  "parseReference s defNamespace defType = Inr r \<longleftrightarrow> refShape (trim_space s) defNamespace defType r"
  by (rule parseReference_iff)

definition refWellformed :: "reference \<Rightarrow> bool" where
  "refWellformed r =
     (ref_Namespace r \<noteq> [] \<and> slash \<notin> set (ref_Namespace r) \<and> IsKnownType (ref_Type r)
      \<and> ref_ID r \<noteq> [] \<and> colon \<notin> set (ref_ID r)
      \<and> (if ref_HasVersion r then 0 \<le> ref_Version r \<and> ref_Version r \<le> max_int64
         else ref_Version r = 0))"

lemma parse_render:
  assumes "refWellformed r" and "trim_space (renderReference r) = renderReference r"
  shows "parseReference (renderReference r) defNamespace defType = Inr r"
proof -
  have "refBody (ref_Type r @ colon # ref_ID r @
      (if ref_HasVersion r then colon # itoa (ref_Version r) else [])) defType r"
  proof (cases "ref_HasVersion r")
    case True
    with assms(1) have "allDigits (itoa_nat (ref_Version r))" "ref_Version r \<ge> 0"
      "decimal (itoa_nat (ref_Version r)) \<le> max_int64"
      by (auto simp: allDigits_def itoa_nat_digits refWellformed_def)
    then show ?thesis using assms(1) True
      by (auto simp: refBody_def refWellformed_def itoa_def intro!: exI [of _ "itoa_nat (ref_Version r)"])
  next
    case False
    then show ?thesis using assms(1) by (auto simp: refBody_def refWellformed_def)
  qed
  then show ?thesis using assms
    by (auto simp: parseReference_iff refShape_def refWellformed_def renderReference_def)
qed



end
