(* ===== verification/Eng_Domain.thy ===== *)
theory Eng_Domain
  imports Taxonomy
begin

text \<open>
  The Engineering Domain ontology of \<open>conformance/domain.go\<close>: the five domains with their
  authority strata, the home domain of every type token and knowledge dimension, the
  domains above a given one, and the case-insensitive parser of a domain name.
  \<open>domain\<close> is the closed set of the five constants of the source; the sixth value the
  source can hold, the empty string of a failed lookup, is None.
\<close>

datatype domain = Discovery | Architecture | Planning | Execution | Operations

definition domains :: "domain list" where
  "domains = [Discovery, Architecture, Planning, Execution, Operations]"

fun domain_string :: "domain \<Rightarrow> string" where
  "domain_string Discovery = ''Discovery''"
| "domain_string Architecture = ''Architecture''"
| "domain_string Planning = ''Planning''"
| "domain_string Execution = ''Execution''"
| "domain_string Operations = ''Operations''"

definition tokenDomain :: "domain gomap" where
  "tokenDomain = [
     (''vis'', Discovery), (''str'', Discovery), (''req'', Discovery), (''fnd'', Discovery),
     (''arc'', Architecture), (''adr'', Architecture), (''dec'', Architecture),
     (''spec'', Architecture), (''std'', Architecture), (''gls'', Architecture),
     (''scp'', Planning), (''epc'', Planning), (''plan'', Planning), (''trc'', Planning),
     (''rvw'', Execution), (''ctr'', Execution), (''tkt'', Execution),
     (''sto'', Execution), (''ts'', Execution), (''bug'', Execution), (''td'', Execution),
     (''ch'', Execution), (''spk'', Execution), (''ses'', Execution), (''cmt'', Execution),
     (''mbr'', Execution),
     (''run'', Operations), (''rel'', Operations), (''shr'', Operations)]"

definition dimensionDomain :: "domain gomap" where
  "dimensionDomain = [
     (''intent'', Discovery), (''requirements'', Discovery), (''research'', Discovery),
     (''architecture'', Architecture), (''decisions'', Architecture),
     (''specifications'', Architecture), (''standards'', Architecture),
     (''vocabulary'', Architecture),
     (''planning'', Planning),
     (''quality'', Execution),
     (''operations'', Operations), (''records'', Operations)]"

definition DomainForToken :: "string \<Rightarrow> domain option" where
  "DomainForToken token = map_of tokenDomain token"

definition DomainForDimension :: "string \<Rightarrow> domain option" where
  "DomainForDimension dim = map_of dimensionDomain dim"

fun Stratum :: "domain \<Rightarrow> nat" where
  "Stratum Discovery = 1"
| "Stratum Architecture = 2"
| "Stratum Planning = 3"
| "Stratum Execution = 4"
| "Stratum Operations = 5"

text \<open>Authority order: a domain is below another when its stratum is smaller.  Sorting
  by \<open>(Stratum, name)\<close> in the source is sorting by this order, because no two domains
  share a stratum.\<close>

instantiation domain :: linorder
begin
definition less_eq_domain :: "domain \<Rightarrow> domain \<Rightarrow> bool" where
  "less_eq_domain a b = (Stratum a \<le> Stratum b)"
definition less_domain :: "domain \<Rightarrow> domain \<Rightarrow> bool" where
  "less_domain a b = (Stratum a < Stratum b)"
instance
proof
  fix x y z :: domain
  show "x < y \<longleftrightarrow> x \<le> y \<and> \<not> y \<le> x" by (auto simp: less_eq_domain_def less_domain_def)
  show "x \<le> x" by (simp add: less_eq_domain_def)
  show "x \<le> y \<Longrightarrow> y \<le> z \<Longrightarrow> x \<le> z" by (simp add: less_eq_domain_def)
  show "x \<le> y \<Longrightarrow> y \<le> x \<Longrightarrow> x = y" by (cases x; cases y) (simp_all add: less_eq_domain_def)
  show "x \<le> y \<or> y \<le> x" by (auto simp: less_eq_domain_def)
qed
end

definition StrataAbove :: "domain \<Rightarrow> domain list" where
  "StrataAbove d = sort_key (\<lambda>c. (Stratum c, domain_string c))
     (filter (\<lambda>cand. Stratum cand < Stratum d) domains)"

definition DomainNames :: "string list" where
  "DomainNames = sort (map domain_string domains)"

definition IsDomain :: "string \<Rightarrow> bool" where
  "IsDomain s = list_ex (\<lambda>d. domain_string d = s) domains"

text \<open>\<open>strings.EqualFold\<close> against an ASCII domain name.  The one non-ASCII rune that folds
  to an ASCII letter of these names is U+017F (long s), which folds to s; the Kelvin
  sign folds to k, which no name contains.\<close>

fun equal_fold :: "string \<Rightarrow> string \<Rightarrow> bool" where
  "equal_fold [] [] = True"
| "equal_fold (a # as) (b # bs) =
     (if to_lower a = to_lower b then equal_fold as bs
      else to_lower a = CHR ''s'' \<and> b = CHR 0xC5 \<and>
        (case bs of c # bs' \<Rightarrow> c = CHR 0xBF \<and> equal_fold as bs' | [] \<Rightarrow> False))"
| "equal_fold as bs = False"

definition ParseDomain :: "string \<Rightarrow> domain option" where
  "ParseDomain s = find (\<lambda>d. equal_fold (domain_string d) s) domains"

lemma domain_cases_list: "d \<in> set domains"
  by (cases d) (simp_all add: domains_def)

lemma Stratum_inj: "Stratum a = Stratum b \<longleftrightarrow> a = b"
  by (cases a; cases b) simp_all

lemma domain_string_inj [simp]: "domain_string a = domain_string b \<longleftrightarrow> a = b"
  by (cases a; cases b) simp_all

lemma IsDomain_iff: "IsDomain s \<longleftrightarrow> (\<exists>d. domain_string d = s)"
  using domain_cases_list by (auto simp: IsDomain_def list_ex_iff)

lemma known_type_has_domain: "IsKnownType t \<longleftrightarrow> DomainForToken t \<noteq> None"
  by (auto simp: known_type_cases DomainForToken_def tokenDomain_def)

lemma Stratum_range: "1 \<le> Stratum d \<and> Stratum d \<le> 5"
  by (cases d) simp_all

lemma Discovery_top: "Stratum d = 1 \<longleftrightarrow> d = Discovery"
  by (cases d) simp_all

lemma StrataAbove_code:
  "StrataAbove d = (case d of Discovery \<Rightarrow> [] | Architecture \<Rightarrow> [Discovery]
     | Planning \<Rightarrow> [Discovery, Architecture] | Execution \<Rightarrow> [Discovery, Architecture, Planning]
     | Operations \<Rightarrow> [Discovery, Architecture, Planning, Execution])"
  by (cases d) (simp_all add: StrataAbove_def domains_def)

text \<open>The ontology covers the taxonomy: exactly the 29 known tokens have a home
  domain and exactly the 12 dimension tokens do, the domains above one are exactly those
  of strictly higher authority and come out in authority order, and the canonical names
  parse back to their domain in both spellings.\<close>

theorem ontology_covers_taxonomy:
  "(DomainForToken t \<noteq> None \<longleftrightarrow> IsKnownType t)
   \<and> (DomainForDimension dim \<noteq> None \<longleftrightarrow> IsDimensionToken dim)
   \<and> set (StrataAbove d) = {c. Stratum c < Stratum d} \<and> sorted (StrataAbove d)
   \<and> ParseDomain (domain_string d) = Some d
   \<and> ParseDomain (map to_lower (domain_string d)) = Some d"
proof -
  have "DomainForDimension dim \<noteq> None \<longleftrightarrow> IsDimensionToken dim"
    by (auto simp: DomainForDimension_def dimensionDomain_def IsDimensionToken_def dimensionTokens_def)
  moreover have "set (StrataAbove d) = {c. Stratum c < Stratum d}"
    using domain_cases_list by (auto simp: StrataAbove_def)
  moreover have "sorted (StrataAbove d)"
    by (cases d) (simp_all add: StrataAbove_code less_eq_domain_def)
  moreover have "ParseDomain (domain_string d) = Some d"
    by (cases d) (simp_all add: ParseDomain_def domains_def to_lower_def is_upper_def)
  moreover have "ParseDomain (map to_lower (domain_string d)) = Some d"
    by (cases d) (simp_all add: ParseDomain_def domains_def to_lower_def is_upper_def char_of_def)
  ultimately show ?thesis using known_type_has_domain by simp
qed

end
