(* ===== verification/Report.thy ===== *)
theory Report
  imports Prelude
begin

text \<open>
  The result model of \<open>conformance/report.go\<close>: rule identifiers and their ranks,
  severities, one finding, the counts and the verdict of a report, and the
  deterministic order of \<open>SortedResults\<close>.  The text of a message is left symbolic: a
  finding carries a value of the type \<open>'m\<close> naming the format string and its arguments,
  and \<open>render\<close> stands for \<open>fmt.Sprintf\<close>.  The rule identifiers are the closed set of
  the source's constants, so the rank 99 of an unknown identifier has no constructor.
\<close>

datatype severity = SeverityError | SeverityWarning

datatype rule_id = RuleStructural | Rule1 | Rule2 | Rule3 | Rule4 | Rule5 | Rule6 | Rule7
  | Rule8 | Rule9 | Rule10 | Rule11 | Rule12 | Rule13

fun ruleRank :: "rule_id \<Rightarrow> nat" where
  "ruleRank RuleStructural = 0" | "ruleRank Rule1 = 1" | "ruleRank Rule2 = 2"
| "ruleRank Rule3 = 3" | "ruleRank Rule4 = 4" | "ruleRank Rule5 = 5" | "ruleRank Rule6 = 6"
| "ruleRank Rule7 = 7" | "ruleRank Rule8 = 8" | "ruleRank Rule9 = 9" | "ruleRank Rule10 = 10"
| "ruleRank Rule11 = 11" | "ruleRank Rule12 = 12" | "ruleRank Rule13 = 13"

fun severityRank :: "severity \<Rightarrow> nat" where
  "severityRank SeverityError = 0"
| "severityRank SeverityWarning = 1"

instantiation severity :: linorder
begin
definition less_eq_severity :: "severity \<Rightarrow> severity \<Rightarrow> bool" where
  "less_eq_severity a b = (severityRank a \<le> severityRank b)"
definition less_severity :: "severity \<Rightarrow> severity \<Rightarrow> bool" where
  "less_severity a b = (severityRank a < severityRank b)"
instance
proof
  fix x y z :: severity
  show "x < y \<longleftrightarrow> x \<le> y \<and> \<not> y \<le> x" by (auto simp: less_eq_severity_def less_severity_def)
  show "x \<le> x" by (simp add: less_eq_severity_def)
  show "x \<le> y \<Longrightarrow> y \<le> z \<Longrightarrow> x \<le> z" by (simp add: less_eq_severity_def)
  show "x \<le> y \<Longrightarrow> y \<le> x \<Longrightarrow> x = y" by (cases x; cases y) (simp_all add: less_eq_severity_def)
  show "x \<le> y \<or> y \<le> x" by (auto simp: less_eq_severity_def)
qed
end

record 'm result =
  res_File :: string
  res_Rule :: rule_id
  res_Severity :: severity
  res_Message :: 'm

definition retag :: "('a \<Rightarrow> 'b) \<Rightarrow> 'a result \<Rightarrow> 'b result" where
  "retag f r = \<lparr>res_File = res_File r, res_Rule = res_Rule r, res_Severity = res_Severity r,
     res_Message = f (res_Message r)\<rparr>"

record 'm report =
  rep_FilesScanned :: nat
  rep_Artifacts :: nat
  rep_Skipped :: bool
  rep_Results :: "'m result list"

definition ErrorCount :: "'m report \<Rightarrow> nat" where
  "ErrorCount r = foldl (\<lambda>n res. if res_Severity res = SeverityError then n + 1 else n) 0 (rep_Results r)"

definition WarningCount :: "'m report \<Rightarrow> nat" where
  "WarningCount r = foldl (\<lambda>n res. if res_Severity res = SeverityWarning then n + 1 else n) 0 (rep_Results r)"

definition Pass :: "'m report \<Rightarrow> bool" where
  "Pass r = (ErrorCount r = 0)"

definition sortKey :: "('m \<Rightarrow> string) \<Rightarrow> 'm result \<Rightarrow> string \<times> nat \<times> nat \<times> string" where
  "sortKey render r =
     (res_File r, ruleRank (res_Rule r), severityRank (res_Severity r), render (res_Message r))"

definition SortedResults :: "('m \<Rightarrow> string) \<Rightarrow> 'm report \<Rightarrow> 'm result list" where
  "SortedResults render r = sort_key (sortKey render) (rep_Results r)"

text \<open>One printed line: severity, rule, file and text (\<open>Result.String\<close> prints these).\<close>

definition resultLine :: "('m \<Rightarrow> string) \<Rightarrow> 'm result \<Rightarrow> string \<times> rule_id \<times> severity \<times> string" where
  "resultLine render r = (res_File r, res_Rule r, res_Severity r, render (res_Message r))"

lemma ruleRank_inj [simp]: "ruleRank a = ruleRank b \<longleftrightarrow> a = b"
  by (cases a; cases b) simp_all

lemma severityRank_inj [simp]: "severityRank a = severityRank b \<longleftrightarrow> a = b"
  by (cases a; cases b) simp_all

lemma count_fold: "foldl (\<lambda>n x. if P x then n + 1 else n) k xs = k + length (filter P xs)"
  by (induction xs arbitrary: k) auto

lemma ErrorCount_filter: "ErrorCount r = length (filter (\<lambda>x. res_Severity x = SeverityError) (rep_Results r))"
  using count_fold [of "\<lambda>x. res_Severity x = SeverityError" 0] by (simp add: ErrorCount_def)

lemma WarningCount_filter: "WarningCount r = length (filter (\<lambda>x. res_Severity x = SeverityWarning) (rep_Results r))"
  using count_fold [of "\<lambda>x. res_Severity x = SeverityWarning" 0] by (simp add: WarningCount_def)

lemma Pass_iff: "Pass r \<longleftrightarrow> list_all (\<lambda>x. res_Severity x \<noteq> SeverityError) (rep_Results r)"
  by (auto simp: Pass_def ErrorCount_filter list_all_iff filter_empty_conv)

lemma map_resultLine_sort_key:
  "map (resultLine render) (sort_key (sortKey render) xs) =
   sort_key (\<lambda>(f, u, s, m). (f, ruleRank u, severityRank s, m)) (map (resultLine render) xs)"
  using map_sort_key [of "resultLine render" "\<lambda>(f, u, s, m). (f, ruleRank u, severityRank s, m)" xs]
  by (simp add: resultLine_def sortKey_def [abs_def])

text \<open>The printed report does not depend on the order in which findings were
  collected (Go iterates maps in random order): two reports with the same findings,
  in any order, print the same lines in the same order; the lines are sorted by file,
  rule, severity and text, none lost or duplicated; and the verdict and counts agree.\<close>

lemma sorted_results_deterministic:
  assumes "mset (rep_Results r) = mset (rep_Results r')"
  shows "map (resultLine render) (SortedResults render r) = map (resultLine render) (SortedResults render r')
     \<and> sorted (map (sortKey render) (SortedResults render r))
     \<and> mset (SortedResults render r) = mset (rep_Results r)
     \<and> ErrorCount r = ErrorCount r' \<and> WarningCount r = WarningCount r' \<and> (Pass r \<longleftrightarrow> Pass r')"
proof -
  let ?k = "\<lambda>(f, u, s, m). (f, ruleRank u, severityRank s, m)"
  let ?L = "\<lambda>r. map (resultLine render) (rep_Results r)"
  have "sort_key ?k (?L r) = sort_key ?k (?L r')"
  proof (rule sort_key_eq_by_mset)
    show "mset (?L r) = mset (?L r')" using assms by simp
    show "inj_on ?k (set (?L r))" by (auto simp: inj_on_def split: prod.splits)
  qed
  then have "map (resultLine render) (SortedResults render r) = map (resultLine render) (SortedResults render r')"
    by (simp add: SortedResults_def map_resultLine_sort_key)
  moreover have c: "\<And>P. length (filter P (rep_Results r)) = length (filter P (rep_Results r'))"
    using assms by (metis mset_filter size_mset)
  ultimately show ?thesis
    by (simp add: SortedResults_def Pass_def ErrorCount_filter WarningCount_filter c del: length_0_conv)
qed

definition sample_findings :: "string result list" where
  "sample_findings =
     [\<lparr>res_File = ''b.md'', res_Rule = Rule3, res_Severity = SeverityError, res_Message = ''x''\<rparr>,
      \<lparr>res_File = ''a.md'', res_Rule = Rule10, res_Severity = SeverityWarning, res_Message = ''y''\<rparr>,
      \<lparr>res_File = ''b.md'', res_Rule = Rule3, res_Severity = SeverityError, res_Message = ''v''\<rparr>]"

definition sample_report :: "string result list \<Rightarrow> string report" where
  "sample_report rs = \<lparr>rep_FilesScanned = 2, rep_Artifacts = 2, rep_Skipped = False, rep_Results = rs\<rparr>"

lemma sorted_results_deterministic_witness:
  "map (resultLine id) (SortedResults id (sample_report sample_findings))
     = map (resultLine id) (SortedResults id (sample_report (rev sample_findings)))
   \<and> map (res_Message) (SortedResults id (sample_report sample_findings)) = [''y'', ''v'', ''x'']"
proof -
  have "mset (rep_Results (sample_report sample_findings)) = mset (rep_Results (sample_report (rev sample_findings)))"
    by (simp add: sample_report_def)
  from sorted_results_deterministic [OF this, of id] show ?thesis
    by (simp add: sample_report_def sample_findings_def SortedResults_def sortKey_def)
qed

end
