(* ===== verification/Artifacts.thy ===== *)
theory Artifacts
  imports Complex_Main References Eng_Domain Report
begin

text \<open>
  The artifact model of \<open>conformance/artifact.go\<close> and the identity index of
  \<open>conformance/validate.go\<close> and \<open>conformance/graph.go\<close>.  A value of Go's type \<open>any\<close> as
  the two decoders produce it is a \<open>gvalue\<close>.  An artifact pointer is its position in the
  analyzed list, so pointer equality is equality of positions.  A bucket of the index
  lists the instances of one identity line by ascending instance version.  The locale
  \<open>line_index\<close> is what the rules rely on; it is interpreted on the index both the engine
  and the graph pass build.
\<close>

section \<open>Data\<close>

datatype gvalue =
    GNil
  | GBool bool
  | GInt int
  | GFloat rat
  | GTime string
  | GString string
  | GList "gvalue list"
  | GMap "(string \<times> gvalue) list"

record ChangeLogEntry =
  Date :: string
  LogDomain :: string
  From :: string
  To :: string
  By :: string
  ByKind :: string

record CaptureMeta =
  Classifier :: string
  DedupeKey :: string

record Artifact =
  RelPath :: string
  AbsPath :: string
  Namespace :: string
  Type :: string
  ID :: string
  InstanceVersion :: int
  Revision :: int
  Author :: string
  AuthorKind :: string
  Created :: string
  Updated :: string
  States :: "string gomap"
  Phase :: string
  HasPhase :: bool
  HasPhaseKey :: bool
  Dimension :: string
  HasDimension :: bool
  DimensionsSecondary :: "string list"
  DeclaredDomain :: string
  Relations :: "string list gomap"
  ChangeLog :: "ChangeLogEntry list"
  BodyLines :: "string list"
  ContentFields :: "gvalue gomap option"
  Provenance :: string
  SourcePromptHash :: string
  Confidence :: rat
  HasConfidence :: bool
  SourceCommitSha :: string
  Capture :: CaptureMeta

definition emptyArtifact :: Artifact where
  "emptyArtifact = \<lparr>RelPath = '''', AbsPath = '''', Namespace = '''', Type = '''', ID = '''',
     InstanceVersion = 0, Revision = 0, Author = '''', AuthorKind = '''', Created = '''',
     Updated = '''', States = [], Phase = '''', HasPhase = False, HasPhaseKey = False,
     Dimension = '''', HasDimension = False, DimensionsSecondary = [], DeclaredDomain = '''',
     Relations = [], ChangeLog = [], BodyLines = [], ContentFields = None, Provenance = '''',
     SourcePromptHash = '''', Confidence = 0, HasConfidence = False, SourceCommitSha = '''',
     Capture = \<lparr>Classifier = '''', DedupeKey = ''''\<rparr>\<rparr>"

abbreviation state_of :: "Artifact \<Rightarrow> string \<Rightarrow> string" where
  "state_of a domain \<equiv> get_or (States a) domain ''''"

abbreviation relation_of :: "Artifact \<Rightarrow> string \<Rightarrow> string list" where
  "relation_of a field \<equiv> get_or (Relations a) field []"

section \<open>The identity index\<close>

definition identityKey :: "string \<Rightarrow> string \<Rightarrow> string \<Rightarrow> string" where
  "identityKey ns typeToken idpart = ns @ [nul] @ typeToken @ [nul] @ idpart"

definition lineKey :: "Artifact \<Rightarrow> string" where
  "lineKey a = identityKey (Namespace a) (Type a) (ID a)"

definition buildIndex :: "Artifact list \<Rightarrow> string \<Rightarrow> nat list" where
  "buildIndex arts key =
     sort_key (\<lambda>i. InstanceVersion (arts ! i)) (filter (\<lambda>i. lineKey (arts ! i) = key) [0..<length arts])"

definition refKey :: "reference \<Rightarrow> string" where
  "refKey ref = identityKey (ref_Namespace ref) (ref_Type ref) (ref_ID ref)"

definition resolveIn :: "Artifact list \<Rightarrow> (string \<Rightarrow> nat list) \<Rightarrow> reference \<Rightarrow> nat option" where
  "resolveIn arts byLine ref =
     (let bucket = byLine (refKey ref) in
      if bucket = [] then None
      else if ref_HasVersion ref
        then find (\<lambda>i. InstanceVersion (arts ! i) = ref_Version ref) bucket
      else Some (hd bucket))"

text \<open>What a resolved pointer promises.  An index lists, for each identity line, every
  position of the analyzed list on that line and no other, lowest version first.\<close>

locale line_index =
  fixes arts :: "Artifact list" and byLine :: "string \<Rightarrow> nat list"
  assumes bucket_mem: "i \<in> set (byLine k) \<longleftrightarrow> i < length arts \<and> lineKey (arts ! i) = k"
    and bucket_sorted: "sorted (map (\<lambda>i. InstanceVersion (arts ! i)) (byLine k))"
begin

lemma resolve_sound:
  assumes "resolveIn arts byLine ref = Some i"
  shows "i < length arts \<and> lineKey (arts ! i) = refKey ref
     \<and> (ref_HasVersion ref \<longrightarrow> InstanceVersion (arts ! i) = ref_Version ref)"
proof (cases "ref_HasVersion ref")
  case True
  with assms have "find (\<lambda>i. InstanceVersion (arts ! i) = ref_Version ref) (byLine (refKey ref)) = Some i"
    by (auto simp: resolveIn_def Let_def split: if_splits)
  then have "i \<in> set (byLine (refKey ref))" "InstanceVersion (arts ! i) = ref_Version ref"
    by (auto simp: find_Some_iff)
  then show ?thesis using bucket_mem by blast
next
  case False
  with assms have "byLine (refKey ref) \<noteq> []" "i = hd (byLine (refKey ref))"
    by (auto simp: resolveIn_def Let_def split: if_splits)
  then have "i \<in> set (byLine (refKey ref))" by simp
  then show ?thesis using bucket_mem False by blast
qed

lemma resolve_None_iff:
  "resolveIn arts byLine ref = None \<longleftrightarrow>
     \<not> (\<exists>i < length arts. lineKey (arts ! i) = refKey ref
         \<and> (ref_HasVersion ref \<longrightarrow> InstanceVersion (arts ! i) = ref_Version ref))"
proof (cases "ref_HasVersion ref")
  case True
  then have "resolveIn arts byLine ref = None \<longleftrightarrow>
      (\<forall>i \<in> set (byLine (refKey ref)). InstanceVersion (arts ! i) \<noteq> ref_Version ref)"
    by (auto simp: resolveIn_def Let_def find_None_iff)
  then show ?thesis using True bucket_mem by auto
next
  case False
  then have "resolveIn arts byLine ref = None \<longleftrightarrow> byLine (refKey ref) = []"
    by (auto simp: resolveIn_def Let_def)
  also have "\<dots> \<longleftrightarrow> \<not> (\<exists>i. i \<in> set (byLine (refKey ref)))" by (cases "byLine (refKey ref)") auto
  finally show ?thesis using False bucket_mem by auto
qed

lemma resolve_lowest:
  assumes "resolveIn arts byLine ref = Some i" "\<not> ref_HasVersion ref"
    and "j < length arts" "lineKey (arts ! j) = refKey ref"
  shows "InstanceVersion (arts ! i) \<le> InstanceVersion (arts ! j)"
proof -
  from assms(1,2) have i: "byLine (refKey ref) \<noteq> []" "i = hd (byLine (refKey ref))"
    by (auto simp: resolveIn_def Let_def split: if_splits)
  have "j \<in> set (byLine (refKey ref))" using assms(3,4) bucket_mem by blast
  then show ?thesis using bucket_sorted [of "refKey ref"] i by (cases "byLine (refKey ref)") auto
qed

end

interpretation index: line_index arts "buildIndex arts" for arts
  by unfold_locales (auto simp: buildIndex_def)

section \<open>The engine\<close>

record engine =
  artifacts :: "Artifact list"
  byLine :: "string \<Rightarrow> nat list"
  skipLocation :: bool
  ckoResolve :: "(reference \<Rightarrow> bool) option"
  draftRef :: "(reference \<Rightarrow> bool) option"

definition resolve :: "engine \<Rightarrow> reference \<Rightarrow> nat option" where
  "resolve e ref = resolveIn (artifacts e) (byLine e) ref"

definition resolveRef :: "engine \<Rightarrow> reference \<Rightarrow> bool" where
  "resolveRef e ref = (case ckoResolve e of Some f \<Rightarrow> f ref | None \<Rightarrow> resolve e ref \<noteq> None)"

definition repositoryEngine :: "Artifact list \<Rightarrow> engine" where
  "repositoryEngine arts = \<lparr>artifacts = arts, byLine = buildIndex arts, skipLocation = False,
     ckoResolve = None, draftRef = None\<rparr>"

definition add_result :: "Artifact \<Rightarrow> rule_id \<Rightarrow> severity \<Rightarrow> 'm \<Rightarrow> 'm result" where
  "add_result a r s m = \<lparr>res_File = RelPath a, res_Rule = r, res_Severity = s, res_Message = m\<rparr>"

lemma add_result_simps [simp]:
  "res_File (add_result a r s m) = RelPath a" "res_Rule (add_result a r s m) = r"
  "res_Severity (add_result a r s m) = s" "res_Message (add_result a r s m) = m"
  by (simp_all add: add_result_def)

lemma repositoryEngine_simps [simp]:
  "artifacts (repositoryEngine arts) = arts" "byLine (repositoryEngine arts) = buildIndex arts"
  "skipLocation (repositoryEngine arts) = False" "ckoResolve (repositoryEngine arts) = None"
  "draftRef (repositoryEngine arts) = None"
  by (simp_all add: repositoryEngine_def)

text \<open>The key identifies the line as long as namespaces and types hold no NUL byte.\<close>

lemma identityKey_inj:
  assumes "nul \<notin> set ns" "nul \<notin> set t" "nul \<notin> set ns'" "nul \<notin> set t'"
  shows "identityKey ns t i = identityKey ns' t' i' \<longleftrightarrow> ns = ns' \<and> t = t' \<and> i = i'"
proof
  assume e: "identityKey ns t i = identityKey ns' t' i'"
  then have c: "ns @ nul # (t @ nul # i) = ns' @ nul # (t' @ nul # i')"
    by (simp add: identityKey_def)
  have "Some (ns, t @ nul # i) = Some (ns', t' @ nul # i')"
    using cut_first_append [OF assms(1)] cut_first_append [OF assms(3)] c by metis
  then have n: "ns = ns'" and d: "t @ nul # i = t' @ nul # i'" by blast+
  have "Some (t, i) = Some (t', i')"
    using cut_first_append [OF assms(2)] cut_first_append [OF assms(4)] d by metis
  with n show "ns = ns' \<and> t = t' \<and> i = i'" by blast
qed simp

text \<open>C29: Reference resolution over the analyzed set is sound and complete, in the engine
  and in the graph pass: a reference fails to resolve exactly when no artifact lies on
  its identity line (with its pinned version, when it has one); a resolved artifact lies
  on that line, carries the pinned version, and for a line-level reference is one of
  lowest instance version.\<close>

theorem resolution_sound_complete:
  "case resolveIn arts (buildIndex arts) ref of
     None \<Rightarrow> filter (\<lambda>a. lineKey a = refKey ref
                 \<and> (if ref_HasVersion ref then InstanceVersion a = ref_Version ref else True)) arts = []
   | Some i \<Rightarrow> i < length arts \<and> lineKey (arts ! i) = refKey ref
       \<and> (if ref_HasVersion ref then InstanceVersion (arts ! i) = ref_Version ref
          else list_all (\<lambda>a. InstanceVersion (arts ! i) \<le> InstanceVersion a)
                 (filter (\<lambda>a. lineKey a = refKey ref) arts))"
proof (cases "resolveIn arts (buildIndex arts) ref")
  case None
  with index.resolve_None_iff [of arts ref] show ?thesis
    by (auto simp: filter_empty_conv in_set_conv_nth)
next
  case (Some i)
  then show ?thesis
    using index.resolve_sound [OF Some] index.resolve_lowest [OF Some]
    by (auto simp: list_all_iff in_set_conv_nth)
qed

end
