(* ===== verification/Rules_Core.thy ===== *)
theory Rules_Core
  imports Artifacts
begin

text \<open>
  Rules R1 to R7 of \<open>conformance/rules.go\<close>: identity uniqueness, filename consistency,
  state values, owned sets, referential integrity, dimension folders and change logs.
  Each rule returns the list of findings the source appends; a finding's message is a
  constructor of \<open>rule_msg\<close> with the values the format string prints.  A map iterated
  by the source is traversed in the order of its association list.
\<close>

datatype rule_msg =
    DuplicateIdentity string string string int string
  | FilenameUnparsed
  | FilenameToken string string
  | FilenameVersionNotAllowed string
  | FilenameVersionMismatch int int
  | FilenameVersionMissing string
  | StateValue string string
  | PhaseNotAllowed string
  | PhaseValue string
  | StateNotOwned string string
  | StateMissing string string
  | MalformedReference string string ref_error
  | SelfReference string string
  | UnresolvedDraft string string
  | UnresolvedReference string string
  | DimensionNotAllowed string
  | SecondaryNotAllowed string
  | DimensionMissing string
  | DimensionUnknown string
  | NoDimensionFolder string
  | DimensionFolder string string
  | SecondaryUnknown string
  | ChangeLogMissing "string list"
  | LogPhaseNotAllowed nat string
  | LogNotOwned nat string string
  | LogUnknownDomain nat string
  | LogFrom nat string string
  | LogTo nat string string
  | LogBy nat
  | LogNoEntry string string
  | LogLastEntry string string string
  | LogIllegal int string string string

type_synonym rule_result = "rule_msg result"

section \<open>Rule 1\<close>

fun rule1From :: "string gomap \<Rightarrow> Artifact list \<Rightarrow> rule_result list" where
  "rule1From seen [] = []"
| "rule1From seen (a # as) =
     (let key = lineKey a @ [nul] @ itoa (InstanceVersion a) in
      case map_of seen key of
        Some first \<Rightarrow>
          add_result a Rule1 SeverityError
            (DuplicateIdentity (Namespace a) (Type a) (ID a) (InstanceVersion a) first)
          # rule1From seen as
      | None \<Rightarrow> rule1From ((key, RelPath a) # seen) as)"

definition rule1 :: "engine \<Rightarrow> rule_result list" where
  "rule1 e = rule1From [] (artifacts e)"

section \<open>Rule 2\<close>

text \<open>\<open>filepath.Base\<close> of a slash-separated path: trailing slashes dropped, then the part
  after the last slash.\<close>

definition path_base :: "string \<Rightarrow> string" where
  "path_base p =
     (if p = '''' then ''.''
      else let q = trim_right_char slash p in
        if q = '''' then [slash] else last (split_on slash q))"

definition rule2 :: "engine \<Rightarrow> Artifact \<Rightarrow> rule_result list" where
  "rule2 e a =
     (if skipLocation e then []
      else if \<not> IsKnownType (Type a) then []
      else case parseFilename (stripAuthoringExtension (path_base (RelPath a))) of
        None \<Rightarrow> [add_result a Rule2 SeverityError FilenameUnparsed]
      | Some p \<Rightarrow>
          if pf_Token p \<noteq> Type a then
            [add_result a Rule2 SeverityError (FilenameToken (pf_Token p) (Type a))]
          else if pf_HasVersion p \<and> \<not> IsVersionedType (Type a) then
            [add_result a Rule2 SeverityError (FilenameVersionNotAllowed (Type a))]
          else if pf_HasVersion p \<and> pf_Version p \<noteq> InstanceVersion a then
            [add_result a Rule2 SeverityError (FilenameVersionMismatch (pf_Version p) (InstanceVersion a))]
          else if \<not> pf_HasVersion p \<and> IsVersionedType (Type a) then
            [add_result a Rule2 SeverityError (FilenameVersionMissing (Type a))]
          else [])"

section \<open>Rules 3 and 4\<close>

definition rule3 :: "engine \<Rightarrow> Artifact \<Rightarrow> rule_result list" where
  "rule3 e a =
     concat (map (\<lambda>(domain, v).
        if contains (domainValues domain (Type a)) v then []
        else [add_result a Rule3 SeverityError (StateValue domain v)]) (States a)) @
     (if HasPhaseKey a then
        if \<not> IsVersionedType (Type a) then
          [add_result a Rule3 SeverityError (PhaseNotAllowed (Type a))]
        else if \<not> contains phaseValues (Phase a) then
          [add_result a Rule3 SeverityError (PhaseValue (Phase a))]
        else []
      else [])"

definition rule4 :: "engine \<Rightarrow> Artifact \<Rightarrow> rule_result list" where
  "rule4 e a = (case TypeInfoFor (Type a) of
       None \<Rightarrow> []
     | Some info \<Rightarrow>
         concat (map (\<lambda>(domain, v).
            if contains (Owned info) domain then []
            else [add_result a Rule4 SeverityError (StateNotOwned domain (Type a))]) (States a)) @
         concat (map (\<lambda>domain.
            if has_key (States a) domain then []
            else [add_result a Rule4 SeverityError (StateMissing domain (Type a))]) (Owned info)))"

section \<open>Rule 5\<close>

definition isSelfIdentity :: "reference \<Rightarrow> Artifact \<Rightarrow> bool" where
  "isSelfIdentity ref a = (ref_Namespace ref = Namespace a \<and> ref_Type ref = Type a
     \<and> ref_ID ref = ID a \<and> (\<not> ref_HasVersion ref \<or> ref_Version ref = InstanceVersion a))"

definition draftTolerated :: "engine \<Rightarrow> reference \<Rightarrow> bool" where
  "draftTolerated e ref = (\<not> ref_HasVersion ref \<and>
     (case draftRef e of None \<Rightarrow> False | Some f \<Rightarrow> f ref))"

definition unresolvedFinding :: "Artifact \<Rightarrow> string \<Rightarrow> string \<Rightarrow> rule_result" where
  "unresolvedFinding a field raw =
     (if state_of a DomainContentState = ''draft''
      then add_result a Rule5 SeverityWarning (UnresolvedDraft raw field)
      else add_result a Rule5 SeverityError (UnresolvedReference raw field))"

definition rule5Reference :: "engine \<Rightarrow> nat \<Rightarrow> string \<Rightarrow> string \<Rightarrow> rule_result list" where
  "rule5Reference e i field raw =
     (let a = artifacts e ! i in
      case parseReference raw (Namespace a) (Type a) of
        Inl err \<Rightarrow> [add_result a Rule5 SeverityError (MalformedReference raw field err)]
      | Inr ref \<Rightarrow>
          if ckoResolve e \<noteq> None then
            (if isSelfIdentity ref a then [add_result a Rule5 SeverityError (SelfReference raw field)]
             else if resolveRef e ref then []
             else if draftTolerated e ref then []
             else [unresolvedFinding a field raw])
          else (case resolve e ref of
              None \<Rightarrow> if draftTolerated e ref then [] else [unresolvedFinding a field raw]
            | Some target \<Rightarrow>
                if target = i then [add_result a Rule5 SeverityError (SelfReference raw field)] else []))"

definition rule5 :: "engine \<Rightarrow> nat \<Rightarrow> rule_result list" where
  "rule5 e i = concat (map (\<lambda>field.
       concat (map (rule5Reference e i field) (relation_of (artifacts e ! i) field))) relationshipFields)"

section \<open>Rule 6\<close>

text \<open>\<open>dimensionFolderFor\<close> walks from the directory of an absolute path upwards; the
  path is split at its slashes, the file name is dropped, and the nearest component that
  names a dimension wins.\<close>

definition dimensionFolderFor :: "string \<Rightarrow> string option" where
  "dimensionFolderFor absPath =
     find IsDimensionToken (rev (butlast (split_on slash absPath)))"

definition rule6 :: "engine \<Rightarrow> Artifact \<Rightarrow> rule_result list" where
  "rule6 e a =
     (if IsProjectionType (Type a) then
        (if HasDimension a then [add_result a Rule6 SeverityError (DimensionNotAllowed (Type a))] else []) @
        (if DimensionsSecondary a \<noteq> [] then [add_result a Rule6 SeverityError (SecondaryNotAllowed (Type a))] else [])
      else case TypeInfoFor (Type a) of
        None \<Rightarrow> []
      | Some info \<Rightarrow>
          if \<not> IsKnowledge info then []
          else if \<not> HasDimension a then [add_result a Rule6 SeverityError (DimensionMissing (Type a))]
          else
            (if \<not> IsDimensionToken (Dimension a)
             then [add_result a Rule6 SeverityError (DimensionUnknown (Dimension a))] else []) @
            (if skipLocation e then []
             else case dimensionFolderFor (AbsPath a) of
                 None \<Rightarrow> [add_result a Rule6 SeverityError (NoDimensionFolder (Dimension a))]
               | Some folder \<Rightarrow>
                   if Dimension a \<noteq> folder
                   then [add_result a Rule6 SeverityError (DimensionFolder (Dimension a) folder)] else []) @
            concat (map (\<lambda>d. if IsDimensionToken d then []
                else [add_result a Rule6 SeverityError (SecondaryUnknown d)]) (DimensionsSecondary a)))"

section \<open>Rule 7\<close>

definition entriesForDomain :: "ChangeLogEntry list \<Rightarrow> string \<Rightarrow> ChangeLogEntry list" where
  "entriesForDomain clog domain = filter (\<lambda>entry. LogDomain entry = domain) clog"

definition sameEntry :: "ChangeLogEntry \<Rightarrow> ChangeLogEntry \<Rightarrow> bool" where
  "sameEntry entry target = (Date entry = Date target \<and> LogDomain entry = LogDomain target
     \<and> From entry = From target \<and> To entry = To target \<and> By entry = By target)"

fun indexOfEntry :: "ChangeLogEntry list \<Rightarrow> ChangeLogEntry \<Rightarrow> int" where
  "indexOfEntry [] target = -1"
| "indexOfEntry (entry # clog) target =
     (if sameEntry entry target then 0
      else let i = indexOfEntry clog target in if i < 0 then -1 else i + 1)"

definition neededDomains :: "TypeInfo \<Rightarrow> Artifact \<Rightarrow> string list" where
  "neededDomains info a = Owned info @ (if HasPhase a then [DomainPhase] else [])"

text \<open>Well-formedness of one entry; \<open>n\<close> is its one-based position.\<close>

definition rule7Entry :: "TypeInfo \<Rightarrow> Artifact \<Rightarrow> nat \<times> ChangeLogEntry \<Rightarrow> rule_result list" where
  "rule7Entry info a p = (case p of (n, entry) \<Rightarrow>
     if LogDomain entry \<noteq> DomainPhase \<and> \<not> isStateField (LogDomain entry) then
       [add_result a Rule7 SeverityError (LogUnknownDomain n (LogDomain entry))]
     else
       (let values = domainValues (LogDomain entry) (Type a) in
        (if LogDomain entry = DomainPhase then
           (if \<not> IsVersionedType (Type a)
            then [add_result a Rule7 SeverityError (LogPhaseNotAllowed n (Type a))] else [])
         else if \<not> contains (Owned info) (LogDomain entry)
           then [add_result a Rule7 SeverityError (LogNotOwned n (LogDomain entry) (Type a))] else []) @
        (if From entry \<noteq> ''-'' \<and> \<not> contains values (From entry)
         then [add_result a Rule7 SeverityError (LogFrom n (From entry) (LogDomain entry))] else []) @
        (if To entry = ''-'' \<or> \<not> contains values (To entry)
         then [add_result a Rule7 SeverityError (LogTo n (To entry) (LogDomain entry))] else []) @
        (if By entry = '''' then [add_result a Rule7 SeverityError (LogBy n)] else [])))"

definition rule7Domain :: "Artifact \<Rightarrow> string \<Rightarrow> rule_result list" where
  "rule7Domain a domain =
     (let entries = entriesForDomain (ChangeLog a) domain;
          current = (if domain = DomainPhase then Phase a else state_of a domain) in
      if current = '''' then []
      else if entries = [] then [add_result a Rule7 SeverityError (LogNoEntry domain current)]
      else
        (if To (last entries) \<noteq> current
         then [add_result a Rule7 SeverityError (LogLastEntry domain (To (last entries)) current)] else []) @
        concat (map (\<lambda>entry.
          if From entry = ''-'' then []
          else if isLegalTransition (LogDomain entry) (Type a) (From entry) (To entry) then []
          else [add_result a Rule7 SeverityError
                 (LogIllegal (indexOfEntry (ChangeLog a) entry + 1) domain (From entry) (To entry))]) entries))"

definition rule7 :: "engine \<Rightarrow> Artifact \<Rightarrow> rule_result list" where
  "rule7 e a = (case TypeInfoFor (Type a) of
       None \<Rightarrow> []
     | Some info \<Rightarrow>
         let needed = neededDomains info a in
         if ChangeLog a = [] then
           (if needed \<noteq> [] then [add_result a Rule7 SeverityError (ChangeLogMissing needed)] else [])
         else
           concat (map (rule7Entry info a) (zip [1..<length (ChangeLog a) + 1] (ChangeLog a))) @
           concat (map (rule7Domain a) needed))"

declare rule1_def [engine_defs] rule2_def [engine_defs] rule3_def [engine_defs]
  rule4_def [engine_defs] rule5_def [engine_defs] rule6_def [engine_defs] rule7_def [engine_defs]

section \<open>Identity uniqueness\<close>

definition instanceKey :: "Artifact \<Rightarrow> string" where
  "instanceKey a = lineKey a @ [nul] @ itoa (InstanceVersion a)"

definition identityOf :: "Artifact \<Rightarrow> string \<times> string \<times> string \<times> int" where
  "identityOf a = (Namespace a, Type a, ID a, InstanceVersion a)"

definition nulFree :: "Artifact \<Rightarrow> bool" where
  "nulFree a = (nul \<notin> set (Namespace a) \<and> nul \<notin> set (Type a) \<and> nul \<notin> set (ID a))"

lemma lineKey_inj:
  "nulFree a \<Longrightarrow> nulFree b \<Longrightarrow>
   lineKey a = lineKey b \<longleftrightarrow> Namespace a = Namespace b \<and> Type a = Type b \<and> ID a = ID b"
  by (simp add: lineKey_def identityKey_inj nulFree_def)

lemma instanceKey_inj:
  assumes "nulFree a" "nulFree b"
  shows "instanceKey a = instanceKey b \<longleftrightarrow> identityOf a = identityOf b"
proof
  assume e: "instanceKey a = instanceKey b"
  then have c: "lineKey a @ nul # itoa (InstanceVersion a) = lineKey b @ nul # itoa (InstanceVersion b)"
    by (simp add: instanceKey_def)
  have "Some (lineKey a, itoa (InstanceVersion a)) = Some (lineKey b, itoa (InstanceVersion b))"
    using cut_last_append [OF itoa_no_nul] c by metis
  then have "lineKey a = lineKey b" "InstanceVersion a = InstanceVersion b" by simp_all
  then show "identityOf a = identityOf b" using lineKey_inj [OF assms] by (simp add: identityOf_def)
qed (simp add: instanceKey_def identityOf_def lineKey_def)

lemma rule1From_length:
  "length (rule1From seen arts) + card (instanceKey ` set arts - fst ` set seen) = length arts"
proof (induction arts arbitrary: seen)
  case (Cons a as)
  let ?k = "instanceKey a"
  show ?case
  proof (cases "?k \<in> fst ` set seen")
    case True
    then obtain v where "map_of seen ?k = Some v"
      by (metis has_key_iff has_key_def not_None_eq)
    then have "length (rule1From seen (a # as)) = Suc (length (rule1From seen as))"
      by (simp add: instanceKey_def Let_def)
    moreover have "instanceKey ` set (a # as) - fst ` set seen = instanceKey ` set as - fst ` set seen"
      using True by auto
    ultimately show ?thesis using Cons.IH [of seen] by simp
  next
    case False
    then have "map_of seen ?k = None" by (simp add: map_of_eq_None_iff)
    then have l: "length (rule1From seen (a # as)) = length (rule1From ((?k, RelPath a) # seen) as)"
      by (simp add: instanceKey_def Let_def)
    have "instanceKey ` set (a # as) - fst ` set seen =
        insert ?k (instanceKey ` set as - fst ` set ((?k, RelPath a) # seen))"
      using False by auto
    then have "card (instanceKey ` set (a # as) - fst ` set seen) =
        Suc (card (instanceKey ` set as - fst ` set ((?k, RelPath a) # seen)))"
      by simp
    then show ?thesis using Cons.IH [of "(?k, RelPath a) # seen"] l by simp
  qed
qed simp

lemma instanceKey_card:
  assumes "\<And>a. a \<in> set arts \<Longrightarrow> nulFree a"
  shows "card (instanceKey ` set arts) = card (identityOf ` set arts)"
  using instanceKey_inj assms by (intro card_image_cong_kernel) auto

text \<open>Rule 1 reports every artifact whose identity an earlier one already uses, and
  only those: there is one finding for each artifact beyond the number of distinct
  (namespace, type, id, instance-version) identities, so none exactly when all
  identities differ.\<close>

lemma rule1_counts_duplicates:
  assumes "list_all nulFree (artifacts e)"
  shows "length (rule1 e) + card (set (map identityOf (artifacts e))) = length (artifacts e)
     \<and> (rule1 e = [] \<longleftrightarrow> distinct (map identityOf (artifacts e)))"
proof -
  have c: "length (rule1 e) + card (set (map identityOf (artifacts e))) = length (artifacts e)"
    using rule1From_length [of "[]" "artifacts e"] instanceKey_card [of "artifacts e"] assms
    by (simp add: rule1_def list_all_iff)
  moreover have "distinct (map identityOf (artifacts e)) \<longleftrightarrow>
      card (set (map identityOf (artifacts e))) = length (artifacts e)"
    by (metis card_distinct distinct_card length_map)
  ultimately show ?thesis by (metis add_cancel_left_left length_0_conv)
qed

definition sampleArtifact :: "string \<Rightarrow> string \<Rightarrow> int \<Rightarrow> Artifact" where
  "sampleArtifact t i v = emptyArtifact\<lparr>RelPath := t @ ''-'' @ i, Namespace := ''core'', Type := t,
     ID := i, InstanceVersion := v, Revision := 1\<rparr>"

lemma rule1_counts_duplicates_witness:
  "length (rule1 (repositoryEngine [sampleArtifact ''adr'' ''x'' 1, sampleArtifact ''adr'' ''x'' 2,
     sampleArtifact ''adr'' ''x'' 1])) = 1"
  using rule1_counts_duplicates [of "repositoryEngine [sampleArtifact ''adr'' ''x'' 1,
      sampleArtifact ''adr'' ''x'' 2, sampleArtifact ''adr'' ''x'' 1]"]
  by (simp add: sampleArtifact_def emptyArtifact_def nulFree_def identityOf_def card_insert_if)

section \<open>State vectors\<close>

lemma rule3_Nil_iff:
  "rule3 e a = [] \<longleftrightarrow> list_all (\<lambda>(d, v). ValidStateValue d (Type a) v) (States a)
     \<and> (HasPhaseKey a \<longrightarrow> IsVersionedType (Type a) \<and> ValidPhaseValue (Phase a))"
  by (simp add: rule3_def ValidStateValue_def ValidPhaseValue_def concat_map_split_Nil del: concat_eq_Nil_conv)

lemma rule4_Nil_iff:
  assumes "TypeInfoFor (Type a) = Some info"
  shows "rule4 e a = [] \<longleftrightarrow> fst ` set (States a) = set (Owned info)"
proof -
  have "rule4 e a = [] \<longleftrightarrow> list_all (\<lambda>(d, v). contains (Owned info) d) (States a)
      \<and> list_all (\<lambda>d. has_key (States a) d) (Owned info)"
    using assms by (simp add: rule4_def concat_map_split_Nil concat_map_if_Nil del: concat_eq_Nil_conv)
  also have "\<dots> \<longleftrightarrow> fst ` set (States a) = set (Owned info)"
    by (fastforce simp: list_all_iff has_key_iff image_iff)
  finally show ?thesis .
qed

text \<open>C30: An artifact of a known type passes Rules 3 and 4 exactly when its state fields
  are exactly the domains its type owns, every value belongs to its domain's value set
  (the content-state variant of the type), and a phase is only present on a versioned
  type, with a phase value.\<close>

theorem state_vector_conformance:
  assumes "TypeInfoFor (Type a) = Some info"
  shows "rule3 e a @ rule4 e a = [] \<longleftrightarrow>
     fst ` set (States a) = set (Owned info)
     \<and> list_all (\<lambda>(d, v). ValidStateValue d (Type a) v) (States a)
     \<and> (if HasPhaseKey a then IsVersionedType (Type a) \<and> ValidPhaseValue (Phase a) else True)"
  using rule3_Nil_iff [of e a] rule4_Nil_iff [OF assms, of e] by auto

theorem state_vector_conformance_witness:
  "rule3 (repositoryEngine []) (sampleArtifact ''adr'' ''x'' 1
       \<lparr>States := [(''existence-state'', ''active''), (''content-state'', ''superseded'')]\<rparr>)
   @ rule4 (repositoryEngine []) (sampleArtifact ''adr'' ''x'' 1
       \<lparr>States := [(''existence-state'', ''active''), (''content-state'', ''superseded'')]\<rparr>) = []"
  by (subst state_vector_conformance)
    (auto simp: sampleArtifact_def emptyArtifact_def TypeInfoFor_def ValidStateValue_def domainValues_def
      contentStateVariant_def tables)

section \<open>Referential integrity\<close>

text \<open>The draft callback plays no role where every reference resolves or none is a draft;
  the repository mode never sets it.\<close>

lemma rule5Reference_repository:
  "rule5Reference (repositoryEngine arts) i field raw =
     (let a = arts ! i in
      case parseReference raw (Namespace a) (Type a) of
        Inl err \<Rightarrow> [add_result a Rule5 SeverityError (MalformedReference raw field err)]
      | Inr ref \<Rightarrow> (case resolveIn arts (buildIndex arts) ref of
            None \<Rightarrow> [unresolvedFinding a field raw]
          | Some target \<Rightarrow> if target = i
              then [add_result a Rule5 SeverityError (SelfReference raw field)] else []))"
  by (auto simp: rule5Reference_def draftTolerated_def resolve_def Let_def split: sum.splits option.splits)

definition onlyInstance :: "Artifact list \<Rightarrow> nat \<Rightarrow> bool" where
  "onlyInstance arts i = list_all (\<lambda>j. lineKey (arts ! j) \<noteq> lineKey (arts ! i) \<or> j = i) [0..<length arts]"

lemma resolve_self_iff:
  assumes "i < length arts" "onlyInstance arts i" "list_all nulFree arts"
    and "nul \<notin> set (ref_Namespace ref)" "nul \<notin> set (ref_Type ref)"
  shows "resolveIn arts (buildIndex arts) ref = Some i \<longleftrightarrow> isSelfIdentity ref (arts ! i)"
proof -
  have key: "refKey ref = lineKey (arts ! i) \<longleftrightarrow>
      ref_Namespace ref = Namespace (arts ! i) \<and> ref_Type ref = Type (arts ! i) \<and> ref_ID ref = ID (arts ! i)"
    unfolding refKey_def lineKey_def using assms
    by (intro identityKey_inj) (auto simp: list_all_length nulFree_def)
  show ?thesis
  proof
    assume "resolveIn arts (buildIndex arts) ref = Some i"
    from index.resolve_sound [OF this] show "isSelfIdentity ref (arts ! i)"
      using key by (auto simp: isSelfIdentity_def)
  next
    assume s: "isSelfIdentity ref (arts ! i)"
    then have k: "lineKey (arts ! i) = refKey ref" using key by (simp add: isSelfIdentity_def)
    then have "resolveIn arts (buildIndex arts) ref \<noteq> None"
      using s assms(1) index.resolve_None_iff [of arts ref] by (auto simp: isSelfIdentity_def)
    then obtain j where j: "resolveIn arts (buildIndex arts) ref = Some j" by blast
    from index.resolve_sound [OF this] k have "j < length arts" "lineKey (arts ! j) = lineKey (arts ! i)"
      by auto
    then have "j = i" using assms(2) by (auto simp: onlyInstance_def list_all_iff)
    then show "resolveIn arts (buildIndex arts) ref = Some i" using j by simp
  qed
qed

definition publishEngine :: "Artifact \<Rightarrow> (reference \<Rightarrow> bool) \<Rightarrow> engine" where
  "publishEngine a f = \<lparr>artifacts = [a], byLine = buildIndex [a], skipLocation = True,
     ckoResolve = Some f, draftRef = None\<rparr>"

lemma parse_nul_free:
  assumes "parseReference raw ns t = Inr ref" "nul \<notin> set raw" "nul \<notin> set ns"
  shows "nul \<notin> set (ref_Namespace ref) \<and> nul \<notin> set (ref_Type ref)"
proof -
  have "nul \<notin> set (trim_space raw)" using assms(2) set_trim_space by blast
  moreover have "refShape (trim_space raw) ns t ref" using assms(1) by (simp add: parseReference_iff)
  ultimately show ?thesis using assms(3) known_type_chars(4)
    by (auto simp: refShape_def refBody_def)
qed

text \<open>The two branches of Rule 5 agree: validating one artifact with the publish-time
  callback, when the callback answers as the index of a repository does, yields exactly
  the repository's Rule 5 findings for that artifact, provided it is the only instance of
  its line there and no identity component holds a NUL byte.\<close>

theorem rule5_modes_agree:
  assumes "i < length arts" "onlyInstance arts i" "list_all nulFree arts"
    and "list_all (\<lambda>field. list_all (\<lambda>raw. nul \<notin> set raw) (relation_of (arts ! i) field)) relationshipFields"
  shows "rule5 (publishEngine (arts ! i) (\<lambda>ref. resolveIn arts (buildIndex arts) ref \<noteq> None)) 0
       = rule5 (repositoryEngine arts) i"
proof -
  let ?a = "arts ! i" and ?e = "publishEngine (arts ! i) (\<lambda>ref. resolveIn arts (buildIndex arts) ref \<noteq> None)"
  have ns: "nul \<notin> set (Namespace ?a)" using assms(1,3) by (simp add: list_all_length nulFree_def)
  have "rule5Reference ?e 0 field raw = rule5Reference (repositoryEngine arts) i field raw"
    if f: "field \<in> set relationshipFields" and r: "raw \<in> set (relation_of ?a field)" for field raw
  proof (cases "parseReference raw (Namespace ?a) (Type ?a)")
    case (Inl err)
    then show ?thesis by (simp add: rule5Reference_def publishEngine_def Let_def)
  next
    case (Inr ref)
    have "nul \<notin> set raw" using assms(4) f r by (auto simp: list_all_iff)
    with parse_nul_free [OF Inr _ ns]
    have self: "resolveIn arts (buildIndex arts) ref = Some i \<longleftrightarrow> isSelfIdentity ref ?a"
      using resolve_self_iff [OF assms(1-3)] by blast
    have cko: "rule5Reference ?e 0 field raw =
        (if isSelfIdentity ref ?a then [add_result ?a Rule5 SeverityError (SelfReference raw field)]
         else if resolveIn arts (buildIndex arts) ref \<noteq> None then [] else [unresolvedFinding ?a field raw])"
      using Inr by (simp add: rule5Reference_def publishEngine_def resolveRef_def draftTolerated_def Let_def)
    show ?thesis
      unfolding cko rule5Reference_repository using Inr self
      by (auto simp: Let_def split: option.splits)
  qed
  then have "map (rule5Reference ?e 0 field) (relation_of ?a field) =
      map (rule5Reference (repositoryEngine arts) i field) (relation_of ?a field)"
    if "field \<in> set relationshipFields" for field
    using that by simp
  then show ?thesis
    unfolding rule5_def by (intro arg_cong [of _ _ concat] map_cong) (simp_all add: publishEngine_def)
qed

definition sampleRelated :: "string \<Rightarrow> string list \<Rightarrow> Artifact" where
  "sampleRelated i refs = (sampleArtifact ''adr'' i 1)\<lparr>Relations := [(''depends-on'', refs)]\<rparr>"

theorem rule5_modes_agree_witness:
  "rule5 (publishEngine (sampleRelated ''x'' [''y'', ''nope:z'']) (\<lambda>ref. resolveIn
       [sampleRelated ''x'' [''y'', ''nope:z''], sampleRelated ''y'' []]
       (buildIndex [sampleRelated ''x'' [''y'', ''nope:z''], sampleRelated ''y'' []]) ref \<noteq> None)) 0
   = rule5 (repositoryEngine [sampleRelated ''x'' [''y'', ''nope:z''], sampleRelated ''y'' []]) 0"
proof -
  let ?arts = "[sampleRelated ''x'' [''y'', ''nope:z''], sampleRelated ''y'' []]"
  have "onlyInstance ?arts 0" "list_all nulFree ?arts"
    "list_all (\<lambda>field. list_all (\<lambda>raw. nul \<notin> set raw) (relation_of (?arts ! 0) field)) relationshipFields"
    by (simp_all add: sampleRelated_def sampleArtifact_def emptyArtifact_def onlyInstance_def
        nulFree_def lineKey_def identityKey_def relationshipFields_def upt_rec)
  from rule5_modes_agree [OF _ this] show ?thesis by simp
qed

section \<open>Change logs\<close>

lemma rule7_NilD:
  assumes "rule7 e a = []" "TypeInfoFor (Type a) = Some info"
  shows "\<And>d. d \<in> set (neededDomains info a) \<Longrightarrow> ChangeLog a \<noteq> [] \<and> rule7Domain a d = []"
    and "\<And>entry. entry \<in> set (ChangeLog a) \<Longrightarrow> \<exists>n. rule7Entry info a (n, entry) = []"
proof -
  fix d assume d: "d \<in> set (neededDomains info a)"
  then have ne: "neededDomains info a \<noteq> []" by auto
  then have "ChangeLog a \<noteq> []" using assms by (auto simp: rule7_def Let_def split: if_splits)
  then show "ChangeLog a \<noteq> [] \<and> rule7Domain a d = []"
    using assms d by (auto simp: rule7_def Let_def)
next
  fix entry assume "entry \<in> set (ChangeLog a)"
  then obtain k where k: "k < length (ChangeLog a)" "ChangeLog a ! k = entry" by (auto simp: in_set_conv_nth)
  then have "(k + 1, entry) \<in> set (zip [1..<length (ChangeLog a) + 1] (ChangeLog a))"
    by (auto simp: set_zip intro!: exI [of _ k] simp del: upt_Suc)
  moreover have "ChangeLog a \<noteq> []" using k by auto
  ultimately have "rule7Entry info a (k + 1, entry) = []"
    using assms by (auto simp: rule7_def Let_def simp del: upt_Suc)
  then show "\<exists>n. rule7Entry info a (n, entry) = []" by blast
qed

lemma rule7Entry_NilD:
  assumes "rule7Entry info a (n, entry) = []"
  shows "To entry \<noteq> ''-'' \<and> To entry \<in> set (domainValues (LogDomain entry) (Type a)) \<and> By entry \<noteq> ''''
     \<and> (LogDomain entry \<noteq> DomainPhase \<longrightarrow> LogDomain entry \<in> set (Owned info))
     \<and> (From entry \<noteq> ''-'' \<longrightarrow> From entry \<in> set (domainValues (LogDomain entry) (Type a)))"
  using assms by (auto simp: rule7Entry_def Let_def split: if_splits)

lemma rule7Domain_NilD:
  assumes "rule7Domain a d = []" "d \<noteq> DomainPhase" "state_of a d \<noteq> ''''"
  shows "entriesForDomain (ChangeLog a) d \<noteq> []"
    and "To (last (entriesForDomain (ChangeLog a) d)) = state_of a d"
    and "\<And>entry. entry \<in> set (entriesForDomain (ChangeLog a) d) \<Longrightarrow>
           isLegalTransition d (Type a) (From entry) (To entry)"
proof -
  from assms show ne: "entriesForDomain (ChangeLog a) d \<noteq> []"
    by (auto simp: rule7Domain_def Let_def split: if_splits)
  from assms ne show "To (last (entriesForDomain (ChangeLog a) d)) = state_of a d"
    by (auto simp: rule7Domain_def Let_def split: if_splits)
  fix entry assume m: "entry \<in> set (entriesForDomain (ChangeLog a) d)"
  then have d: "LogDomain entry = d" by (simp add: entriesForDomain_def)
  show "isLegalTransition d (Type a) (From entry) (To entry)"
  proof (cases "From entry = ''-''")
    case True then show ?thesis by (simp add: isLegalTransition_def)
  next
    case False
    then show ?thesis using assms ne m d
      by (auto simp: rule7Domain_def Let_def split: if_splits)
  qed
qed

definition contiguous :: "ChangeLogEntry list \<Rightarrow> bool" where
  "contiguous entries = successively (\<lambda>e f. From f = To e) entries"

text \<open>What a clean Rule 7 guarantees.  When it reports nothing for an artifact of a
  known type, then for every owned forward-only domain that holds a value: its log
  entries are non-empty and end at the current value, and if each entry starts where the
  previous ended, the recorded values never repeat and are at most as many as the
  domain's value set.\<close>

theorem changelog_history:
  assumes "TypeInfoFor (Type a) = Some info" and "rule7 e a = []"
    and "d \<in> set (Owned info)" and "isForwardDomain d" and "state_of a d \<noteq> ''''"
    and "contiguous (entriesForDomain (ChangeLog a) d)"
  shows "entriesForDomain (ChangeLog a) d \<noteq> []
     \<and> last (map To (entriesForDomain (ChangeLog a) d)) = state_of a d
     \<and> distinct (map To (entriesForDomain (ChangeLog a) d))
     \<and> length (entriesForDomain (ChangeLog a) d) \<le> max 1 (length (domainValues d (Type a)))"
proof -
  let ?es = "entriesForDomain (ChangeLog a) d"
  have dp: "d \<noteq> DomainPhase" using assms(4) by (simp add: isForwardDomain_def)
  have nil: "rule7Domain a d = []"
    using rule7_NilD(1) [OF assms(2,1)] assms(3) by (simp add: neededDomains_def)
  note D = rule7Domain_NilD [OF nil dp assms(5)]
  have to: "To entry \<noteq> ''-''" if "entry \<in> set ?es" for entry
    using rule7_NilD(2) [OF assms(2,1)] rule7Entry_NilD that by (fastforce simp: entriesForDomain_def)
  have "successively (\<lambda>e f. forwardMove d (Type a) (To e) (To f)) ?es"
    using assms(6) unfolding contiguous_def
    by (rule successively_mono) (metis D(3) to assms(4) forwardMove_def)
  then have "successively (forwardMove d (Type a)) (map To ?es)"
    by (simp add: successively_map)
  from forward.history_distinct [OF this] forward.history_bounded [OF this]
  show ?thesis using D(1,2) by (simp add: last_map)
qed

definition sampleEntry :: "string \<Rightarrow> string \<Rightarrow> string \<Rightarrow> ChangeLogEntry" where
  "sampleEntry d f t = \<lparr>Date = ''2026-08-05'', LogDomain = d, From = f, To = t, By = ''ann'', ByKind = ''user''\<rparr>"

definition sampleLogged :: Artifact where
  "sampleLogged = (sampleArtifact ''adr'' ''x'' 1)
     \<lparr>States := [(''content-state'', ''superseded''), (''existence-state'', ''active'')],
      ChangeLog := [sampleEntry ''content-state'' ''-'' ''proposed'',
        sampleEntry ''existence-state'' ''-'' ''active'',
        sampleEntry ''content-state'' ''proposed'' ''accepted'',
        sampleEntry ''content-state'' ''accepted'' ''superseded'']\<rparr>"

theorem changelog_history_witness:
  "distinct (map To (entriesForDomain (ChangeLog sampleLogged) DomainContentState))
   \<and> map To (entriesForDomain (ChangeLog sampleLogged) DomainContentState) = [''proposed'', ''accepted'', ''superseded'']"
proof -
  have i: "TypeInfoFor (Type sampleLogged) = Some \<lparr>Token = ''adr'', Owned = [DomainContentState, DomainExistenceState], IsKnowledge = True\<rparr>"
    by (simp add: sampleLogged_def sampleArtifact_def emptyArtifact_def TypeInfoFor_def typeTokens_def type_row_def)
  have s: "entriesForDomain (ChangeLog sampleLogged) DomainContentState =
      [sampleEntry ''content-state'' ''-'' ''proposed'', sampleEntry ''content-state'' ''proposed'' ''accepted'',
       sampleEntry ''content-state'' ''accepted'' ''superseded'']"
    by (simp add: sampleLogged_def entriesForDomain_def sampleEntry_def domain_names)
  have r: "rule7 (repositoryEngine []) sampleLogged = []" by code_simp
  have "state_of sampleLogged DomainContentState \<noteq> ''''"
    by (simp add: sampleLogged_def domain_names)
  moreover have "contiguous (entriesForDomain (ChangeLog sampleLogged) DomainContentState)"
    by (simp add: s contiguous_def sampleEntry_def)
  ultimately have "distinct (map To (entriesForDomain (ChangeLog sampleLogged) DomainContentState))"
    using changelog_history [OF i r, of DomainContentState]
    by (simp add: isForwardDomain_def domain_names)
  then show ?thesis by (simp add: s sampleEntry_def)
qed

end
