(* ===== verification/Rules_Projection.thy ===== *)
theory Rules_Projection
  imports Artifacts
begin

text \<open>
  Rules R8 and R9 of \<open>conformance/rules.go\<close>: state projections (the projection header,
  the pipe table of a container's work items, the comparison of projected with owned
  states) and the required content sections.  Case mapping of table headers is ASCII;
  cells are trimmed and split at Unicode spaces as the source does.
\<close>

datatype table_warn = NoSeparatorRow | NoStateColumn

datatype proj_msg =
    TicketHeader
  | TicketContainer
  | ContainerHeader
  | TableWarning table_warn
  | RowShort "string list"
  | RowUnresolved string
  | RowInvalidState string string
  | RowMismatch string string string
  | MissingSection string string
  | SupersededWithoutReplacement string

definition projectHeader :: string where
  "projectHeader = ''> Generated '' @ [CHR 0xE2, CHR 0x80, CHR 0x94]
     @ '' State Projection. Do NOT edit state here; refresh on read.''"

section \<open>The work items table\<close>

record workItemsTable =
  tbl_header :: "string list"
  tbl_rows :: "string list list"
  tbl_stateCol :: int
  tbl_parseWarn :: "table_warn option"

abbreviation pipe :: char where "pipe \<equiv> CHR ''|''"

definition splitTableRow :: "string \<Rightarrow> string list" where
  "splitTableRow line = map trim_space (split_on pipe (trim_suffix [pipe] (trim_prefix [pipe] (trim_space line))))"

fun separatorCells :: "string list \<Rightarrow> bool \<Rightarrow> bool" where
  "separatorCells [] any = any"
| "separatorCells (c # cs) any =
     (let d = trim_char colon c in
      if d = '''' then separatorCells cs any
      else if list_ex (\<lambda>r. r \<noteq> dash) d then False
      else separatorCells cs True)"

definition isTableSeparator :: "string \<Rightarrow> bool" where
  "isTableSeparator line = separatorCells (splitTableRow line) False"

text \<open>\<open>strings.Fields\<close>: the words between runs of Unicode space.\<close>

definition flush_word :: "string \<Rightarrow> string list \<Rightarrow> string list" where
  "flush_word cur ws = (if cur = [] then ws else rev cur # ws)"

fun fieldsWs :: "string \<Rightarrow> string \<Rightarrow> string list" where
  "fieldsWs cur [] = flush_word cur []"
| "fieldsWs cur [a] = (if space1 a then flush_word cur [] else flush_word (a # cur) [])"
| "fieldsWs cur [a, b] =
     (if space1 a then flush_word cur (fieldsWs [] [b])
      else if space2 a b then flush_word cur []
      else fieldsWs (a # cur) [b])"
| "fieldsWs cur (a # b # c # s) =
     (if space1 a then flush_word cur (fieldsWs [] (b # c # s))
      else if space2 a b then flush_word cur (fieldsWs [] (c # s))
      else if space3 a b c then flush_word cur (fieldsWs [] s)
      else fieldsWs (a # cur) (b # c # s))"

definition normalizeHeader :: "string \<Rightarrow> string" where
  "normalizeHeader s = join_with '' '' (fieldsWs [] (map to_lower s))"

definition isStateHeader :: "string \<Rightarrow> bool" where
  "isStateHeader name = (let n = normalizeHeader name in
     n = ''execution-state'' \<or> n = ''execution state'' \<or> n = ''execution_state'' \<or> n = ''status'')"

fun stateColumn :: "int \<Rightarrow> int \<Rightarrow> string list \<Rightarrow> int" where
  "stateColumn i col [] = col"
| "stateColumn i col (name # names) = stateColumn (i + 1) (if isStateHeader name then i else col) names"

definition parseWorkItemsLines :: "string list \<Rightarrow> workItemsTable option" where
  "parseWorkItemsLines lines =
     (case filter (has_prefix [pipe]) (map trim_space lines) of
        h # sep # body \<Rightarrow>
          let header = splitTableRow h in
          if \<not> isTableSeparator sep then
            Some \<lparr>tbl_header = header, tbl_rows = [], tbl_stateCol = -1, tbl_parseWarn = Some NoSeparatorRow\<rparr>
          else
            let col = stateColumn 0 (-1) header in
            if col < 0 then
              Some \<lparr>tbl_header = header, tbl_rows = [], tbl_stateCol = -1, tbl_parseWarn = Some NoStateColumn\<rparr>
            else Some \<lparr>tbl_header = header, tbl_rows = map splitTableRow body, tbl_stateCol = col,
                   tbl_parseWarn = None\<rparr>
      | _ \<Rightarrow> None)"

definition headingMatches :: "string \<Rightarrow> string \<Rightarrow> bool" where
  "headingMatches line name =
     (let t = trim_space line in
      if \<not> has_prefix ''## '' t then False
      else let text = trim_space (trim_prefix ''## '' t) in
        text = name \<or> has_prefix (name @ '' '') text)"

fun sectionLines :: "string list \<Rightarrow> string list" where
  "sectionLines [] = []"
| "sectionLines (line # lines) =
     (if has_prefix ''## '' (trim_space line) then []
      else if has_prefix [pipe] (trim_space line) then trim_space line # sectionLines lines
      else sectionLines lines)"

definition workItemsTableOf :: "Artifact \<Rightarrow> workItemsTable option" where
  "workItemsTableOf a = (case ContentFields a of
       Some cf \<Rightarrow>
         (case map_of cf (SectionKey ''Work Items'') of
            Some (GString s) \<Rightarrow> parseWorkItemsLines (split_on newline s)
          | _ \<Rightarrow> None)
     | None \<Rightarrow>
         (case dropWhile (\<lambda>line. \<not> headingMatches line ''Work Items'') (BodyLines a) of
            [] \<Rightarrow> None
          | _ # rest \<Rightarrow> parseWorkItemsLines (sectionLines rest)))"

section \<open>Resolving a row\<close>

definition markerArtifact :: "string \<Rightarrow> string \<Rightarrow> string \<Rightarrow> Artifact" where
  "markerArtifact ns t i = emptyArtifact\<lparr>Type := t, ID := i, Namespace := ns\<rparr>"

definition bareReference :: "string \<Rightarrow> string \<Rightarrow> string \<Rightarrow> reference" where
  "bareReference ns t i = \<lparr>ref_Namespace = ns, ref_Type = t, ref_ID = i, ref_Version = 0, ref_HasVersion = False\<rparr>"

definition resolveWorkItemCell :: "engine \<Rightarrow> string \<Rightarrow> string \<Rightarrow> Artifact option" where
  "resolveWorkItemCell e cell ns =
     (if contains_char cell colon then
        (case parseReference cell ns '''' of
           Inl err \<Rightarrow> None
         | Inr ref \<Rightarrow>
             if \<not> IsWorkItemType (ref_Type ref) then None
             else if ckoResolve e \<noteq> None then
               (if resolveRef e ref then Some (markerArtifact ns (ref_Type ref) (ref_ID ref)) else None)
             else map_option (\<lambda>i. artifacts e ! i) (resolve e ref))
      else if ckoResolve e \<noteq> None then
        (case filter (\<lambda>t. resolveRef e (bareReference ns t cell)) workItemTypes of
           [t] \<Rightarrow> Some (markerArtifact ns t cell)
         | _ \<Rightarrow> None)
      else
        (case concat (map (\<lambda>t. byLine e (identityKey ns t cell)) workItemTypes) of
           [i] \<Rightarrow> Some (artifacts e ! i)
         | _ \<Rightarrow> None))"

definition compareRow :: "engine \<Rightarrow> Artifact \<Rightarrow> int \<Rightarrow> string list \<Rightarrow> proj_msg result list" where
  "compareRow e a col row =
     (if int (length row) \<le> col then [add_result a Rule8 SeverityWarning (RowShort row)]
      else
        let idCell = trim_space (hd row); stateCell = trim_space (row ! nat col) in
        if idCell = '''' \<or> stateCell = '''' then []
        else (case resolveWorkItemCell e idCell (Namespace a) of
            None \<Rightarrow> [add_result a Rule8 SeverityWarning (RowUnresolved idCell)]
          | Some target \<Rightarrow>
              if \<not> contains executionStateValues stateCell then
                [add_result a Rule8 SeverityWarning (RowInvalidState idCell stateCell)]
              else
                let owner = state_of target DomainExecutionState in
                if owner \<noteq> '''' \<and> owner \<noteq> stateCell then
                  [add_result a Rule8 SeverityWarning (RowMismatch stateCell idCell owner)]
                else []))"

definition compareWorkItemsTable :: "engine \<Rightarrow> Artifact \<Rightarrow> workItemsTable \<Rightarrow> proj_msg result list" where
  "compareWorkItemsTable e a tbl = (case tbl_parseWarn tbl of
       Some w \<Rightarrow> [add_result a Rule8 SeverityWarning (TableWarning w)]
     | None \<Rightarrow> concat (map (compareRow e a (tbl_stateCol tbl)) (tbl_rows tbl)))"

section \<open>The projection header\<close>

definition isHeaderLine :: "string \<Rightarrow> bool" where
  "isHeaderLine line = (trim_right_char carriage line = projectHeader)"

fun contentValueHasHeader :: "gvalue \<Rightarrow> bool" and contentMapHasHeader :: "(string \<times> gvalue) list \<Rightarrow> bool" where
  "contentValueHasHeader (GString t) = list_ex isHeaderLine (split_on newline t)"
| "contentValueHasHeader (GMap m) = contentMapHasHeader m"
| "contentValueHasHeader v = False"
| "contentMapHasHeader [] = False"
| "contentMapHasHeader ((k, v) # m) = (contentValueHasHeader v \<or> contentMapHasHeader m)"

definition hasProjectionHeader :: "Artifact \<Rightarrow> bool" where
  "hasProjectionHeader a = (case ContentFields a of
       Some cf \<Rightarrow> contentMapHasHeader cf
     | None \<Rightarrow> list_ex isHeaderLine (BodyLines a))"

definition ticketHasContainer :: "engine \<Rightarrow> Artifact \<Rightarrow> bool" where
  "ticketHasContainer e a = list_ex (\<lambda>raw. case parseReference raw (Namespace a) (Type a) of
       Inl err \<Rightarrow> False
     | Inr ref \<Rightarrow> ref_Type ref = ''ctr'' \<and> resolveRef e ref) (relation_of a ''derives-from'')"

definition rule8 :: "engine \<Rightarrow> Artifact \<Rightarrow> proj_msg result list" where
  "rule8 e a =
     (if Type a = ''tkt'' then
        (if \<not> hasProjectionHeader a then [add_result a Rule8 SeverityError TicketHeader] else []) @
        (if \<not> ticketHasContainer e a then [add_result a Rule8 SeverityError TicketContainer] else [])
      else if Type a = ''ctr'' then
        (case workItemsTableOf a of
           None \<Rightarrow> []
         | Some tbl \<Rightarrow>
             (if \<not> hasProjectionHeader a then [add_result a Rule8 SeverityError ContainerHeader] else []) @
             compareWorkItemsTable e a tbl)
      else [])"

section \<open>Rule 9\<close>

definition requiredSectionsFor :: "string \<Rightarrow> string list option" where
  "requiredSectionsFor t =
     (if List.member [''scp'', ''epc'', ''plan'', ''trc''] t then Some [''Objective'', ''Scope'', ''Out of Scope'']
      else if List.member [''sto'', ''ts'', ''ch''] t then Some [''Description'', ''Acceptance Criteria'']
      else if t = ''bug'' then Some [''Description'', ''Impact'']
      else if t = ''td'' then Some [''Description'', ''Acceptance Criteria'', ''Debt Rationale'']
      else if t = ''spk'' then Some [''Description'', ''Investigation Notes'', ''Conclusion'']
      else if List.member [''adr'', ''dec''] t then Some [''Context'', ''Decision'', ''Consequences'', ''Alternatives Considered'']
      else if List.member [''vis'', ''str'', ''req'', ''arc'', ''spec'', ''std'', ''run'', ''rel'', ''shr'', ''gls'', ''mbr''] t
        then Some [''Purpose'', ''Content'']
      else if t = ''fnd'' then Some [''Purpose'', ''Content'', ''Investigation Summary'', ''Conclusion'']
      else if t = ''rvw'' then Some [''Purpose'', ''Content'', ''Findings'', ''Action Items'']
      else if t = ''ctr'' then Some [''Objective'', ''Work Items'', ''Change Log'']
      else if t = ''tkt'' then Some [''Commands'', ''Projected Status'']
      else if t = ''ses'' then Some [''Context'', ''Notes'', ''Verification'']
      else None)"

definition hasSection :: "Artifact \<Rightarrow> string \<Rightarrow> bool" where
  "hasSection a section_name = (case ContentFields a of
       Some cf \<Rightarrow> has_key cf (SectionKey section_name)
     | None \<Rightarrow> list_ex (\<lambda>line. headingMatches line section_name) (BodyLines a))"

definition replaces :: "engine \<Rightarrow> Artifact \<Rightarrow> Artifact \<Rightarrow> bool" where
  "replaces e b a = list_ex (\<lambda>raw. case parseReference raw (Namespace b) (Type b) of
       Inl err \<Rightarrow> False
     | Inr ref \<Rightarrow> resolveRef e ref \<and> ref_Namespace ref = Namespace a \<and> ref_Type ref = Type a
         \<and> ref_ID ref = ID a \<and> (\<not> ref_HasVersion ref \<or> ref_Version ref = InstanceVersion a))
     (relation_of b ''supersedes'')"

definition hasReplacement :: "engine \<Rightarrow> nat \<Rightarrow> bool" where
  "hasReplacement e i = list_ex (\<lambda>j. j \<noteq> i \<and> replaces e (artifacts e ! j) (artifacts e ! i))
     [0..<length (artifacts e)]"

definition rule9 :: "engine \<Rightarrow> nat \<Rightarrow> proj_msg result list" where
  "rule9 e i =
     (let a = artifacts e ! i in
      (case requiredSectionsFor (Type a) of
         None \<Rightarrow> []
       | Some required \<Rightarrow> concat (map (\<lambda>s. if hasSection a s then []
             else [add_result a Rule9 SeverityError
                    (MissingSection (if ContentFields a = None then s else SectionKey s) (Type a))]) required)) @
      (if Type a = ''adr'' \<and> state_of a DomainContentState = ''superseded'' \<and> \<not> hasReplacement e i
       then [add_result a Rule9 SeverityError (SupersededWithoutReplacement (ID a))] else []))"

declare rule8_def [engine_defs] rule9_def [engine_defs]

section \<open>Printing and reading a table\<close>

definition renderRow :: "string list \<Rightarrow> string" where
  "renderRow cells = pipe # join_with [pipe] cells @ [pipe]"

definition renderTable :: "string list \<Rightarrow> string list list \<Rightarrow> string list" where
  "renderTable header rows =
     renderRow header # renderRow (map (\<lambda>h. ''---'') header) # map renderRow rows"

definition tableCells :: "string list \<Rightarrow> bool" where
  "tableCells cells = (cells \<noteq> [] \<and> list_all (\<lambda>c. trim_space c = c \<and> \<not> contains_char c pipe) cells)"

lemma plain_pipe: "plain_edge pipe"
  by (simp add: plain_edge_def space1_def)

lemma trim_renderRow [simp]: "trim_space (renderRow cells) = renderRow cells"
  unfolding renderRow_def by (rule trim_space_plain) (rule plain_pipe)+

lemma splitTableRow_render [simp]:
  assumes "tableCells cells"
  shows "splitTableRow (renderRow cells) = cells"
proof -
  have "trim_prefix [pipe] (renderRow cells) = join_with [pipe] cells @ [pipe]"
    using trim_prefix_append [of "[pipe]" "join_with [pipe] cells @ [pipe]"] by (simp add: renderRow_def)
  then have "splitTableRow (renderRow cells) = map trim_space (split_on pipe (join_with [pipe] cells))"
    by (simp add: splitTableRow_def)
  also have "split_on pipe (join_with [pipe] cells) = cells"
    using assms by (intro split_on_join) (auto simp: tableCells_def list_all_iff)
  also have "map trim_space cells = cells"
    using assms by (auto simp: tableCells_def list_all_iff intro: map_idI)
  finally show ?thesis .
qed

lemma separatorCells_dashes: "separatorCells (map (\<lambda>h. ''---'') hs) any \<longleftrightarrow> any \<or> hs \<noteq> []"
  by (induction hs arbitrary: any) (auto simp: trim_char_def trim_right_char_def Let_def)

lemma isTableSeparator_render: "header \<noteq> [] \<Longrightarrow> isTableSeparator (renderRow (map (\<lambda>h. ''---'') header))"
  unfolding isTableSeparator_def
  by (subst splitTableRow_render)
    (auto simp: separatorCells_dashes tableCells_def list_all_iff trim_space_def trim_left_def trim_right_def
      space1_def space2_def space3_def)

lemma stateColumn_none: "list_all (\<lambda>n. \<not> isStateHeader n) names \<Longrightarrow> stateColumn i col names = col"
  by (induction names arbitrary: i) auto

lemma stateColumn_last:
  "isStateHeader h \<Longrightarrow> list_all (\<lambda>n. \<not> isStateHeader n) post \<Longrightarrow>
   stateColumn i col (pre @ h # post) = i + int (length pre)"
  by (induction pre arbitrary: i col) (auto simp: stateColumn_none)

text \<open>A printed work items table is read back unchanged: for trimmed cells without
  pipe, printing header, separator and rows and parsing the lines gives the same header
  and rows, with the state column at the last header that names the execution state.\<close>

lemma work_items_table_roundtrip:
  assumes "tableCells (pre @ h # post)" and "list_all tableCells rows"
    and "isStateHeader h" and "list_all (\<lambda>n. \<not> isStateHeader n) post"
  shows "parseWorkItemsLines (renderTable (pre @ h # post) rows) =
    Some \<lparr>tbl_header = pre @ h # post, tbl_rows = rows, tbl_stateCol = int (length pre), tbl_parseWarn = None\<rparr>"
proof -
  let ?header = "pre @ h # post"
  have pre: "has_prefix [pipe] (renderRow cells)" for cells by (simp add: renderRow_def)
  have lines: "filter (has_prefix [pipe]) (map trim_space (renderTable ?header rows)) = renderTable ?header rows"
    by (simp add: renderTable_def pre comp_def del: map_append list.map(2))
      (simp add: pre)
  have "map splitTableRow (map renderRow rows) = rows"
    using assms(2) by (simp add: list_all_iff map_idI)
  then show ?thesis
    unfolding parseWorkItemsLines_def lines
    using assms isTableSeparator_render [of ?header] stateColumn_last [OF assms(3,4), of 0 "-1" pre]
    by (simp add: renderTable_def Let_def del: map_append)
qed

lemma work_items_table_roundtrip_witness:
  "parseWorkItemsLines (renderTable [''Item'', ''Execution-State'', ''Owner''] [[''sto:a'', ''todo'', ''x''], [''b'', ''done'', ''y'']]) =
    Some \<lparr>tbl_header = [''Item'', ''Execution-State'', ''Owner''], tbl_rows = [[''sto:a'', ''todo'', ''x''], [''b'', ''done'', ''y'']],
      tbl_stateCol = 1, tbl_parseWarn = None\<rparr>"
proof -
  have "tableCells ([''Item''] @ ''Execution-State'' # [''Owner''])"
    "list_all tableCells [[''sto:a'', ''todo'', ''x''], [''b'', ''done'', ''y'']]"
    "isStateHeader ''Execution-State''" "list_all (\<lambda>n. \<not> isStateHeader n) [''Owner'']"
    by code_simp+
  from work_items_table_roundtrip [OF this] show ?thesis by simp
qed

section \<open>What blocks\<close>

lemma compareRow_warns: "list_all (\<lambda>r. res_Severity r = SeverityWarning) (compareRow e a col row)"
  by (auto simp: compareRow_def Let_def split: option.splits)

lemma compareTable_warns: "list_all (\<lambda>r. res_Severity r = SeverityWarning) (compareWorkItemsTable e a tbl)"
  using compareRow_warns [of e a "tbl_stateCol tbl"]
  by (auto simp: compareWorkItemsTable_def list_all_iff split: option.splits)

lemma compareTable_errors:
  "filter (\<lambda>r. res_Severity r = SeverityError) (compareWorkItemsTable e a tbl) = []"
  using compareTable_warns [of e a tbl] by (induction "compareWorkItemsTable e a tbl") (auto simp: list_all_iff filter_empty_conv)

text \<open>The contents of a projection never block: the errors of Rule 8 are exactly a
  ticket's missing header, a ticket without a resolving container reference, and a
  container that has a table but no header; every finding about a table or a row
  (unparsable, short, unresolved, invalid or drifted from the owner's state) is a warning.\<close>

lemma rule8_errors_exactly:
  "filter (\<lambda>r. res_Severity r = SeverityError) (rule8 e a) =
     (if Type a = ''tkt'' then
        (if hasProjectionHeader a then [] else [add_result a Rule8 SeverityError TicketHeader]) @
        (if ticketHasContainer e a then [] else [add_result a Rule8 SeverityError TicketContainer])
      else if Type a = ''ctr'' \<and> workItemsTableOf a \<noteq> None \<and> \<not> hasProjectionHeader a
        then [add_result a Rule8 SeverityError ContainerHeader]
      else [])"
proof (cases "Type a = ''tkt''")
  case True
  then show ?thesis by (simp add: rule8_def)
next
  case False
  then show ?thesis
    by (cases "Type a = ''ctr''"; cases "workItemsTableOf a")
      (simp_all only: rule8_def if_False if_True filter_append compareTable_errors append_Nil2 option.case
        filter.simps if_distrib [of "filter (\<lambda>r. res_Severity r = SeverityError)"] add_result_simps
        simp_thms option.distinct if_cancel list.inject if_not_P cong: if_cong)
qed

end
