(* ===== verification/Graph_Search.thy ===== *)
theory Graph_Search
  imports Prelude
begin

text \<open>
  The worklist walk the source writes in several places (\<open>rule10\<close> of
  \<open>conformance/rules_domain.go\<close>, \<open>planClosure\<close> of \<open>runtime/transition.go\<close>): a queue and a
  visited set, each popped node's successors inspected in order, an early return when one
  of them satisfies the goal.  The walk is given fuel for its iterations; the locale
  \<open>search_space\<close> proves that the number of nodes is enough and that the walk is sound and
  complete for reachability.
\<close>

fun bfs_scan :: "('a \<Rightarrow> bool) \<Rightarrow> 'a list \<Rightarrow> 'a list \<Rightarrow> 'a list \<Rightarrow> ('a list \<times> 'a list) option" where
  "bfs_scan goal [] visited queue = Some (visited, queue)"
| "bfs_scan goal (t # ts) visited queue =
     (if List.member visited t then bfs_scan goal ts visited queue
      else if goal t then None
      else bfs_scan goal ts (visited @ [t]) (queue @ [t]))"

text \<open>\<open>bfs\<close> returns None when the fuel runs out, \<open>Some None\<close> when a goal was met, and
  \<open>Some (Some visited)\<close> with every node reached otherwise.\<close>

fun bfs :: "nat \<Rightarrow> ('a \<Rightarrow> 'a list) \<Rightarrow> ('a \<Rightarrow> bool) \<Rightarrow> 'a list \<Rightarrow> 'a list \<Rightarrow> 'a list option option" where
  "bfs fuel succs goal visited [] = Some (Some visited)"
| "bfs 0 succs goal visited (cur # queue) = None"
| "bfs (Suc fuel) succs goal visited (cur # queue) =
     (case bfs_scan goal (succs cur) visited queue of
        None \<Rightarrow> Some None
      | Some (visited', queue') \<Rightarrow> bfs fuel succs goal visited' queue')"

lemma bfs_scan_None:
  "bfs_scan goal ts visited queue = None \<Longrightarrow> \<exists>t \<in> set ts. t \<notin> set visited \<and> goal t"
  by (induction goal ts visited queue rule: bfs_scan.induct) (auto split: if_splits)

lemma bfs_scan_Some:
  "bfs_scan goal ts visited queue = Some (v, q) \<Longrightarrow>
   \<exists>new. v = visited @ new \<and> q = queue @ new \<and> distinct new \<and> set new \<inter> set visited = {}
     \<and> set new = set ts - set visited \<and> (\<forall>t \<in> set new. \<not> goal t)"
proof (induction goal ts visited queue rule: bfs_scan.induct)
  case (2 goal t ts visited queue)
  show ?case
  proof (cases "t \<in> set visited")
    case True
    then show ?thesis using 2 by (auto split: if_splits)
  next
    case False
    with 2(3) have ng: "\<not> goal t" by (auto split: if_splits)
    with False 2 obtain new where new: "v = (visited @ [t]) @ new" "q = (queue @ [t]) @ new"
      "distinct new" "set new \<inter> set (visited @ [t]) = {}" "set new = set ts - set (visited @ [t])"
      "\<forall>t \<in> set new. \<not> goal t"
      by auto
    show ?thesis
    proof (intro exI conjI)
      show "v = visited @ (t # new)" "q = queue @ (t # new)" using new by simp_all
      show "distinct (t # new)" "set (t # new) \<inter> set visited = {}" using new False by auto
      show "set (t # new) = set (t # ts) - set visited" using new False by auto
      show "\<forall>x \<in> set (t # new). \<not> goal x" using new ng by auto
    qed
  qed
qed simp

locale search_space =
  fixes succs :: "'a \<Rightarrow> 'a list" and space :: "'a set"
  assumes finite_space: "finite space"
    and succs_in_space: "x \<in> space \<Longrightarrow> set (succs x) \<subseteq> space"
begin

definition edge :: "'a \<Rightarrow> 'a \<Rightarrow> bool" where
  "edge x y \<longleftrightarrow> y \<in> set (succs x)"

definition walk_inv :: "('a \<Rightarrow> bool) \<Rightarrow> 'a \<Rightarrow> 'a list \<Rightarrow> 'a list \<Rightarrow> bool" where
  "walk_inv goal root visited queue \<longleftrightarrow>
     root \<in> set visited \<and> set visited \<subseteq> space \<and> distinct visited \<and> set queue \<subseteq> set visited
     \<and> (\<forall>x \<in> set visited. edge\<^sup>*\<^sup>* root x) \<and> (\<forall>x \<in> set visited. x = root \<or> \<not> goal x)
     \<and> (\<forall>x \<in> set visited - set queue. set (succs x) \<subseteq> set visited)"

lemma walk_inv_step:
  assumes "walk_inv goal root visited (cur # queue)"
    and "bfs_scan goal (succs cur) visited queue = Some (v, q)"
  shows "walk_inv goal root v q"
    and "card (space - set v) + length q = card (space - set visited) + length queue"
proof -
  from assms(2) obtain new where new: "v = visited @ new" "q = queue @ new" "distinct new"
    "set new \<inter> set visited = {}" "set new = set (succs cur) - set visited" "\<forall>t \<in> set new. \<not> goal t"
    using bfs_scan_Some by metis
  have cur: "cur \<in> set visited" "edge\<^sup>*\<^sup>* root cur" using assms(1) by (auto simp: walk_inv_def)
  note inv = assms(1) [unfolded walk_inv_def]
  have reach: "edge\<^sup>*\<^sup>* root x" if "x \<in> set new" for x
    using cur(2) that new(5) by (auto simp: edge_def intro: rtranclp.rtrancl_into_rtrancl)
  have "set (succs cur) \<subseteq> space" using cur(1) succs_in_space inv by blast
  then have ns: "set new \<subseteq> space" using new(5) by blast
  have closed: "set (succs x) \<subseteq> set v" if "x \<in> set v - set q" for x
  proof (cases "x = cur")
    case True then show ?thesis using new(1,5) by auto
  next
    case False
    then have "x \<in> set visited - set (cur # queue)" using that new(1,2) by auto
    then show ?thesis using inv new(1) by fastforce
  qed
  show "walk_inv goal root v q"
    unfolding walk_inv_def
  proof (intro conjI)
    show "root \<in> set v" "set v \<subseteq> space" "distinct v" "set q \<subseteq> set v"
      using inv new ns by auto
    show "\<forall>x \<in> set v. edge\<^sup>*\<^sup>* root x" using inv reach new(1) by auto
    show "\<forall>x \<in> set v. x = root \<or> \<not> goal x" using inv new(1,6) by auto
    show "\<forall>x \<in> set v - set q. set (succs x) \<subseteq> set v" using closed by blast
  qed
  have "set new \<subseteq> space - set visited" using ns new(4) by blast
  moreover have "space - set v = (space - set visited) - set new" using new(1) by auto
  ultimately have "card (space - set v) = card (space - set visited) - card (set new)"
    "card (set new) \<le> card (space - set visited)"
    using finite_space by (simp_all add: card_Diff_subset card_mono)
  then show "card (space - set v) + length q = card (space - set visited) + length queue"
    using new(2,3) by (simp add: distinct_card)
qed

lemma walk_inv_done:
  assumes "walk_inv goal root visited []"
  shows "set visited = {y. edge\<^sup>*\<^sup>* root y} \<and> distinct visited \<and> (\<forall>y \<in> set visited. y = root \<or> \<not> goal y)"
proof -
  have "x \<in> set visited" if "edge\<^sup>*\<^sup>* root x" for x
    using that
  proof induction
    case base show ?case using assms by (simp add: walk_inv_def)
  next
    case (step y z) then show ?case using assms by (auto simp: walk_inv_def edge_def)
  qed
  then show ?thesis using assms by (auto simp: walk_inv_def)
qed

lemma bfs_spec:
  assumes "walk_inv goal root visited queue" "card (space - set visited) + length queue \<le> fuel"
  shows "case bfs fuel succs goal visited queue of
      None \<Rightarrow> False
    | Some None \<Rightarrow> \<exists>y. edge\<^sup>*\<^sup>* root y \<and> y \<noteq> root \<and> goal y
    | Some (Some v) \<Rightarrow> set v = {y. edge\<^sup>*\<^sup>* root y} \<and> distinct v \<and> (\<forall>y \<in> set v. y = root \<or> \<not> goal y)"
  using assms
proof (induction fuel arbitrary: visited queue)
  case 0
  then have "queue = []" and inv: "walk_inv goal root visited []" by auto
  then show ?case using walk_inv_done [OF inv] by simp
next
  case (Suc fuel)
  show ?case
  proof (cases queue)
    case Nil
    then show ?thesis using walk_inv_done Suc.prems(1) by simp
  next
    case (Cons cur rest)
    note inv = Suc.prems(1) [unfolded Cons]
    show ?thesis
    proof (cases "bfs_scan goal (succs cur) visited rest")
      case None
      then obtain t where t: "t \<in> set (succs cur)" "t \<notin> set visited" "goal t"
        using bfs_scan_None by metis
      have "edge\<^sup>*\<^sup>* root cur" "root \<in> set visited" using inv by (auto simp: walk_inv_def)
      with t have "edge\<^sup>*\<^sup>* root t" "t \<noteq> root"
        by (auto simp: edge_def intro: rtranclp.rtrancl_into_rtrancl)
      then show ?thesis using None Cons t by auto
    next
      case (Some p)
      obtain v q where p: "p = (v, q)" by (cases p)
      note st = walk_inv_step [OF inv Some [unfolded p]]
      have "card (space - set v) + length q \<le> fuel" using st(2) Suc.prems(2) Cons by simp
      from Suc.IH [OF st(1) this] show ?thesis using Cons Some p by simp
    qed
  qed
qed

lemma walk_inv_start: "root \<in> space \<Longrightarrow> walk_inv goal root [root] [root]"
  by (auto simp: walk_inv_def)

lemma bfs_complete:
  assumes "root \<in> space" "card space \<le> fuel"
  shows "\<exists>r. bfs fuel succs goal [root] [root] = Some r
     \<and> (r = None \<longrightarrow> (\<exists>y. edge\<^sup>*\<^sup>* root y \<and> y \<noteq> root \<and> goal y))
     \<and> (\<forall>v. r = Some v \<longrightarrow> set v = {y. edge\<^sup>*\<^sup>* root y} \<and> distinct v \<and> (\<forall>y \<in> set v. y = root \<or> \<not> goal y))"
proof -
  have "card (space - set [root]) + length [root] \<le> fuel"
    using assms finite_space by (simp add: card_Diff_singleton) (metis Suc_pred card_gt_0_iff empty_iff)
  from bfs_spec [OF walk_inv_start [OF assms(1)] this, of goal] show ?thesis
    by (auto split: option.splits)
qed

end

section \<open>A walk over a fallible source\<close>

text \<open>The queue loop: None out of fuel, \<open>Some None\<close> a read error.\<close>

fun closureWalk :: "nat \<Rightarrow> ('a \<Rightarrow> 'a list option) \<Rightarrow> 'a list \<Rightarrow> 'a list \<Rightarrow> 'a list option option" where
  "closureWalk fuel targets closure [] = Some (Some closure)"
| "closureWalk 0 targets closure (line # queue) = None"
| "closureWalk (Suc fuel) targets closure (line # queue) =
     (if List.member closure line then closureWalk fuel targets closure queue
      else (case targets line of
          None \<Rightarrow> Some None
        | Some ts \<Rightarrow> closureWalk fuel targets (closure @ [line])
            (queue @ filter (\<lambda>t. \<not> List.member (closure @ [line]) t) ts)))"

locale demand_walk =
  fixes targets :: "'a \<Rightarrow> 'a list option" and space :: "'a set" and bound :: nat
  assumes finite_lines: "finite space"
    and targets_in_space: "x \<in> space \<Longrightarrow> targets x = Some ts \<Longrightarrow> set ts \<subseteq> space \<and> length ts \<le> bound"
begin

definition link :: "'a \<Rightarrow> 'a \<Rightarrow> bool" where
  "link x y \<longleftrightarrow> (\<exists>ts. targets x = Some ts \<and> y \<in> set ts)"

definition closure_inv :: "'a \<Rightarrow> 'a list \<Rightarrow> 'a list \<Rightarrow> bool" where
  "closure_inv start closure queue \<longleftrightarrow> distinct closure \<and> start \<in> set closure \<union> set queue
     \<and> set closure \<union> set queue \<subseteq> space
     \<and> (\<forall>y \<in> set closure \<union> set queue. link\<^sup>*\<^sup>* start y)
     \<and> (\<forall>y \<in> set closure. \<exists>ts. targets y = Some ts \<and> set ts \<subseteq> set closure \<union> set queue)"

lemma closure_inv_done:
  assumes "closure_inv start closure []"
  shows "set closure = {y. link\<^sup>*\<^sup>* start y} \<and> distinct closure"
proof -
  have "y \<in> set closure" if "link\<^sup>*\<^sup>* start y" for y
    using that
  proof induction
    case base show ?case using assms by (simp add: closure_inv_def)
  next
    case (step y z) then show ?case using assms by (fastforce simp: closure_inv_def link_def)
  qed
  then show ?thesis using assms by (auto simp: closure_inv_def)
qed

lemma closure_inv_skip: "closure_inv start closure (l # queue) \<Longrightarrow> l \<in> set closure \<Longrightarrow> closure_inv start closure queue"
  unfolding closure_inv_def by (auto simp: insert_absorb)

lemma closure_inv_step:
  assumes inv: "closure_inv start closure (l # queue)" and new: "l \<notin> set closure" and ts: "targets l = Some ts"
  shows "closure_inv start (closure @ [l]) (queue @ filter (\<lambda>t. \<not> List.member (closure @ [l]) t) ts)"
proof -
  have l: "l \<in> space" "link\<^sup>*\<^sup>* start l" using inv by (auto simp: closure_inv_def)
  have reach: "link\<^sup>*\<^sup>* start t" if "t \<in> set ts" for t
    using l(2) that ts by (auto simp: link_def intro: rtranclp.rtrancl_into_rtrancl)
  have sp: "set ts \<subseteq> space" using targets_in_space [OF l(1) ts] by simp
  let ?q = "queue @ filter (\<lambda>t. \<not> List.member (closure @ [l]) t) ts"
  have all: "set (closure @ [l]) \<union> set ?q = set closure \<union> set (l # queue) \<union> set ts" by auto
  note inv' = inv [unfolded closure_inv_def]
  have "\<forall>y \<in> set (closure @ [l]). \<exists>ts. targets y = Some ts \<and> set ts \<subseteq> set (closure @ [l]) \<union> set ?q"
    unfolding all
  proof
    fix y assume "y \<in> set (closure @ [l])"
    then consider "y \<in> set closure" | "y = l" by auto
    then show "\<exists>ts'. targets y = Some ts' \<and> set ts' \<subseteq> set closure \<union> set (l # queue) \<union> set ts"
    proof cases
      case 1
      then obtain us where "targets y = Some us" "set us \<subseteq> set closure \<union> set (l # queue)" using inv' by blast
      then show ?thesis by (intro exI [of _ us]) blast
    next
      case 2
      then show ?thesis using ts by blast
    qed
  qed
  moreover have "distinct (closure @ [l])" using inv' new by simp
  moreover have "start \<in> set closure \<union> set (l # queue) \<union> set ts" using inv' by blast
  moreover have "set closure \<union> set (l # queue) \<union> set ts \<subseteq> space" using inv' sp by blast
  moreover have "\<forall>y \<in> set closure \<union> set (l # queue) \<union> set ts. link\<^sup>*\<^sup>* start y" using inv' reach by blast
  ultimately show ?thesis unfolding closure_inv_def all by blast
qed

definition closure_result :: "'a \<Rightarrow> 'a list option option \<Rightarrow> bool" where
  "closure_result start res \<longleftrightarrow> (\<exists>r. res = Some r
     \<and> (r = None \<longrightarrow> (\<exists>y. link\<^sup>*\<^sup>* start y \<and> targets y = None))
     \<and> (\<forall>c. r = Some c \<longrightarrow> set c = {y. link\<^sup>*\<^sup>* start y} \<and> distinct c))"

lemma closure_result_done: "closure_inv start closure [] \<Longrightarrow> closure_result start (Some (Some closure))"
  unfolding closure_result_def using closure_inv_done by blast

lemma closure_result_error: "link\<^sup>*\<^sup>* start y \<Longrightarrow> targets y = None \<Longrightarrow> closure_result start (Some None)"
  unfolding closure_result_def by blast

lemma closure_inv_head: "closure_inv start closure (l # queue) \<Longrightarrow> l \<in> space \<and> link\<^sup>*\<^sup>* start l"
  unfolding closure_inv_def by simp

lemma closure_fuel:
  assumes "l \<in> space" "l \<notin> set closure" "targets l = Some ts"
    and "length (l # rest) + card (space - set closure) * bound \<le> Suc fuel"
  shows "length (rest @ filter P ts) + card (space - set (closure @ [l])) * bound \<le> fuel"
proof -
  have "space - set (closure @ [l]) = (space - set closure) - {l}" by auto
  moreover have "finite (space - set closure)" "l \<in> space - set closure" using assms(1,2) finite_lines by auto
  ultimately have "card (space - set closure) = Suc (card (space - set (closure @ [l])))"
    by (metis card.remove)
  then have "card (space - set closure) * bound = bound + card (space - set (closure @ [l])) * bound" by simp
  moreover have "length (filter P ts) \<le> length ts" by (rule length_filter_le)
  moreover have "length ts \<le> bound" using targets_in_space [OF assms(1,3)] by simp
  ultimately show ?thesis using assms(4) unfolding length_append list.size by linarith
qed

lemma closureWalk_spec:
  "closure_inv start closure queue \<Longrightarrow> length queue + card (space - set closure) * bound \<le> fuel \<Longrightarrow>
     closure_result start (closureWalk fuel targets closure queue)"
proof (induction fuel arbitrary: closure queue)
  case 0
  then have q: "queue = []" by simp
  from closure_result_done [OF "0.prems"(1) [unfolded q]] show ?case unfolding q by simp
next
  case (Suc fuel)
  show ?case
  proof (cases queue)
    case Nil
    from closure_result_done [OF Suc.prems(1) [unfolded Nil]] show ?thesis unfolding Nil by simp
  next
    case (Cons l rest)
    note inv = Suc.prems(1) [unfolded Cons] and fuel = Suc.prems(2) [unfolded Cons]
    show ?thesis
    proof (cases "l \<in> set closure")
      case True
      have "length rest + card (space - set closure) * bound \<le> fuel" using fuel by simp
      from Suc.IH [OF closure_inv_skip [OF inv True] this] show ?thesis unfolding Cons using True by simp
    next
      case False
      note l = closure_inv_head [OF inv]
      show ?thesis
      proof (cases "targets l")
        case None
        with closure_result_error [of start l] l False show ?thesis unfolding Cons by simp
      next
        case (Some ts)
        from Suc.IH [OF closure_inv_step [OF inv False Some] closure_fuel [OF conjunct1 [OF l] False Some fuel]]
        show ?thesis unfolding Cons using Some False by simp
      qed
    qed
  qed
qed

lemma closureWalk_exact:
  assumes "start \<in> space" "1 + card space * bound \<le> fuel"
  shows "closure_result start (closureWalk fuel targets [] [start])"
  by (rule closureWalk_spec) (use assms in \<open>auto simp: closure_inv_def\<close>)

end

end
