(* ===== verification/Rules_Domain.thy ===== *)
theory Rules_Domain
  imports Rules_Core Graph_Search
begin

text \<open>
  Rules R10 to R12 of \<open>conformance/rules_domain.go\<close>: stratification traceability, domain
  coherence and the prohibition of supersession up the authority chain.  The walk of
  Rule 10 is the worklist search of \<open>Graph_Search\<close> over positions of the analyzed list,
  with fuel the number of artifacts, which its locale proves sufficient.
\<close>

datatype domain_msg =
    NoTraceChain domain "domain list"
  | UnknownDomain string "string list"
  | DomainMismatch string domain string
  | CrossStratum string string domain domain

definition artifactIdentityForm :: "Artifact \<Rightarrow> string" where
  "artifactIdentityForm a = Namespace a @ ''/'' @ Type a @ '':'' @ ID a @ '':'' @ itoa (InstanceVersion a)"

section \<open>Rule 10\<close>

definition exemptFromTrace :: "Artifact \<Rightarrow> bool" where
  "exemptFromTrace a = (List.member [''tkt'', ''ses'', ''cmt'', ''mbr''] (Type a)
     \<or> state_of a DomainContentState = ''draft'')"

definition knownTarget :: "engine \<Rightarrow> Artifact \<Rightarrow> string \<Rightarrow> nat option" where
  "knownTarget e cur raw = (case parseReference raw (Namespace cur) (Type cur) of
       Inl err \<Rightarrow> None
     | Inr ref \<Rightarrow>
         (case resolve e ref of
            None \<Rightarrow> None
          | Some target \<Rightarrow>
              if DomainForToken (Type (artifacts e ! target)) = None then None else Some target))"

definition chainTargets :: "engine \<Rightarrow> nat \<Rightarrow> nat list" where
  "chainTargets e i = (let cur = artifacts e ! i in
     concat (map (\<lambda>field. List.map_filter (knownTarget e cur) (relation_of cur field))
       [''derives-from'', ''depends-on'']))"

definition aboveStratum :: "engine \<Rightarrow> domain \<Rightarrow> nat \<Rightarrow> bool" where
  "aboveStratum e home j = (case DomainForToken (Type (artifacts e ! j)) of
       None \<Rightarrow> False | Some d \<Rightarrow> Stratum d < Stratum home)"

definition rule10 :: "engine \<Rightarrow> nat \<Rightarrow> domain_msg result list" where
  "rule10 e i =
     (let a = artifacts e ! i in
      if \<not> IsKnownType (Type a) then []
      else case DomainForToken (Type a) of
        None \<Rightarrow> []
      | Some home \<Rightarrow>
          if Stratum home = 1 then []
          else if exemptFromTrace a then []
          else (case bfs (length (artifacts e)) (chainTargets e) (aboveStratum e home) [i] [i] of
              Some None \<Rightarrow> []
            | _ \<Rightarrow> [add_result a Rule10 SeverityWarning (NoTraceChain home (StrataAbove home))]))"

section \<open>Rules 11 and 12\<close>

definition rule11 :: "engine \<Rightarrow> Artifact \<Rightarrow> domain_msg result list" where
  "rule11 e a =
     (if DeclaredDomain a = '''' then []
      else if \<not> IsKnownType (Type a) then []
      else if \<not> IsDomain (DeclaredDomain a) then
        [add_result a Rule11 SeverityError (UnknownDomain (DeclaredDomain a) DomainNames)]
      else if Type a = ''cmt'' then []
      else (case DomainForToken (Type a) of
          None \<Rightarrow> []
        | Some home \<Rightarrow>
            if DeclaredDomain a \<noteq> domain_string home then
              [add_result a Rule11 SeverityError (DomainMismatch (DeclaredDomain a) home (Type a))]
            else []))"

definition rule12Reference :: "engine \<Rightarrow> Artifact \<Rightarrow> domain \<Rightarrow> string \<Rightarrow> string \<Rightarrow> domain_msg result list" where
  "rule12Reference e a home field raw = (case parseReference raw (Namespace a) (Type a) of
       Inl err \<Rightarrow> []
     | Inr ref \<Rightarrow>
         (case resolve e ref of
            None \<Rightarrow> []
          | Some target \<Rightarrow>
              (case DomainForToken (Type (artifacts e ! target)) of
                 None \<Rightarrow> []
               | Some targetDomain \<Rightarrow>
                   if Stratum targetDomain < Stratum home then
                     [add_result a Rule12 SeverityError
                       (CrossStratum field (artifactIdentityForm (artifacts e ! target)) targetDomain home)]
                   else [])))"

definition rule12 :: "engine \<Rightarrow> nat \<Rightarrow> domain_msg result list" where
  "rule12 e i =
     (let a = artifacts e ! i in
      if \<not> IsKnownType (Type a) then []
      else case DomainForToken (Type a) of
        None \<Rightarrow> []
      | Some home \<Rightarrow> concat (map (\<lambda>field. concat (map (rule12Reference e a home field) (relation_of a field)))
          [''supersedes'', ''amends'']))"

declare rule10_def [engine_defs] rule11_def [engine_defs] rule12_def [engine_defs]

section \<open>The walk\<close>

definition indexedEngine :: "engine \<Rightarrow> bool" where
  "indexedEngine e \<longleftrightarrow> byLine e = buildIndex (artifacts e)"

lemma indexed_repository [simp]: "indexedEngine (repositoryEngine arts)"
  by (simp add: indexedEngine_def)

lemma indexed_publish [simp]: "indexedEngine (publishEngine a f)"
  by (simp add: indexedEngine_def publishEngine_def)

lemma resolve_bound: "indexedEngine e \<Longrightarrow> resolve e ref = Some j \<Longrightarrow> j < length (artifacts e)"
  using index.resolve_sound by (auto simp: indexedEngine_def resolve_def)

lemma chainTargets_iff:
  "j \<in> set (chainTargets e i) \<longleftrightarrow>
     (\<exists>field \<in> {''derives-from'', ''depends-on''}. \<exists>raw \<in> set (relation_of (artifacts e ! i) field).
        \<exists>ref. parseReference raw (Namespace (artifacts e ! i)) (Type (artifacts e ! i)) = Inr ref
          \<and> resolve e ref = Some j \<and> DomainForToken (Type (artifacts e ! j)) \<noteq> None)"
proof -
  have "knownTarget e cur raw = Some j \<longleftrightarrow>
      (\<exists>ref. parseReference raw (Namespace cur) (Type cur) = Inr ref
          \<and> resolve e ref = Some j \<and> DomainForToken (Type (artifacts e ! j)) \<noteq> None)" for cur raw
    by (auto simp: knownTarget_def split: sum.splits option.splits if_splits)
  then show ?thesis by (simp add: chainTargets_def Let_def set_map_filter_iff)
qed

interpretation trace: search_space "chainTargets (repositoryEngine arts)" "{0..<length arts}" for arts
proof unfold_locales
  fix x assume "x \<in> {0..<length arts}"
  show "set (chainTargets (repositoryEngine arts) x) \<subseteq> {0..<length arts}"
    using resolve_bound [OF indexed_repository] by (fastforce simp: chainTargets_iff)
qed simp

text \<open>The chain of Rule 10: references along derives-from and depends-on, each resolving to
  an artifact of a known type.\<close>

inductive trace_chain :: "Artifact list \<Rightarrow> nat \<Rightarrow> nat \<Rightarrow> bool" for arts where
  chain_self: "trace_chain arts i i"
| chain_ref: "trace_chain arts i j \<Longrightarrow> field \<in> {''derives-from'', ''depends-on''} \<Longrightarrow>
     raw \<in> set (relation_of (arts ! j) field) \<Longrightarrow>
     parseReference raw (Namespace (arts ! j)) (Type (arts ! j)) = Inr ref \<Longrightarrow>
     resolveIn arts (buildIndex arts) ref = Some k \<Longrightarrow>
     DomainForToken (Type (arts ! k)) \<noteq> None \<Longrightarrow> trace_chain arts i k"

lemma trace_chain_edges: "(trace.edge arts)\<^sup>*\<^sup>* i j \<longleftrightarrow> trace_chain arts i j"
proof
  assume "(trace.edge arts)\<^sup>*\<^sup>* i j"
  then show "trace_chain arts i j"
  proof induction
    case base show ?case by (rule chain_self)
  next
    case (step y z)
    from step.hyps(2) have "z \<in> set (chainTargets (repositoryEngine arts) y)"
      by (simp add: trace.edge_def)
    then show ?case using step.IH
      by (auto simp: chainTargets_iff resolve_def intro: chain_ref)
  qed
next
  assume "trace_chain arts i j"
  then show "(trace.edge arts)\<^sup>*\<^sup>* i j"
  proof induction
    case (chain_ref i j field raw ref k)
    then have "k \<in> set (chainTargets (repositoryEngine arts) j)"
      by (simp only: chainTargets_iff repositoryEngine_simps resolve_def) blast
    then show ?case using chain_ref.IH
      by (auto simp: trace.edge_def intro: rtranclp.rtrancl_into_rtrancl)
  qed simp
qed

lemma rule10_decides:
  assumes "i < length arts" and "DomainForToken (Type (arts ! i)) = Some home"
    and "home \<noteq> Discovery" and "\<not> exemptFromTrace (arts ! i)"
  shows "rule10 (repositoryEngine arts) i =
     (if \<exists>j d. trace_chain arts i j \<and> DomainForToken (Type (arts ! j)) = Some d \<and> Stratum d < Stratum home
      then [] else [add_result (arts ! i) Rule10 SeverityWarning (NoTraceChain home (StrataAbove home))])"
proof -
  let ?goal = "aboveStratum (repositoryEngine arts) home"
  have k: "IsKnownType (Type (arts ! i))" "Stratum home \<noteq> 1"
    using assms(2,3) known_type_has_domain Discovery_top by auto
  have goal: "?goal j \<longleftrightarrow> (\<exists>d. DomainForToken (Type (arts ! j)) = Some d \<and> Stratum d < Stratum home)" for j
    by (auto simp: aboveStratum_def split: option.splits)
  have self: "\<not> ?goal i" using assms(2) by (simp add: goal)
  obtain r where r: "bfs (length arts) (chainTargets (repositoryEngine arts)) ?goal [i] [i] = Some r"
    "r = None \<longrightarrow> (\<exists>y. (trace.edge arts)\<^sup>*\<^sup>* i y \<and> y \<noteq> i \<and> ?goal y)"
    "\<forall>v. r = Some v \<longrightarrow> set v = {y. (trace.edge arts)\<^sup>*\<^sup>* i y} \<and> distinct v \<and> (\<forall>y \<in> set v. y = i \<or> \<not> ?goal y)"
    using trace.bfs_complete [of i arts "length arts" ?goal] assms(1) by auto
  have "r = None \<longleftrightarrow> (\<exists>j. trace_chain arts i j \<and> ?goal j)"
    using r(2,3) self by (cases r) (auto simp: trace_chain_edges)
  then show ?thesis
    using k assms(2,4) r(1) by (cases r) (auto simp: rule10_def Let_def goal)
qed

lemma publishEngine_simps [simp]:
  "artifacts (publishEngine a f) = [a]" "byLine (publishEngine a f) = buildIndex [a]"
  by (simp_all add: publishEngine_def)

lemma resolve_publish [simp]: "resolve (publishEngine a f) = resolve (repositoryEngine [a])"
  by (simp add: fun_eq_iff resolve_def)

lemma publish_targets:
  "chainTargets (publishEngine a f) = chainTargets (repositoryEngine [a])"
  "aboveStratum (publishEngine a f) = aboveStratum (repositoryEngine [a])"
proof -
  have "knownTarget (publishEngine a f) = knownTarget (repositoryEngine [a])"
    by (auto simp: fun_eq_iff knownTarget_def split: option.split sum.split)
  then show "chainTargets (publishEngine a f) = chainTargets (repositoryEngine [a])"
    by (intro ext) (simp add: chainTargets_def Let_def)
  show "aboveStratum (publishEngine a f) = aboveStratum (repositoryEngine [a])"
    by (simp add: fun_eq_iff aboveStratum_def)
qed

lemma singleton_resolve: "resolveIn [a] (buildIndex [a]) ref = Some k \<Longrightarrow> k = 0"
  using index.resolve_sound by fastforce

lemma trace_chain_singleton: "trace_chain [a] i j \<Longrightarrow> i = 0 \<Longrightarrow> j = 0"
  by (induction rule: trace_chain.induct) (auto dest: singleton_resolve)

text \<open>C2: Rule 10 decides traceability: for an artifact below the Discovery stratum that is
  not exempt, the walk terminates and reports nothing exactly when some chain of
  resolving derives-from and depends-on references reaches an artifact of a strictly
  higher stratum, whatever cycles and self-references the set contains.\<close>

theorem rule10_decides_traceability:
  assumes "i < length arts" and "DomainForToken (Type (arts ! i)) = Some home"
    and "home \<noteq> Discovery" and "\<not> exemptFromTrace (arts ! i)"
  shows "rule10 (repositoryEngine arts) i =
     (if \<exists>j d. trace_chain arts i j \<and> DomainForToken (Type (arts ! j)) = Some d \<and> Stratum d < Stratum home
      then [] else [add_result (arts ! i) Rule10 SeverityWarning (NoTraceChain home (StrataAbove home))])"
  using assms by (rule rule10_decides)

theorem rule10_decides_traceability_witness:
  "\<exists>j d. trace_chain [sampleRelated ''x'' [''y'', ''x''], sampleRelated ''y'' [''req:z''], sampleArtifact ''req'' ''z'' 1] 0 j
     \<and> DomainForToken (Type ([sampleRelated ''x'' [''y'', ''x''], sampleRelated ''y'' [''req:z''],
          sampleArtifact ''req'' ''z'' 1] ! j)) = Some d \<and> Stratum d < Stratum Architecture"
proof -
  let ?arts = "[sampleRelated ''x'' [''y'', ''x''], sampleRelated ''y'' [''req:z''], sampleArtifact ''req'' ''z'' 1]"
  have r: "rule10 (repositoryEngine ?arts) 0 = []" by code_simp
  have "DomainForToken (Type (?arts ! 0)) = Some Architecture" by code_simp
  moreover have "\<not> exemptFromTrace (?arts ! 0)" by code_simp
  ultimately show ?thesis
    using rule10_decides_traceability [of 0 ?arts Architecture] r by (metis (no_types, lifting)
        domain.distinct(1) length_greater_0_conv list.distinct(1))
qed

text \<open>At publish time Rules 10 and 12 see the unit alone.  Rule 12 can never report a
  unit, whatever it supersedes; and Rule 10 warns about every non-exempt unit below
  Discovery, whatever the runtime can resolve.\<close>

lemma publish_rules_see_only_the_unit:
  "rule12 (publishEngine a f) 0 = []
   \<and> rule10 (publishEngine a f) 0 =
       (case DomainForToken (Type a) of
          None \<Rightarrow> []
        | Some home \<Rightarrow> if home = Discovery \<or> exemptFromTrace a then []
            else [add_result a Rule10 SeverityWarning (NoTraceChain home (StrataAbove home))])"
proof
  have "rule12Reference (publishEngine a f) a home field raw = []"
    if "DomainForToken (Type a) = Some home" for home field raw
    using singleton_resolve [of a] that
    by (fastforce simp: rule12Reference_def resolve_def split: option.splits sum.splits)
  then show "rule12 (publishEngine a f) 0 = []"
    by (simp add: rule12_def Let_def split: option.splits)
  have "rule10 (publishEngine a f) 0 = rule10 (repositoryEngine [a]) 0"
    unfolding rule10_def publish_targets Let_def publishEngine_simps repositoryEngine_simps by simp
  moreover have "\<not> (\<exists>j d. trace_chain [a] 0 j \<and> DomainForToken (Type ([a] ! j)) = Some d \<and> Stratum d < Stratum home)"
    if "DomainForToken (Type a) = Some home" for home
    using trace_chain_singleton that by fastforce
  ultimately show "rule10 (publishEngine a f) 0 =
       (case DomainForToken (Type a) of
          None \<Rightarrow> []
        | Some home \<Rightarrow> if home = Discovery \<or> exemptFromTrace a then []
            else [add_result a Rule10 SeverityWarning (NoTraceChain home (StrataAbove home))])"
    using rule10_decides [of 0 "[a]"] known_type_has_domain [of "Type a"] Discovery_top
    by (auto simp: rule10_def Let_def split: option.splits)
qed

end
