(* ===== verification/Graph_Pass.thy ===== *)
theory Graph_Pass
  imports Rules_Core
begin

text \<open>
  The graph pass R13 of \<open>conformance/graph.go\<close> and the note contract of
  \<open>conformance/artifact.go\<close> (\<open>validateNoteContent\<close>): the role schemas of cmt- notes,
  resolution of their discusses and replies-to edges, the work item gates at in-review
  and done, and the single-assignee check.
\<close>

datatype graph_msg =
    NoteWithoutContent
  | NoteRoleMissing
  | NoteRoleUnknown string
  | NoteKeyNotAllowed string string
  | NoteTextMissing string string
  | NoteListMissing string string
  | NoteListShape string string
  | ReviewVerdict
  | DiscussesUnresolved string
  | RepliesNotNote string
  | RepliesUnresolved string
  | RepliesTooMany nat
  | AssignedNotMember string
  | AssignedUnresolved string
  | AssignedForeign string string
  | AssignedTooMany nat
  | GateInReview
  | GateDone "string list"

section \<open>The note contract\<close>

definition NoteRoleImplementation :: string where "NoteRoleImplementation = ''implementation''"
definition NoteRoleReview :: string where "NoteRoleReview = ''review''"
definition NoteRoleFix :: string where "NoteRoleFix = ''fix''"
definition NoteRoleReply :: string where "NoteRoleReply = ''reply''"

lemmas note_roles = NoteRoleImplementation_def NoteRoleReview_def NoteRoleFix_def NoteRoleReply_def

definition noteRoleContentKeys :: "string list gomap" where
  "noteRoleContentKeys = [
     (NoteRoleImplementation, [''role'', ''summary'', ''changes'', ''tests'']),
     (NoteRoleReview, [''role'', ''verdict'', ''notes'']),
     (NoteRoleFix, [''role'', ''addresses'', ''detail'']),
     (NoteRoleReply, [''role'', ''body''])]"

fun asStringItems :: "gvalue list \<Rightarrow> string list option" where
  "asStringItems [] = Some []"
| "asStringItems (GString s # vs) = map_option (\<lambda>ss. s # ss) (asStringItems vs)"
| "asStringItems (v # vs) = None"

fun asStringList :: "gvalue \<Rightarrow> string list option" where
  "asStringList (GList l) = asStringItems l"
| "asStringList v = None"

definition string_field :: "gvalue gomap \<Rightarrow> string \<Rightarrow> string option" where
  "string_field cf k = (case map_of cf k of Some (GString s) \<Rightarrow> Some s | _ \<Rightarrow> None)"

definition note_finding :: "Artifact \<Rightarrow> graph_msg \<Rightarrow> graph_msg result" where
  "note_finding a m = add_result a Rule13 SeverityError m"

definition requireText :: "Artifact \<Rightarrow> gvalue gomap \<Rightarrow> string \<Rightarrow> string \<Rightarrow> graph_msg result list" where
  "requireText a cf role k = (case string_field cf k of
       None \<Rightarrow> [note_finding a (NoteTextMissing role k)]
     | Some s \<Rightarrow> if trim_space s = '''' then [note_finding a (NoteTextMissing role k)] else [])"

definition requireList :: "Artifact \<Rightarrow> gvalue gomap \<Rightarrow> string \<Rightarrow> string \<Rightarrow> graph_msg result list" where
  "requireList a cf role k = (case map_of cf k of
       None \<Rightarrow> [note_finding a (NoteListMissing role k)]
     | Some v \<Rightarrow> if asStringList v = None then [note_finding a (NoteListShape role k)] else [])"

definition roleFindings :: "Artifact \<Rightarrow> gvalue gomap \<Rightarrow> string \<Rightarrow> graph_msg result list" where
  "roleFindings a cf role =
     (if role = NoteRoleImplementation then
        requireText a cf role ''summary'' @ requireList a cf role ''changes'' @ requireList a cf role ''tests''
      else if role = NoteRoleReview then
        (case string_field cf ''verdict'' of
           Some v \<Rightarrow> if v = ''approve'' \<or> v = ''changes-requested'' then [] else [note_finding a ReviewVerdict]
         | None \<Rightarrow> [note_finding a ReviewVerdict]) @ requireList a cf role ''notes''
      else if role = NoteRoleFix then
        requireText a cf role ''detail'' @ requireList a cf role ''addresses''
      else if role = NoteRoleReply then requireText a cf role ''body''
      else [])"

definition validateNoteContent :: "Artifact \<Rightarrow> graph_msg result list" where
  "validateNoteContent a = (case ContentFields a of
       None \<Rightarrow> [note_finding a NoteWithoutContent]
     | Some cf \<Rightarrow>
         (case string_field cf ''role'' of
            None \<Rightarrow> [note_finding a NoteRoleMissing]
          | Some role \<Rightarrow>
              if role = '''' then [note_finding a NoteRoleMissing]
              else (case map_of noteRoleContentKeys role of
                  None \<Rightarrow> [note_finding a (NoteRoleUnknown role)]
                | Some allowed \<Rightarrow>
                    concat (map (\<lambda>(k, v). if List.member allowed k then []
                       else [note_finding a (NoteKeyNotAllowed k role)]) cf) @
                    roleFindings a cf role)))"

section \<open>The pass\<close>

record graphPass =
  g_artifacts :: "Artifact list"
  g_resolveFn :: "(reference \<Rightarrow> bool) option"
  g_skipGates :: bool

definition resolved :: "graphPass \<Rightarrow> reference \<Rightarrow> bool" where
  "resolved g ref = (case g_resolveFn g of
       Some f \<Rightarrow> f ref
     | None \<Rightarrow> resolveIn (g_artifacts g) (buildIndex (g_artifacts g)) ref \<noteq> None)"

definition discussesFindings :: "graphPass \<Rightarrow> Artifact \<Rightarrow> graph_msg result list" where
  "discussesFindings g a = concat (map (\<lambda>raw.
     case parseReference raw (Namespace a) (Type a) of
       Inl err \<Rightarrow> []
     | Inr ref \<Rightarrow> if resolved g ref then [] else [note_finding a (DiscussesUnresolved raw)])
     (relation_of a ''discusses''))"

definition repliesFindings :: "graphPass \<Rightarrow> Artifact \<Rightarrow> graph_msg result list" where
  "repliesFindings g a = concat (map (\<lambda>raw.
     case parseReference raw (Namespace a) (Type a) of
       Inl err \<Rightarrow> []
     | Inr ref \<Rightarrow>
         if ref_Type ref \<noteq> ''cmt'' then [note_finding a (RepliesNotNote raw)]
         else if resolved g ref then [] else [note_finding a (RepliesUnresolved raw)])
     (relation_of a ''replies-to'')) @
     (if length (relation_of a ''replies-to'') > 1
      then [note_finding a (RepliesTooMany (length (relation_of a ''replies-to'')))] else [])"

definition assignedToFindings :: "graphPass \<Rightarrow> Artifact \<Rightarrow> graph_msg result list" where
  "assignedToFindings g a =
     (let raws = relation_of a ''assigned-to'' in
      concat (map (\<lambda>raw. case parseReference raw (Namespace a) (Type a) of
          Inl err \<Rightarrow> []
        | Inr ref \<Rightarrow>
            if ref_Type ref \<noteq> ''mbr'' then [note_finding a (AssignedNotMember raw)]
            else if \<not> resolved g ref then [note_finding a (AssignedUnresolved raw)]
            else if ref_Namespace ref \<noteq> Namespace a
              then [note_finding a (AssignedForeign raw (Namespace a))] else []) raws) @
      (if length raws > 1 then [note_finding a (AssignedTooMany (length raws))] else []))"

definition discussesItem :: "Artifact \<Rightarrow> Artifact \<Rightarrow> bool" where
  "discussesItem b a = list_ex (\<lambda>raw. case parseReference raw (Namespace b) (Type b) of
       Inl err \<Rightarrow> False
     | Inr ref \<Rightarrow> ref_Namespace ref = Namespace a \<and> ref_Type ref = Type a \<and> ref_ID ref = ID a
         \<and> \<not> (ref_HasVersion ref \<and> ref_Version ref \<noteq> InstanceVersion a)) (relation_of b ''discusses'')"

definition notesDiscussing :: "graphPass \<Rightarrow> nat \<Rightarrow> Artifact list" where
  "notesDiscussing g i = map (\<lambda>j. g_artifacts g ! j)
     (filter (\<lambda>j. j \<noteq> i \<and> Type (g_artifacts g ! j) = ''cmt''
        \<and> discussesItem (g_artifacts g ! j) (g_artifacts g ! i)) [0..<length (g_artifacts g)])"

definition noteIdentityForm :: "Artifact \<Rightarrow> string" where
  "noteIdentityForm n = Namespace n @ ''/'' @ Type n @ '':'' @ ID n"

definition noteRole :: "Artifact \<Rightarrow> string" where
  "noteRole n = (case ContentFields n of None \<Rightarrow> ''''
     | Some cf \<Rightarrow> (case string_field cf ''role'' of None \<Rightarrow> '''' | Some r \<Rightarrow> r))"

definition gateFindings :: "graphPass \<Rightarrow> nat \<Rightarrow> string \<Rightarrow> graph_msg result list" where
  "gateFindings g i st =
     (let a = g_artifacts g ! i; notes = notesDiscussing g i in
      if st = ''in-review'' then
        (if list_ex (\<lambda>n. noteRole n = NoteRoleImplementation \<and> state_of n DomainNoteState = ''resolved'') notes
         then [] else [note_finding a GateInReview])
      else if st = ''done'' then
        (let op = map noteIdentityForm (filter (\<lambda>n. state_of n DomainNoteState \<noteq> ''resolved'') notes) in
         if op = [] then [] else [note_finding a (GateDone (sort op))])
      else [])"

definition graphNote :: "graphPass \<Rightarrow> Artifact \<Rightarrow> graph_msg result list" where
  "graphNote g a =
     (if Type a \<noteq> ''cmt'' then []
      else validateNoteContent a @ discussesFindings g a @ repliesFindings g a)"

definition graphGate :: "graphPass \<Rightarrow> nat \<Rightarrow> graph_msg result list" where
  "graphGate g i =
     (let a = g_artifacts g ! i; st = state_of a DomainExecutionState in
      if \<not> IsWorkItemType (Type a) then []
      else if st \<noteq> ''in-review'' \<and> st \<noteq> ''done'' then []
      else gateFindings g i st @ assignedToFindings g a)"

definition graphRun :: "graphPass \<Rightarrow> graph_msg result list" where
  "graphRun g =
     concat (map (graphNote g) (g_artifacts g)) @
     (if g_skipGates g then [] else concat (map (graphGate g) [0..<length (g_artifacts g)]))"

definition graphSortKey :: "(graph_msg \<Rightarrow> string) \<Rightarrow> graph_msg result \<Rightarrow> string \<times> string" where
  "graphSortKey render r = (res_File r, render (res_Message r))"

definition ValidateGraph :: "(graph_msg \<Rightarrow> string) \<Rightarrow> graphPass \<Rightarrow> graph_msg result list" where
  "ValidateGraph render g = sort_key (graphSortKey render) (graphRun g)"

definition repositoryPass :: "Artifact list \<Rightarrow> graphPass" where
  "repositoryPass arts = \<lparr>g_artifacts = arts, g_resolveFn = None, g_skipGates = False\<rparr>"

section \<open>Lemmas\<close>

lemma asStringItems_map [simp]: "asStringItems (map GString ss) = Some ss"
  by (induction ss) auto

lemma asStringItems_Some: "asStringItems vs = Some ss \<longleftrightarrow> vs = map GString ss"
  by (induction vs arbitrary: ss rule: asStringItems.induct) auto

lemma mem_notesDiscussing:
  "n \<in> set (notesDiscussing g i) \<longleftrightarrow> (\<exists>j < length (g_artifacts g). j \<noteq> i \<and> n = g_artifacts g ! j
     \<and> Type n = ''cmt'' \<and> discussesItem n (g_artifacts g ! i))"
  by (auto simp: notesDiscussing_def)

lemma gateFindings_done_Nil:
  "gateFindings g i ''done'' = [] \<longleftrightarrow> (\<forall>n \<in> set (notesDiscussing g i). state_of n DomainNoteState = ''resolved'')"
  by (auto simp: gateFindings_def Let_def filter_empty_conv)

lemma gateFindings_review_Nil:
  "gateFindings g i ''in-review'' = [] \<longleftrightarrow> (\<exists>n \<in> set (notesDiscussing g i).
     noteRole n = NoteRoleImplementation \<and> state_of n DomainNoteState = ''resolved'')"
  by (auto simp: gateFindings_def Let_def list_ex_iff)

text \<open>The gates of R13.  A work item of the set passes the in-review gate exactly when
  some other note discussing its line (or its exact instance) has role implementation and
  is resolved, and the done gate exactly when every such note is resolved; a note that is
  only dismissed blocks done, and since dismissed is terminal no legal transition of that
  note can lift the block.\<close>

theorem work_item_gates:
  "(gateFindings g i ''in-review'' = [] \<longleftrightarrow>
      filter (\<lambda>n. noteRole n = ''implementation'' \<and> state_of n DomainNoteState = ''resolved'') (notesDiscussing g i) \<noteq> [])
   \<and> (gateFindings g i ''done'' = [] \<longleftrightarrow>
      filter (\<lambda>n. state_of n DomainNoteState \<noteq> ''resolved'') (notesDiscussing g i) = [])
   \<and> \<not> isLegalTransition DomainNoteState ''cmt'' ''dismissed'' st"
proof -
  have "\<not> isLegalTransition DomainNoteState ''cmt'' ''dismissed'' st"
    by (simp add: isLegalTransition_def domain_names Let_def)
  then show ?thesis
    by (simp add: gateFindings_done_Nil gateFindings_review_Nil filter_empty_conv note_roles)
qed

definition text_ok :: "gvalue gomap \<Rightarrow> string \<Rightarrow> bool" where
  "text_ok cf k = (case map_of cf k of Some (GString s) \<Rightarrow> trim_space s \<noteq> '''' | _ \<Rightarrow> False)"

definition list_ok :: "gvalue gomap \<Rightarrow> string \<Rightarrow> bool" where
  "list_ok cf k = (case map_of cf k of Some (GList l) \<Rightarrow> asStringItems l \<noteq> None | _ \<Rightarrow> False)"

definition noteSchema :: "string \<Rightarrow> gvalue gomap \<Rightarrow> bool" where
  "noteSchema role cf =
     (role = ''implementation'' \<and> set (map fst cf) \<subseteq> {''role'', ''summary'', ''changes'', ''tests''}
        \<and> text_ok cf ''summary'' \<and> list_ok cf ''changes'' \<and> list_ok cf ''tests''
      \<or> role = ''review'' \<and> set (map fst cf) \<subseteq> {''role'', ''verdict'', ''notes''} \<and> list_ok cf ''notes''
        \<and> (map_of cf ''verdict'' = Some (GString ''approve'') \<or> map_of cf ''verdict'' = Some (GString ''changes-requested''))
      \<or> role = ''fix'' \<and> set (map fst cf) \<subseteq> {''role'', ''addresses'', ''detail''}
        \<and> text_ok cf ''detail'' \<and> list_ok cf ''addresses''
      \<or> role = ''reply'' \<and> set (map fst cf) \<subseteq> {''role'', ''body''} \<and> text_ok cf ''body'')"

lemma requireText_Nil: "requireText a cf role k = [] \<longleftrightarrow> text_ok cf k"
  by (auto simp: requireText_def text_ok_def string_field_def split: option.splits gvalue.splits)

lemma requireList_Nil: "requireList a cf role k = [] \<longleftrightarrow> list_ok cf k"
proof (cases "map_of cf k")
  case (Some v)
  then show ?thesis by (cases v) (auto simp: requireList_def list_ok_def)
qed (simp add: requireList_def list_ok_def)

lemma verdict_Nil:
  "(case string_field cf ''verdict'' of
      Some v \<Rightarrow> if v = ''approve'' \<or> v = ''changes-requested'' then [] else [f]
    | None \<Rightarrow> [f]) = [] \<longleftrightarrow>
   map_of cf ''verdict'' = Some (GString ''approve'') \<or> map_of cf ''verdict'' = Some (GString ''changes-requested'')"
proof (cases "map_of cf ''verdict''")
  case (Some v)
  then show ?thesis by (cases v) (simp_all add: string_field_def)
qed (simp add: string_field_def)

lemma note_keys_Nil:
  "concat (map (\<lambda>(k, v). if List.member allowed k then [] else [note_finding a (NoteKeyNotAllowed k role)]) cf) = []
   \<longleftrightarrow> set (map fst cf) \<subseteq> set allowed"
  using concat_map_split_Nil [of "\<lambda>k v. List.member allowed k" "\<lambda>k v. note_finding a (NoteKeyNotAllowed k role)" cf]
  by (auto simp: list_all_iff)

lemma roleFindings_Nil:
  assumes "map_of noteRoleContentKeys role = Some allowed"
  shows "set (map fst cf) \<subseteq> set allowed \<and> roleFindings a cf role = [] \<longleftrightarrow> noteSchema role cf"
proof -
  have "role \<in> {''implementation'', ''review'', ''fix'', ''reply''}"
    using assms by (auto simp: noteRoleContentKeys_def note_roles split: if_splits)
  then consider "role = ''implementation''" | "role = ''review''" | "role = ''fix''" | "role = ''reply''"
    by blast
  then show ?thesis
  proof cases
    case 1
    then show ?thesis using assms
      by (auto simp: roleFindings_def noteSchema_def note_roles noteRoleContentKeys_def requireText_Nil
          requireList_Nil)
  next
    case 2
    then show ?thesis using assms verdict_Nil [where cf = cf and f = "note_finding a ReviewVerdict"]
      by (auto simp: roleFindings_def noteSchema_def note_roles noteRoleContentKeys_def requireList_Nil)
  next
    case 3
    then show ?thesis using assms
      by (auto simp: roleFindings_def noteSchema_def note_roles noteRoleContentKeys_def requireText_Nil
          requireList_Nil)
  next
    case 4
    then show ?thesis using assms
      by (auto simp: roleFindings_def noteSchema_def note_roles noteRoleContentKeys_def requireText_Nil)
  qed
qed

lemma noteSchema_role: "noteSchema role cf \<Longrightarrow> role \<noteq> '''' \<and> map_of noteRoleContentKeys role \<noteq> None"
  by (auto simp: noteSchema_def noteRoleContentKeys_def note_roles)

text \<open>The note contract is strict: a note is accepted exactly when it has structured
  content whose role is one of the four, every key is a key of that role's schema, and
  the role's required fields are present and well formed.\<close>

theorem note_contract_strict:
  "validateNoteContent a = [] \<longleftrightarrow>
     (\<exists>cf role. ContentFields a = Some cf \<and> map_of cf ''role'' = Some (GString role) \<and> noteSchema role cf)"
proof (cases "ContentFields a")
  case None
  then show ?thesis by (simp add: validateNoteContent_def)
next
  case (Some cf)
  show ?thesis
  proof (cases "\<exists>role. map_of cf ''role'' = Some (GString role)")
    case False
    then have "string_field cf ''role'' = None"
      by (auto simp: string_field_def split: option.splits gvalue.splits)
    then show ?thesis using Some False by (simp add: validateNoteContent_def)
  next
    case True
    then obtain role where r: "map_of cf ''role'' = Some (GString role)" by blast
    then have sf: "string_field cf ''role'' = Some role" by (simp add: string_field_def)
    show ?thesis
    proof (cases "map_of noteRoleContentKeys role")
      case None
      then show ?thesis using Some r sf noteSchema_role [of role cf] by (auto simp: validateNoteContent_def)
    next
      case k: (Some allowed)
      then have ne: "role \<noteq> ''''" by (auto simp: noteRoleContentKeys_def note_roles)
      have "validateNoteContent a = [] \<longleftrightarrow> set (map fst cf) \<subseteq> set allowed \<and> roleFindings a cf role = []"
        using Some sf k ne note_keys_Nil [of allowed a role cf]
        by (simp add: validateNoteContent_def del: concat_eq_Nil_conv)
      then show ?thesis using roleFindings_Nil [OF k] Some r by simp
    qed
  qed
qed

end
