(* ===== verification/Author_Identity.thy ===== *)
theory Author_Identity
  imports Artifacts
begin

text \<open>
  The authoring identity of \<open>conformance/identity.go\<close>: a kind and a display name, with a
  context-sensitive external form.  The decoders of JSON and YAML deliver a value of Go's
  \<open>any\<close> (a \<open>gvalue\<close>); \<open>marshalIdentity\<close> is the value both \<open>MarshalJSON\<close> and
  \<open>MarshalYAML\<close> render, \<open>decodeIdentity\<close> is \<open>decode\<close>, with None for its errors.
\<close>

definition KindUser :: string where "KindUser = ''user''"
definition KindAgent :: string where "KindAgent = ''agent''"
definition KindWorker :: string where "KindWorker = ''worker''"

definition AuthorKinds :: "string list" where
  "AuthorKinds = [KindUser, KindAgent, KindWorker]"

definition IsAuthorKind :: "string \<Rightarrow> bool" where
  "IsAuthorKind s = List.member AuthorKinds s"

record AuthorIdentity =
  au_Kind :: string
  au_Name :: string

definition User :: "string \<Rightarrow> AuthorIdentity" where
  "User nm = \<lparr>au_Kind = KindUser, au_Name = nm\<rparr>"

definition IsUser :: "AuthorIdentity \<Rightarrow> bool" where
  "IsUser a = (au_Kind a = '''' \<or> au_Kind a = KindUser)"

definition marshalIdentity :: "AuthorIdentity \<Rightarrow> gvalue" where
  "marshalIdentity a = (if IsUser a then GString (au_Name a)
     else GMap [(''kind'', GString (au_Kind a)), (''name'', GString (au_Name a))])"

definition string_at :: "gvalue gomap \<Rightarrow> string \<Rightarrow> string" where
  "string_at m k = (case map_of m k of Some (GString s) \<Rightarrow> s | _ \<Rightarrow> '''')"

fun decodeIdentity :: "gvalue \<Rightarrow> AuthorIdentity option" where
  "decodeIdentity (GString s) = Some \<lparr>au_Kind = KindUser, au_Name = s\<rparr>"
| "decodeIdentity (GMap m) =
     (let nm = string_at m ''name'';
          kind0 = string_at m ''kind'';
          kind = (if kind0 = '''' then KindUser else kind0) in
      if \<not> IsAuthorKind kind \<or> nm = '''' then None
      else Some \<lparr>au_Kind = kind, au_Name = nm\<rparr>)"
| "decodeIdentity v = None"

fun_cases decodeIdentityE: "decodeIdentity v = Some a"

lemmas identity_defs = IsAuthorKind_def AuthorKinds_def KindUser_def KindAgent_def KindWorker_def
  IsUser_def marshalIdentity_def string_at_def

lemma decodeIdentity_kind: "decodeIdentity v = Some a \<Longrightarrow> IsAuthorKind (au_Kind a)"
  by (cases v) (auto simp: Let_def identity_defs split: if_splits)

text \<open>The identity forms round-trip: a decoded identity renders and decodes back to
  itself; an identity of a canonical kind with a name, or a user with any name, survives
  rendering, an empty kind becoming the kind user.\<close>

lemma author_identity_roundtrip:
  "(decodeIdentity v = Some a \<longrightarrow> decodeIdentity (marshalIdentity a) = Some a)
   \<and> (IsUser b \<or> IsAuthorKind (au_Kind b) \<and> au_Name b \<noteq> '''' \<longrightarrow>
        decodeIdentity (marshalIdentity b) = Some (if IsUser b then User (au_Name b) else b))"
proof
  show "decodeIdentity v = Some a \<longrightarrow> decodeIdentity (marshalIdentity a) = Some a"
    by (cases v) (auto simp: Let_def identity_defs split: if_splits)
  show "IsUser b \<or> IsAuthorKind (au_Kind b) \<and> au_Name b \<noteq> '''' \<longrightarrow>
      decodeIdentity (marshalIdentity b) = Some (if IsUser b then User (au_Name b) else b)"
    by (cases b) (auto simp: Let_def identity_defs User_def)
qed

lemma author_identity_roundtrip_witness:
  "decodeIdentity (marshalIdentity \<lparr>au_Kind = ''agent'', au_Name = ''a''\<rparr>) = Some \<lparr>au_Kind = ''agent'', au_Name = ''a''\<rparr>"
proof -
  have "\<not> IsUser \<lparr>au_Kind = ''agent'', au_Name = ''a''\<rparr>" "IsAuthorKind ''agent''" by code_simp+
  then show ?thesis
    using author_identity_roundtrip [of GNil "User []" "\<lparr>au_Kind = ''agent'', au_Name = ''a''\<rparr>"] by simp
qed

end
