(* ===== verification/Authoring.thy ===== *)
theory Authoring
  imports Graph_Pass Author_Identity
begin

text \<open>
  The authoring adapters of \<open>conformance/artifact.go\<close>: a JSON document or the YAML
  frontmatter of a Markdown file, as the decoders deliver it, is classified into an
  artifact with its structural findings.  Both adapters share \<open>classifyMap\<close> over a
  kebab-keyed field map; the JSON adapter first converts its camelCase keys.  A decoded
  map is an association list; where the source iterates a map the list gives the order.
  The decoders are arguments: None is a parse error, the empty map stands for null.
\<close>

datatype log_error =
    EntryNotMapping
  | EntryMissing string
  | EntryNotDate
  | EntryNotString string
  | EntryByObject
  | EntryByShape
  | EntryBadDate string

datatype classify_msg =
    BadJSON
  | BadYAML
  | NeverCloses
  | TypeXorID
  | UnknownTopLevel string
  | ContentMissing
  | ContentNotObject
  | ContentValue string
  | StateNotObject
  | UnknownStateDomain string
  | RelationsNotObject
  | UnknownRelation string
  | LogNotList
  | ProvenanceNotString
  | ProvenanceUnknown string
  | PromptHashNotString
  | PromptHashShape
  | ConfidenceNotNumber
  | ConfidenceRange rat
  | CommitNotString
  | CommitShape
  | CaptureNotObject
  | ClassifierNotString
  | DedupeShape
  | DedupeNotString
  | UnknownCapture string
  | UnknownToken string nat
  | NoID
  | NoNamespace
  | VersionLow
  | VersionNotInt
  | VersionMissing
  | RevisionNotInt
  | RevisionMissing
  | RevisionLow
  | AuthorObject
  | AuthorShape
  | BadDate string
  | StateNotString string
  | PhaseNotString
  | DimensionNotString
  | SecondaryNotList
  | DomainNotString
  | RelationNotList string
  | LogShape
  | LogEntry nat log_error

section \<open>Dates\<close>

text \<open>\<open>time.Parse("2006-01-02", s)\<close>: four digits, two, two, and a real calendar day.\<close>

definition leap_year :: "int \<Rightarrow> bool" where
  "leap_year y = (y mod 4 = 0 \<and> (y mod 100 \<noteq> 0 \<or> y mod 400 = 0))"

definition days_in_month :: "int \<Rightarrow> int \<Rightarrow> int" where
  "days_in_month y m =
     (if m = 2 then (if leap_year y then 29 else 28)
      else if m = 4 \<or> m = 6 \<or> m = 9 \<or> m = 11 then 30 else 31)"

definition validDate :: "string \<Rightarrow> bool" where
  "validDate s =
     (length s = 10 \<and> s ! 4 = dash \<and> s ! 7 = dash
      \<and> list_all is_digit (take 4 s) \<and> list_all is_digit (take 2 (drop 5 s)) \<and> list_all is_digit (drop 8 s)
      \<and> (let y = decimal (take 4 s); m = decimal (take 2 (drop 5 s)); d = decimal (drop 8 s) in
           1 \<le> m \<and> m \<le> 12 \<and> 1 \<le> d \<and> d \<le> days_in_month y m))"

section \<open>Values\<close>

text \<open>A JSON number is a float64: only whole values are integers (the range of \<open>int\<close> is not
  exceeded by the versions and revisions read through it).\<close>

fun asInt :: "gvalue \<Rightarrow> int option" where
  "asInt (GInt n) = Some n"
| "asInt (GFloat r) = (if r = of_int (floor r) then Some (floor r) else None)"
| "asInt v = None"

fun asFloat64 :: "gvalue \<Rightarrow> rat option" where
  "asFloat64 (GFloat r) = Some r"
| "asFloat64 (GInt n) = Some (of_int n)"
| "asFloat64 v = None"

fun asDateString :: "gvalue \<Rightarrow> string option" where
  "asDateString (GString s) = Some s"
| "asDateString (GTime s) = Some s"
| "asDateString v = None"

fun isStringOrObject :: "gvalue \<Rightarrow> bool" where
  "isStringOrObject (GString s) = True"
| "isStringOrObject (GMap m) = True"
| "isStringOrObject (GList l) = True"
| "isStringOrObject v = False"

definition hex_digit :: "char \<Rightarrow> bool" where
  "hex_digit c = (is_digit c \<or> (97 \<le> (of_char c :: nat) \<and> of_char c \<le> (102 :: nat))
     \<or> (65 \<le> (of_char c :: nat) \<and> of_char c \<le> (70 :: nat)))"

text \<open>The expected length, None for any.\<close>

definition isHexString :: "string \<Rightarrow> nat option \<Rightarrow> bool" where
  "isHexString s wantLen =
     ((case wantLen of None \<Rightarrow> True | Some n \<Rightarrow> length s = n) \<and> list_all hex_digit s)"

definition ProvenanceHuman :: string where "ProvenanceHuman = ''human''"
definition ProvenanceInferred :: string where "ProvenanceInferred = ''inferred''"
definition ProvenanceReconciled :: string where "ProvenanceReconciled = ''reconciled''"

definition ValidProvenance :: "string \<Rightarrow> bool" where
  "ValidProvenance p = (p = ProvenanceHuman \<or> p = ProvenanceInferred \<or> p = ProvenanceReconciled)"

section \<open>Change-log entries\<close>

definition required_string :: "gvalue gomap \<Rightarrow> string \<Rightarrow> log_error + string" where
  "required_string m k = (case map_of m k of
       None \<Rightarrow> Inl (EntryMissing k)
     | Some (GString s) \<Rightarrow> Inr s
     | Some v \<Rightarrow> Inl (EntryNotString k))"

definition required_date :: "gvalue gomap \<Rightarrow> log_error + string" where
  "required_date m = (case map_of m ''date'' of
       None \<Rightarrow> Inl (EntryMissing ''date'')
     | Some v \<Rightarrow> (case asDateString v of None \<Rightarrow> Inl EntryNotDate | Some s \<Rightarrow> Inr s))"

definition entry_authority :: "gvalue gomap \<Rightarrow> log_error + AuthorIdentity" where
  "entry_authority m = (case map_of m ''by'' of
       None \<Rightarrow> Inl (EntryMissing ''by'')
     | Some v \<Rightarrow> (case decodeIdentity v of
           Some who \<Rightarrow> Inr who
         | None \<Rightarrow> (case v of GMap _ \<Rightarrow> Inl EntryByObject | _ \<Rightarrow> Inl EntryByShape)))"

definition parseChangeLogEntry :: "gvalue \<Rightarrow> log_error + ChangeLogEntry" where
  "parseChangeLogEntry item = (case item of
       GMap m \<Rightarrow>
         (case required_date m of Inl e \<Rightarrow> Inl e | Inr d \<Rightarrow>
         (case required_string m ''domain'' of Inl e \<Rightarrow> Inl e | Inr fld \<Rightarrow>
         (case required_string m ''from'' of Inl e \<Rightarrow> Inl e | Inr fr \<Rightarrow>
         (case required_string m ''to'' of Inl e \<Rightarrow> Inl e | Inr t \<Rightarrow>
         (case entry_authority m of Inl e \<Rightarrow> Inl e | Inr who \<Rightarrow>
            if \<not> validDate d then Inl (EntryBadDate d)
            else Inr \<lparr>Date = d, LogDomain = fld, From = fr, To = t, By = au_Name who, ByKind = au_Kind who\<rparr>)))))
     | _ \<Rightarrow> Inl EntryNotMapping)"

section \<open>Classification\<close>

definition classify_error :: "string \<Rightarrow> rule_id \<Rightarrow> classify_msg \<Rightarrow> classify_msg result" where
  "classify_error rel r m = \<lparr>res_File = rel, res_Rule = r, res_Severity = SeverityError, res_Message = m\<rparr>"

definition versionField :: "gvalue gomap \<Rightarrow> int" where
  "versionField fm = (case map_of fm ''instance-version'' of
       Some v \<Rightarrow> (case asInt v of Some n \<Rightarrow> n | None \<Rightarrow> 0) | None \<Rightarrow> 0)"

definition versionFindings :: "string \<Rightarrow> gvalue gomap \<Rightarrow> bool \<Rightarrow> classify_msg result list" where
  "versionFindings rel fm req = (case map_of fm ''instance-version'' of
       Some v \<Rightarrow> (case asInt v of
           Some n \<Rightarrow> if n < 1 then [classify_error rel RuleStructural VersionLow] else []
         | None \<Rightarrow> [classify_error rel RuleStructural VersionNotInt])
     | None \<Rightarrow> if req then [classify_error rel RuleStructural VersionMissing] else [])"

definition revisionField :: "gvalue gomap \<Rightarrow> int" where
  "revisionField fm = (case map_of fm ''revision'' of
       Some v \<Rightarrow> (case asInt v of Some n \<Rightarrow> n | None \<Rightarrow> 0) | None \<Rightarrow> 0)"

definition revisionFindings :: "string \<Rightarrow> gvalue gomap \<Rightarrow> classify_msg result list" where
  "revisionFindings rel fm =
     (case map_of fm ''revision'' of
        Some v \<Rightarrow> (case asInt v of Some n \<Rightarrow> [] | None \<Rightarrow> [classify_error rel RuleStructural RevisionNotInt])
      | None \<Rightarrow> [classify_error rel RuleStructural RevisionMissing]) @
     (if revisionField fm < 1 then [classify_error rel RuleStructural RevisionLow] else [])"

definition authorField :: "gvalue gomap \<Rightarrow> AuthorIdentity" where
  "authorField fm = (case map_of fm ''author'' of
       Some v \<Rightarrow> (case decodeIdentity v of Some who \<Rightarrow> who | None \<Rightarrow> \<lparr>au_Kind = '''', au_Name = ''''\<rparr>)
     | None \<Rightarrow> \<lparr>au_Kind = '''', au_Name = ''''\<rparr>)"

definition authorFindings :: "string \<Rightarrow> gvalue gomap \<Rightarrow> classify_msg result list" where
  "authorFindings rel fm = (case map_of fm ''author'' of
       Some v \<Rightarrow> (case decodeIdentity v of
           Some who \<Rightarrow> []
         | None \<Rightarrow> [classify_error rel RuleStructural (case v of GMap m \<Rightarrow> AuthorObject | _ \<Rightarrow> AuthorShape)])
     | None \<Rightarrow> [])"

definition dateField :: "gvalue gomap \<Rightarrow> string \<Rightarrow> string option" where
  "dateField fm k = (case map_of fm k of
       Some v \<Rightarrow> (case asDateString v of Some s \<Rightarrow> if validDate s then Some s else None | None \<Rightarrow> None)
     | None \<Rightarrow> Some '''')"

definition dateFindings :: "string \<Rightarrow> gvalue gomap \<Rightarrow> string \<Rightarrow> classify_msg result list" where
  "dateFindings rel fm k = (if dateField fm k = None then [classify_error rel RuleStructural (BadDate k)] else [])"

text \<open>A string field: its value when it is a string, and the finding when it is not.\<close>

definition stringFindings :: "string \<Rightarrow> gvalue gomap \<Rightarrow> string \<Rightarrow> classify_msg \<Rightarrow> classify_msg result list" where
  "stringFindings rel fm k m =
     (if has_key fm k \<and> string_field fm k = None then [classify_error rel RuleStructural m] else [])"

definition statesField :: "gvalue gomap \<Rightarrow> string gomap" where
  "statesField fm = List.map_filter (\<lambda>d. map_option (\<lambda>s. (d, s)) (string_field fm d)) stateFields"

definition listField :: "gvalue gomap \<Rightarrow> string \<Rightarrow> string list option" where
  "listField fm k = (case map_of fm k of Some v \<Rightarrow> asStringList v | None \<Rightarrow> None)"

definition relationsField :: "gvalue gomap \<Rightarrow> string list gomap" where
  "relationsField fm = List.map_filter (\<lambda>f. map_option (\<lambda>l. (f, l)) (listField fm f)) relationshipFields"

definition listFindings :: "string \<Rightarrow> gvalue gomap \<Rightarrow> string \<Rightarrow> rule_id \<Rightarrow> classify_msg \<Rightarrow> classify_msg result list" where
  "listFindings rel fm k r m = (if has_key fm k \<and> listField fm k = None then [classify_error rel r m] else [])"

definition logField :: "gvalue gomap \<Rightarrow> ChangeLogEntry list" where
  "logField fm = (case map_of fm ''change-log'' of
       Some (GList items) \<Rightarrow> List.map_filter (\<lambda>item. case parseChangeLogEntry item of Inl e \<Rightarrow> None | Inr x \<Rightarrow> Some x) items
     | _ \<Rightarrow> [])"

definition logFindings :: "string \<Rightarrow> gvalue gomap \<Rightarrow> classify_msg result list" where
  "logFindings rel fm = (case map_of fm ''change-log'' of
       None \<Rightarrow> []
     | Some (GList items) \<Rightarrow>
         concat (map (\<lambda>(i, item). case parseChangeLogEntry item of
             Inl e \<Rightarrow> [classify_error rel Rule7 (LogEntry (i + 1) e)] | Inr x \<Rightarrow> []) (enumerate 0 items))
     | Some v \<Rightarrow> [classify_error rel Rule7 LogShape])"

definition classifyArtifact :: "string \<Rightarrow> string \<Rightarrow> gvalue gomap \<Rightarrow> Artifact" where
  "classifyArtifact rel absPath fm = emptyArtifact
     \<lparr>RelPath := rel, AbsPath := absPath, Type := string_at fm ''type'', ID := string_at fm ''id'',
      Namespace := string_at fm ''namespace'', InstanceVersion := versionField fm, Revision := revisionField fm,
      Author := au_Name (authorField fm), AuthorKind := au_Kind (authorField fm),
      Created := (case dateField fm ''created'' of Some s \<Rightarrow> s | None \<Rightarrow> ''''),
      Updated := (case dateField fm ''updated'' of Some s \<Rightarrow> s | None \<Rightarrow> ''''),
      States := statesField fm,
      HasPhaseKey := has_key fm DomainPhase, Phase := string_at fm DomainPhase,
      HasPhase := (string_field fm DomainPhase \<noteq> None),
      HasDimension := has_key fm ''dimension'', Dimension := string_at fm ''dimension'',
      DimensionsSecondary := (case listField fm ''dimensions-secondary'' of Some l \<Rightarrow> l | None \<Rightarrow> []),
      DeclaredDomain := string_at fm ''domain'', Relations := relationsField fm, ChangeLog := logField fm\<rparr>"

definition classifyFindings :: "string \<Rightarrow> gvalue gomap \<Rightarrow> bool \<Rightarrow> classify_msg result list" where
  "classifyFindings rel fm req =
     (if \<not> IsKnownType (string_at fm ''type'')
      then [classify_error rel RuleStructural (UnknownToken (string_at fm ''type'') TypeTokenCount)] else []) @
     (if string_at fm ''id'' = '''' then [classify_error rel RuleStructural NoID] else []) @
     (if string_at fm ''namespace'' = '''' then [classify_error rel RuleStructural NoNamespace] else []) @
     versionFindings rel fm req @ revisionFindings rel fm @ authorFindings rel fm @
     dateFindings rel fm ''created'' @ dateFindings rel fm ''updated'' @
     concat (map (\<lambda>d. stringFindings rel fm d (StateNotString d)) stateFields) @
     stringFindings rel fm DomainPhase PhaseNotString @
     stringFindings rel fm ''dimension'' DimensionNotString @
     listFindings rel fm ''dimensions-secondary'' RuleStructural SecondaryNotList @
     stringFindings rel fm ''domain'' DomainNotString @
     concat (map (\<lambda>f. listFindings rel fm f Rule5 (RelationNotList f)) relationshipFields) @
     logFindings rel fm"

definition classifyMap :: "string \<Rightarrow> string \<Rightarrow> gvalue gomap \<Rightarrow> bool \<Rightarrow> Artifact \<times> classify_msg result list" where
  "classifyMap rel absPath fm req = (classifyArtifact rel absPath fm, classifyFindings rel fm req)"

section \<open>The JSON adapter\<close>

definition allowedJSONTopLevel :: "string list" where
  "allowedJSONTopLevel = [''namespace'', ''type'', ''id'', ''instanceVersion'', ''revision'', ''author'', ''created'',
     ''updated'', ''state'', ''phase'', ''dimension'', ''dimensionsSecondary'', ''domain'', ''relationships'',
     ''changeLog'', ''content'', ''provenance'', ''sourcePromptHash'', ''confidence'', ''sourceCommitSha'', ''captureMeta'']"

definition passthrough :: "string list" where
  "passthrough = [''namespace'', ''type'', ''id'', ''revision'', ''author'', ''created'', ''updated'', ''phase'',
     ''dimension'', ''domain'']"

definition topLevelFindings :: "string \<Rightarrow> gvalue gomap \<Rightarrow> classify_msg result list" where
  "topLevelFindings rel doc = concat (map (\<lambda>(k, v). if List.member allowedJSONTopLevel k then []
     else [classify_error rel RuleStructural (UnknownTopLevel k)]) doc)"

definition contentField :: "gvalue gomap \<Rightarrow> gvalue gomap option" where
  "contentField doc = (case map_of doc ''content'' of Some (GMap m) \<Rightarrow> Some m | _ \<Rightarrow> None)"

definition contentFindings :: "string \<Rightarrow> gvalue gomap \<Rightarrow> classify_msg result list" where
  "contentFindings rel doc = (case map_of doc ''content'' of
       None \<Rightarrow> [classify_error rel RuleStructural ContentMissing]
     | Some (GMap m) \<Rightarrow> concat (map (\<lambda>(k, v). if isStringOrObject v then []
         else [classify_error rel RuleStructural (ContentValue k)]) m)
     | Some v \<Rightarrow> [classify_error rel RuleStructural ContentNotObject])"

text \<open>A block of keys converted to their kebab names: a later key of the iteration replaces an
  earlier one with the same kebab name, so the converted list is reversed.\<close>

definition convertKeys :: "(string \<Rightarrow> string) \<Rightarrow> (string \<Rightarrow> bool) \<Rightarrow> gvalue gomap \<Rightarrow> gvalue gomap" where
  "convertKeys kebab known m = rev (List.map_filter (\<lambda>(k, v). if known (kebab k) then Some (kebab k, v) else None) m)"

definition blockOf :: "gvalue gomap \<Rightarrow> string \<Rightarrow> gvalue gomap" where
  "blockOf doc k = (case map_of doc k of Some (GMap m) \<Rightarrow> m | _ \<Rightarrow> [])"

definition blockFindings ::
  "string \<Rightarrow> gvalue gomap \<Rightarrow> string \<Rightarrow> (string \<Rightarrow> string) \<Rightarrow> (string \<Rightarrow> bool) \<Rightarrow> classify_msg \<Rightarrow> (string \<Rightarrow> classify_msg)
     \<Rightarrow> classify_msg result list" where
  "blockFindings rel doc k kebab known notObject unknown = (case map_of doc k of
       None \<Rightarrow> []
     | Some (GMap m) \<Rightarrow> concat (map (\<lambda>(k, v). if known (kebab k) then []
         else [classify_error rel RuleStructural (unknown k)]) m)
     | Some v \<Rightarrow> [classify_error rel RuleStructural notObject])"

definition convertEntry :: "gvalue \<Rightarrow> gvalue" where
  "convertEntry item = (case item of
       GMap m \<Rightarrow> (case map_of m ''domain'' of
           Some (GString d) \<Rightarrow> GMap ((''domain'', GString (stateKeyToKebab d)) # m)
         | _ \<Rightarrow> item)
     | _ \<Rightarrow> item)"

definition logBlock :: "gvalue gomap \<Rightarrow> gvalue gomap" where
  "logBlock doc = (case map_of doc ''changeLog'' of
       Some (GList items) \<Rightarrow> [(''change-log'', GList (map convertEntry items))] | _ \<Rightarrow> [])"

definition logBlockFindings :: "string \<Rightarrow> gvalue gomap \<Rightarrow> classify_msg result list" where
  "logBlockFindings rel doc = (case map_of doc ''changeLog'' of
       None \<Rightarrow> [] | Some (GList items) \<Rightarrow> [] | Some v \<Rightarrow> [classify_error rel RuleStructural LogNotList])"

definition renamed :: "gvalue gomap \<Rightarrow> string \<Rightarrow> string \<Rightarrow> gvalue gomap" where
  "renamed doc k k' = (case map_of doc k of Some v \<Rightarrow> [(k', v)] | None \<Rightarrow> [])"

definition normalizeJSON :: "gvalue gomap \<Rightarrow> gvalue gomap" where
  "normalizeJSON doc =
     concat (map (\<lambda>k. renamed doc k k) passthrough) @
     renamed doc ''instanceVersion'' ''instance-version'' @
     renamed doc ''dimensionsSecondary'' ''dimensions-secondary'' @
     convertKeys stateKeyToKebab isStateField (blockOf doc ''state'') @
     convertKeys relationshipKeyToKebab isRelationshipField (blockOf doc ''relationships'') @
     logBlock doc"

text \<open>The capture fields: each value with its findings.\<close>

definition provenanceOf :: "string \<Rightarrow> gvalue gomap \<Rightarrow> string \<times> classify_msg result list" where
  "provenanceOf rel doc = (case map_of doc ''provenance'' of
       None \<Rightarrow> (ProvenanceHuman, [])
     | Some (GString s) \<Rightarrow> if ValidProvenance s then (s, [])
         else (ProvenanceHuman, [classify_error rel RuleStructural (ProvenanceUnknown s)])
     | Some v \<Rightarrow> (ProvenanceHuman, [classify_error rel RuleStructural ProvenanceNotString]))"

definition promptHashOf :: "string \<Rightarrow> gvalue gomap \<Rightarrow> string \<times> classify_msg result list" where
  "promptHashOf rel doc = (case map_of doc ''sourcePromptHash'' of
       None \<Rightarrow> ('''', [])
     | Some (GString s) \<Rightarrow>
         if s = '''' then ('''', [classify_error rel RuleStructural PromptHashNotString])
         else if isHexString s (Some 64) then (s, []) else ('''', [classify_error rel RuleStructural PromptHashShape])
     | Some v \<Rightarrow> ('''', [classify_error rel RuleStructural PromptHashNotString]))"

definition confidenceOf :: "string \<Rightarrow> gvalue gomap \<Rightarrow> rat option \<times> classify_msg result list" where
  "confidenceOf rel doc = (case map_of doc ''confidence'' of
       None \<Rightarrow> (None, [])
     | Some v \<Rightarrow> (case asFloat64 v of
           None \<Rightarrow> (None, [classify_error rel RuleStructural ConfidenceNotNumber])
         | Some f \<Rightarrow> if f < 0 \<or> f > 1 then (None, [classify_error rel RuleStructural (ConfidenceRange f)]) else (Some f, [])))"

definition commitOf :: "string \<Rightarrow> gvalue gomap \<Rightarrow> string \<times> classify_msg result list" where
  "commitOf rel doc = (case map_of doc ''sourceCommitSha'' of
       None \<Rightarrow> ('''', [])
     | Some (GString s) \<Rightarrow>
         if s = '''' then ('''', [classify_error rel RuleStructural CommitNotString])
         else if \<not> isHexString s None \<or> length s < 7 \<or> length s > 40
           then ('''', [classify_error rel RuleStructural CommitShape]) else (s, [])
     | Some v \<Rightarrow> ('''', [classify_error rel RuleStructural CommitNotString]))"

definition classifierOf :: "string \<Rightarrow> gvalue gomap \<Rightarrow> string \<times> classify_msg result list" where
  "classifierOf rel m = (case map_of m ''classifier'' of
       None \<Rightarrow> ('''', []) | Some (GString s) \<Rightarrow> (s, [])
     | Some v \<Rightarrow> ('''', [classify_error rel RuleStructural ClassifierNotString]))"

definition dedupeOf :: "string \<Rightarrow> gvalue gomap \<Rightarrow> string \<times> classify_msg result list" where
  "dedupeOf rel m = (case map_of m ''dedupeKey'' of
       None \<Rightarrow> ('''', [])
     | Some (GString s) \<Rightarrow> if \<not> isHexString s (Some 64) \<and> s \<noteq> '''' then ('''', [classify_error rel RuleStructural DedupeShape]) else (s, [])
     | Some v \<Rightarrow> ('''', [classify_error rel RuleStructural DedupeNotString]))"

definition captureOf :: "string \<Rightarrow> gvalue gomap \<Rightarrow> CaptureMeta \<times> classify_msg result list" where
  "captureOf rel doc = (case map_of doc ''captureMeta'' of
       None \<Rightarrow> (\<lparr>Classifier = '''', DedupeKey = ''''\<rparr>, [])
     | Some (GMap m) \<Rightarrow> (\<lparr>Classifier = fst (classifierOf rel m), DedupeKey = fst (dedupeOf rel m)\<rparr>,
         snd (classifierOf rel m) @ snd (dedupeOf rel m) @
         concat (map (\<lambda>(k, v). if k \<noteq> ''classifier'' \<and> k \<noteq> ''dedupeKey''
           then [classify_error rel RuleStructural (UnknownCapture k)] else []) m))
     | Some v \<Rightarrow> (\<lparr>Classifier = '''', DedupeKey = ''''\<rparr>, [classify_error rel RuleStructural CaptureNotObject]))"

definition jsonArtifact :: "string \<Rightarrow> string \<Rightarrow> gvalue gomap \<Rightarrow> Artifact" where
  "jsonArtifact rel absPath doc = (classifyArtifact rel absPath (normalizeJSON doc))
     \<lparr>ContentFields := contentField doc, Provenance := fst (provenanceOf rel doc),
      SourcePromptHash := fst (promptHashOf rel doc),
      Confidence := (case fst (confidenceOf rel doc) of Some f \<Rightarrow> f | None \<Rightarrow> 0),
      HasConfidence := (fst (confidenceOf rel doc) \<noteq> None),
      SourceCommitSha := fst (commitOf rel doc), Capture := fst (captureOf rel doc)\<rparr>"

definition jsonFindings :: "string \<Rightarrow> gvalue gomap \<Rightarrow> bool \<Rightarrow> classify_msg result list" where
  "jsonFindings rel doc req =
     topLevelFindings rel doc @ contentFindings rel doc @
     blockFindings rel doc ''state'' stateKeyToKebab isStateField StateNotObject UnknownStateDomain @
     blockFindings rel doc ''relationships'' relationshipKeyToKebab isRelationshipField RelationsNotObject UnknownRelation @
     logBlockFindings rel doc @ classifyFindings rel (normalizeJSON doc) req @
     snd (provenanceOf rel doc) @ snd (promptHashOf rel doc) @ snd (confidenceOf rel doc) @
     snd (commitOf rel doc) @ snd (captureOf rel doc)"

text \<open>The outcome of an adapter: an artifact or none, and the findings.\<close>

type_synonym analysis = "Artifact option \<times> classify_msg result list"

definition analyzeJSON :: "(string \<Rightarrow> gvalue gomap option) \<Rightarrow> string \<Rightarrow> string \<Rightarrow> string \<Rightarrow> bool \<Rightarrow> analysis" where
  "analyzeJSON json rel absPath contents req = (case json contents of
       None \<Rightarrow> (None, [classify_error rel RuleStructural BadJSON])
     | Some doc \<Rightarrow>
         if has_key doc ''type'' \<noteq> has_key doc ''id'' then (None, [classify_error rel RuleStructural TypeXorID])
         else if \<not> has_key doc ''type'' then (None, [])
         else (Some (jsonArtifact rel absPath doc), jsonFindings rel doc req))"

section \<open>The Markdown adapter\<close>

text \<open>The index of the closing fence after the first line.\<close>

definition is_fence :: "string \<Rightarrow> bool" where
  "is_fence line = (trim_right_char (CHR 0x0D) line = ''---'')"

definition closeIndex :: "string list \<Rightarrow> nat option" where
  "closeIndex ls = find (\<lambda>i. is_fence (ls ! i)) [1..<length ls]"

definition analyzeMarkdown :: "(string \<Rightarrow> gvalue gomap option) \<Rightarrow> string \<Rightarrow> string \<Rightarrow> string \<Rightarrow> bool \<Rightarrow> analysis" where
  "analyzeMarkdown yaml rel absPath contents req =
     (let ls = split_on newline contents in
      if \<not> is_fence (ls ! 0) then (None, [])
      else (case closeIndex ls of
          None \<Rightarrow> (None, [classify_error rel RuleStructural NeverCloses])
        | Some k \<Rightarrow>
            (case yaml (join_with [newline] (take (k - 1) (drop 1 ls))) of
               None \<Rightarrow> (None, [classify_error rel RuleStructural BadYAML])
             | Some fm \<Rightarrow>
                 if has_key fm ''type'' \<noteq> has_key fm ''id'' then (None, [classify_error rel RuleStructural TypeXorID])
                 else if \<not> has_key fm ''type'' then (None, [])
                 else (case classifyMap rel absPath fm req of
                     (a, results) \<Rightarrow> (Some (a\<lparr>BodyLines := drop (k + 1) ls\<rparr>), results)))))"

record decoding =
  dec_json :: "string \<Rightarrow> gvalue gomap option"
  dec_yaml :: "string \<Rightarrow> gvalue gomap option"

definition analyze :: "decoding \<Rightarrow> string \<Rightarrow> string \<Rightarrow> string \<Rightarrow> bool \<Rightarrow> analysis" where
  "analyze dec rel absPath contents req =
     (if has_suffix ''.json'' (map to_lower rel) then analyzeJSON (dec_json dec) rel absPath contents req
      else analyzeMarkdown (dec_yaml dec) rel absPath contents req)"

definition analyzeFile :: "decoding \<Rightarrow> string \<Rightarrow> string \<Rightarrow> string \<Rightarrow> analysis" where
  "analyzeFile dec rel absPath contents = analyze dec rel absPath contents True"

datatype scan_error = Unreadable string | ScanFindings "classify_msg result list"

definition ScanFile :: "decoding \<Rightarrow> (string \<Rightarrow> string option) \<Rightarrow> string \<Rightarrow> scan_error + Artifact option" where
  "ScanFile dec readFile path = (case readFile path of
       None \<Rightarrow> Inl (Unreadable path)
     | Some contents \<Rightarrow> (case analyze dec path path contents False of
         (a, results) \<Rightarrow> if results \<noteq> [] then Inl (ScanFindings results) else Inr a))"

end
