(* ===== verification/Conformance.thy ===== *)
theory Conformance
  imports Rules_Core Rules_Projection Rules_Domain Graph_Pass Authoring
begin

text \<open>
  The two entry points of the validator: \<open>Validate\<close> of \<open>conformance/validate.go\<close> over the
  classified files of a docs tree, and \<open>ValidateCKO\<close> of \<open>conformance/cko.go\<close> over one
  canonical unit.  The directory walk is the list of (path, name) pairs it visits; the
  contents of a file are already classified (an artifact, its structural findings, or
  neither for a convention document).
\<close>

datatype structural_msg =
    UnknownType string nat
  | EmptyId
  | MissingNamespace
  | InstanceVersionRange
  | RevisionRange
  | CreatedDate
  | UpdatedDate
  | UnknownRelationType string
  | ClassifyFinding classify_msg

datatype finding =
    Structural structural_msg
  | Core rule_msg
  | Projection proj_msg
  | Stratification domain_msg
  | Gate graph_msg

section \<open>The scan\<close>

datatype walk_entry = WalkDir string "walk_entry list" | WalkFile string

text \<open>\<open>collectAuthoringPaths\<close> below \<open>docs\<close>: hidden directories and \<open>testdata\<close> are skipped,
  Markdown files are taken, JSON files only under the authoring naming contract.\<close>

definition skippedDir :: "string \<Rightarrow> bool" where
  "skippedDir dir_name = (has_prefix ''.'' dir_name \<or> dir_name = ''testdata'')"

definition authoringFile :: "string \<Rightarrow> bool" where
  "authoringFile file_name = (has_suffix ''.md'' file_name
     \<or> (has_suffix ''.json'' file_name \<and> IsJSONAuthoringName file_name))"

fun collectEntry :: "string \<Rightarrow> walk_entry \<Rightarrow> string list" and
  collectEntries :: "string \<Rightarrow> walk_entry list \<Rightarrow> string list" where
  "collectEntry path (WalkFile n) = (if authoringFile n then [path @ [slash] @ n] else [])"
| "collectEntry path (WalkDir n es) =
     (if skippedDir n then [] else collectEntries (path @ [slash] @ n) es)"
| "collectEntries path [] = []"
| "collectEntries path (e # es) = collectEntry path e @ collectEntries path es"

definition collectAuthoringPaths :: "string \<Rightarrow> walk_entry list option \<Rightarrow> string list" where
  "collectAuthoringPaths scanRoot docs = (case docs of
       None \<Rightarrow> [] | Some es \<Rightarrow> collectEntries (scanRoot @ ''/docs'') es)"

section \<open>Running the rules\<close>

definition artifactRules :: "engine \<Rightarrow> nat \<Rightarrow> finding result list" where
  "artifactRules e i =
     (let a = artifacts e ! i in
      map (retag Core) (rule2 e a @ rule3 e a @ rule4 e a @ rule5 e i @ rule6 e a @ rule7 e a) @
      map (retag Projection) (rule8 e a @ rule9 e i) @
      map (retag Stratification) (rule10 e i @ rule11 e a @ rule12 e i))"

definition runRules :: "engine \<Rightarrow> finding result list" where
  "runRules e = map (retag Core) (rule1 e) @ concat (map (artifactRules e) [0..<length (artifacts e)])"

text \<open>One classified file: its artifact, if any, and its structural findings.\<close>

type_synonym classified = "Artifact option \<times> structural_msg result list"

definition artifactsOf :: "classified list \<Rightarrow> Artifact list" where
  "artifactsOf files = List.map_filter fst files"

definition Validate :: "(graph_msg \<Rightarrow> string) \<Rightarrow> classified list option \<Rightarrow> finding report" where
  "Validate render docs = (case docs of
       None \<Rightarrow> \<lparr>rep_FilesScanned = 0, rep_Artifacts = 0, rep_Skipped = True, rep_Results = []\<rparr>
     | Some files \<Rightarrow>
         let arts = artifactsOf files; e = repositoryEngine arts in
         \<lparr>rep_FilesScanned = length files, rep_Artifacts = length arts, rep_Skipped = False,
          rep_Results = map (retag Structural) (concat (map snd files)) @ runRules e @
            map (retag Gate) (ValidateGraph render (repositoryPass arts))\<rparr>)"

definition structural_error :: "Artifact \<Rightarrow> structural_msg \<Rightarrow> structural_msg result" where
  "structural_error a m = add_result a RuleStructural SeverityError m"

definition ckoStructural :: "Artifact \<Rightarrow> structural_msg result list" where
  "ckoStructural a =
     (if \<not> IsKnownType (Type a) then [structural_error a (UnknownType (Type a) TypeTokenCount)] else []) @
     (if ID a = '''' then [structural_error a EmptyId] else []) @
     (if Namespace a = '''' then [structural_error a MissingNamespace] else []) @
     (if InstanceVersion a < 1 then [structural_error a InstanceVersionRange] else []) @
     (if Revision a < 1 then [structural_error a RevisionRange] else []) @
     (if Created a \<noteq> '''' \<and> \<not> validDate (Created a) then [structural_error a CreatedDate] else []) @
     (if Updated a \<noteq> '''' \<and> \<not> validDate (Updated a) then [structural_error a UpdatedDate] else []) @
     concat (map (\<lambda>(relType, refs). if isRelationshipField relType then []
        else [add_result a Rule5 SeverityError (UnknownRelationType relType)]) (Relations a))"

definition ckoEngine :: "Artifact \<Rightarrow> (reference \<Rightarrow> bool) option \<Rightarrow> (reference \<Rightarrow> bool) option \<Rightarrow> engine" where
  "ckoEngine a res draft = \<lparr>artifacts = [a], byLine = buildIndex [a], skipLocation = True,
     ckoResolve = res, draftRef = draft\<rparr>"

definition ValidateCKO ::
  "(graph_msg \<Rightarrow> string) \<Rightarrow> Artifact \<Rightarrow> (reference \<Rightarrow> bool) option \<Rightarrow> (reference \<Rightarrow> bool) option \<Rightarrow> finding report" where
  "ValidateCKO render a res draft =
     \<lparr>rep_FilesScanned = 0, rep_Artifacts = 1, rep_Skipped = False,
      rep_Results = map (retag Structural) (ckoStructural a) @ runRules (ckoEngine a res draft) @
        map (retag Gate) (ValidateGraph render
          \<lparr>g_artifacts = [a], g_resolveFn = res, g_skipGates = True\<rparr>)\<rparr>"

section \<open>Lemmas\<close>

lemma retag_simps [simp]:
  "res_Severity (retag f r) = res_Severity r" "res_File (retag f r) = res_File r" "res_Rule (retag f r) = res_Rule r"
  by (simp_all add: retag_def)

definition noErrors :: "'m result list \<Rightarrow> bool" where
  "noErrors rs = list_all (\<lambda>r. res_Severity r \<noteq> SeverityError) rs"

lemma noErrors_append [simp]: "noErrors (xs @ ys) \<longleftrightarrow> noErrors xs \<and> noErrors ys"
  by (simp add: noErrors_def)

lemma noErrors_Nil [simp]: "noErrors []"
  by (simp add: noErrors_def)

lemma noErrors_retag [simp]: "noErrors (map (retag f) rs) \<longleftrightarrow> noErrors rs"
  by (simp add: noErrors_def list_all_iff)

lemma noErrors_concat: "noErrors (concat xss) \<longleftrightarrow> (\<forall>xs \<in> set xss. noErrors xs)"
  by (auto simp: noErrors_def list_all_iff)

lemma noErrors_all_errors:
  "list_all (\<lambda>r. res_Severity r = SeverityError) rs \<Longrightarrow> noErrors rs \<longleftrightarrow> rs = []"
  by (cases rs) (auto simp: noErrors_def)

lemma Pass_noErrors: "Pass r \<longleftrightarrow> noErrors (rep_Results r)"
  by (simp add: Pass_iff noErrors_def)

definition allErrors :: "'m result list \<Rightarrow> bool" where
  "allErrors rs = list_all (\<lambda>r. res_Severity r = SeverityError) rs"

lemma allErrors_simps [simp]:
  "allErrors []" "allErrors (r # rs) \<longleftrightarrow> res_Severity r = SeverityError \<and> allErrors rs"
  "allErrors (xs @ ys) \<longleftrightarrow> allErrors xs \<and> allErrors ys"
  "allErrors (concat (map f zs)) \<longleftrightarrow> list_all (\<lambda>y. allErrors (f y)) zs"
  "allErrors (if c then xs else ys) \<longleftrightarrow> (if c then allErrors xs else allErrors ys)"
  by (auto simp: allErrors_def list_all_iff)

lemma noErrors_allErrors: "allErrors rs \<Longrightarrow> noErrors rs \<longleftrightarrow> rs = []"
  unfolding allErrors_def by (rule noErrors_all_errors)

lemma rule3_errors: "allErrors (rule3 e a)"
  by (simp add: rule3_def list_all_iff split: prod.split)

lemma rule4_errors: "allErrors (rule4 e a)"
  by (simp add: rule4_def list_all_iff split: option.split prod.split)

lemma rule7Entry_errors: "allErrors (rule7Entry info a p)"
  by (cases p) (simp add: rule7Entry_def Let_def)

lemma rule7Domain_errors: "allErrors (rule7Domain a d)"
  by (simp add: rule7Domain_def Let_def list_all_iff)

lemma rule7_errors: "allErrors (rule7 e a)"
  by (simp add: rule7_def Let_def list_all_iff rule7Entry_errors rule7Domain_errors split: option.split)

lemma ckoStructural_errors: "allErrors (ckoStructural a)"
  by (simp add: ckoStructural_def structural_error_def list_all_iff split: prod.split)

lemma ckoStructural_Nil:
  "ckoStructural a = [] \<longleftrightarrow>
     IsKnownType (Type a) \<and> ID a \<noteq> '''' \<and> Namespace a \<noteq> '''' \<and> 1 \<le> InstanceVersion a \<and> 1 \<le> Revision a
     \<and> (Created a = '''' \<or> validDate (Created a)) \<and> (Updated a = '''' \<or> validDate (Updated a))
     \<and> set (map fst (Relations a)) \<subseteq> set relationshipFields"
proof -
  have "concat (map (\<lambda>(relType, refs). if isRelationshipField relType then []
        else [add_result a Rule5 SeverityError (UnknownRelationType relType)]) (Relations a)) = []
      \<longleftrightarrow> set (map fst (Relations a)) \<subseteq> set relationshipFields"
    using concat_map_split_Nil [of "\<lambda>k v. isRelationshipField k"
        "\<lambda>k v. add_result a Rule5 SeverityError (UnknownRelationType k)" "Relations a"]
    by (auto simp: list_all_iff)
  then show ?thesis by (auto simp: ckoStructural_def simp del: concat_eq_Nil_conv)
qed

section \<open>What a passing unit satisfies\<close>

definition referenceAccepted :: "Artifact \<Rightarrow> (reference \<Rightarrow> bool) \<Rightarrow> (reference \<Rightarrow> bool) option \<Rightarrow> string \<Rightarrow> bool" where
  "referenceAccepted a f draft raw = (case parseReference raw (Namespace a) (Type a) of
       Inl err \<Rightarrow> False
     | Inr ref \<Rightarrow> \<not> isSelfIdentity ref a \<and>
         (f ref \<or> \<not> ref_HasVersion ref \<and> (case draft of None \<Rightarrow> False | Some g \<Rightarrow> g ref)
          \<or> state_of a DomainContentState = ''draft''))"

lemma ckoEngine_simps [simp]:
  "artifacts (ckoEngine a res draft) = [a]" "ckoResolve (ckoEngine a res draft) = res"
  "draftRef (ckoEngine a res draft) = draft" "skipLocation (ckoEngine a res draft)"
  "byLine (ckoEngine a res draft) = buildIndex [a]"
  by (simp_all add: ckoEngine_def)

lemma rule5Reference_accepted:
  assumes "noErrors (rule5Reference (ckoEngine a (Some f) draft) 0 field raw)"
  shows "referenceAccepted a f draft raw"
  using assms
  by (auto simp: rule5Reference_def referenceAccepted_def Let_def resolveRef_def draftTolerated_def
      unresolvedFinding_def noErrors_def split: sum.splits if_splits option.splits)

lemma cko_noErrors:
  assumes "Pass (ValidateCKO render a res draft)"
  shows "ckoStructural a = []" "rule3 e a = []" "rule4 e a = []" "rule7 e a = []"
    and "noErrors (rule5 (ckoEngine a res draft) 0)"
proof -
  let ?e = "ckoEngine a res draft"
  have n: "noErrors (ckoStructural a)" "noErrors (runRules ?e)"
    using assms by (simp_all add: Pass_noErrors ValidateCKO_def)
  from n(2) have r: "noErrors (artifactRules ?e 0)" by (simp add: runRules_def)
  show "ckoStructural a = []" using n(1) noErrors_allErrors [OF ckoStructural_errors] by blast
  have "rule3 ?e a = []" "rule4 ?e a = []" "rule7 ?e a = []"
    using r noErrors_allErrors rule3_errors rule4_errors rule7_errors
    by (simp_all add: artifactRules_def Let_def) blast+
  then show "rule3 e a = []" "rule4 e a = []" "rule7 e a = []"
    by (simp_all add: rule3_def rule4_def rule7_def)
  show "noErrors (rule5 ?e 0)" using r by (simp add: artifactRules_def Let_def)
qed

text \<open>C1: What the publish gate guarantees.  A unit that passes CKO-level validation
  against a runtime resolver has a known type, non-empty id and namespace and positive
  versions, only canonical relationship fields, exactly its type's state domains with
  valid values, a change log whose last entry for each owned domain is the current value,
  and only references that parse, are not itself, and resolve, name a draft, or are
  excused by the unit's own draft state.\<close>

theorem publish_gate_guarantees:
  assumes "Pass (ValidateCKO render a (Some f) draft)"
  shows "IsKnownType (Type a) \<and> ID a \<noteq> '''' \<and> Namespace a \<noteq> '''' \<and> 1 \<le> InstanceVersion a \<and> 1 \<le> Revision a
    \<and> set (map fst (Relations a)) \<subseteq> set relationshipFields
    \<and> fst ` set (States a) = set (OwnedDomains (Type a))
    \<and> list_all (\<lambda>(d, v). ValidStateValue d (Type a) v) (States a)
    \<and> list_all (\<lambda>d. state_of a d = '''' \<or> map To (entriesForDomain (ChangeLog a) d) \<noteq> []
         \<and> last (map To (entriesForDomain (ChangeLog a) d)) = state_of a d) (OwnedDomains (Type a))
    \<and> list_all (\<lambda>field. list_all (referenceAccepted a f draft) (relation_of a field)) relationshipFields"
proof -
  note c = cko_noErrors [OF assms]
  have s: "IsKnownType (Type a)" "ID a \<noteq> ''''" "Namespace a \<noteq> ''''" "1 \<le> InstanceVersion a"
    "1 \<le> Revision a" "set (map fst (Relations a)) \<subseteq> set relationshipFields"
    using c(1) by (auto simp: ckoStructural_Nil)
  then obtain info where info: "TypeInfoFor (Type a) = Some info" using TypeInfoFor_known by blast
  then have owned: "OwnedDomains (Type a) = Owned info" by (simp add: OwnedDomains_def TypeInfoFor_def)
  have v: "fst ` set (States a) = set (Owned info)" "list_all (\<lambda>(d, v). ValidStateValue d (Type a) v) (States a)"
    using c(2,3) rule3_Nil_iff rule4_Nil_iff [OF info] by blast+
  have log: "state_of a d = '''' \<or> map To (entriesForDomain (ChangeLog a) d) \<noteq> []
         \<and> last (map To (entriesForDomain (ChangeLog a) d)) = state_of a d" if "d \<in> set (Owned info)" for d
  proof (cases "state_of a d = ''''")
    case False
    have "rule7Domain a d = []" using rule7_NilD(1) [OF c(4) info] that by (simp add: neededDomains_def)
    moreover have "d \<noteq> DomainPhase"
      using that info type_table_domains by (metis owned)
    ultimately show ?thesis using rule7Domain_NilD(1,2) False by (simp add: last_map)
  qed simp
  have refs: "list_all (referenceAccepted a f draft) (relation_of a field)" if "field \<in> set relationshipFields" for field
    using c(5) that by (auto simp: rule5_def noErrors_concat list_all_iff intro: rule5Reference_accepted)
  show ?thesis using s v log refs by (simp add: owned list_all_iff)
qed

definition sampleVision :: Artifact where
  "sampleVision = emptyArtifact\<lparr>Namespace := ''core'', Type := ''vis'', ID := ''north'', InstanceVersion := 1,
     Revision := 1, HasDimension := True, Dimension := ''intent'',
     States := [(''content-state'', ''draft''), (''existence-state'', ''active'')],
     Relations := [(''derives-from'', [''req:later'', ''core/str:base:2''])],
     ChangeLog := [sampleEntry ''content-state'' ''-'' ''draft'', sampleEntry ''existence-state'' ''-'' ''active''],
     ContentFields := Some [(''purpose'', GString ''p''), (''content'', GString ''c'')]\<rparr>"

theorem publish_gate_guarantees_witness:
  "Pass (ValidateCKO (\<lambda>m. '''') sampleVision (Some (\<lambda>ref. ref_Type ref = ''str'')) None)
   \<and> 1 \<le> InstanceVersion sampleVision"
proof -
  have p: "Pass (ValidateCKO (\<lambda>m. '''') sampleVision (Some (\<lambda>ref. ref_Type ref = ''str'')) None)"
    by code_simp
  with publish_gate_guarantees [OF p] show ?thesis by blast
qed

end
