(* ===== verification/Authoring_Gate.thy ===== *)
theory Authoring_Gate
  imports Conformance
begin

text \<open>
  What a classification without findings guarantees, and how the repository entry points
  of \<open>conformance/validate.go\<close> and \<open>conformance/scan.go\<close> read files through the adapters of
  Authoring.
\<close>

section \<open>Files\<close>

text \<open>A collected file: its path relative to the root, its path and its contents.\<close>

definition classifyFile :: "decoding \<Rightarrow> string \<times> string \<times> string \<Rightarrow> classified" where
  "classifyFile dec file = (case file of (rel, path, contents) \<Rightarrow>
     (case analyzeFile dec rel path contents of (a, results) \<Rightarrow> (a, map (retag ClassifyFinding) results)))"

definition validateFiles :: "(graph_msg \<Rightarrow> string) \<Rightarrow> decoding \<Rightarrow> (string \<times> string \<times> string) list option \<Rightarrow> finding report" where
  "validateFiles render dec files = Validate render (map_option (map (classifyFile dec)) files)"

definition Scan :: "decoding \<Rightarrow> (string \<times> string \<times> string) list option \<Rightarrow> Artifact list" where
  "Scan dec files = (case files of None \<Rightarrow> [] | Some fs \<Rightarrow> artifactsOf (map (classifyFile dec) fs))"

section \<open>Clean classification\<close>

lemma classify_error_simps [simp]:
  "res_File (classify_error rel r m) = rel" "res_Severity (classify_error rel r m) = SeverityError"
  by (simp_all add: classify_error_def)

lemma concat_singletons_Nil: "concat (map (\<lambda>x. if P x then [] else [f x]) xs) = [] \<longleftrightarrow> (\<forall>x\<in>set xs. P x)"
  by (induction xs) auto

lemma map_filter_keys: "fst ` set (List.map_filter (\<lambda>k. map_option (\<lambda>v. (k, v)) (f k)) ks) \<subseteq> set ks"
  by (auto simp: List.map_filter_def)

lemma map_filter_keys_distinct: "distinct ks \<Longrightarrow> distinct (map fst (List.map_filter (\<lambda>k. map_option (\<lambda>v. (k, v)) (f k)) ks))"
proof (induction ks)
  case (Cons k ks)
  have "k \<notin> fst ` set (List.map_filter (\<lambda>k. map_option (\<lambda>v. (k, v)) (f k)) ks)"
    using Cons.prems map_filter_keys [of f ks] by auto
  with Cons show ?case by (simp split: option.split)
qed simp

lemma entry_authority_kind:
  assumes "entry_authority m = Inr who"
  shows "IsAuthorKind (au_Kind who)"
proof -
  obtain v where "decodeIdentity v = Some who"
    using assms by (simp add: entry_authority_def split: option.splits gvalue.splits del: decodeIdentity.simps)
  then show ?thesis by (rule decodeIdentity_kind)
qed

lemma parse_entry_ok:
  assumes "parseChangeLogEntry item = Inr e"
  shows "validDate (Date e) \<and> IsAuthorKind (ByKind e)"
  using assms entry_authority_kind
  by (auto simp: parseChangeLogEntry_def split: gvalue.splits sum.splits if_splits)

lemma logField_ok: "e \<in> set (logField fm) \<Longrightarrow> validDate (Date e) \<and> IsAuthorKind (ByKind e)"
  using parse_entry_ok
  by (auto simp: logField_def List.map_filter_def split: option.splits gvalue.splits sum.splits)

lemma dateFindings_Nil: "dateFindings rel fm k = [] \<longleftrightarrow> (\<exists>s. dateField fm k = Some s \<and> (s = '''' \<or> validDate s))"
  by (auto simp: dateFindings_def dateField_def split: option.splits)

text \<open>Each part of a clean classification.\<close>

lemma classifyFindings_Nil:
  assumes "classifyFindings rel fm req = []"
  shows "IsKnownType (string_at fm ''type'')" "string_at fm ''id'' \<noteq> ''''" "string_at fm ''namespace'' \<noteq> ''''"
    "versionFindings rel fm req = []" "1 \<le> revisionField fm" "authorFindings rel fm = []"
    "dateFindings rel fm ''created'' = []" "dateFindings rel fm ''updated'' = []"
    "logFindings rel fm = []"
  using assms unfolding classifyFindings_def
  by (auto simp: revisionFindings_def not_less split: if_splits)

lemma version_clean:
  assumes "versionFindings rel fm req = []"
  shows "0 \<le> versionField fm \<and> (req \<longrightarrow> 1 \<le> versionField fm)"
  using assms by (auto simp: versionFindings_def versionField_def split: option.splits if_splits)

lemma log_clean:
  assumes "logFindings rel fm = []" "map_of fm ''change-log'' = Some (GList items)"
  shows "length (logField fm) = length items"
proof -
  have "\<forall>(i, item) \<in> set (enumerate 0 items). \<exists>x. parseChangeLogEntry item = Inr x"
    using assms by (fastforce simp: logFindings_def split: sum.splits)
  then have "\<forall>item \<in> set items. \<exists>x. parseChangeLogEntry item = Inr x"
    unfolding all_set_conv_all_nth by (auto simp: nth_enumerate_eq)
  then have "length (List.map_filter (\<lambda>item. case parseChangeLogEntry item of Inl e \<Rightarrow> None | Inr x \<Rightarrow> Some x) items) = length items"
    by (induction items) (auto split: sum.split)
  then show ?thesis using assms(2) by (simp add: logField_def)
qed

lemma capture_clean:
  "ValidProvenance (fst (provenanceOf rel doc))"
  "fst (confidenceOf rel doc) = Some f \<Longrightarrow> 0 \<le> f \<and> f \<le> 1"
  by (auto simp: provenanceOf_def ValidProvenance_def confidenceOf_def split: option.splits gvalue.splits if_splits)

lemma jsonArtifact_fields [simp]:
  "Type (jsonArtifact rel ab doc) = string_at (normalizeJSON doc) ''type''"
  "ID (jsonArtifact rel ab doc) = string_at (normalizeJSON doc) ''id''"
  "Namespace (jsonArtifact rel ab doc) = string_at (normalizeJSON doc) ''namespace''"
  "InstanceVersion (jsonArtifact rel ab doc) = versionField (normalizeJSON doc)"
  "Revision (jsonArtifact rel ab doc) = revisionField (normalizeJSON doc)"
  "Created (jsonArtifact rel ab doc) = (case dateField (normalizeJSON doc) ''created'' of Some s \<Rightarrow> s | None \<Rightarrow> '''')"
  "Updated (jsonArtifact rel ab doc) = (case dateField (normalizeJSON doc) ''updated'' of Some s \<Rightarrow> s | None \<Rightarrow> '''')"
  "States (jsonArtifact rel ab doc) = statesField (normalizeJSON doc)"
  "Relations (jsonArtifact rel ab doc) = relationsField (normalizeJSON doc)"
  "ChangeLog (jsonArtifact rel ab doc) = logField (normalizeJSON doc)"
  "ContentFields (jsonArtifact rel ab doc) = contentField doc"
  "Provenance (jsonArtifact rel ab doc) = fst (provenanceOf rel doc)"
  "Confidence (jsonArtifact rel ab doc) = (case fst (confidenceOf rel doc) of Some f \<Rightarrow> f | None \<Rightarrow> 0)"
  by (simp_all add: jsonArtifact_def classifyArtifact_def)

lemma analyzeJSON_clean:
  assumes "analyzeJSON json rel ab contents req = (Some a, [])"
  obtains doc where "json contents = Some doc" "a = jsonArtifact rel ab doc" "jsonFindings rel doc req = []"
  using assms by (auto simp: analyzeJSON_def split: option.splits if_splits)

lemma jsonFindings_Nil:
  assumes "jsonFindings rel doc req = []"
  shows "topLevelFindings rel doc = []" "contentFindings rel doc = []"
    "classifyFindings rel (normalizeJSON doc) req = []" "logBlockFindings rel doc = []"
  using assms by (simp_all add: jsonFindings_def)

lemma top_level_clean: "topLevelFindings rel doc = [] \<Longrightarrow> fst ` set doc \<subseteq> set allowedJSONTopLevel"
  by (auto simp: topLevelFindings_def split: if_splits)

lemma content_clean:
  assumes "contentFindings rel doc = []"
  shows "contentField doc \<noteq> None"
  using assms by (auto simp: contentFindings_def contentField_def split: option.splits gvalue.splits)

text \<open>The frontmatter lemmas, bundled for the two theorems below.\<close>

lemmas clean_parts = classifyFindings_Nil version_clean capture_clean

text \<open>C38: A JSON document classified without findings is a complete artifact: only the fields of
  the schema, a known type, non-empty identity, a version when one is required, a revision
  of at least one, well-formed dates, change-log entries with dates and known authorities,
  owned keys only, a valid provenance and confidence, and structured content.\<close>
theorem classification_sound:
  assumes clean: "analyzeJSON json rel ab contents req = (Some a, [])"
  shows "IsKnownType (Type a) \<and> ID a \<noteq> '''' \<and> Namespace a \<noteq> '''' \<and> 1 \<le> Revision a
    \<and> (if req then 1 else 0) \<le> InstanceVersion a
    \<and> (Created a = '''' \<or> validDate (Created a)) \<and> (Updated a = '''' \<or> validDate (Updated a))
    \<and> list_all (\<lambda>e. validDate (Date e) \<and> IsAuthorKind (ByKind e)) (ChangeLog a)
    \<and> set (map fst (States a)) \<subseteq> set stateFields \<and> distinct (map fst (States a))
    \<and> set (map fst (Relations a)) \<subseteq> set relationshipFields \<and> distinct (map fst (Relations a))
    \<and> ValidProvenance (Provenance a) \<and> 0 \<le> Confidence a \<and> Confidence a \<le> 1 \<and> ContentFields a \<noteq> None
    \<and> (\<exists>doc. json contents = Some doc \<and> fst ` set doc \<subseteq> set allowedJSONTopLevel)"
proof -
  obtain doc where d: "json contents = Some doc" and a: "a = jsonArtifact rel ab doc" and f: "jsonFindings rel doc req = []"
    using clean by (rule analyzeJSON_clean)
  let ?fm = "normalizeJSON doc"
  note parts = jsonFindings_Nil [OF f]
  note c = classifyFindings_Nil [OF parts(3)]
  have dist: "distinct stateFields" "distinct relationshipFields" by code_simp+
  have version: "(if req then 1 else 0) \<le> versionField ?fm" using version_clean [OF c(4)] by auto
  have dates: "\<exists>s. dateField ?fm k = Some s \<and> (s = '''' \<or> validDate s)" if "k \<in> {''created'', ''updated''}" for k
    using that c(7,8) by (auto simp: dateFindings_Nil)
  have entries: "list_all (\<lambda>e. validDate (Date e) \<and> IsAuthorKind (ByKind e)) (logField ?fm)"
    using logField_ok by (auto simp: list_all_iff)
  have keys: "set (map fst (statesField ?fm)) \<subseteq> set stateFields" "set (map fst (relationsField ?fm)) \<subseteq> set relationshipFields"
    unfolding statesField_def relationsField_def by (simp_all add: map_filter_keys)
  have keys': "distinct (map fst (statesField ?fm))" "distinct (map fst (relationsField ?fm))"
    unfolding statesField_def relationsField_def by (simp_all add: map_filter_keys_distinct dist)
  have confidence: "0 \<le> Confidence a \<and> Confidence a \<le> 1"
    using capture_clean(2) [of rel doc] unfolding a by (auto split: option.split)
  show ?thesis
    using c(1,2,3,5) version dates [of "''created''"] dates [of "''updated''"] entries keys keys' confidence
      capture_clean(1) content_clean [OF parts(2)] top_level_clean [OF parts(1)] d
    unfolding a by auto
qed

definition sampleDoc :: "gvalue gomap" where
  "sampleDoc = [(''namespace'', GString ''core''), (''type'', GString ''sto''), (''id'', GString ''s''),
     (''revision'', GFloat 1), (''state'', GMap [(''executionState'', GString ''planned'')]),
     (''relationships'', GMap [(''dependsOn'', GList [GString ''sto:t''])]),
     (''changeLog'', GList [GMap [(''date'', GString ''2024-01-02''), (''domain'', GString ''executionState''),
        (''from'', GString ''-''), (''to'', GString ''planned''), (''by'', GString ''a'')]]),
     (''confidence'', GFloat (1 / 2)), (''content'', GMap [(''scope'', GString '''')])]"

lemma sampleDoc_clean: "jsonFindings ''s.json'' sampleDoc False = []"
  by code_simp

theorem classification_sound_witness:
  "States (jsonArtifact ''s.json'' ''s.json'' sampleDoc) = [(''execution-state'', ''planned'')]
   \<and> Confidence (jsonArtifact ''s.json'' ''s.json'' sampleDoc) \<le> 1"
proof -
  have "analyzeJSON (\<lambda>s. Some sampleDoc) ''s.json'' ''s.json'' '''' False = (Some (jsonArtifact ''s.json'' ''s.json'' sampleDoc), [])"
    using sampleDoc_clean by (simp add: analyzeJSON_def has_key_def sampleDoc_def)
  note s = classification_sound [OF this]
  have "States (jsonArtifact ''s.json'' ''s.json'' sampleDoc) = [(''execution-state'', ''planned'')]" by code_simp
  with s show ?thesis by simp
qed

text \<open>The structural checks of the publish gate are the classification's own: an artifact
  classified without findings passes them under any version of at least one.\<close>

lemma classified_structural:
  assumes clean: "analyzeJSON json rel ab contents req = (Some a, [])" and v: "1 \<le> v"
  shows "ckoStructural (a\<lparr>InstanceVersion := v\<rparr>) = []"
proof -
  obtain doc where a: "a = jsonArtifact rel ab doc" and f: "jsonFindings rel doc req = []"
    using clean by (rule analyzeJSON_clean)
  let ?fm = "normalizeJSON doc"
  note c = classifyFindings_Nil [OF jsonFindings_Nil(3) [OF f]]
  have dates: "(case dateField ?fm k of Some s \<Rightarrow> s | None \<Rightarrow> '''') = '''' \<or> validDate (case dateField ?fm k of Some s \<Rightarrow> s | None \<Rightarrow> '''')" for k
    by (auto simp: dateField_def split: option.split)
  have rels: "set (map fst (relationsField ?fm)) \<subseteq> set relationshipFields"
    unfolding relationsField_def by (simp add: map_filter_keys)
  show ?thesis
    using c(1,2,3,5) v dates [of "''created''"] dates [of "''updated''"] rels
    unfolding a ckoStructural_def by (auto simp: subset_iff)
qed

text \<open>A document with the given object of states.\<close>

definition stateDoc :: "gvalue gomap \<Rightarrow> gvalue gomap" where
  "stateDoc m = map (\<lambda>(k, v). if k = ''state'' then (k, GMap m) else (k, v)) sampleDoc"

text \<open>The JSON adapter accepts both spellings of a state key and keeps the one its map
  iteration meets last: one document, its state object listed in the two orders, yields
  two artifacts with different states and no finding in either.\<close>
theorem state_spelling_ambiguous:
  "let p = (''executionState'', GString ''planned''); q = (''execution-state'', GString ''done'') in
     jsonFindings ''d.json'' (stateDoc [p, q]) False = [] \<and> jsonFindings ''d.json'' (stateDoc [q, p]) False = []
     \<and> map_of (States (jsonArtifact ''d.json'' ''d.json'' (stateDoc [p, q]))) DomainExecutionState = Some ''done''
     \<and> map_of (States (jsonArtifact ''d.json'' ''d.json'' (stateDoc [q, p]))) DomainExecutionState = Some ''planned''"
  unfolding Let_def by (intro conjI) code_simp+

end
