(* ===== verification/Content_Object.thy ===== *)
theory Content_Object
  imports Authoring Rules_Projection "HOL-Library.Multiset"
begin

text \<open>
  The content object of \<open>conformance/content.go\<close>: an artifact's content compiled from its
  JSON object or its Markdown body, and the canonical compact encoding of the payload.
  The text of a number or a timestamp is an argument; bytes above ASCII are copied (they
  are printable runes of valid UTF-8).
\<close>

section \<open>Compiling a body\<close>

definition sectionKeyForHeading :: "string \<Rightarrow> string list \<Rightarrow> string" where
  "sectionKeyForHeading heading required =
     (case find (\<lambda>section. headingMatches (''## '' @ heading) section) required of
        Some section \<Rightarrow> SectionKey section | None \<Rightarrow> SectionKey heading)"

definition preambleHasProjectionHeader :: "string list \<Rightarrow> bool" where
  "preambleHasProjectionHeader preamble =
     list_ex (\<lambda>line. trim_right_char (CHR 0x0D) (trim_space line) = projectHeader) preamble"

definition putKey :: "'a gomap \<Rightarrow> string \<Rightarrow> 'a \<Rightarrow> 'a gomap" where
  "putKey m k v = (k, v) # filter (\<lambda>p. fst p \<noteq> k) m"

text \<open>The state of the loop: the finished fields, the current section with its lines in
  reverse, and the preamble.\<close>

record compiling =
  cs_fields :: "string gomap"
  cs_key :: string
  cs_lines :: "string list"
  cs_preamble :: "string list"

definition flushSection :: "compiling \<Rightarrow> compiling" where
  "flushSection s = s\<lparr>cs_fields := (if cs_key s = '''' then cs_fields s
       else putKey (cs_fields s) (cs_key s) (trim_space (join_with [newline] (rev (cs_lines s))))),
     cs_key := '''', cs_lines := []\<rparr>"

definition compileLine :: "string list \<Rightarrow> compiling \<Rightarrow> string \<Rightarrow> compiling" where
  "compileLine required s line =
     (let t = trim_space line in
      if has_prefix ''## '' t then
        (flushSection s)\<lparr>cs_key := sectionKeyForHeading (trim_space (trim_prefix ''## '' t)) required\<rparr>
      else if cs_key s \<noteq> '''' then s\<lparr>cs_lines := line # cs_lines s\<rparr>
      else s\<lparr>cs_preamble := cs_preamble s @ [line]\<rparr>)"

definition compileBody :: "string list \<Rightarrow> string list \<Rightarrow> compiling" where
  "compileBody required body =
     flushSection (foldl (compileLine required) \<lparr>cs_fields = [], cs_key = '''', cs_lines = [], cs_preamble = []\<rparr> body)"

definition requiredFor :: "string \<Rightarrow> string list" where
  "requiredFor t = (case requiredSectionsFor t of None \<Rightarrow> [] | Some req \<Rightarrow> req)"

text \<open>The required section keys that are present, in registry order, then the others sorted.\<close>

fun presentKeys :: "'a gomap \<Rightarrow> string list \<Rightarrow> string list \<Rightarrow> string list" where
  "presentKeys flds seen [] = []"
| "presentKeys flds seen (section # sections) =
     (let k = SectionKey section in
      if has_key flds k \<and> \<not> List.member seen k then k # presentKeys flds (k # seen) sections
      else presentKeys flds seen sections)"

definition contentKeyOrder :: "'a gomap \<Rightarrow> string list \<Rightarrow> string list" where
  "contentKeyOrder flds required =
     (let ks = presentKeys flds [] required in
      ks @ sort (filter (\<lambda>k. \<not> List.member ks k) (map fst flds)))"

definition retainHeader :: "string gomap \<Rightarrow> string list \<Rightarrow> string gomap" where
  "retainHeader flds required =
     (let first = contentKeyOrder flds required ! 0 in
      if first = '''' then flds
      else putKey flds first (projectHeader @ [newline, newline] @ get_or flds first ''''))"

definition CompileContentObject :: "Artifact \<Rightarrow> gvalue gomap option" where
  "CompileContentObject a = (case ContentFields a of
       Some m \<Rightarrow> Some m
     | None \<Rightarrow>
         let required = requiredFor (Type a); s = compileBody required (BodyLines a); flds = cs_fields s in
         if flds = [] then None
         else Some (map (\<lambda>(k, v). (k, GString v))
           (if (Type a = ''tkt'' \<or> Type a = ''ctr'') \<and> preambleHasProjectionHeader (cs_preamble s)
            then retainHeader flds required else flds)))"

section \<open>The encoding\<close>

definition hex_char :: "nat \<Rightarrow> char" where
  "hex_char n = ''0123456789abcdef'' ! n"

definition byte_hex :: "char \<Rightarrow> string" where
  "byte_hex c = [hex_char (of_char c div 16), hex_char (of_char c mod 16)]"

definition quote_char :: char where "quote_char = CHR 0x22"
definition backslash :: char where "backslash = CHR 0x5C"

text \<open>\<open>strconv.Quote\<close> and the string encoding of \<open>encoding/json\<close>, byte by byte.\<close>

definition goEscape :: "char \<Rightarrow> string" where
  "goEscape c =
     (if c = quote_char \<or> c = backslash then [backslash, c]
      else if c = CHR 0x07 then [backslash, CHR ''a''] else if c = CHR 0x08 then [backslash, CHR ''b'']
      else if c = CHR 0x0C then [backslash, CHR ''f''] else if c = CHR 0x0A then [backslash, CHR ''n'']
      else if c = CHR 0x0D then [backslash, CHR ''r''] else if c = CHR 0x09 then [backslash, CHR ''t'']
      else if c = CHR 0x0B then [backslash, CHR ''v'']
      else if (of_char c :: nat) < 32 \<or> c = CHR 0x7F then backslash # CHR ''x'' # byte_hex c
      else [c])"

definition jsonEscape :: "char \<Rightarrow> string" where
  "jsonEscape c =
     (if c = quote_char \<or> c = backslash then [backslash, c]
      else if c = CHR 0x08 then [backslash, CHR ''b''] else if c = CHR 0x0C then [backslash, CHR ''f'']
      else if c = CHR 0x0A then [backslash, CHR ''n''] else if c = CHR 0x0D then [backslash, CHR ''r'']
      else if c = CHR 0x09 then [backslash, CHR ''t'']
      else if (of_char c :: nat) < 32 \<or> c = CHR ''<'' \<or> c = CHR ''>'' \<or> c = CHR ''&''
        then backslash # ''u00'' @ byte_hex c
      else [c])"

definition goQuote :: "string \<Rightarrow> string" where
  "goQuote s = [quote_char] @ concat (map goEscape s) @ [quote_char]"

definition jsonQuote :: "string \<Rightarrow> string" where
  "jsonQuote s = [quote_char] @ concat (map jsonEscape s) @ [quote_char]"

definition renderObject :: "(string \<Rightarrow> string) \<Rightarrow> (string \<times> string) list \<Rightarrow> string" where
  "renderObject quoteKey ps =
     ''{'' @ join_with '','' (map (\<lambda>(k, v). quoteKey k @ '':'' @ v) ps) @ ''}''"

text \<open>\<open>json.Marshal\<close> of a value below an array: objects sorted by key.\<close>

fun jsonMarshal :: "(gvalue \<Rightarrow> string) \<Rightarrow> gvalue \<Rightarrow> string" and
  marshalItems :: "(gvalue \<Rightarrow> string) \<Rightarrow> gvalue list \<Rightarrow> string list" and
  marshalEntries :: "(gvalue \<Rightarrow> string) \<Rightarrow> (string \<times> gvalue) list \<Rightarrow> (string \<times> string) list" where
  "jsonMarshal num GNil = ''null''"
| "jsonMarshal num (GBool b) = (if b then ''true'' else ''false'')"
| "jsonMarshal num (GString s) = jsonQuote s"
| "jsonMarshal num (GInt n) = itoa n"
| "jsonMarshal num (GFloat r) = num (GFloat r)"
| "jsonMarshal num (GTime s) = num (GTime s)"
| "jsonMarshal num (GList l) = ''['' @ join_with '','' (marshalItems num l) @ '']''"
| "jsonMarshal num (GMap m) = renderObject jsonQuote (sort_key fst (marshalEntries num m))"
| "marshalItems num [] = []"
| "marshalItems num (v # vs) = jsonMarshal num v # marshalItems num vs"
| "marshalEntries num [] = []"
| "marshalEntries num ((k, v) # m) = (k, jsonMarshal num v) # marshalEntries num m"

fun writeJSONValue :: "(gvalue \<Rightarrow> string) \<Rightarrow> gvalue \<Rightarrow> string" and
  writeEntries :: "(gvalue \<Rightarrow> string) \<Rightarrow> (string \<times> gvalue) list \<Rightarrow> (string \<times> string) list" where
  "writeJSONValue num (GMap m) = renderObject goQuote (sort_key fst (writeEntries num m))"
| "writeJSONValue num v = jsonMarshal num v"
| "writeEntries num [] = []"
| "writeEntries num ((k, v) # m) = (k, writeJSONValue num v) # writeEntries num m"

definition ContentJSON :: "(gvalue \<Rightarrow> string) \<Rightarrow> gvalue gomap \<Rightarrow> string list \<Rightarrow> string" where
  "ContentJSON num flds required = renderObject goQuote
     (map (\<lambda>k. (k, writeJSONValue num (get_or flds k GNil))) (contentKeyOrder flds required))"

section \<open>Headings\<close>

lemma trim_heading:
  assumes "trim_space x \<noteq> ''''"
  shows "trim_space (''## '' @ trim_space x) = ''## '' @ trim_space x"
proof -
  have still: "trim_right (trim_space x) = trim_space x" by (simp add: trim_space_def)
  have left: "trim_left (''## '' @ trim_space x) = ''## '' @ trim_space x"
    using plain_edge_left [of "CHR ''#''" "''# '' @ trim_space x"] by (simp add: plain_edge_def space1_def)
  have "trim_front (\<lambda>b a. space2 a b) (\<lambda>c b a. space3 a b c) (rev (trim_space x)) = rev (trim_space x)"
    using still by (metis trim_right_def rev_rev_ident)
  from trim_front_extend [OF this, of "CHR '' ''" "CHR ''#''" "''#''"] assms
  have "trim_right (''## '' @ trim_space x) = ''## '' @ trim_space x"
    by (simp add: trim_right_def space2_def space3_def less_eq_char_def)
  then show ?thesis using left by (simp add: trim_space_def)
qed

section \<open>The keys of the object\<close>

lemma has_key_putKey [simp]: "has_key (putKey m k v) k' \<longleftrightarrow> k' = k \<or> has_key m k'"
proof -
  have "map_of (filter (\<lambda>p. fst p \<noteq> k) m) k' = (if k' = k then None else map_of m k')"
    by (induction m) auto
  then show ?thesis by (auto simp: putKey_def has_key_def)
qed

lemma has_key_map: "has_key (map (\<lambda>(k, v). (k, f v)) m) k \<longleftrightarrow> has_key m k"
  by (induction m) (auto simp: has_key_def)

lemma has_key_set: "has_key m k \<longleftrightarrow> k \<in> fst ` set m"
  by (induction m) (auto simp: has_key_def)

lemma presentKeys_spec:
  "set (presentKeys m seen ss) = {k \<in> SectionKey ` set ss. has_key m k} - set seen
   \<and> distinct (presentKeys m seen ss)"
  by (induction m seen ss rule: presentKeys.induct) (auto simp: Let_def)

text \<open>The key order is a permutation of the keys of the object.\<close>

lemma contentKeyOrder_keys:
  "set (contentKeyOrder m required) = fst ` set m"
  "distinct (map fst m) \<Longrightarrow> distinct (contentKeyOrder m required)"
  using presentKeys_spec [of m "[]" required]
  by (auto simp: contentKeyOrder_def Let_def has_key_set)

section \<open>The required sections survive\<close>

text \<open>The headings of the required sections of one type exclude each other.\<close>

definition sectionLists :: "string list list" where
  "sectionLists = map requiredFor [''scp'', ''sto'', ''bug'', ''td'', ''spk'', ''adr'', ''vis'', ''fnd'', ''rvw'', ''ctr'', ''tkt'', ''ses'']"

lemma sectionLists_keys: "list_all (list_all (\<lambda>s. SectionKey s \<noteq> '''')) sectionLists"
  by code_simp

lemma sectionLists_apart:
  "list_all (\<lambda>req. list_all (\<lambda>s. list_all (\<lambda>s'. \<not> has_prefix (s @ '' '') (s' @ '' '') \<or> s = s') req) req) sectionLists"
  by code_simp

lemma sectionLists_complete: "requiredSectionsFor t = Some req \<Longrightarrow> req \<in> set sectionLists"
  unfolding sectionLists_def requiredFor_def requiredSectionsFor_def by (simp split: if_splits)

lemma required_headings:
  assumes "requiredSectionsFor t = Some req" "s \<in> set req" "s' \<in> set req"
  shows "has_prefix (s @ '' '') (s' @ '' '') \<Longrightarrow> s = s'" and "SectionKey s \<noteq> ''''"
  using sectionLists_keys sectionLists_apart sectionLists_complete [OF assms(1)] assms(2,3)
  by (auto simp: list_all_iff)

lemma prefixes_comparable: "has_prefix p x \<Longrightarrow> has_prefix q x \<Longrightarrow> has_prefix p q \<or> has_prefix q p"
  by (auto simp: has_prefix_iff append_eq_append_conv2)

definition heading_text :: "string \<Rightarrow> string" where
  "heading_text line = trim_space (trim_prefix ''## '' (trim_space line))"

lemma headingMatches_text:
  "headingMatches line s \<longleftrightarrow> has_prefix ''## '' (trim_space line)
     \<and> (heading_text line = s \<or> has_prefix (s @ '' '') (heading_text line))"
  by (simp add: headingMatches_def heading_text_def Let_def)

lemma heading_text_idem:
  assumes "heading_text line \<noteq> ''''"
  shows "heading_text (''## '' @ heading_text line) = heading_text line"
    and "has_prefix ''## '' (trim_space (''## '' @ heading_text line))"
proof -
  have "trim_space (''## '' @ heading_text line) = ''## '' @ heading_text line"
    using trim_heading assms unfolding heading_text_def by blast
  moreover have "trim_space (heading_text line) = heading_text line"
    by (simp add: heading_text_def)
  ultimately show "heading_text (''## '' @ heading_text line) = heading_text line"
    "has_prefix ''## '' (trim_space (''## '' @ heading_text line))"
    by (simp_all add: heading_text_def trim_prefix_def)
qed

lemma sectionKey_of_match:
  assumes "requiredSectionsFor t = Some req" "s \<in> set req" "headingMatches line s"
  shows "sectionKeyForHeading (heading_text line) req = SectionKey s"
proof -
  have ne: "s \<noteq> ''''" using required_headings(2) [OF assms(1,2,2)] by (auto simp: SectionKey_def)
  have shape: "heading_text line = s \<or> has_prefix (s @ '' '') (heading_text line)" using assms(3) by (simp add: headingMatches_text)
  then have text_ne: "heading_text line \<noteq> ''''" using ne by (auto simp: has_prefix_iff)
  let ?m = "\<lambda>x. headingMatches (''## '' @ heading_text line) x"
  have m: "?m x \<longleftrightarrow> heading_text line = x \<or> has_prefix (x @ '' '') (heading_text line)" for x
    using heading_text_idem [OF text_ne] unfolding headingMatches_text by simp
  have pre: "has_prefix (x @ '' '') (heading_text line @ '' '')" if "?m x" for x
    using that unfolding m by (auto simp: has_prefix_iff)
  obtain x where x: "find ?m req = Some x"
    using assms(2) shape m by (cases "find ?m req") (auto simp: find_None_iff)
  then have x': "x \<in> set req" "?m x" by (auto simp: find_Some_iff)
  have "has_prefix (s @ '' '') (x @ '' '') \<or> has_prefix (x @ '' '') (s @ '' '')"
    using prefixes_comparable pre x'(2) shape m by blast
  then have "x = s" using required_headings(1) [OF assms(1)] assms(2) x'(1) by blast
  then show ?thesis using x by (simp add: sectionKeyForHeading_def)
qed

text \<open>A key the compiler has met stays among the fields or is the current section.\<close>

definition met :: "string \<Rightarrow> compiling \<Rightarrow> bool" where
  "met k s \<longleftrightarrow> has_key (cs_fields s) k \<or> cs_key s = k"

lemma met_line: "k \<noteq> '''' \<Longrightarrow> met k s \<Longrightarrow> met k (compileLine required s line)"
  by (auto simp: met_def compileLine_def flushSection_def Let_def)

lemma met_lines: "k \<noteq> '''' \<Longrightarrow> met k s \<Longrightarrow> met k (foldl (compileLine required) s ls)"
  by (induction ls arbitrary: s) (auto simp: met_line)

lemma met_heading:
  assumes "requiredSectionsFor t = Some req" "s \<in> set req" "line \<in> set body" "headingMatches line s"
  shows "met (SectionKey s) (foldl (compileLine req) st body)"
proof -
  obtain xs ys where body: "body = xs @ line # ys" using assms(3) by (meson split_list)
  have "met (SectionKey s) (compileLine req (foldl (compileLine req) st xs) line)"
    using assms(4) sectionKey_of_match [OF assms(1,2,4)]
    by (simp add: met_def compileLine_def headingMatches_text heading_text_def Let_def)
  then show ?thesis using met_lines [OF required_headings(2) [OF assms(1,2,2)]] by (simp add: body)
qed

text \<open>Rule 9 survives compilation: a required section that the rule finds in the Markdown body
  is a key of the compiled content object.\<close>
theorem compile_keeps_sections:
  assumes body: "ContentFields a = None" and req: "requiredSectionsFor (Type a) = Some req"
    and s: "s \<in> set req" and present: "hasSection a s"
  shows "\<exists>m. CompileContentObject a = Some m \<and> hasSection (a\<lparr>ContentFields := Some m\<rparr>) s"
proof -
  let ?s = "compileBody req (BodyLines a)"
  obtain line where "line \<in> set (BodyLines a)" "headingMatches line s"
    using present body by (auto simp: hasSection_def list_ex_iff)
  then have "met (SectionKey s) (foldl (compileLine req) \<lparr>cs_fields = [], cs_key = '''', cs_lines = [], cs_preamble = []\<rparr> (BodyLines a))"
    by (rule met_heading [OF req s])
  then have key: "has_key (cs_fields ?s) (SectionKey s)"
    using required_headings(2) [OF req s s] by (auto simp: met_def compileBody_def flushSection_def)
  then have ne: "cs_fields ?s \<noteq> []" by auto
  have kept: "has_key (retainHeader m req) k" if "has_key m k" for m k
    using that by (simp add: retainHeader_def Let_def)
  show ?thesis
    using key ne kept body req
    by (auto simp: CompileContentObject_def requiredFor_def Let_def hasSection_def has_key_map)
qed

theorem compile_keeps_sections_witness:
  "list_ex (\<lambda>m. hasSection ((emptyArtifact\<lparr>Type := ''adr'', BodyLines := [''## Context'', ''why'']\<rparr>)\<lparr>ContentFields := Some m\<rparr>) ''Context'')
     (case CompileContentObject (emptyArtifact\<lparr>Type := ''adr'', BodyLines := [''## Context'', ''why'']\<rparr>) of None \<Rightarrow> [] | Some m \<Rightarrow> [m])"
proof -
  let ?a = "emptyArtifact\<lparr>Type := ''adr'', BodyLines := [''## Context'', ''why'']\<rparr>"
  have "ContentFields ?a = None" by (simp add: emptyArtifact_def)
  moreover have "requiredSectionsFor (Type ?a) = Some [''Context'', ''Decision'', ''Consequences'', ''Alternatives Considered'']" by code_simp
  moreover have "hasSection ?a ''Context''" by code_simp
  ultimately show ?thesis
    using compile_keeps_sections [of ?a "[''Context'', ''Decision'', ''Consequences'', ''Alternatives Considered'']" "''Context''"] by auto
qed

text \<open>Two headings with one content key lose text: the second section replaces the first, and the
  object carries no trace of it.\<close>
lemma duplicate_section_lost:
  "map_option (map (\<lambda>(k, v). (k, case v of GString t \<Rightarrow> t | _ \<Rightarrow> ''''))) (CompileContentObject
     (emptyArtifact\<lparr>Type := ''adr'', BodyLines := [''## Context'', ''kept'', ''## Decision'', ''d'', ''## Context (v2)'', ''new'']\<rparr>))
   = Some [(''context'', ''new''), (''decision'', ''d'')]"
  by code_simp

section \<open>Canonical bytes\<close>

text \<open>Values that differ in the order of object keys only, and values whose objects have no key
  twice.\<close>

inductive same_value :: "gvalue \<Rightarrow> gvalue \<Rightarrow> bool" where
  same_refl: "same_value v v"
| same_list: "list_all2 same_value l l' \<Longrightarrow> same_value (GList l) (GList l')"
| same_map: "list_all2 (rel_prod (=) same_value) m m'' \<Longrightarrow> mset m'' = mset m' \<Longrightarrow> distinct (map fst m) \<Longrightarrow>
     same_value (GMap m) (GMap m')"

definition same_content :: "gvalue gomap \<Rightarrow> gvalue gomap \<Rightarrow> bool" where
  "same_content m m' \<longleftrightarrow> distinct (map fst m)
     \<and> (\<exists>m''. list_all2 (rel_prod (=) same_value) m m'' \<and> mset m'' = mset m')"

lemma marshalEntries_map: "marshalEntries num m = map (\<lambda>(k, v). (k, jsonMarshal num v)) m"
  by (induction m) auto

lemma marshalItems_map: "marshalItems num l = map (jsonMarshal num) l"
  by (induction l) auto

lemma writeEntries_map: "writeEntries num m = map (\<lambda>(k, v). (k, writeJSONValue num v)) m"
  by (induction m) auto

lemma entries_sorted:
  fixes f :: "gvalue \<Rightarrow> string"
  assumes "list_all2 (rel_prod (=) (\<lambda>v v'. f v = f v')) m m''" "mset m'' = mset m'" "distinct (map fst m)"
  shows "sort_key fst (map (\<lambda>(k, v). (k, f v)) m) = sort_key fst (map (\<lambda>(k, v). (k, f v)) m')"
proof -
  have eq: "map (\<lambda>(k, v). (k, f v)) m = map (\<lambda>(k, v). (k, f v)) m''"
    using assms(1) by (induction rule: list_all2_induct) auto
  have "mset (map (\<lambda>(k, v). (k, f v)) m'') = mset (map (\<lambda>(k, v). (k, f v)) m')"
    using assms(2) by simp
  moreover have "inj_on fst (set (map (\<lambda>(k, v). (k, f v)) m''))"
  proof -
    have "map fst (map (\<lambda>(k, v). (k, f v)) m'') = map fst m" unfolding eq [symmetric] by (simp add: comp_def case_prod_beta)
    then have "distinct (map fst (map (\<lambda>(k, v). (k, f v)) m''))" using assms(3) by (simp only:)
    then show ?thesis by (rule distinct_map [THEN iffD1, THEN conjunct2])
  qed
  ultimately show ?thesis unfolding eq by (rule sort_key_eq_by_mset)
qed

lemma same_value_bytes:
  "same_value v v' \<Longrightarrow> jsonMarshal num v = jsonMarshal num v' \<and> writeJSONValue num v = writeJSONValue num v'"
proof (induction rule: same_value.induct)
  case (same_list l l')
  then have "marshalItems num l = marshalItems num l'"
    by (induction rule: list_all2_induct) auto
  then show ?case by simp
next
  case (same_map m m'' m')
  have j: "list_all2 (rel_prod (=) (\<lambda>v v'. jsonMarshal num v = jsonMarshal num v')) m m''"
    and w: "list_all2 (rel_prod (=) (\<lambda>v v'. writeJSONValue num v = writeJSONValue num v')) m m''"
    using same_map.IH by (auto elim!: list_all2_mono)
  from entries_sorted [OF j same_map.hyps(1,2)] entries_sorted [OF w same_map.hyps(1,2)]
  show ?case by (simp add: marshalEntries_map writeEntries_map)
qed simp

lemma same_content_get:
  assumes "same_content m m'"
  shows "fst ` set m = fst ` set m'"
    and "writeJSONValue num (get_or m k GNil) = writeJSONValue num (get_or m' k GNil)"
proof -
  obtain m'' where d: "distinct (map fst m)" and l: "list_all2 (rel_prod (=) same_value) m m''" and p: "mset m'' = mset m'"
    using assms by (auto simp: same_content_def)
  have keys: "map fst m = map fst m''" using l by (induction rule: list_all2_induct) auto
  have set_eq: "set m'' = set m'" using p by (rule mset_eq_setD)
  show "fst ` set m = fst ` set m'" using keys set_eq by (metis list.set_map)
  have d': "distinct (map fst m'')" using d keys by simp
  have "distinct (map fst m')" using d' p by (metis mset_eq_imp_distinct_iff mset_map)
  then have lookup: "map_of m'' = map_of m'" using d' set_eq by (simp add: map_of_inject_set)
  have "rel_option same_value (map_of m k) (map_of m'' k)" using l by (induction rule: list_all2_induct) auto
  then have "rel_option same_value (map_of m k) (map_of m' k)" by (simp add: lookup)
  then show "writeJSONValue num (get_or m k GNil) = writeJSONValue num (get_or m' k GNil)"
    using same_value_bytes by (cases "map_of m k"; cases "map_of m' k") (auto simp: get_or_def)
qed

lemma presentKeys_cong: "has_key m = has_key m' \<Longrightarrow> presentKeys m seen ss = presentKeys m' seen ss"
  by (induction m seen ss rule: presentKeys.induct) (auto simp: Let_def)

lemma same_content_order:
  assumes "same_content m m'"
  shows "contentKeyOrder m required = contentKeyOrder m' required"
proof -
  obtain m'' where l: "list_all2 (rel_prod (=) same_value) m m''" and p: "mset m'' = mset m'"
    using assms by (auto simp: same_content_def)
  have "map fst m = map fst m''" using l by (induction rule: list_all2_induct) auto
  then have "mset (map fst m) = mset (map fst m')" using p by (metis mset_map)
  then have m: "mset (filter P (map fst m)) = mset (filter P (map fst m'))" for P by (metis mset_filter)
  have h: "has_key m = has_key m'" using same_content_get(1) [OF assms] by (auto simp: has_key_set fun_eq_iff)
  have "sort (filter P (map fst m)) = sort (filter P (map fst m'))" for P :: "string \<Rightarrow> bool"
    using m by (metis sorted_list_of_multiset_mset)
  then show ?thesis using presentKeys_cong [OF h] by (simp add: contentKeyOrder_def)
qed

text \<open>The payload is canonical: two content objects that differ only in the order of their keys,
  at any depth, encode to the same bytes.\<close>
theorem content_canonical:
  assumes "same_content m m'"
  shows "ContentJSON num m required = ContentJSON num m' required"
  unfolding ContentJSON_def same_content_order [OF assms] same_content_get(2) [OF assms] ..

theorem content_canonical_witness:
  "ContentJSON (\<lambda>v. '''') [(''b'', GMap [(''y'', GNil), (''x'', GBool True)]), (''a'', GNil)] []
   = ContentJSON (\<lambda>v. '''') [(''a'', GNil), (''b'', GMap [(''x'', GBool True), (''y'', GNil)])] []"
proof (rule content_canonical)
  let ?m = "[(''y'', GNil), (''x'', GBool True)]" and ?m' = "[(''x'', GBool True), (''y'', GNil)]"
  have "same_value (GMap ?m) (GMap ?m')"
    by (rule same_map [where m'' = ?m]) (auto intro: same_refl)
  then show "same_content [(''b'', GMap ?m), (''a'', GNil)] [(''a'', GNil), (''b'', GMap ?m')]"
    unfolding same_content_def
    by (intro conjI exI [of _ "[(''b'', GMap ?m'), (''a'', GNil)]"]) (auto intro: same_refl)
qed

text \<open>A control character in a key is written as Go writes it, which is not JSON: the two
  encodings of one string differ.\<close>

lemma key_quoting_differs: "goQuote [CHR 0x01] \<noteq> jsonQuote [CHR 0x01] \<and> goQuote [CHR 0x07] = [quote_char, backslash, CHR ''a'', quote_char]"
  by code_simp

end
