(* ===== verification/Store_Model.thy ===== *)
theory Store_Model
  imports Taxonomy
begin

text \<open>
  The canonical store of the package \<open>store\<close>: the archive of immutable payloads keyed by
  content hash with first-writer-wins lineage, the mutable references with their
  forward-only guard and issue numbers (\<open>payloads.go\<close>, \<open>refs.go\<close>, \<open>numbers.go\<close>), and the
  busy retry (\<open>busy.go\<close>).  A table is the list of its rows in insertion order; a
  transaction returns the new database or an error and then leaves the old one.  The
  digest is the argument \<open>H\<close>: SHA-256 of the unit bytes followed by the content bytes in
  the source.  Database failures other than the constraints of the schema are not
  modelled; the constraint a put can violate is the unique index on issue numbers.
\<close>

section \<open>Tables\<close>

record payload_row =
  p_unit :: string
  p_content :: string
  p_prev :: string
  p_created :: string

record Ref =
  r_Form :: string
  r_ObjectHash :: string
  r_ProjectID :: string
  r_SourceRepo :: string
  r_Namespace :: string
  r_Type :: string
  r_ID :: string
  r_InstanceVersion :: int
  r_Revision :: int
  r_Dimension :: string
  r_Domain :: string
  r_Phase :: string
  r_UpdatedAt :: string

record ref_row =
  row_ref :: Ref
  row_number :: nat
  row_group :: string

record db =
  payloads :: "(string \<times> payload_row) list"
  refs :: "(string \<times> ref_row) list"

definition empty_db :: db where
  "empty_db = \<lparr>payloads = [], refs = []\<rparr>"

datatype store_error = UniqueNumber string

section \<open>Reading\<close>

definition Ref_of :: "db \<Rightarrow> string \<Rightarrow> Ref option" where
  "Ref_of d form = map_option row_ref (map_of (refs d) form)"

definition Payload :: "db \<Rightarrow> string \<Rightarrow> (string \<times> string) option" where
  "Payload d hash = map_option (\<lambda>p. (p_unit p, p_content p)) (map_of (payloads d) hash)"

definition PayloadCount :: "db \<Rightarrow> nat" where
  "PayloadCount d = length (payloads d)"

definition AllPayloads :: "db \<Rightarrow> (string \<times> string \<times> string) list" where
  "AllPayloads d = map (\<lambda>(h, p). (h, p_unit p, p_content p)) (sort_key fst (payloads d))"

definition Refs :: "db \<Rightarrow> string \<Rightarrow> string \<Rightarrow> Ref list" where
  "Refs d projectID sourceRepo = map (\<lambda>(f, row). row_ref row)
     (sort_key fst (filter (\<lambda>(f, row). r_ProjectID (row_ref row) = projectID
        \<and> r_SourceRepo (row_ref row) = sourceRepo) (refs d)))"

definition RefsByProject :: "db \<Rightarrow> string \<Rightarrow> Ref list" where
  "RefsByProject d projectID = map (\<lambda>(f, row). row_ref row)
     (sort_key fst (filter (\<lambda>(f, row). r_ProjectID (row_ref row) = projectID) (refs d)))"

definition onLine :: "string \<Rightarrow> string \<Rightarrow> string \<Rightarrow> Ref \<Rightarrow> bool" where
  "onLine ns t i r = (r_Namespace r = ns \<and> r_Type r = t \<and> r_ID r = i)"

definition MaxInstanceVersion :: "db \<Rightarrow> string \<Rightarrow> string \<Rightarrow> string \<Rightarrow> int" where
  "MaxInstanceVersion d ns t i =
     (case map (r_InstanceVersion \<circ> row_ref \<circ> snd) (filter (\<lambda>(f, row). onLine ns t i (row_ref row)) (refs d)) of
        [] \<Rightarrow> 0 | v # vs \<Rightarrow> foldr max vs v)"

text \<open>\<open>NumberForLine\<close> scans one row of the line; SQLite answers with some row, here the
  first in the table.\<close>

definition NumberForLine :: "db \<Rightarrow> string \<Rightarrow> string \<Rightarrow> string \<Rightarrow> string \<Rightarrow> nat" where
  "NumberForLine d projectID ns t i =
     (case filter (\<lambda>(f, row). r_ProjectID (row_ref row) = projectID \<and> onLine ns t i (row_ref row)) (refs d) of
        [] \<Rightarrow> 0 | (f, row) # _ \<Rightarrow> row_number row)"

record NumberedLine =
  nl_ProjectID :: string
  nl_Namespace :: string
  nl_Type :: string
  nl_ID :: string
  nl_Number :: nat

definition LineForm :: "NumberedLine \<Rightarrow> string" where
  "LineForm l = nl_Namespace l @ ''/'' @ nl_Type l @ '':'' @ nl_ID l"

definition numberedLine :: "ref_row \<Rightarrow> NumberedLine" where
  "numberedLine row = \<lparr>nl_ProjectID = r_ProjectID (row_ref row), nl_Namespace = r_Namespace (row_ref row),
     nl_Type = r_Type (row_ref row), nl_ID = r_ID (row_ref row), nl_Number = row_number row\<rparr>"

definition LineByNumber :: "db \<Rightarrow> string \<Rightarrow> nat \<Rightarrow> NumberedLine list" where
  "LineByNumber d projectID n = map (numberedLine \<circ> snd)
     (sort_key (\<lambda>(f, row). (row_group row, r_Namespace (row_ref row), r_Type (row_ref row), r_ID (row_ref row)))
       (filter (\<lambda>(f, row). r_ProjectID (row_ref row) = projectID \<and> row_number row = n) (refs d)))"

definition LineByNumberGroup :: "db \<Rightarrow> string \<Rightarrow> string \<Rightarrow> nat \<Rightarrow> NumberedLine option" where
  "LineByNumberGroup d projectID grp n =
     (case filter (\<lambda>(f, row). r_ProjectID (row_ref row) = projectID \<and> row_group row = grp \<and> row_number row = n) (refs d) of
        [] \<Rightarrow> None | (f, row) # _ \<Rightarrow> Some (numberedLine row))"

text \<open>The map of numbered lines: a later row of the scan overwrites an earlier one of the
  same line.\<close>

definition NumbersByProject :: "db \<Rightarrow> string \<Rightarrow> string \<rightharpoonup> nat" where
  "NumbersByProject d projectID = map_of (rev (map (\<lambda>(f, row). (LineForm (numberedLine row), row_number row))
     (filter (\<lambda>(f, row). r_ProjectID (row_ref row) = projectID \<and> row_number row > 0) (refs d))))"

section \<open>The put\<close>

definition hashUnit :: "(string \<Rightarrow> string) \<Rightarrow> string \<Rightarrow> string \<Rightarrow> string" where
  "hashUnit H unitJSON content = H (unitJSON @ content)"

text \<open>The ancestry walk along \<open>prev_hash\<close>, with its visited guard; a missing row ends it.\<close>

function isAncestorFrom :: "(string \<times> payload_row) list \<Rightarrow> string \<Rightarrow> string list \<Rightarrow> string \<Rightarrow> bool" where
  "isAncestorFrom ps target visited nxt =
     (if nxt = '''' \<or> nxt \<in> set visited then False
      else if nxt = target then True
      else (case map_of ps nxt of
          None \<Rightarrow> False
        | Some p \<Rightarrow> isAncestorFrom ps target (nxt # visited) (p_prev p)))"
  by pat_completeness auto
termination
proof (relation "measure (\<lambda>(ps, target, visited, nxt). card (fst ` set ps - set visited))")
  fix ps :: "(string \<times> payload_row) list" and target nxt :: string and visited p
  assume n: "\<not> (nxt = '''' \<or> nxt \<in> set visited)" and m: "map_of ps nxt = Some p"
  then have "nxt \<in> fst ` set ps" by (metis has_key_def has_key_iff option.distinct(1))
  then have "fst ` set ps - set (nxt # visited) \<subset> fst ` set ps - set visited" using n by auto
  then have "card (fst ` set ps - set (nxt # visited)) < card (fst ` set ps - set visited)"
    by (intro psubset_card_mono) auto
  then show "((ps, target, nxt # visited, p_prev p), (ps, target, visited, nxt))
      \<in> measure (\<lambda>(ps, target, visited, nxt). card (fst ` set ps - set visited))" by simp
qed simp

declare isAncestorFrom.simps [simp del]

definition isAncestor :: "db \<Rightarrow> string \<Rightarrow> string \<Rightarrow> bool" where
  "isAncestor d target current = isAncestorFrom (payloads d) target [] current"

text \<open>\<open>INSERT ... ON CONFLICT DO NOTHING\<close>: a payload row is written at most once.\<close>

definition insert_payload :: "string \<Rightarrow> payload_row \<Rightarrow> db \<Rightarrow> db" where
  "insert_payload hash p d =
     (if has_key (payloads d) hash then d else d\<lparr>payloads := payloads d @ [(hash, p)]\<rparr>)"

definition nextNumber :: "db \<Rightarrow> string \<Rightarrow> string \<Rightarrow> nat" where
  "nextNumber d projectID grp =
     foldr max (map (row_number \<circ> snd) (filter (\<lambda>(f, row). r_ProjectID (row_ref row) = projectID
        \<and> row_group row = grp) (refs d))) 0 + 1"

text \<open>The partial unique index on (project, group, number) for positive numbers.\<close>

definition numberTaken :: "db \<Rightarrow> string \<Rightarrow> string \<Rightarrow> string \<Rightarrow> nat \<Rightarrow> bool" where
  "numberTaken d form projectID grp n = (n > 0 \<and> list_ex (\<lambda>(f, row). f \<noteq> form
     \<and> r_ProjectID (row_ref row) = projectID \<and> row_group row = grp \<and> row_number row = n) (refs d))"

text \<open>The upsert: a new form gets its row with number and group; on conflict every index
  column is updated from the caller's reference but number and group.\<close>

definition upsert_ref :: "Ref \<Rightarrow> string \<Rightarrow> nat \<Rightarrow> string \<Rightarrow> db \<Rightarrow> store_error + db" where
  "upsert_ref r hash number grp d =
     (let r' = r\<lparr>r_ObjectHash := hash\<rparr> in
      case map_of (refs d) (r_Form r) of
        None \<Rightarrow>
          if numberTaken d (r_Form r) (r_ProjectID r) grp number then Inl (UniqueNumber (r_Form r))
          else Inr (d\<lparr>refs := refs d @ [(r_Form r, \<lparr>row_ref = r', row_number = number, row_group = grp\<rparr>)]\<rparr>)
      | Some row \<Rightarrow>
          if numberTaken d (r_Form r) (r_ProjectID r) (row_group row) (row_number row)
          then Inl (UniqueNumber (r_Form r))
          else Inr (d\<lparr>refs := map (\<lambda>(f, rw). if f = r_Form r then (f, rw\<lparr>row_ref := r'\<rparr>) else (f, rw)) (refs d)\<rparr>))"

definition putUnitTx ::
  "(string \<Rightarrow> string) \<Rightarrow> string \<Rightarrow> db \<Rightarrow> string \<Rightarrow> string \<Rightarrow> Ref \<Rightarrow> bool \<Rightarrow> store_error + (db \<times> string \<times> bool)" where
  "putUnitTx H now d unitJSON content r repoint =
     (let hash = hashUnit H unitJSON content;
          (prevHash, currentVersion) = (case Ref_of d (r_Form r) of
             Some cur \<Rightarrow> (r_ObjectHash cur, r_InstanceVersion cur) | None \<Rightarrow> ('''', 0));
          d1 = insert_payload hash
            \<lparr>p_unit = unitJSON, p_content = content, p_prev = prevHash, p_created = now\<rparr> d in
      if prevHash \<noteq> '''' \<and> hash = prevHash then Inr (d1, hash, False)
      else if prevHash \<noteq> '''' \<and> \<not> repoint \<and> isAncestor d1 hash prevHash then Inr (d1, hash, True)
      else if prevHash \<noteq> '''' \<and> repoint \<and> r_InstanceVersion r < currentVersion then Inr (d1, hash, True)
      else
        let grp = NumberGroup (r_Type r);
            number = (if prevHash = '''' \<and> grp \<noteq> '''' then nextNumber d1 (r_ProjectID r) grp else 0) in
        (case upsert_ref r hash number grp d1 of
           Inl err \<Rightarrow> Inl err
         | Inr d2 \<Rightarrow> Inr (d2, hash, False)))"

definition PutUnit ::
  "(string \<Rightarrow> string) \<Rightarrow> string \<Rightarrow> db \<Rightarrow> string \<Rightarrow> string \<Rightarrow> Ref \<Rightarrow> store_error + (db \<times> string \<times> bool)" where
  "PutUnit H now d unitJSON content r = putUnitTx H now d unitJSON content r False"

definition RepointUnit ::
  "(string \<Rightarrow> string) \<Rightarrow> string \<Rightarrow> db \<Rightarrow> string \<Rightarrow> string \<Rightarrow> Ref \<Rightarrow> store_error + (db \<times> string \<times> bool)" where
  "RepointUnit H now d unitJSON content r = putUnitTx H now d unitJSON content r True"

record Put =
  put_UnitJSON :: string
  put_Content :: string
  put_Ref :: Ref

fun PutUnits :: "(string \<Rightarrow> string) \<Rightarrow> string \<Rightarrow> db \<Rightarrow> Put list \<Rightarrow> store_error + (db \<times> string list)" where
  "PutUnits H now d [] = Inr (d, [])"
| "PutUnits H now d (p # ps) =
     (case putUnitTx H now d (put_UnitJSON p) (put_Content p) (put_Ref p) False of
        Inl err \<Rightarrow> Inl err
      | Inr (d', hash, kept) \<Rightarrow>
          (case PutUnits H now d' ps of
             Inl err \<Rightarrow> Inl err
           | Inr (d'', hashes) \<Rightarrow> Inr (d'', hash # hashes)))"

section \<open>The busy retry\<close>

datatype 'a attempt = Done 'a | Failed string | is_Busy: Busy string

definition maxBusyAttempts :: nat where "maxBusyAttempts = 5"

text \<open>\<open>op k\<close> is the outcome of the \<open>k\<close>-th attempt, each a fresh transaction; the result
  carries how many attempts were made.\<close>

fun retryFrom :: "nat \<Rightarrow> nat \<Rightarrow> (nat \<Rightarrow> 'a attempt) \<Rightarrow> 'a attempt \<Rightarrow> 'a attempt \<times> nat" where
  "retryFrom 0 k op lst = (lst, k)"
| "retryFrom (Suc n) k op lst = (case op k of Busy e \<Rightarrow> retryFrom n (k + 1) op (Busy e) | r \<Rightarrow> (r, k + 1))"

definition retryBusy :: "(nat \<Rightarrow> 'a attempt) \<Rightarrow> 'a attempt \<times> nat" where
  "retryBusy op = retryFrom maxBusyAttempts 0 op (Busy '''')"

end
