(* ===== verification/Store_Lineage.thy ===== *)
theory Store_Lineage
  imports Store_Model
begin

text \<open>
  What the store promises: the archive is immutable, every reference points at an
  archived payload, payload rows are content addressed and their lineage is acyclic,
  issue numbers are unique and stable, and a store written by \<open>PutUnit\<close> alone never
  moves a reference back.  The last section shows by evaluation where the guarantees the
  comments of the source give do not hold.
\<close>

section \<open>Well-formed databases\<close>

abbreviation keys :: "(string \<times> 'a) list \<Rightarrow> string set" where
  "keys ps \<equiv> fst ` set ps"

definition lineageOrdered :: "(string \<times> payload_row) list \<Rightarrow> bool" where
  "lineageOrdered ps \<longleftrightarrow> (\<forall>k < length ps. p_prev (snd (ps ! k)) = ''''
     \<or> (\<exists>j < k. fst (ps ! j) = p_prev (snd (ps ! k))))"

definition numbersUnique :: "db \<Rightarrow> bool" where
  "numbersUnique d \<longleftrightarrow> (\<forall>(f, a) \<in> set (refs d). \<forall>(g, b) \<in> set (refs d).
     f \<noteq> g \<longrightarrow> r_ProjectID (row_ref a) = r_ProjectID (row_ref b) \<longrightarrow> row_group a = row_group b
     \<longrightarrow> row_number a > 0 \<longrightarrow> row_number a \<noteq> row_number b)"

definition contentAddressed :: "(string \<Rightarrow> string) \<Rightarrow> db \<Rightarrow> bool" where
  "contentAddressed H d \<longleftrightarrow> (\<forall>(h, p) \<in> set (payloads d). h = hashUnit H (p_unit p) (p_content p))"

definition refsResolve :: "db \<Rightarrow> bool" where
  "refsResolve d \<longleftrightarrow> (\<forall>(f, row) \<in> set (refs d). r_Form (row_ref row) = f
     \<and> r_ObjectHash (row_ref row) \<in> keys (payloads d))"

definition wf_db :: "(string \<Rightarrow> string) \<Rightarrow> db \<Rightarrow> bool" where
  "wf_db H d \<longleftrightarrow> distinct (map fst (payloads d)) \<and> distinct (map fst (refs d))
     \<and> contentAddressed H d \<and> lineageOrdered (payloads d) \<and> refsResolve d \<and> numbersUnique d"

lemma wf_empty [simp]: "wf_db H empty_db"
  by (simp add: wf_db_def empty_db_def contentAddressed_def lineageOrdered_def refsResolve_def numbersUnique_def)

lemma map_of_None_keys: "map_of ps k = None \<longleftrightarrow> k \<notin> keys ps"
  by (simp add: map_of_eq_None_iff)

lemma insert_payload_keys: "keys (payloads (insert_payload h p d)) = insert h (keys (payloads d))"
  by (auto simp: insert_payload_def has_key_iff)

lemma insert_payload_refs [simp]: "refs (insert_payload h p d) = refs d"
  by (simp add: insert_payload_def)

lemma insert_payload_old: "map_of (payloads d) k = Some q \<Longrightarrow> map_of (payloads (insert_payload h p d)) k = Some q"
  by (simp add: insert_payload_def map_add_Some_iff)

lemma insert_payload_known: "h \<in> keys (payloads d) \<Longrightarrow> insert_payload h p d = d"
  by (simp add: insert_payload_def has_key_iff)

lemma insert_payload_new:
  "h \<notin> keys (payloads d) \<Longrightarrow> payloads (insert_payload h p d) = payloads d @ [(h, p)]"
  by (simp add: insert_payload_def has_key_iff)

lemma lineageOrdered_snoc:
  assumes "lineageOrdered ps" "p_prev p = '''' \<or> p_prev p \<in> keys ps"
  shows "lineageOrdered (ps @ [(h, p)])"
  unfolding lineageOrdered_def
proof (intro allI impI)
  fix k assume k: "k < length (ps @ [(h, p)])"
  show "p_prev (snd ((ps @ [(h, p)]) ! k)) = ''''
      \<or> (\<exists>j < k. fst ((ps @ [(h, p)]) ! j) = p_prev (snd ((ps @ [(h, p)]) ! k)))"
  proof (cases "k < length ps")
    case True
    with assms(1) consider "p_prev (snd (ps ! k)) = ''''" | j where "j < k" "fst (ps ! j) = p_prev (snd (ps ! k))"
      unfolding lineageOrdered_def by blast
    then show ?thesis
    proof cases
      case 1 then show ?thesis using True by (simp add: nth_append)
    next
      case 2
      then have "fst ((ps @ [(h, p)]) ! j) = p_prev (snd ((ps @ [(h, p)]) ! k))" using True by (simp add: nth_append)
      then show ?thesis using 2(1) by blast
    qed
  next
    case False
    then have k': "k = length ps" using k by simp
    from assms(2) consider "p_prev p = ''''" | j where "j < length ps" "fst (ps ! j) = p_prev p"
      by (auto simp: in_set_conv_nth image_iff)
    then show ?thesis
    proof cases
      case 1 then show ?thesis using k' by simp
    next
      case 2
      then have "fst ((ps @ [(h, p)]) ! j) = p_prev (snd ((ps @ [(h, p)]) ! k))" using k' by (simp add: nth_append)
      then show ?thesis using 2(1) k' by blast
    qed
  qed
qed

text \<open>The state before the upsert.\<close>

lemma wf_insert_payload:
  assumes "wf_db H d" "p_prev p = '''' \<or> p_prev p \<in> keys (payloads d)"
  shows "wf_db H (insert_payload (hashUnit H (p_unit p) (p_content p)) p d)"
proof (cases "hashUnit H (p_unit p) (p_content p) \<in> keys (payloads d)")
  case True
  then show ?thesis using assms by (simp add: insert_payload_known)
next
  case False
  then show ?thesis using assms
    by (auto simp: wf_db_def insert_payload_new contentAddressed_def refsResolve_def numbersUnique_def
        intro: lineageOrdered_snoc)
qed

section \<open>The upsert\<close>

lemma nextNumber_greater:
  assumes "(f, row) \<in> set (refs d)" "r_ProjectID (row_ref row) = pr" "row_group row = g"
  shows "row_number row < nextNumber d pr g"
proof -
  have "x \<le> foldr max xs 0" if "x \<in> set xs" for x :: nat and xs
    using that by (induction xs) auto
  moreover have "row_number row \<in> set (map (row_number \<circ> snd)
      (filter (\<lambda>(f, row). r_ProjectID (row_ref row) = pr \<and> row_group row = g) (refs d)))"
    using assms by force
  ultimately show ?thesis by (fastforce simp: nextNumber_def)
qed

lemma upsert_new:
  assumes "upsert_ref r h n g d = Inr d'" "map_of (refs d) (r_Form r) = None"
  shows "refs d' = refs d @ [(r_Form r, \<lparr>row_ref = r\<lparr>r_ObjectHash := h\<rparr>, row_number = n, row_group = g\<rparr>)]"
    and "payloads d' = payloads d" and "\<not> numberTaken d (r_Form r) (r_ProjectID r) g n"
  using assms by (auto simp: upsert_ref_def Let_def split: if_splits)

lemma upsert_old:
  assumes "upsert_ref r h n g d = Inr d'" "map_of (refs d) (r_Form r) = Some row"
  shows "refs d' = map (\<lambda>(f, rw). if f = r_Form r then (f, rw\<lparr>row_ref := r\<lparr>r_ObjectHash := h\<rparr>\<rparr>) else (f, rw)) (refs d)"
    and "payloads d' = payloads d" and "\<not> numberTaken d (r_Form r) (r_ProjectID r) (row_group row) (row_number row)"
  using assms by (auto simp: upsert_ref_def Let_def split: if_splits)

lemma upsert_payloads: "upsert_ref r h n g d = Inr d' \<Longrightarrow> payloads d' = payloads d"
  by (cases "map_of (refs d) (r_Form r)") (auto dest: upsert_new(2) upsert_old(2))

lemma upsert_lookup:
  assumes "upsert_ref r h n g d = Inr d'"
  shows "map_of (refs d') f =
     (if f = r_Form r then
        (case map_of (refs d) f of
           None \<Rightarrow> Some \<lparr>row_ref = r\<lparr>r_ObjectHash := h\<rparr>, row_number = n, row_group = g\<rparr>
         | Some row \<Rightarrow> Some (row\<lparr>row_ref := r\<lparr>r_ObjectHash := h\<rparr>\<rparr>))
      else map_of (refs d) f)"
proof (cases "map_of (refs d) (r_Form r)")
  case None
  then show ?thesis using upsert_new(1) [OF assms None]
    by (auto simp: map_add_def split: option.splits)
next
  case (Some row)
  have "map_of (map (\<lambda>(f, rw). if f = k then (f, F rw) else (f, rw)) xs) f =
      (if f = k then map_option F (map_of xs f) else map_of xs f)" for k F and xs :: "(string \<times> ref_row) list"
    by (induction xs) auto
  then show ?thesis using upsert_old(1) [OF assms Some] Some by simp
qed

lemma wf_upsert:
  assumes "upsert_ref r h n g d = Inr d'" "wf_db H d" "h \<in> keys (payloads d)"
  shows "wf_db H d'"
proof (cases "map_of (refs d) (r_Form r)")
  case None
  note u = upsert_new [OF assms(1) None]
  have f: "r_Form r \<notin> keys (refs d)" using None by (simp add: map_of_None_keys)
  have "numbersUnique d'"
    using assms(2) u(1,3) unfolding numbersUnique_def wf_db_def
    by (auto simp: numberTaken_def list_ex_iff)
  then show ?thesis using assms(2,3) u f
    by (auto simp: wf_db_def contentAddressed_def refsResolve_def)
next
  case (Some row)
  note u = upsert_old [OF assms(1) Some]
  have fst_eq: "map fst (refs d') = map fst (refs d)"
    using u(1) by (simp add: comp_def split_def if_distrib cong: if_cong)
  have dist: "distinct (map fst (refs d))" using assms(2) by (simp add: wf_db_def)
  have old: "\<exists>a. (f, a) \<in> set (refs d) \<and> row_number b = row_number a \<and> row_group b = row_group a
      \<and> (if f = r_Form r then row_ref b = r\<lparr>r_ObjectHash := h\<rparr> \<and> a = row else b = a)"
    if "(f, b) \<in> set (refs d')" for f b
  proof -
    from that u(1) obtain a where a: "(f, a) \<in> set (refs d)"
      "(f, b) = (if f = r_Form r then (f, a\<lparr>row_ref := r\<lparr>r_ObjectHash := h\<rparr>\<rparr>) else (f, a))"
      by (auto split: if_splits)
    moreover have "a = row" if "f = r_Form r"
      using a(1) that Some dist by (metis map_of_is_SomeI option.inject)
    ultimately show ?thesis by (intro exI [of _ a]) (auto split: if_splits)
  qed
  have "refsResolve d'"
    unfolding refsResolve_def
  proof (intro ballI)
    fix x assume m: "x \<in> set (refs d')"
    obtain f b where "x = (f, b)" by (cases x)
    with m have x: "x = (f, b)" "(f, b) \<in> set (refs d')" by simp_all
    from old [OF x(2)] assms(2,3) u(2) show "case x of (f, row) \<Rightarrow>
        r_Form (row_ref row) = f \<and> r_ObjectHash (row_ref row) \<in> keys (payloads d')"
      by (force simp: x wf_db_def refsResolve_def split: if_splits)
  qed
  moreover have "numbersUnique d'"
  proof -
    have nu: "row_number a \<noteq> row_number b"
      if "(f, a) \<in> set (refs d)" "(g, b) \<in> set (refs d)" "f \<noteq> g"
        "r_ProjectID (row_ref a) = r_ProjectID (row_ref b)" "row_group a = row_group b" "row_number a > 0"
      for f g a b
      using assms(2) that unfolding wf_db_def numbersUnique_def by blast
    have nt: "\<not> (r_ProjectID (row_ref b) = r_ProjectID r \<and> row_group b = row_group row \<and> row_number b = row_number row)"
      if "(g, b) \<in> set (refs d)" "g \<noteq> r_Form r" "row_number row > 0" for g b
      using u(3) that by (fastforce simp: numberTaken_def list_ex_iff)
    have "row_number a' \<noteq> row_number b'"
      if "(f, a') \<in> set (refs d')" "(g, b') \<in> set (refs d')" "f \<noteq> g"
        "r_ProjectID (row_ref a') = r_ProjectID (row_ref b')" "row_group a' = row_group b'" "row_number a' > 0"
      for f g a' b'
    proof -
      obtain a where a: "(f, a) \<in> set (refs d)" "row_number a' = row_number a" "row_group a' = row_group a"
        "if f = r_Form r then row_ref a' = r\<lparr>r_ObjectHash := h\<rparr> \<and> a = row else a' = a"
        using old [OF \<open>(f, a') \<in> set (refs d')\<close>] by blast
      obtain b where b: "(g, b) \<in> set (refs d)" "row_number b' = row_number b" "row_group b' = row_group b"
        "if g = r_Form r then row_ref b' = r\<lparr>r_ObjectHash := h\<rparr> \<and> b = row else b' = b"
        using old [OF \<open>(g, b') \<in> set (refs d')\<close>] by blast
      consider "f = r_Form r" "g \<noteq> r_Form r" | "g = r_Form r" "f \<noteq> r_Form r" | "f \<noteq> r_Form r" "g \<noteq> r_Form r"
        using \<open>f \<noteq> g\<close> by auto
      then show ?thesis
      proof cases
        case 1 then show ?thesis using that a b nt [OF b(1)] by auto
      next
        case 2 then show ?thesis using that a b nt [OF a(1)] by auto
      next
        case 3 then show ?thesis using that a b nu [OF a(1) b(1)] by auto
      qed
    qed
    then show ?thesis unfolding numbersUnique_def by blast
  qed
  ultimately show ?thesis using assms(2) u(2) fst_eq by (simp add: wf_db_def contentAddressed_def)
qed

section \<open>The put\<close>

text \<open>The hash of the reference a form currently has, the empty string for none.\<close>

definition currentHash :: "db \<Rightarrow> string \<Rightarrow> string" where
  "currentHash d form = (case Ref_of d form of None \<Rightarrow> '''' | Some r \<Rightarrow> r_ObjectHash r)"

definition currentVersion :: "db \<Rightarrow> string \<Rightarrow> int" where
  "currentVersion d form = (case Ref_of d form of None \<Rightarrow> 0 | Some r \<Rightarrow> r_InstanceVersion r)"

definition archived :: "(string \<Rightarrow> string) \<Rightarrow> string \<Rightarrow> db \<Rightarrow> string \<Rightarrow> string \<Rightarrow> string \<Rightarrow> db" where
  "archived H now d u c prev = insert_payload (hashUnit H u c)
     \<lparr>p_unit = u, p_content = c, p_prev = prev, p_created = now\<rparr> d"

lemma putUnitTx_alt:
  "putUnitTx H now d u c r rep =
     (let h = hashUnit H u c; prev = currentHash d (r_Form r); d1 = archived H now d u c prev in
      if prev \<noteq> '''' \<and> h = prev then Inr (d1, h, False)
      else if prev \<noteq> '''' \<and> \<not> rep \<and> isAncestor d1 h prev then Inr (d1, h, True)
      else if prev \<noteq> '''' \<and> rep \<and> r_InstanceVersion r < currentVersion d (r_Form r) then Inr (d1, h, True)
      else (case upsert_ref r h (if prev = '''' \<and> NumberGroup (r_Type r) \<noteq> ''''
              then nextNumber d1 (r_ProjectID r) (NumberGroup (r_Type r)) else 0) (NumberGroup (r_Type r)) d1 of
           Inl err \<Rightarrow> Inl err
         | Inr d2 \<Rightarrow> Inr (d2, h, False)))"
  by (simp add: putUnitTx_def Let_def currentHash_def currentVersion_def archived_def split: option.split)

text \<open>Every successful put archives its payload, returns its hash, and either leaves the
  references alone or upserts one.\<close>

lemma putUnitTx_cases:
  assumes "putUnitTx H now d u c r rep = Inr (d', h, kept)"
  shows "h = hashUnit H u c" and "kept \<Longrightarrow> refs d' = refs d"
    and "d' = archived H now d u c (currentHash d (r_Form r))
      \<or> (\<exists>n. \<not> kept \<and> upsert_ref r h n (NumberGroup (r_Type r)) (archived H now d u c (currentHash d (r_Form r))) = Inr d'
           \<and> (n = 0 \<or> n = nextNumber (archived H now d u c (currentHash d (r_Form r))) (r_ProjectID r) (NumberGroup (r_Type r))))"
  using assms unfolding putUnitTx_alt Let_def
  by (auto simp: archived_def split: if_splits sum.splits)

lemma currentHash_archived:
  assumes "wf_db H d"
  shows "currentHash d f = '''' \<or> currentHash d f \<in> keys (payloads d)"
proof (cases "map_of (refs d) f")
  case (Some row)
  then have "(f, row) \<in> set (refs d)" by (rule map_of_SomeD)
  then show ?thesis using assms Some
    by (auto simp: currentHash_def Ref_of_def wf_db_def refsResolve_def)
qed (simp add: currentHash_def Ref_of_def)

lemma wf_put:
  assumes "wf_db H d" "putUnitTx H now d u c r rep = Inr (d', h, kept)"
  shows "wf_db H d'"
proof -
  let ?d1 = "archived H now d u c (currentHash d (r_Form r))"
  have 1: "wf_db H ?d1"
    using wf_insert_payload [OF assms(1), of "\<lparr>p_unit = u, p_content = c,
        p_prev = currentHash d (r_Form r), p_created = now\<rparr>"] currentHash_archived [OF assms(1)]
    by (simp add: archived_def)
  have k: "h \<in> keys (payloads ?d1)"
    using putUnitTx_cases(1) [OF assms(2)] by (simp add: archived_def insert_payload_keys)
  from putUnitTx_cases(3) [OF assms(2)] show ?thesis
    using 1 wf_upsert [OF _ 1 k] by blast
qed

inductive put_step :: "(string \<Rightarrow> string) \<Rightarrow> db \<Rightarrow> db \<Rightarrow> bool" for H where
  put_step: "putUnitTx H now d u c r rep = Inr (d', h, kept) \<Longrightarrow> put_step H d d'"

inductive_cases put_stepE: "put_step H d d'"

abbreviation puts :: "(string \<Rightarrow> string) \<Rightarrow> db \<Rightarrow> db \<Rightarrow> bool" where
  "puts H \<equiv> (put_step H)\<^sup>*\<^sup>*"

lemma puts_wf: "puts H d d' \<Longrightarrow> wf_db H d \<Longrightarrow> wf_db H d'"
  by (induction rule: rtranclp_induct) (auto elim!: put_stepE intro: wf_put)

lemma put_keeps_payload:
  assumes "putUnitTx H now d u c r rep = Inr (d', h, kept)" "map_of (payloads d) k = Some p"
  shows "map_of (payloads d') k = Some p"
proof -
  have "map_of (payloads (archived H now d u c (currentHash d (r_Form r)))) k = Some p"
    using insert_payload_old [OF assms(2)] by (simp add: archived_def)
  then show ?thesis using putUnitTx_cases(3) [OF assms(1)] upsert_payloads by metis
qed

lemma puts_keep_payload: "puts H d d' \<Longrightarrow> map_of (payloads d) k = Some p \<Longrightarrow> map_of (payloads d') k = Some p"
  by (induction rule: rtranclp_induct) (auto elim!: put_stepE intro: put_keeps_payload)

lemma put_archives:
  assumes "putUnitTx H now d u c r rep = Inr (d', h, kept)"
  shows "h = hashUnit H u c \<and> h \<in> keys (payloads d')"
proof -
  have "h \<in> keys (payloads (archived H now d u c (currentHash d (r_Form r))))"
    using putUnitTx_cases(1) [OF assms] by (simp add: archived_def insert_payload_keys)
  then show ?thesis using putUnitTx_cases(1,3) [OF assms] upsert_payloads by metis
qed

lemma PutUnits_steps:
  "PutUnits H now d ps = Inr (d', hs) \<Longrightarrow>
     puts H d d' \<and> hs = map (\<lambda>p. hashUnit H (put_UnitJSON p) (put_Content p)) ps"
proof (induction H now d ps arbitrary: d' hs rule: PutUnits.induct)
  case (2 H now d p ps)
  then obtain d1 h kept hs' where s: "putUnitTx H now d (put_UnitJSON p) (put_Content p) (put_Ref p) False = Inr (d1, h, kept)"
    "PutUnits H now d1 ps = Inr (d', hs')" "hs = h # hs'"
    by (auto split: sum.splits prod.splits)
  then have "puts H d1 d'" "hs' = map (\<lambda>p. hashUnit H (put_UnitJSON p) (put_Content p)) ps"
    using 2 by blast+
  moreover have "put_step H d d1" using s(1) by (rule put_step)
  ultimately show ?case using s putUnitTx_cases(1) [OF s(1)] by (auto intro: converse_rtranclp_into_rtranclp)
qed simp

section \<open>Ancestry\<close>

inductive ancestor :: "(string \<times> payload_row) list \<Rightarrow> string \<Rightarrow> string \<Rightarrow> bool" for ps where
  anc_self: "h \<noteq> '''' \<Longrightarrow> ancestor ps h h"
| anc_prev: "map_of ps c = Some p \<Longrightarrow> c \<noteq> '''' \<Longrightarrow> ancestor ps h (p_prev p) \<Longrightarrow> ancestor ps h c"

inductive_cases ancestorE: "ancestor ps h c"

lemma ancestor_nonempty: "ancestor ps h c \<Longrightarrow> c \<noteq> '''' \<and> h \<noteq> ''''"
  by (induction rule: ancestor.induct) auto

lemma ancestor_mono:
  assumes "ancestor ps h c" "\<And>k p. map_of ps k = Some p \<Longrightarrow> map_of qs k = Some p"
  shows "ancestor qs h c"
  using assms by (induction rule: ancestor.induct) (auto intro: ancestor.intros)

fun position :: "(string \<times> payload_row) list \<Rightarrow> string \<Rightarrow> nat" where
  "position [] h = 0"
| "position (x # xs) h = (if fst x = h then 0 else Suc (position xs h))"

lemma position_nth: "h \<in> keys ps \<Longrightarrow> position ps h < length ps \<and> fst (ps ! position ps h) = h"
  by (induction ps) auto

lemma position_distinct: "distinct (map fst ps) \<Longrightarrow> k < length ps \<Longrightarrow> position ps (fst (ps ! k)) = k"
proof (induction ps arbitrary: k)
  case (Cons x xs)
  show ?case
  proof (cases k)
    case (Suc m)
    with Cons.prems have "fst (xs ! m) \<in> fst ` set xs" by auto
    then have "fst x \<noteq> fst (xs ! m)" using Cons.prems(1) by (metis distinct.simps(2) list.set_map list.simps(9))
    then show ?thesis using Cons Suc by simp
  qed simp
qed simp

lemma prev_position:
  assumes "lineageOrdered ps" "distinct (map fst ps)" "map_of ps c = Some p" "p_prev p \<noteq> ''''"
  shows "p_prev p \<in> keys ps \<and> position ps (p_prev p) < position ps c"
proof -
  have "(c, p) \<in> set ps" using assms(3) by (rule map_of_SomeD)
  then obtain k where k: "k < length ps" "ps ! k = (c, p)" by (auto simp: in_set_conv_nth)
  with assms(1,4) obtain j where j: "j < k" "fst (ps ! j) = p_prev p"
    unfolding lineageOrdered_def by fastforce
  have "position ps c = k" using position_distinct [OF assms(2) k(1)] k(2) by simp
  moreover have "position ps (p_prev p) = j" using position_distinct [OF assms(2), of j] j k(1) by simp
  moreover have "p_prev p \<in> keys ps" using j k(1) by (metis image_eqI nth_mem order_less_trans)
  ultimately show ?thesis using j(1) by simp
qed

lemma isAncestorFrom_iff:
  assumes "lineageOrdered ps" "distinct (map fst ps)" "c \<in> keys ps"
    and "\<forall>v \<in> set visited. v \<in> keys ps \<and> position ps c < position ps v"
  shows "isAncestorFrom ps t visited c \<longleftrightarrow> ancestor ps t c"
  using assms(3,4)
proof (induction "position ps c" arbitrary: c visited rule: less_induct)
  case less
  have nv: "c \<notin> set visited" using less.prems(2) by auto
  obtain p where p: "map_of ps c = Some p" using less.prems(1) by (metis map_of_None_keys not_None_eq)
  show ?case
  proof (cases "c = '''' \<or> c = t")
    case True
    then show ?thesis using nv ancestor_nonempty by (subst isAncestorFrom.simps) (auto intro: anc_self)
  next
    case False
    then have step: "isAncestorFrom ps t visited c \<longleftrightarrow> isAncestorFrom ps t (c # visited) (p_prev p)"
      using nv p by (subst isAncestorFrom.simps) simp
    have anc: "ancestor ps t c \<longleftrightarrow> ancestor ps t (p_prev p)"
      using False p by (auto intro: anc_prev elim: ancestorE)
    show ?thesis
    proof (cases "p_prev p = ''''")
      case True
      then show ?thesis using step anc ancestor_nonempty by (subst (asm) (2) isAncestorFrom.simps) auto
    next
      case ne: False
      note pp = prev_position [OF assms(1,2) p ne]
      have "\<forall>v \<in> set (c # visited). v \<in> keys ps \<and> position ps (p_prev p) < position ps v"
        using pp less.prems by auto
      then show ?thesis using less.hyps pp step anc by blast
    qed
  qed
qed

lemma isAncestor_iff: "wf_db H d \<Longrightarrow> c \<in> keys (payloads d) \<Longrightarrow> isAncestor d t c \<longleftrightarrow> ancestor (payloads d) t c"
  unfolding isAncestor_def wf_db_def by (intro isAncestorFrom_iff) auto

lemma ancestor_archived:
  assumes "lineageOrdered ps" "distinct (map fst ps)" "ancestor ps h c" "c \<in> keys ps"
  shows "h \<in> keys ps"
  using assms(3,4)
proof (induction rule: ancestor.induct)
  case (anc_prev c p h)
  then show ?case using prev_position [OF assms(1,2)] ancestor_nonempty by blast
qed

lemma ancestor_position:
  assumes "lineageOrdered ps" "distinct (map fst ps)" "ancestor ps h c"
  shows "position ps h \<le> position ps c"
  using assms(3)
proof (induction rule: ancestor.induct)
  case (anc_prev c p h)
  then have "p_prev p \<noteq> []" using ancestor_nonempty by blast
  from prev_position [OF assms(1,2) anc_prev.hyps(1) this] anc_prev.IH show ?case by simp
qed simp

section \<open>Stores written by PutUnit alone\<close>

text \<open>A history of \<open>PutUnit\<close> calls in which the form is determined by the payload (the
  unit bytes carry the identity), as every caller derives its reference.\<close>

inductive strict_step :: "(string \<Rightarrow> string) \<Rightarrow> (string \<Rightarrow> string) \<Rightarrow> db \<Rightarrow> db \<Rightarrow> bool" for H form_of where
  strict_step: "PutUnit H now d u c r = Inr (d', h, kept) \<Longrightarrow> r_Form r = form_of (hashUnit H u c) \<Longrightarrow>
     strict_step H form_of d d'"

definition strict_inv :: "(string \<Rightarrow> string) \<Rightarrow> db \<Rightarrow> bool" where
  "strict_inv form_of d \<longleftrightarrow> (\<forall>h \<in> keys (payloads d).
     ancestor (payloads d) h (currentHash d (form_of h)) \<and> currentHash d (form_of h) \<in> keys (payloads d))"

lemma strict_put_archived:
  assumes "wf_db H d" "strict_inv form_of d" "hashUnit H u c \<in> keys (payloads d)"
    and "r_Form r = form_of (hashUnit H u c)"
  shows "PutUnit H now d u c r = Inr (d, hashUnit H u c, hashUnit H u c \<noteq> currentHash d (r_Form r))"
proof -
  let ?h = "hashUnit H u c" and ?cur = "currentHash d (r_Form r)"
  have a: "archived H now d u c ?cur = d" using assms(3) by (simp add: archived_def insert_payload_known)
  have anc: "ancestor (payloads d) ?h ?cur" "?cur \<in> keys (payloads d)"
    using assms(2,3) unfolding strict_inv_def assms(4) by blast+
  then have "?cur \<noteq> ''''" "isAncestor d ?h ?cur"
    using ancestor_nonempty isAncestor_iff [OF assms(1)] by blast+
  then show ?thesis using a by (simp add: PutUnit_def putUnitTx_alt Let_def)
qed

lemma archived_new:
  assumes "hashUnit H u c \<notin> keys (payloads d)"
  shows "payloads (archived H now d u c prev) = payloads d @
     [(hashUnit H u c, \<lparr>p_unit = u, p_content = c, p_prev = prev, p_created = now\<rparr>)]"
  using assms by (simp add: archived_def insert_payload_new)

lemma put_new:
  assumes "wf_db H d" "hashUnit H u c \<notin> keys (payloads d)"
    and "\<forall>x. H x \<noteq> ''''" and "PutUnit H now d u c r = Inr (d', h, kept)"
  shows "\<not> kept \<and> (\<exists>n. upsert_ref r h n (NumberGroup (r_Type r)) (archived H now d u c (currentHash d (r_Form r))) = Inr d')"
proof -
  let ?cur = "currentHash d (r_Form r)" and ?h = "hashUnit H u c"
  let ?d1 = "archived H now d u c ?cur"
  have ne: "?h \<noteq> ''''" using assms(3) by (simp add: hashUnit_def)
  have nc: "?h \<noteq> ?cur" using assms(2) currentHash_archived [OF assms(1)] ne by metis
  have na: "\<not> isAncestor ?d1 ?h ?cur" if "?cur \<noteq> ''''"
  proof
    assume "isAncestor ?d1 ?h ?cur"
    have cur: "?cur \<in> keys (payloads d)" using that currentHash_archived [OF assms(1)] by metis
    have wf1: "wf_db H ?d1"
      using wf_insert_payload [OF assms(1), of "\<lparr>p_unit = u, p_content = c, p_prev = ?cur, p_created = now\<rparr>"] cur
      by (simp add: archived_def)
    have "ancestor (payloads ?d1) ?h ?cur"
      using isAncestor_iff [OF wf1] cur \<open>isAncestor ?d1 ?h ?cur\<close> archived_new [OF assms(2)] by auto
    then have "position (payloads ?d1) ?h \<le> position (payloads ?d1) ?cur"
      using ancestor_position wf1 unfolding wf_db_def by blast
    moreover have "position (payloads ?d1) ?h = length (payloads d)"
    proof -
      have "position (xs @ [(k, v)]) k = length xs" if "k \<notin> keys xs" for xs k v
        using that by (induction xs) auto
      then show ?thesis using assms(2) archived_new [OF assms(2)] by simp
    qed
    moreover have "position (payloads ?d1) ?cur < length (payloads d)"
    proof -
      have "position (xs @ ys) k < length xs" if "k \<in> keys xs" for xs ys k
        using that by (induction xs) auto
      then show ?thesis using cur archived_new [OF assms(2)] by simp
    qed
    ultimately show False by simp
  qed
  show ?thesis using assms(4) nc na unfolding PutUnit_def putUnitTx_alt Let_def
    by (auto split: if_splits sum.splits)
qed

lemma strict_inv_put:
  assumes "wf_db H d" "strict_inv form_of d" "\<forall>x. H x \<noteq> ''''"
    and "PutUnit H now d u c r = Inr (d', h, kept)" "r_Form r = form_of (hashUnit H u c)"
  shows "strict_inv form_of d'"
proof (cases "hashUnit H u c \<in> keys (payloads d)")
  case True
  then show ?thesis using strict_put_archived [OF assms(1,2) True assms(5)] assms(2,4) by simp
next
  case False
  let ?cur = "currentHash d (r_Form r)"
  let ?d1 = "archived H now d u c ?cur"
  have h: "h = hashUnit H u c" using putUnitTx_cases(1) assms(4) unfolding PutUnit_def by blast
  obtain n where up: "upsert_ref r h n (NumberGroup (r_Type r)) ?d1 = Inr d'"
    using put_new [OF assms(1) False assms(3,4)] by blast
  have ps: "payloads d' = payloads d @ [(h, \<lparr>p_unit = u, p_content = c, p_prev = ?cur, p_created = now\<rparr>)]"
    using upsert_payloads [OF up] archived_new [OF False] h by simp
  have keep: "map_of (payloads d') k = Some p" if "map_of (payloads d) k = Some p" for k p
    using that by (simp add: ps map_add_Some_iff)
  have new: "map_of (payloads d') h = Some \<lparr>p_unit = u, p_content = c, p_prev = ?cur, p_created = now\<rparr>"
    using False h by (simp add: ps map_add_Some_iff map_of_None_keys)
  have hne: "h \<noteq> ''''" using assms(3) h by (simp add: hashUnit_def)
  have refs: "currentHash d' f = (if f = r_Form r then h else currentHash d f)" for f
    using upsert_lookup [OF up, of f]
    by (auto simp: currentHash_def Ref_of_def archived_def split: option.splits)
  have "ancestor (payloads d') k (currentHash d' (form_of k)) \<and> currentHash d' (form_of k) \<in> keys (payloads d')"
    if k: "k \<in> keys (payloads d')" for k
  proof (cases "k = h")
    case True
    then show ?thesis using refs assms(5) h hne ps by (auto intro: anc_self)
  next
    case nh: False
    then have kd: "k \<in> keys (payloads d)" using k ps by auto
    then have old: "ancestor (payloads d') k (currentHash d (form_of k))"
      "currentHash d (form_of k) \<in> keys (payloads d)"
      using assms(2) keep ancestor_mono unfolding strict_inv_def by blast+
    show ?thesis
    proof (cases "form_of k = r_Form r")
      case True
      then have "ancestor (payloads d') k h" using old new hne by (auto intro: anc_prev)
      then show ?thesis using True refs ps by simp
    next
      case nf: False
      then show ?thesis using old refs ps by auto
    qed
  qed
  then show ?thesis unfolding strict_inv_def by blast
qed

lemma strict_reach:
  assumes "(strict_step H form_of)\<^sup>*\<^sup>* empty_db d" "\<forall>x. H x \<noteq> ''''"
  shows "wf_db H d \<and> strict_inv form_of d"
  using assms(1)
proof (induction rule: rtranclp_induct)
  case base
  then show ?case by (simp add: strict_inv_def empty_db_def) (simp add: empty_db_def [symmetric])
next
  case (step d d')
  from step.hyps(2) show ?case
  proof (cases rule: strict_step.cases)
    case (strict_step now u c r h kept)
    then show ?thesis
      using step.IH strict_inv_put [OF _ _ assms(2)] wf_put unfolding PutUnit_def by blast
  qed
qed

section \<open>The guard and the numbers\<close>

lemma archived_prev:
  assumes "hashUnit H u c \<notin> keys (payloads d)"
  shows "map_of (payloads (archived H now d u c prev)) (hashUnit H u c) =
    Some \<lparr>p_unit = u, p_content = c, p_prev = prev, p_created = now\<rparr>"
  using assms archived_new [OF assms] by (simp add: map_add_Some_iff map_of_None_keys)

lemma archived_refs [simp]: "refs (archived H now d u c prev) = refs d"
  by (simp add: archived_def)

lemma currentHash_cong: "refs d = refs d' \<Longrightarrow> currentHash d f = currentHash d' f"
  by (simp add: currentHash_def Ref_of_def)

lemma upsert_currentHash:
  assumes "upsert_ref r h n g d = Inr d'"
  shows "currentHash d' f = (if f = r_Form r then h else currentHash d f)"
  using upsert_lookup [OF assms, of f] by (auto simp: currentHash_def Ref_of_def split: option.splits)

lemma put_outcome:
  assumes "putUnitTx H now d u c r rep = Inr (d', h, kept)"
  defines "cur \<equiv> currentHash d (r_Form r)"
  shows "kept \<longleftrightarrow> cur \<noteq> '''' \<and> h \<noteq> cur \<and>
      (if rep then r_InstanceVersion r < currentVersion d (r_Form r)
       else isAncestor (archived H now d u c cur) h cur)"
    and "currentHash d' f = (if f = r_Form r \<and> \<not> kept then h else currentHash d f)"
proof -
  show "kept \<longleftrightarrow> cur \<noteq> '''' \<and> h \<noteq> cur \<and>
      (if rep then r_InstanceVersion r < currentVersion d (r_Form r)
       else isAncestor (archived H now d u c cur) h cur)"
    using assms(1) unfolding putUnitTx_alt Let_def cur_def by (auto split: if_splits sum.splits)
  have same: "currentHash (archived H now d u c x) g = currentHash d g" for x g
    by (rule currentHash_cong) simp
  show "currentHash d' f = (if f = r_Form r \<and> \<not> kept then h else currentHash d f)"
    using assms(1) unfolding putUnitTx_alt Let_def
    by (auto simp: same upsert_currentHash split: if_splits sum.splits)
qed

lemma upsert_numbers:
  assumes "upsert_ref r h n g d = Inr d'" "map_of (refs d) f = Some row"
  shows "\<exists>row'. map_of (refs d') f = Some row' \<and> row_number row' = row_number row \<and> row_group row' = row_group row"
  using upsert_lookup [OF assms(1), of f] assms(2) by auto

lemma put_numbers:
  assumes "putUnitTx H now d u c r rep = Inr (d', h, kept)" "map_of (refs d) f = Some row"
  shows "\<exists>row'. map_of (refs d') f = Some row' \<and> row_number row' = row_number row \<and> row_group row' = row_group row"
  using putUnitTx_cases(3) [OF assms(1)] assms(2) upsert_numbers [of _ _ _ _ "archived H now d u c _"]
  by (auto simp del: map_of_eq_Some_iff)

lemma puts_numbers:
  "puts H d d' \<Longrightarrow> map_of (refs d) f = Some row \<Longrightarrow>
     \<exists>row'. map_of (refs d') f = Some row' \<and> row_number row' = row_number row \<and> row_group row' = row_group row"
proof (induction rule: rtranclp_induct)
  case (step d1 d2)
  then obtain row1 where "map_of (refs d1) f = Some row1" "row_number row1 = row_number row" "row_group row1 = row_group row"
    by blast
  with step.hyps(2) show ?case using put_numbers by (elim put_stepE) metis
qed blast

lemma upsert_number_new:
  assumes "upsert_ref r h n g d = Inr d'" "map_of (refs d) (r_Form r) = None"
  shows "map_of (refs d') (r_Form r) = Some \<lparr>row_ref = r\<lparr>r_ObjectHash := h\<rparr>, row_number = n, row_group = g\<rparr>"
  using upsert_lookup [OF assms(1), of "r_Form r"] assms(2) by simp

lemma put_number_new:
  assumes "putUnitTx H now d u c r rep = Inr (d', h, kept)" "map_of (refs d) (r_Form r) = None"
  shows "map_of (refs d') (r_Form r) = Some \<lparr>row_ref = r\<lparr>r_ObjectHash := h\<rparr>,
    row_number = (if NumberGroup (r_Type r) = '''' then 0 else nextNumber d (r_ProjectID r) (NumberGroup (r_Type r))),
    row_group = NumberGroup (r_Type r)\<rparr>"
proof -
  have cur: "currentHash d (r_Form r) = ''''" using assms(2) by (simp add: currentHash_def Ref_of_def)
  have "nextNumber (archived H now d u c x) p g = nextNumber d p g" for x p g
    by (simp add: nextNumber_def)
  then show ?thesis using assms unfolding putUnitTx_alt Let_def cur
    by (auto split: sum.splits dest!: upsert_number_new)
qed

section \<open>Properties\<close>

definition sampleRef :: "string \<Rightarrow> string \<Rightarrow> int \<Rightarrow> Ref" where
  "sampleRef project i v = \<lparr>r_Form = ''core/sto:'' @ i @ '':'' @ itoa v, r_ObjectHash = '''', r_ProjectID = project,
     r_SourceRepo = ''repo'', r_Namespace = ''core'', r_Type = ''sto'', r_ID = i, r_InstanceVersion = v,
     r_Revision = 1, r_Dimension = '''', r_Domain = ''Execution'', r_Phase = '''', r_UpdatedAt = ''t''\<rparr>"

definition tagHash :: "string \<Rightarrow> string" where
  "tagHash s = ''#'' @ s"

fun runPuts :: "db \<Rightarrow> (string \<times> Ref \<times> bool) list \<Rightarrow> db" where
  "runPuts d [] = d"
| "runPuts d ((u, r, rep) # ps) = (case putUnitTx tagHash ''now'' d u '''' r rep of
     Inl err \<Rightarrow> runPuts d ps | Inr (d', h, kept) \<Rightarrow> runPuts d' ps)"

lemma runPuts_puts: "puts tagHash d (runPuts d ps)"
proof (induction ps arbitrary: d)
  case (Cons p ps)
  obtain u r rep where p: "p = (u, r, rep)" by (cases p)
  show ?case
  proof (cases "putUnitTx tagHash ''now'' d u '''' r rep")
    case (Inl err) then show ?thesis using Cons p by simp
  next
    case (Inr x)
    obtain d' h kept where x: "x = (d', h, kept)" by (cases x)
    have "put_step tagHash d d'" using Inr x by (auto intro: put_step)
    then show ?thesis using Cons [of d'] p Inr x by (auto intro: converse_rtranclp_into_rtranclp)
  qed
qed simp

lemma runPuts_strict:
  assumes "\<forall>(u, r, rep) \<in> set ps. \<not> rep \<and> r_Form r = form_of (hashUnit tagHash u [])"
  shows "(strict_step tagHash form_of)\<^sup>*\<^sup>* d (runPuts d ps)"
  using assms
proof (induction ps arbitrary: d)
  case (Cons p ps)
  obtain u r where p: "p = (u, r, False)" "r_Form r = form_of (hashUnit tagHash u [])"
    using Cons.prems by (cases p) auto
  show ?case
  proof (cases "putUnitTx tagHash ''now'' d u [] r False")
    case (Inl err) then show ?thesis using Cons p by simp
  next
    case (Inr x)
    obtain d' h kept where x: "x = (d', h, kept)" by (cases x)
    have "strict_step tagHash form_of d d'"
      using Inr x p(2) by (intro strict_step [of _ "''now''" _ u "[]" r _ h kept]) (simp_all add: PutUnit_def)
    then show ?thesis using Cons p(1) Inr x by (auto intro: converse_rtranclp_into_rtranclp)
  qed
qed simp

definition sampleDb :: db where
  "sampleDb = runPuts empty_db [(''A'', sampleRef ''p'' ''x'' 1, False), (''B'', sampleRef ''p'' ''x'' 1, True),
     (''C'', sampleRef ''p'' ''y'' 1, False)]"

text \<open>C31: Any sequence of puts and repoints keeps the store well formed: payload and form
  keys are unique, every row is filed under the hash of its bytes, every predecessor was
  archived earlier (so lineages are acyclic), every reference points at an archived
  payload, and no issue number is used twice in a project's group.\<close>

theorem store_invariant:
  assumes "puts H empty_db d"
  shows "wf_db H d"
  using puts_wf [OF assms] by simp

theorem store_invariant_witness: "wf_db tagHash sampleDb \<and> length (payloads sampleDb) = 3"
proof
  show "wf_db tagHash sampleDb" unfolding sampleDb_def by (rule store_invariant [OF runPuts_puts])
  show "length (payloads sampleDb) = 3" by code_simp
qed

text \<open>The archive is immutable: once a payload is readable under a hash, no later put,
  repoint or batch changes its unit bytes, its content, its lineage predecessor or its date.\<close>

theorem archive_immutable:
  assumes "puts H d d'" and "map_of (payloads d) h = Some p"
  shows "map_of (payloads d') h = Some p \<and> Payload d' h = Some (p_unit p, p_content p)"
  using puts_keep_payload [OF assms] by (simp add: Payload_def)

theorem archive_immutable_witness:
  "Payload (runPuts sampleDb [(''A'', sampleRef ''p'' ''x'' 1, True)]) ''#B'' = Some (''B'', '''')"
proof -
  have "map_of (payloads sampleDb) ''#B'' = Some \<lparr>p_unit = ''B'', p_content = '''', p_prev = ''#A'', p_created = ''now''\<rparr>"
    by code_simp
  from archive_immutable [OF runPuts_puts this, of "[(''A'', sampleRef ''p'' ''x'' 1, True)]"]
  show ?thesis by (simp only: payload_row.select_convs)
qed

text \<open>A batch is atomic and faithful: a successful \<open>PutUnits\<close> is a sequence of puts and
  returns the payload hashes in input order; a batch with a refused put returns the error
  and no database at all.\<close>

theorem batch_is_sequence:
  assumes "PutUnits H now d ps = Inr (d', hs)"
  shows "puts H d d' \<and> hs = map (\<lambda>p. hashUnit H (put_UnitJSON p) (put_Content p)) ps"
  by (rule PutUnits_steps [OF assms])

theorem batch_is_sequence_witness:
  "\<exists>d'. PutUnits tagHash ''n'' empty_db [\<lparr>put_UnitJSON = ''A'', put_Content = ''1'', put_Ref = sampleRef ''p'' ''x'' 1\<rparr>,
      \<lparr>put_UnitJSON = ''B'', put_Content = '''', put_Ref = sampleRef ''p'' ''y'' 1\<rparr>] = Inr (d', [''#A1'', ''#B''])
    \<and> puts tagHash empty_db d'"
proof -
  let ?ps = "[\<lparr>put_UnitJSON = ''A'', put_Content = ''1'', put_Ref = sampleRef ''p'' ''x'' 1\<rparr>,
      \<lparr>put_UnitJSON = ''B'', put_Content = '''', put_Ref = sampleRef ''p'' ''y'' 1\<rparr>]"
  have "case PutUnits tagHash ''n'' empty_db ?ps of Inl e \<Rightarrow> False | Inr (d', hs) \<Rightarrow> hs = [''#A1'', ''#B'']"
    by code_simp
  then obtain d' where "PutUnits tagHash ''n'' empty_db ?ps = Inr (d', [''#A1'', ''#B''])"
    by (auto split: sum.splits)
  with batch_is_sequence [OF this] show ?thesis by blast
qed

text \<open>C32: In a store written by \<open>PutUnit\<close> alone a reference never moves back: re-putting any
  payload the archive already holds, however old, changes nothing, and reports the
  reference as kept exactly when the payload is not the current one.\<close>

theorem put_forward_only:
  assumes "(strict_step H form_of)\<^sup>*\<^sup>* empty_db d" and "\<forall>x. H x \<noteq> ''''"
    and "hashUnit H u c \<in> fst ` set (payloads d)" and "r_Form r = form_of (hashUnit H u c)"
  shows "PutUnit H now d u c r = Inr (d, hashUnit H u c, hashUnit H u c \<noteq> currentHash d (r_Form r))"
  using strict_put_archived strict_reach [OF assms(1,2)] assms(3,4) by blast

theorem put_forward_only_witness:
  "PutUnit tagHash ''n'' (runPuts empty_db [(''A'', sampleRef ''p'' ''x'' 1, False), (''B'', sampleRef ''p'' ''x'' 1, False)])
     ''A'' '''' (sampleRef ''p'' ''x'' 1)
   = Inr (runPuts empty_db [(''A'', sampleRef ''p'' ''x'' 1, False), (''B'', sampleRef ''p'' ''x'' 1, False)], ''#A'', True)"
proof -
  let ?r = "sampleRef ''p'' ''x'' 1" and ?f = "\<lambda>h :: string. ''core/sto:x:1''"
  let ?d = "runPuts empty_db [(''A'', ?r, False), (''B'', ?r, False)]"
  have form: "r_Form ?r = ''core/sto:x:1''" by code_simp
  have "(strict_step tagHash ?f)\<^sup>*\<^sup>* empty_db ?d"
    by (rule runPuts_strict) (simp add: form)
  moreover have "\<forall>x. tagHash x \<noteq> ''''" by (simp add: tagHash_def)
  moreover have "List.member (map fst (payloads ?d)) (hashUnit tagHash ''A'' '''')" by code_simp
  moreover have "hashUnit tagHash ''A'' '''' = ''#A''" "r_Form ?r = ''core/sto:x:1''" "currentHash ?d ''core/sto:x:1'' = ''#B''"
    by code_simp+
  ultimately show ?thesis
    using put_forward_only [of tagHash ?f ?d "''A''" "''''" ?r "''n''"] by simp
qed

text \<open>The guard of a put is exact. In a well-formed store a \<open>PutUnit\<close> keeps the reference
  exactly when its payload is a proper ancestor of the current one, a \<open>RepointUnit\<close> exactly
  when its instance version is lower and its payload is not the current one; otherwise the
  form's reference is at the payload afterwards, and no other form moves.\<close>

theorem put_guard_exact:
  assumes "wf_db H d" and "putUnitTx H now d u c r rep = Inr (d', h, kept)"
    and "hashUnit H u c \<in> fst ` set (payloads d)"
  shows "(kept \<longleftrightarrow> currentHash d (r_Form r) \<noteq> '''' \<and> h \<noteq> currentHash d (r_Form r) \<and>
        (if rep then r_InstanceVersion r < currentVersion d (r_Form r)
         else ancestor (payloads d) h (currentHash d (r_Form r))))
     \<and> currentHash d' f = (if f = r_Form r \<and> \<not> kept then h else currentHash d f)"
proof -
  let ?cur = "currentHash d (r_Form r)"
  have same: "archived H now d u c ?cur = d" using assms(3) by (simp add: archived_def insert_payload_known)
  have "?cur \<noteq> '''' \<Longrightarrow> isAncestor d h ?cur \<longleftrightarrow> ancestor (payloads d) h ?cur"
    using isAncestor_iff [OF assms(1)] currentHash_archived [OF assms(1)] by metis
  then show ?thesis using put_outcome [OF assms(2)] unfolding same by auto
qed

theorem put_guard_exact_witness:
  "currentHash (runPuts sampleDb [(''A'', sampleRef ''p'' ''x'' 1, True)]) ''core/sto:x:1'' = ''#A''"
proof -
  let ?r = "sampleRef ''p'' ''x'' 1"
  have wf: "wf_db tagHash sampleDb" unfolding sampleDb_def by (rule puts_wf [OF runPuts_puts wf_empty])
  have "case putUnitTx tagHash ''now'' sampleDb ''A'' '''' ?r True of Inl e \<Rightarrow> False | Inr (d', h, k) \<Rightarrow> h = ''#A''"
    by code_simp
  then obtain d' k where p: "putUnitTx tagHash ''now'' sampleDb ''A'' '''' ?r True = Inr (d', ''#A'', k)"
    by (auto split: sum.splits)
  have "List.member (map fst (payloads sampleDb)) (hashUnit tagHash ''A'' '''')" by code_simp
  then have k: "hashUnit tagHash ''A'' '''' \<in> fst ` set (payloads sampleDb)" by simp
  have v: "r_InstanceVersion ?r = currentVersion sampleDb (r_Form ?r)" "r_Form ?r = ''core/sto:x:1''" by code_simp+
  from put_guard_exact [OF wf p k, of "''core/sto:x:1''"] v show ?thesis by (simp add: p)
qed

text \<open>A genuinely new payload always advances its line: \<open>PutUnit\<close> of a payload the archive
  does not hold is never kept back, becomes the current payload of its form, and has the
  form's previous payload as its lineage predecessor.\<close>

theorem new_payload_advances:
  assumes "(strict_step H form_of)\<^sup>*\<^sup>* empty_db d" and "\<forall>x. H x \<noteq> ''''"
    and "hashUnit H u c \<notin> fst ` set (payloads d)" and "PutUnit H now d u c r = Inr (d', h, kept)"
  shows "\<not> kept \<and> currentHash d' (r_Form r) = h
    \<and> map_option p_prev (map_of (payloads d') h) = Some (currentHash d (r_Form r))"
proof -
  have h: "h = hashUnit H u c" using assms(4) putUnitTx_cases(1) unfolding PutUnit_def by blast
  obtain n where up: "\<not> kept" "upsert_ref r h n (NumberGroup (r_Type r)) (archived H now d u c (currentHash d (r_Form r))) = Inr d'"
    using put_new [OF _ assms(3,2,4)] strict_reach [OF assms(1,2)] by blast
  then show ?thesis using upsert_currentHash [OF up(2)] upsert_payloads [OF up(2)] archived_prev [OF assms(3)] h by simp
qed

theorem new_payload_advances_witness:
  "currentHash (runPuts empty_db [(''A'', sampleRef ''p'' ''x'' 1, False), (''B'', sampleRef ''p'' ''x'' 1, False)]) ''core/sto:x:1'' = ''#B''"
proof -
  let ?r = "sampleRef ''p'' ''x'' 1" and ?f = "\<lambda>h :: string. ''core/sto:x:1''"
  let ?d = "runPuts empty_db [(''A'', ?r, False)]"
  have form: "r_Form ?r = ''core/sto:x:1''" by code_simp
  have reach: "(strict_step tagHash ?f)\<^sup>*\<^sup>* empty_db ?d" by (rule runPuts_strict) (simp add: form)
  have "\<not> List.member (map fst (payloads ?d)) (hashUnit tagHash ''B'' '''')" by code_simp
  then have new: "hashUnit tagHash ''B'' '''' \<notin> fst ` set (payloads ?d)" by simp
  have "case putUnitTx tagHash ''now'' ?d ''B'' '''' ?r False of Inl e \<Rightarrow> False | Inr (d', h, k) \<Rightarrow> h = ''#B''"
    by code_simp
  then obtain d' k where p: "putUnitTx tagHash ''now'' ?d ''B'' '''' ?r False = Inr (d', ''#B'', k)"
    by (auto split: sum.splits)
  have "currentHash d' ''core/sto:x:1'' = ''#B''"
    using new_payload_advances [OF reach _ new p [folded PutUnit_def]] form by (simp add: tagHash_def)
  moreover have "runPuts empty_db [(''A'', ?r, False), (''B'', ?r, False)] = runPuts ?d [(''B'', ?r, False)]"
    by (simp split: sum.splits)
  ultimately show ?thesis using p by simp
qed

text \<open>The forward-only promise does not survive a repoint. A payload archived on the line
  but not in the current payload's first-written lineage (A, then a repoint to B, back to A,
  then C, whose predecessor is A) moves the reference back when it is put again by a stale
  re-seed, and the put does not report it.\<close>

theorem repoint_breaks_forward_only:
  "let r = sampleRef ''p'' ''x'' 1;
       d = runPuts empty_db [(''A'', r, False), (''B'', r, True), (''A'', r, True), (''C'', r, False)];
       d' = runPuts d [(''B'', r, False)]
   in currentHash d ''core/sto:x:1'' = ''#C'' \<and> currentHash d' ''core/sto:x:1'' = ''#B''
      \<and> length (payloads d') = length (payloads d)"
  by code_simp

text \<open>C36: Issue numbers are stable and fresh: a reference that has a number keeps it and its
  group whatever is put or repointed later, and the first reference of a line whose type has
  a number group takes the next number of the group in its project, greater than every number
  the group has there.\<close>

theorem numbers_stable_and_fresh:
  assumes "puts H d d'" and "map_of (refs d) f = Some row" and "0 < row_number row"
    and "putUnitTx H now d' u c r rep = Inr (d'', h, kept)" and "map_of (refs d') (r_Form r) = None"
    and "list_all (\<lambda>(g, old). \<not> onLine (r_Namespace r) (r_Type r) (r_ID r) (row_ref old)) (refs d')"
    and "NumberGroup (r_Type r) \<noteq> ''''"
  shows "map_option (\<lambda>row. (row_number row, row_group row)) (map_of (refs d'') f) = Some (row_number row, row_group row)
    \<and> (\<exists>new. map_of (refs d'') (r_Form r) = Some new \<and> row_group new = NumberGroup (r_Type r)
         \<and> row_number new = nextNumber d' (r_ProjectID r) (NumberGroup (r_Type r))
         \<and> list_all (\<lambda>(g, old). r_ProjectID (row_ref old) = r_ProjectID r \<and> row_group old = NumberGroup (r_Type r)
              \<longrightarrow> row_number old < row_number new) (refs d'))"
proof -
  obtain row' where row': "map_of (refs d') f = Some row'" "row_number row' = row_number row" "row_group row' = row_group row"
    using puts_numbers [OF assms(1,2)] by blast
  obtain row'' where row'': "map_of (refs d'') f = Some row''" "row_number row'' = row_number row'" "row_group row'' = row_group row'"
    using put_numbers [OF assms(4) row'(1)] by blast
  have "row_number old < nextNumber d' (r_ProjectID r) (NumberGroup (r_Type r))"
    if "(g, old) \<in> set (refs d')" "r_ProjectID (row_ref old) = r_ProjectID r" "row_group old = NumberGroup (r_Type r)" for g old
    by (rule nextNumber_greater [OF that])
  then show ?thesis using put_number_new [OF assms(4,5)] assms(7) row' row'' by (auto simp: list_all_iff)
qed

theorem numbers_stable_and_fresh_witness:
  "let d = runPuts sampleDb [(''D'', sampleRef ''p'' ''z'' 1, False)]
   in map_option row_number (map_of (refs d) ''core/sto:x:1'') = Some 1 \<and> map_option row_number (map_of (refs d) ''core/sto:z:1'') = Some 3"
proof -
  let ?r = "sampleRef ''p'' ''z'' 1" and ?f = "''core/sto:x:1''"
  have "case putUnitTx tagHash ''now'' sampleDb ''D'' '''' ?r False of Inl e \<Rightarrow> False | Inr (d', h, k) \<Rightarrow> True"
    by code_simp
  then obtain d' h k where p: "putUnitTx tagHash ''now'' sampleDb ''D'' '''' ?r False = Inr (d', h, k)"
    by (auto split: sum.splits)
  have "case map_of (refs sampleDb) ?f of None \<Rightarrow> False | Some row \<Rightarrow> row_number row = 1" by code_simp
  then obtain row where row: "map_of (refs sampleDb) ?f = Some row" "row_number row = 1" by (auto split: option.splits)
  have new: "map_of (refs sampleDb) (r_Form ?r) = None" by code_simp
  have line: "list_all (\<lambda>(g, old). \<not> onLine (r_Namespace ?r) (r_Type ?r) (r_ID ?r) (row_ref old)) (refs sampleDb)" by code_simp
  have t: "NumberGroup (r_Type ?r) \<noteq> ''''" "r_Form ?r = ''core/sto:z:1''"
    "nextNumber sampleDb (r_ProjectID ?r) (NumberGroup (r_Type ?r)) = 3" by code_simp+
  have pos: "0 < row_number row" using row(2) by simp
  note fresh = numbers_stable_and_fresh [OF rtranclp.rtrancl_refl row(1) pos p new line t(1), unfolded t(2,3)]
  have "runPuts sampleDb [(''D'', ?r, False)] = d'" by (simp add: p)
  moreover have "map_option row_number (map_of (refs d') ?f) = Some 1" using fresh row(2) by auto
  moreover have "map_option row_number (map_of (refs d') ''core/sto:z:1'') = Some 3" using fresh by auto
  ultimately show ?thesis by (simp add: Let_def)
qed

text \<open>Numbers count instances, not lines: the second instance of a line is a new form and
  takes the next number, so one line carries two numbers and \<open>LineByNumberGroup\<close> resolves
  both to it.\<close>

theorem number_per_instance:
  "let d = runPuts empty_db [(''A'', sampleRef ''p'' ''x'' 1, False), (''B'', sampleRef ''p'' ''x'' 2, False)];
       line = (\<lambda>n. map_option LineForm (LineByNumberGroup d ''p'' (NumberGroup ''sto'') n))
   in NumberForLine d ''p'' ''core'' ''sto'' ''x'' = 1 \<and> MaxInstanceVersion d ''core'' ''sto'' ''x'' = 2
      \<and> line 1 = Some ''core/sto:x'' \<and> line 2 = Some ''core/sto:x'' \<and> line 3 = None
      \<and> NumbersByProject d ''p'' ''core/sto:x'' = Some 2 \<and> map LineForm (LineByNumber d ''p'' 2) = [''core/sto:x'']"
  by code_simp

section \<open>The retry\<close>

lemma retryFrom_result:
  "\<exists>m \<le> n. snd (retryFrom n k op lst) = k + m \<and> (\<forall>i < m - 1. is_Busy (op (k + i)))
     \<and> (m = 0 \<longrightarrow> n = 0) \<and> (m > 0 \<longrightarrow> fst (retryFrom n k op lst) = op (k + m - 1)) \<and> (m < n \<longrightarrow> \<not> is_Busy (op (k + m - 1)))"
proof (induction n arbitrary: k lst)
  case (Suc n)
  show ?case
  proof (cases "op k")
    case (Busy e)
    obtain m where m: "m \<le> n" "snd (retryFrom n (k + 1) op (Busy e)) = k + 1 + m" "\<forall>i < m - 1. is_Busy (op (k + 1 + i))"
      "m = 0 \<longrightarrow> n = 0" "m > 0 \<longrightarrow> fst (retryFrom n (k + 1) op (Busy e)) = op (k + 1 + m - 1)"
      "m < n \<longrightarrow> \<not> is_Busy (op (k + 1 + m - 1))"
      using Suc.IH by blast
    have "is_Busy (op (k + i))" if "i < m" for i
      using that m(3) Busy by (cases i) auto
    moreover have "fst (retryFrom n (k + 1) op (Busy e)) = op (k + m)" using m(4,5) Busy by (cases m) auto
    ultimately show ?thesis using m Busy by (intro exI [of _ "Suc m"]) auto
  qed (auto intro: exI [of _ 1])
qed simp

text \<open>The busy retry makes between one and five attempts, every attempt but the last was
  busy, the last attempt's outcome is the result, and fewer than five attempts were made
  only when the last was not busy.\<close>

theorem retry_bounded:
  "\<exists>m. snd (retryBusy op) = m \<and> 1 \<le> m \<and> m \<le> 5 \<and> fst (retryBusy op) = op (m - 1)
     \<and> list_all (\<lambda>i. is_Busy (op i)) [0..<m - 1] \<and> (m = 5 \<or> \<not> is_Busy (op (m - 1)))"
  using retryFrom_result [of maxBusyAttempts 0 op "Busy ''''"]
  by (auto simp: retryBusy_def maxBusyAttempts_def list_all_iff)

section \<open>When a put fails\<close>

lemma numbersUniqueD:
  assumes "numbersUnique d" "(f, a) \<in> set (refs d)" "(g, b) \<in> set (refs d)" "f \<noteq> g"
    "r_ProjectID (row_ref a) = r_ProjectID (row_ref b)" "row_group a = row_group b" "row_number a > 0"
  shows "row_number a \<noteq> row_number b"
  using assms unfolding numbersUnique_def by blast

lemma upsert_total:
  assumes "wf_db H d"
    and "map_of (refs d) (r_Form r) = None \<longrightarrow> n = 0 \<or> n = nextNumber d (r_ProjectID r) g"
    and "\<forall>row. map_of (refs d) (r_Form r) = Some row \<longrightarrow> r_ProjectID (row_ref row) = r_ProjectID r"
  shows "\<exists>d'. upsert_ref r h n g d = Inr d'"
proof (cases "map_of (refs d) (r_Form r)")
  case None
  have "\<not> numberTaken d (r_Form r) (r_ProjectID r) g n"
  proof
    assume "numberTaken d (r_Form r) (r_ProjectID r) g n"
    then obtain f b where b: "n > 0" "(f, b) \<in> set (refs d)" "r_ProjectID (row_ref b) = r_ProjectID r"
      "row_group b = g" "row_number b = n" by (auto simp: numberTaken_def list_ex_iff)
    have "n < nextNumber d (r_ProjectID r) g" using nextNumber_greater [OF b(2-4)] b(5) by simp
    moreover have "n = nextNumber d (r_ProjectID r) g" using b(1) assms(2) None by blast
    ultimately show False by simp
  qed
  then show ?thesis using None by (simp add: upsert_ref_def)
next
  case (Some row)
  then have m: "(r_Form r, row) \<in> set (refs d)" by (rule map_of_SomeD)
  have p: "r_ProjectID (row_ref row) = r_ProjectID r" using assms(3) Some by blast
  have "\<not> numberTaken d (r_Form r) (r_ProjectID r) (row_group row) (row_number row)"
  proof
    assume "numberTaken d (r_Form r) (r_ProjectID r) (row_group row) (row_number row)"
    then obtain f b where b: "row_number row > 0" "(f, b) \<in> set (refs d)" "f \<noteq> r_Form r"
      "r_ProjectID (row_ref b) = r_ProjectID r" "row_group b = row_group row" "row_number b = row_number row"
      by (auto simp: numberTaken_def list_ex_iff)
    have "numbersUnique d" using assms(1) by (simp add: wf_db_def)
    from numbersUniqueD [OF this m b(2) b(3) [symmetric]] b p show False by simp
  qed
  then show ?thesis using Some by (simp add: upsert_ref_def)
qed

text \<open>C37: In a well-formed store a put or repoint cannot fail on the numbers as long as the form
  is new or stays in its project: it always returns a database and the payload's hash.\<close>

theorem put_never_refused_in_project:
  assumes "wf_db H d"
    and "\<forall>row. map_of (refs d) (r_Form r) = Some row \<longrightarrow> r_ProjectID (row_ref row) = r_ProjectID r"
  shows "\<exists>d' kept. putUnitTx H now d u c r rep = Inr (d', hashUnit H u c, kept)"
proof -
  let ?d1 = "archived H now d u c (currentHash d (r_Form r))"
  have wf1: "wf_db H ?d1"
    using wf_insert_payload [OF assms(1), of "\<lparr>p_unit = u, p_content = c,
        p_prev = currentHash d (r_Form r), p_created = now\<rparr>"] currentHash_archived [OF assms(1)]
    by (simp add: archived_def)
  have "\<exists>d'. upsert_ref r h n (NumberGroup (r_Type r)) ?d1 = Inr d'"
    if "n = 0 \<or> n = nextNumber ?d1 (r_ProjectID r) (NumberGroup (r_Type r))" for h n
    using that assms(2) by (intro upsert_total [OF wf1]) simp_all
  note up = this
  let ?n = "if currentHash d (r_Form r) = '''' \<and> NumberGroup (r_Type r) \<noteq> ''''
      then nextNumber ?d1 (r_ProjectID r) (NumberGroup (r_Type r)) else 0"
  have "?n = 0 \<or> ?n = nextNumber ?d1 (r_ProjectID r) (NumberGroup (r_Type r))" by simp
  from up [OF this, of "hashUnit H u c"]
  obtain d2 where d2: "upsert_ref r (hashUnit H u c) ?n (NumberGroup (r_Type r)) ?d1 = Inr d2" by (elim exE)
  show ?thesis unfolding putUnitTx_alt Let_def d2 sum.case by auto
qed

theorem put_never_refused_in_project_witness:
  "\<exists>d' kept. putUnitTx tagHash ''now'' sampleDb ''D'' '''' (sampleRef ''p'' ''x'' 1) False = Inr (d', ''#D'', kept)"
proof -
  let ?r = "sampleRef ''p'' ''x'' 1"
  have wf: "wf_db tagHash sampleDb" unfolding sampleDb_def by (rule puts_wf [OF runPuts_puts wf_empty])
  have "case map_of (refs sampleDb) (r_Form ?r) of None \<Rightarrow> True | Some row \<Rightarrow> r_ProjectID (row_ref row) = r_ProjectID ?r"
    by code_simp
  then have p: "\<forall>row. map_of (refs sampleDb) (r_Form ?r) = Some row \<longrightarrow> r_ProjectID (row_ref row) = r_ProjectID ?r"
    by auto
  have h: "hashUnit tagHash ''D'' '''' = ''#D''" by code_simp
  show ?thesis using put_never_refused_in_project [OF wf p, of "''now''" "''D''" "''''" False] unfolding h .
qed

text \<open>Across projects it can: a form that carries a number is refused, whole transaction
  included, when it is put under another project whose group already uses that number.\<close>

theorem cross_project_put_refused:
  "let d = runPuts empty_db [(''A'', sampleRef ''p'' ''x'' 1, False), (''B'', sampleRef ''q'' ''y'' 1, False)]
   in map_option row_number (map_of (refs d) ''core/sto:x:1'') = Some 1
      \<and> map_option row_number (map_of (refs d) ''core/sto:y:1'') = Some 1
      \<and> PutUnit tagHash ''now'' d ''C'' '''' (sampleRef ''q'' ''x'' 1) = Inl (UniqueNumber ''core/sto:x:1'')"
  by code_simp

theorem retry_bounded_witness:
  "retryBusy (\<lambda>k. if k < 2 then Busy ''locked'' else Done k) = (Done (2 :: nat), 3)"
proof -
  let ?op = "\<lambda>k. if k < 2 then Busy ''locked'' else Done (k :: nat)"
  obtain m where m: "snd (retryBusy ?op) = m" "1 \<le> m" "m \<le> 5" "fst (retryBusy ?op) = ?op (m - 1)"
    "list_all (\<lambda>i. is_Busy (?op i)) [0..<m - 1]" "m = 5 \<or> \<not> is_Busy (?op (m - 1))"
    using retry_bounded [of ?op] by blast
  have busy: "is_Busy (?op i) \<longleftrightarrow> i < 2" for i by simp
  have "\<not> 2 < m - 1" using m(5) unfolding list_all_iff busy by auto
  moreover have "\<not> m - 1 < 2" using m(3,6) unfolding busy by auto
  ultimately have "m = 3" by simp
  then show ?thesis using m(1,4) by (simp add: prod_eq_iff)
qed


end
