(* ===== verification/Exchange_Unit.thy ===== *)
theory Exchange_Unit
  imports Author_Identity Naming
begin

text \<open>
  The unit model of the package \<open>exchange\<close> (\<open>model.go\<close>): one exchange unit with its
  identity tuple, state vector, change log, relationships and content reference; the
  canonical identity form and its parser (\<open>deserialize.go\<close>), the charset guard on identity
  components (\<open>load.go\<close>), the entry directory of a unit (\<open>serialize.go\<close>), the package label
  (\<open>discover.go\<close>), and the projection of a unit to the artifact the rule engine evaluates
  (\<open>artifact.go\<close>).  The decoder of JSON contents is the argument \<open>unmarshal\<close>.
\<close>

section \<open>The model\<close>

record Identity =
  id_Namespace :: string
  id_Type :: string
  id_ID :: string
  id_InstanceVersion :: int

record StateVector =
  sv_ContentState :: string
  sv_ExecutionState :: string
  sv_PlanningState :: string
  sv_ContainerState :: string
  sv_ExistenceState :: string
  sv_NoteState :: string

record UnitLogEntry =
  le_Date :: string
  le_Domain :: string
  le_From :: string
  le_To :: string
  le_By :: AuthorIdentity

record Relationship =
  rel_Type :: string
  rel_Target :: string

record Classification =
  cl_Dimension :: string
  cl_DimensionsSecondary :: "string list"
  cl_Domain :: string

record ContentRef =
  cr_Representation :: string
  cr_File :: string

record Unit =
  u_Identity :: Identity
  u_CanonicalIdentityForm :: string
  u_Revision :: int
  u_Author :: AuthorIdentity
  u_Created :: string
  u_Updated :: string
  u_StateVector :: StateVector
  u_ChangeLog :: "UnitLogEntry list"
  u_Relationships :: "Relationship list"
  u_Classification :: Classification
  u_Phase :: string
  u_Provenance :: string
  u_SourcePromptHash :: string
  u_Confidence :: rat
  u_SourceCommitSha :: string
  u_CaptureMeta :: CaptureMeta
  u_Content :: ContentRef
  u_ContentPayload :: string
  u_UnitDir :: string
  u_Digest :: string

definition StructuredJSON :: string where "StructuredJSON = ''eka/structured-json/1''"
definition ContentRepresentation :: string where "ContentRepresentation = ''eka/structured-text/1''"

definition CanonicalForm :: "Identity \<Rightarrow> string" where
  "CanonicalForm i = id_Namespace i @ ''/'' @ id_Type i @ '':'' @ id_ID i @ '':'' @ itoa (id_InstanceVersion i)"

definition UnitDirName :: "Identity \<Rightarrow> string" where
  "UnitDirName i = ''units/'' @ id_Namespace i @ ''/'' @ id_Type i @ ''-'' @ id_ID i @ ''-v'' @ itoa (id_InstanceVersion i)"

definition PackageIdentityLabelVersion :: "string \<Rightarrow> string \<Rightarrow> string \<Rightarrow> string" where
  "PackageIdentityLabelVersion scope ns ver =
     (if ns = '''' then ''rsf-'' @ scope @ ''-'' @ ver else ''rsf-'' @ scope @ ''-'' @ ns @ ''-'' @ ver)"

definition labelNamespace :: "string list \<Rightarrow> string" where
  "labelNamespace nss = (case nss of [] \<Rightarrow> '''' | n # rest \<Rightarrow> fold (\<lambda>n ns. if n < ns then n else ns) rest n)"

definition StateVectorValue :: "Unit \<Rightarrow> string \<Rightarrow> string" where
  "StateVectorValue u domain =
     (let sv = u_StateVector u in
      if domain = DomainContentState then sv_ContentState sv
      else if domain = DomainExecutionState then sv_ExecutionState sv
      else if domain = DomainPlanningState then sv_PlanningState sv
      else if domain = DomainContainerState then sv_ContainerState sv
      else if domain = DomainExistenceState then sv_ExistenceState sv
      else '''')"

section \<open>The charset guard\<close>

fun hasWhitespace :: "string \<Rightarrow> bool" where
  "hasWhitespace [] = False"
| "hasWhitespace [a] = space1 a"
| "hasWhitespace [a, b] = (space1 a \<or> space2 a b \<or> hasWhitespace [b])"
| "hasWhitespace (a # b # c # s) = (space1 a \<or> space2 a b \<or> space3 a b c \<or> hasWhitespace (b # c # s))"

fun has_dotdot :: "string \<Rightarrow> bool" where
  "has_dotdot (a # b # s) = ((a = CHR ''.'' \<and> b = CHR ''.'') \<or> has_dotdot (b # s))"
| "has_dotdot s = False"

datatype content_error = EmptyComponent string string | ComponentCharset string string string | ComponentDots string string string

definition validateIdentityComponent :: "string \<Rightarrow> string \<Rightarrow> string \<Rightarrow> content_error option" where
  "validateIdentityComponent component label artifact =
     (if component = '''' then Some (EmptyComponent label artifact)
      else if component = ''.'' \<or> component = ''..''
        \<or> list_ex (\<lambda>c. c = slash \<or> c = colon \<or> c = CHR 0x5C) component
        \<or> has_dotdot component \<or> hasWhitespace component
        then Some (ComponentCharset label component artifact)
      else if has_prefix ''.'' component \<or> has_suffix ''.'' component
        then Some (ComponentDots label component artifact)
      else None)"

section \<open>The canonical identity form\<close>

datatype form_error = FormReference ref_error | FormIncomplete string | FormNotCanonical string

definition parseCanonicalIdentity :: "string \<Rightarrow> form_error + Identity" where
  "parseCanonicalIdentity form =
     (case parseReference form '''' '''' of
        Inl err \<Rightarrow> Inl (FormReference err)
      | Inr ref \<Rightarrow>
          if ref_Namespace ref = '''' \<or> \<not> ref_HasVersion ref then Inl (FormIncomplete form)
          else
            (let i = \<lparr>id_Namespace = ref_Namespace ref, id_Type = ref_Type ref, id_ID = ref_ID ref,
                      id_InstanceVersion = ref_Version ref\<rparr> in
             if CanonicalForm i \<noteq> form then Inl (FormNotCanonical form) else Inr i))"

text \<open>The repository spelling of a relationship target; a cross-namespace target of a
  higher instance is refused.\<close>

datatype target_error = TargetForm string form_error | CrossNamespaceVersion string int

definition canonicalToRepoReference :: "string \<Rightarrow> string \<Rightarrow> target_error + string" where
  "canonicalToRepoReference form sourceNamespace =
     (case parseCanonicalIdentity form of
        Inl err \<Rightarrow> Inl (TargetForm form err)
      | Inr i \<Rightarrow>
          if id_Namespace i = sourceNamespace then
            (if IsVersionedType (id_Type i) \<or> id_InstanceVersion i > 1
             then Inr (id_Type i @ '':'' @ id_ID i @ '':'' @ itoa (id_InstanceVersion i))
             else Inr (id_Type i @ '':'' @ id_ID i))
          else if id_InstanceVersion i \<noteq> 1 then Inl (CrossNamespaceVersion form (id_InstanceVersion i))
          else Inr (id_Namespace i @ ''/'' @ id_Type i @ '':'' @ id_ID i))"

section \<open>The artifact of a unit\<close>

text \<open>The state map holds the non-empty fields of the vector; the relation map lists, for
  each relationship type of the unit, its targets in order.\<close>

definition stateMap :: "StateVector \<Rightarrow> string gomap" where
  "stateMap sv = filter (\<lambda>(d, v). v \<noteq> '''')
     [(DomainContentState, sv_ContentState sv), (DomainExecutionState, sv_ExecutionState sv),
      (DomainPlanningState, sv_PlanningState sv), (DomainContainerState, sv_ContainerState sv),
      (DomainExistenceState, sv_ExistenceState sv), (DomainNoteState, sv_NoteState sv)]"

definition relationMap :: "Relationship list \<Rightarrow> string list gomap" where
  "relationMap rels = map (\<lambda>t. (t, map rel_Target (filter (\<lambda>r. rel_Type r = t) rels))) (remdups (map rel_Type rels))"

definition logEntryOf :: "UnitLogEntry \<Rightarrow> ChangeLogEntry" where
  "logEntryOf e = \<lparr>Date = le_Date e, LogDomain = le_Domain e, From = le_From e, To = le_To e,
     By = au_Name (le_By e), ByKind = au_Kind (le_By e)\<rparr>"

definition ToArtifact :: "(string \<Rightarrow> gvalue option) \<Rightarrow> Unit \<Rightarrow> Artifact" where
  "ToArtifact unmarshal u =
     emptyArtifact\<lparr>
       RelPath := u_CanonicalIdentityForm u,
       Namespace := id_Namespace (u_Identity u), Type := id_Type (u_Identity u), ID := id_ID (u_Identity u),
       InstanceVersion := id_InstanceVersion (u_Identity u), Revision := u_Revision u,
       Author := au_Name (u_Author u), AuthorKind := au_Kind (u_Author u),
       Created := u_Created u, Updated := u_Updated u,
       States := stateMap (u_StateVector u),
       HasPhaseKey := u_Phase u \<noteq> '''', HasPhase := u_Phase u \<noteq> '''', Phase := u_Phase u,
       HasDimension := cl_Dimension (u_Classification u) \<noteq> '''', Dimension := cl_Dimension (u_Classification u),
       DimensionsSecondary := cl_DimensionsSecondary (u_Classification u),
       DeclaredDomain := cl_Domain (u_Classification u),
       Relations := relationMap (u_Relationships u),
       ChangeLog := map logEntryOf (u_ChangeLog u),
       Provenance := (if u_Provenance u = '''' then ''human'' else u_Provenance u),
       SourcePromptHash := u_SourcePromptHash u,
       Confidence := u_Confidence u, HasConfidence := u_Confidence u \<noteq> 0,
       SourceCommitSha := u_SourceCommitSha u, Capture := u_CaptureMeta u,
       BodyLines := split_on newline (u_ContentPayload u),
       ContentFields := (if cr_Representation (u_Content u) = StructuredJSON
         then (case unmarshal (u_ContentPayload u) of Some (GMap m) \<Rightarrow> Some m | _ \<Rightarrow> None)
         else None)\<rparr>"

text \<open>\<open>stateVectorFrom\<close> of \<open>builder.go\<close>: the vector of an artifact's state map.\<close>

definition stateVectorFrom :: "string gomap \<Rightarrow> StateVector" where
  "stateVectorFrom states =
     \<lparr>sv_ContentState = get_or states DomainContentState '''', sv_ExecutionState = get_or states DomainExecutionState '''',
      sv_PlanningState = get_or states DomainPlanningState '''', sv_ContainerState = get_or states DomainContainerState '''',
      sv_ExistenceState = get_or states DomainExistenceState '''', sv_NoteState = get_or states DomainNoteState ''''\<rparr>"

section \<open>Forms are trimmed\<close>

lemma hasWhitespace_Cons: "hasWhitespace s \<Longrightarrow> hasWhitespace (a # s)"
  by (cases s rule: hasWhitespace.cases) auto

lemma hasWhitespace_append: "hasWhitespace s \<Longrightarrow> hasWhitespace (p @ s)"
  by (induction p) (auto intro: hasWhitespace_Cons)

lemma no_whitespace_tail: "\<not> hasWhitespace (a # s) \<Longrightarrow> \<not> hasWhitespace s"
  using hasWhitespace_Cons by blast

lemma no_whitespace_trim: "\<not> hasWhitespace s \<Longrightarrow> trim_space s = s"
proof -
  assume n: "\<not> hasWhitespace s"
  have "trim_left s = s"
    unfolding trim_left_def using n by (cases s rule: hasWhitespace.cases) auto
  moreover have "trim_right s = s"
  proof -
    have suffix_free: "\<not> hasWhitespace t" if "s = p @ t" for p t
      using n that hasWhitespace_append by blast
    have "trim_front (\<lambda>b a. space2 a b) (\<lambda>c b a. space3 a b c) (rev s) = rev s"
    proof (cases "rev s" rule: hasWhitespace.cases)
      case (2 a) then show ?thesis using suffix_free [of "[]" "[a]"] by (simp add: rev_swap)
    next
      case (3 a b)
      then have "s = [] @ [b, a]" by (simp add: rev_swap)
      then have "\<not> hasWhitespace [b, a]" by (rule suffix_free)
      then show ?thesis using 3 by simp
    next
      case (4 a b c r)
      then have "s = rev r @ [c, b, a]" by (simp add: rev_swap)
      then have "\<not> hasWhitespace [c, b, a]" by (rule suffix_free)
      then show ?thesis using 4 by simp
    qed simp
    then show ?thesis by (simp add: trim_right_def)
  qed
  ultimately show ?thesis by (simp add: trim_space_def)
qed

lemma no_whitespace_join:
  assumes "\<not> hasWhitespace xs" "\<not> hasWhitespace ys" "plain_edge c"
  shows "\<not> hasWhitespace (xs @ c # ys)"
proof -
  have c: "\<not> space1 c" "\<not> space2 a c" "\<not> space2 c a" "\<not> space3 a c b" "\<not> space3 a b c" "\<not> space3 c a b" for a b
    using assms(3) by (auto simp: plain_edge_def space2_def space3_def less_eq_char_def)
  have head: "\<not> hasWhitespace (c # ys)"
    using assms(2) c by (cases ys rule: hasWhitespace.cases) auto
  show ?thesis
    using assms(1)
  proof (induction xs rule: hasWhitespace.induct)
    case (2 a) then show ?case using head c by (cases ys) auto
  next
    case (3 a b) then show ?case using head c by (cases ys) auto
  qed (use head c in auto)
qed

lemma plain_edges [simp]: "plain_edge slash" "plain_edge colon" "plain_edge dash"
  by (simp_all add: plain_edge_def space1_def)

lemma digit_plain: "is_digit c \<Longrightarrow> plain_edge c"
  using of_nat_of_char [of c, where 'a = int]
  by (auto simp: is_digit_def plain_edge_def space1_def)

lemma no_whitespace_plain: "list_all plain_edge s \<Longrightarrow> \<not> hasWhitespace s"
  by (induction s rule: hasWhitespace.induct) (auto simp: plain_edge_def space2_def space3_def)

lemma no_whitespace_itoa: "\<not> hasWhitespace (itoa n)"
  by (rule no_whitespace_plain)
    (use itoa_nat_digits [of n] itoa_nat_digits [of "- n"] in
      \<open>auto simp: itoa_def list_all_iff digit_plain\<close>)

lemma no_whitespace_type: "IsKnownType t \<Longrightarrow> \<not> hasWhitespace t"
  by (auto simp: known_type_cases space1_def space2_def space3_def)

section \<open>The identity round trip\<close>

lemma decimal_nonneg: "list_all is_digit s \<Longrightarrow> 0 \<le> decimal s"
  by (induction s rule: rev_induct) (auto simp: decimal_def digit_value_def is_digit_def)

lemma trim_space_suffix:
  assumes "is_digit b" "trim_space (s @ [b]) \<noteq> []"
  shows "\<exists>p. s @ [b] = p @ trim_space (s @ [b])"
proof -
  obtain p where p: "s @ [b] = p @ trim_left (s @ [b])" using trim_front_suffix unfolding trim_left_def by blast
  have "trim_left (s @ [b]) \<noteq> []" using assms(2) by (auto simp: trim_space_def trim_right_def)
  then obtain t where "trim_left (s @ [b]) = t @ [b]" using p by (metis append_butlast_last_id last_appendR last_snoc)
  then show ?thesis using p plain_edge_right [OF digit_plain [OF assms(1)]] by (auto simp: trim_space_def)
qed

definition identityWellformed :: "Identity \<Rightarrow> bool" where
  "identityWellformed i = (id_Namespace i \<noteq> '''' \<and> slash \<notin> set (id_Namespace i) \<and> IsKnownType (id_Type i)
     \<and> id_ID i \<noteq> '''' \<and> colon \<notin> set (id_ID i) \<and> 0 \<le> id_InstanceVersion i \<and> id_InstanceVersion i \<le> max_int64)"

definition refOf :: "Identity \<Rightarrow> reference" where
  "refOf i = \<lparr>ref_Namespace = id_Namespace i, ref_Type = id_Type i, ref_ID = id_ID i,
     ref_Version = id_InstanceVersion i, ref_HasVersion = True\<rparr>"

lemma CanonicalForm_render: "CanonicalForm i = renderReference (refOf i)"
  by (simp add: CanonicalForm_def renderReference_def refOf_def)

lemma refOf_wellformed: "refWellformed (refOf i) \<longleftrightarrow> identityWellformed i"
  by (auto simp: refWellformed_def identityWellformed_def refOf_def)

lemma parse_form: "identityWellformed i \<Longrightarrow> trim_space (CanonicalForm i) = CanonicalForm i \<Longrightarrow>
    parseReference (CanonicalForm i) ns t = Inr (refOf i)"
  using parse_render [of "refOf i"] by (simp add: CanonicalForm_render refOf_wellformed)

lemma parsed_identity:
  assumes "parseReference f [] [] = Inr r" "ref_Namespace r \<noteq> []" "ref_HasVersion r"
  shows "identityWellformed \<lparr>id_Namespace = ref_Namespace r, id_Type = ref_Type r, id_ID = ref_ID r,
    id_InstanceVersion = ref_Version r\<rparr>
    \<and> (\<exists>ds. allDigits ds \<and> trim_space f = ref_Namespace r @ slash # ref_Type r @ colon # ref_ID r @ colon # ds)"
proof -
  from assms have "refShape (trim_space f) [] [] r" by (simp add: parseReference_iff)
  with assms(2,3) obtain ds where ds: "slash \<notin> set (ref_Namespace r)" "allDigits ds" "decimal ds \<le> max_int64"
    "ref_Version r = decimal ds" "trim_space f = ref_Namespace r @ slash # ref_Type r @ colon # ref_ID r @ colon # ds"
    "ref_ID r \<noteq> []" "colon \<notin> set (ref_ID r)" "IsKnownType (ref_Type r)"
    by (auto simp: refShape_def refBody_def)
  moreover have "0 \<le> decimal ds" using ds(2) decimal_nonneg by (simp add: allDigits_def)
  ultimately show ?thesis using assms(2) by (auto simp: identityWellformed_def)
qed

lemma allDigits_itoa: "0 \<le> n \<Longrightarrow> allDigits (itoa n)"
  by (simp add: itoa_def allDigits_def itoa_nat_digits)

lemma allDigits_no_slash: "allDigits ds \<Longrightarrow> slash \<notin> set ds"
  by (auto simp: allDigits_def dest: no_separator_in_digits)

lemma trimmed_form:
  assumes "identityWellformed i" "allDigits ds"
    and "trim_space (CanonicalForm i) = id_Namespace i @ slash # id_Type i @ colon # id_ID i @ colon # ds"
  shows "trim_space (CanonicalForm i) = CanonicalForm i"
proof -
  let ?v = "itoa (id_InstanceVersion i)"
  have v: "allDigits ?v" using assms(1) by (simp add: identityWellformed_def allDigits_itoa)
  then obtain t b where tb: "?v = t @ [b]" "is_digit b" by (cases ?v rule: rev_cases) (auto simp: allDigits_def)
  have form: "CanonicalForm i = (id_Namespace i @ slash # id_Type i @ colon # id_ID i @ colon # t) @ [b]"
    by (simp add: CanonicalForm_def tb)
  have "trim_space (CanonicalForm i) \<noteq> []" using assms(3) by simp
  then obtain p where p: "CanonicalForm i = p @ trim_space (CanonicalForm i)"
    using trim_space_suffix [OF tb(2)] unfolding form by blast
  have "count_list (CanonicalForm i) slash = count_list (trim_space (CanonicalForm i)) slash"
    using allDigits_no_slash [OF v] allDigits_no_slash [OF assms(2)]
    unfolding assms(3) by (simp add: CanonicalForm_def)
  then have "count_list p slash = 0" using p by (metis add_cancel_left_left count_list_append)
  then have ps: "slash \<notin> set p" by (simp add: count_list_0_iff)
  have "cut_first slash (CanonicalForm i) = Some (id_Namespace i, id_Type i @ '':'' @ id_ID i @ '':'' @ ?v)"
    using assms(1) by (simp add: CanonicalForm_def identityWellformed_def)
  moreover have "cut_first slash (p @ trim_space (CanonicalForm i)) = Some (p @ id_Namespace i, id_Type i @ colon # id_ID i @ colon # ds)"
    using assms(1) ps cut_first_append [of slash "p @ id_Namespace i"] by (simp add: assms(3) identityWellformed_def)
  ultimately have "p = []" using p by (metis append_self_conv2 option.inject prod.inject)
  then show ?thesis using p by simp
qed

lemma parseCanonicalIdentity_iff:
  "parseCanonicalIdentity f = Inr i \<longleftrightarrow> f = CanonicalForm i \<and> identityWellformed i \<and> trim_space f = f"
proof
  assume "parseCanonicalIdentity f = Inr i"
  then obtain r where r: "parseReference f [] [] = Inr r" "ref_Namespace r \<noteq> []" "ref_HasVersion r" "CanonicalForm i = f"
    "i = \<lparr>id_Namespace = ref_Namespace r, id_Type = ref_Type r, id_ID = ref_ID r, id_InstanceVersion = ref_Version r\<rparr>"
    by (auto simp: parseCanonicalIdentity_def Let_def split: sum.splits if_splits)
  from parsed_identity [OF r(1-3)] r(4,5) trimmed_form [of i]
  show "f = CanonicalForm i \<and> identityWellformed i \<and> trim_space f = f" by fastforce
next
  assume a: "f = CanonicalForm i \<and> identityWellformed i \<and> trim_space f = f"
  then have "parseReference f [] [] = Inr (refOf i)" using parse_form by blast
  then show "parseCanonicalIdentity f = Inr i" using a
    by (cases i) (simp add: parseCanonicalIdentity_def refOf_def identityWellformed_def)
qed

lemma validComponent_no_whitespace: "validateIdentityComponent s l a = None \<Longrightarrow> s \<noteq> '''' \<and> slash \<notin> set s \<and> colon \<notin> set s \<and> \<not> hasWhitespace s"
  by (auto simp: validateIdentityComponent_def list_ex_iff split: if_splits)

lemma form_trimmed:
  assumes "\<not> hasWhitespace (id_Namespace i)" "\<not> hasWhitespace (id_ID i)" "IsKnownType (id_Type i)"
  shows "trim_space (CanonicalForm i) = CanonicalForm i"
  unfolding CanonicalForm_def using assms no_whitespace_type no_whitespace_itoa
  by (intro no_whitespace_trim) (simp add: no_whitespace_join)

text \<open>The canonical identity form is a strict code for identities: the parser accepts
  exactly the trimmed canonical forms of well-formed identities and returns the identity;
  every identity whose components pass the charset guard, of a known type and with a
  non-negative 64-bit version, is one of them.\<close>

theorem identity_form_roundtrip:
  "(parseCanonicalIdentity f = Inr i \<longleftrightarrow> f = CanonicalForm i \<and> identityWellformed i \<and> trim_space f = f)
   \<and> (validateIdentityComponent (id_Namespace j) ''namespace'' g = None \<and> validateIdentityComponent (id_ID j) ''id'' g = None
       \<and> IsKnownType (id_Type j) \<and> 0 \<le> id_InstanceVersion j \<and> id_InstanceVersion j \<le> max_int64
      \<longrightarrow> parseCanonicalIdentity (CanonicalForm j) = Inr j)"
  using form_trimmed [of j] by (auto simp: parseCanonicalIdentity_iff identityWellformed_def dest!: validComponent_no_whitespace)

theorem identity_form_roundtrip_witness:
  "parseCanonicalIdentity ''core/adr:x:2'' =
     Inr \<lparr>id_Namespace = ''core'', id_Type = ''adr'', id_ID = ''x'', id_InstanceVersion = 2\<rparr>"
proof -
  let ?j = "\<lparr>id_Namespace = ''core'', id_Type = ''adr'', id_ID = ''x'', id_InstanceVersion = 2\<rparr>"
  have "validateIdentityComponent ''core'' ''namespace'' [] = None" "validateIdentityComponent ''x'' ''id'' [] = None"
    "IsKnownType ''adr''" "(2::int) \<le> max_int64" "CanonicalForm ?j = ''core/adr:x:2''" by code_simp+
  then show ?thesis using identity_form_roundtrip [of "[]" ?j ?j "[]"] by simp
qed

section \<open>The repository spelling of a target\<close>

lemma parse_unqualified:
  assumes "refBody body t r" "slash \<notin> set body" "ref_Namespace r = ns" "trim_space body = body"
  shows "parseReference body ns t = Inr r"
  using assms by (simp add: parseReference_iff refShape_def)

lemma parse_qualified:
  assumes "refBody body t r" "slash \<notin> set (ref_Namespace r)" "ref_Namespace r \<noteq> []"
    "trim_space (ref_Namespace r @ slash # body) = ref_Namespace r @ slash # body"
  shows "parseReference (ref_Namespace r @ slash # body) ns t = Inr r"
  using assms by (auto simp: parseReference_iff refShape_def)

definition lineRef :: "Identity \<Rightarrow> reference" where
  "lineRef i = (refOf i)\<lparr>ref_Version := 0, ref_HasVersion := False\<rparr>"

lemma body_versioned: "identityWellformed i \<Longrightarrow> refBody (id_Type i @ colon # id_ID i @ colon # itoa (id_InstanceVersion i)) t (refOf i)"
  by (auto simp: refBody_def identityWellformed_def refOf_def itoa_def allDigits_def itoa_nat_digits
      intro!: exI [of _ "itoa_nat (id_InstanceVersion i)"])

lemma body_line: "identityWellformed i \<Longrightarrow> refBody (id_Type i @ colon # id_ID i) t (lineRef i)"
  by (auto simp: refBody_def identityWellformed_def refOf_def lineRef_def)

lemma itoa_no_slash: "0 \<le> n \<Longrightarrow> slash \<notin> set (itoa n)"
  using allDigits_no_slash allDigits_itoa by blast

text \<open>A relationship target is imported under a repository spelling that names the same
  identity: parsed in the importing unit's namespace it gives the target's namespace, type
  and id, with its version or, for instance 0 or 1 of an unversioned type or a first instance
  abroad, as a line reference.  The canonical form itself is an accepted reference too, so
  the refusal of higher instances across namespaces is not forced by the grammar.\<close>

theorem repo_reference_denotes:
  assumes "canonicalToRepoReference f ns = Inr s" and "parseCanonicalIdentity f = Inr i"
    and "slash \<notin> set (id_ID i)" and "\<not> hasWhitespace (id_Namespace i)" and "\<not> hasWhitespace (id_ID i)"
  shows "parseReference s ns t = Inr (if s = id_Type i @ '':'' @ id_ID i \<or> id_Namespace i \<noteq> ns then lineRef i else refOf i)
    \<and> (id_Namespace i \<noteq> ns \<longrightarrow> id_InstanceVersion i = 1) \<and> parseReference f ns t = Inr (refOf i)"
proof -
  have f: "f = CanonicalForm i" "identityWellformed i" "trim_space f = f"
    using parseCanonicalIdentity_iff [THEN iffD1, OF assms(2)] by blast+
  note w = f(2) [unfolded identityWellformed_def]
  have ty: "slash \<notin> set (id_Type i)" "\<not> hasWhitespace (id_Type i)" using w known_type_chars no_whitespace_type by blast+
  let ?line = "id_Type i @ colon # id_ID i" and ?full = "id_Type i @ colon # id_ID i @ colon # itoa (id_InstanceVersion i)"
  have trims: "trim_space ?line = ?line" "trim_space ?full = ?full"
    "trim_space (id_Namespace i @ slash # ?line) = id_Namespace i @ slash # ?line"
    using ty(2) assms(4,5) no_whitespace_itoa by (simp_all add: no_whitespace_trim no_whitespace_join)
  have no_slash: "slash \<notin> set ?line" "slash \<notin> set ?full" using ty(1) assms(3) w itoa_no_slash by auto
  have canonical: "parseReference f ns t = Inr (refOf i)" using parse_form [OF f(2)] f(1,3) by simp
  have full_line: "?full \<noteq> ?line" by simp
  consider "id_Namespace i = ns" "s = ?full" | "id_Namespace i = ns" "s = ?line"
    | "id_Namespace i \<noteq> ns" "id_InstanceVersion i = 1" "s = id_Namespace i @ slash # ?line"
    using assms(1,2) by (auto simp: canonicalToRepoReference_def split: if_splits)
  then show ?thesis
  proof cases
    case 1
    have "parseReference s ns t = Inr (refOf i)"
      unfolding 1(2) by (rule parse_unqualified [OF body_versioned [OF f(2)] no_slash(2) _ trims(2)]) (simp add: refOf_def 1(1))
    then show ?thesis using 1 canonical full_line by simp
  next
    case 2
    have "parseReference s ns t = Inr (lineRef i)"
      unfolding 2(2) by (rule parse_unqualified [OF body_line [OF f(2)] no_slash(1) _ trims(1)]) (simp add: lineRef_def refOf_def 2(1))
    then show ?thesis using 2 canonical by simp
  next
    case 3
    have "parseReference (ref_Namespace (lineRef i) @ slash # ?line) ns t = Inr (lineRef i)"
      by (rule parse_qualified [OF body_line [OF f(2)]]) (use w trims in \<open>auto simp: lineRef_def refOf_def\<close>)
    then show ?thesis using 3 canonical by (simp add: lineRef_def refOf_def)
  qed
qed

theorem repo_reference_denotes_witness:
  "parseReference ''adr:x:2'' ''core'' ''tkt'' = Inr \<lparr>ref_Namespace = ''core'', ref_Type = ''adr'', ref_ID = ''x'',
     ref_Version = 2, ref_HasVersion = True\<rparr>"
proof -
  let ?i = "\<lparr>id_Namespace = ''core'', id_Type = ''adr'', id_ID = ''x'', id_InstanceVersion = 2\<rparr>"
  have "canonicalToRepoReference ''core/adr:x:2'' ''core'' = Inr ''adr:x:2''" "parseCanonicalIdentity ''core/adr:x:2'' = Inr ?i"
    "\<not> hasWhitespace ''core''" "\<not> hasWhitespace ''x''" by code_simp+
  then show ?thesis using repo_reference_denotes [of "''core/adr:x:2''" "''core''" "''adr:x:2''" ?i "''tkt''"]
    by (simp add: refOf_def)
qed

section \<open>The unit of an artifact\<close>

definition IdentityForm :: "Artifact \<Rightarrow> string" where
  "IdentityForm a = Namespace a @ ''/'' @ Type a @ '':'' @ ID a @ '':'' @ itoa (InstanceVersion a)"

definition relationPairs :: "(reference \<Rightarrow> Artifact option) \<Rightarrow> Artifact \<Rightarrow> (string \<times> string) list" where
  "relationPairs resolveTarget a = concat (map (\<lambda>(field, raws). List.map_filter (\<lambda>raw.
     (case parseReference raw (Namespace a) (Type a) of
        Inl err \<Rightarrow> None
      | Inr ref \<Rightarrow> map_option (\<lambda>target. (field, IdentityForm target)) (resolveTarget ref))) raws) (Relations a))"

definition unitLogOf :: "ChangeLogEntry \<Rightarrow> UnitLogEntry" where
  "unitLogOf e = \<lparr>le_Date = Date e, le_Domain = LogDomain e, le_From = From e, le_To = To e,
     le_By = \<lparr>au_Kind = ByKind e, au_Name = By e\<rparr>\<rparr>"

text \<open>\<open>toUnit\<close> of \<open>builder.go\<close>: \<open>content\<close> is the compiled payload of the loaded artifact and
  \<open>resolveTarget\<close> the repository index.\<close>

definition toUnit :: "(reference \<Rightarrow> Artifact option) \<Rightarrow> string \<Rightarrow> Artifact \<Rightarrow> Unit" where
  "toUnit resolveTarget content a =
     (let i = \<lparr>id_Namespace = Namespace a, id_Type = Type a, id_ID = ID a, id_InstanceVersion = InstanceVersion a\<rparr> in
      \<lparr>u_Identity = i, u_CanonicalIdentityForm = CanonicalForm i, u_Revision = Revision a,
       u_Author = \<lparr>au_Kind = AuthorKind a, au_Name = Author a\<rparr>, u_Created = Created a, u_Updated = Updated a,
       u_StateVector = stateVectorFrom (States a),
       u_ChangeLog = map unitLogOf (ChangeLog a),
       u_Relationships = map (\<lambda>(t, target). \<lparr>rel_Type = t, rel_Target = target\<rparr>) (sort (remdups (relationPairs resolveTarget a))),
       u_Classification = \<lparr>cl_Dimension = (if HasDimension a then Dimension a else ''''),
         cl_DimensionsSecondary = DimensionsSecondary a,
         cl_Domain = (case DomainForToken (Type a) of Some d \<Rightarrow> domain_string d | None \<Rightarrow> '''')\<rparr>,
       u_Phase = Phase a, u_Provenance = '''', u_SourcePromptHash = '''', u_Confidence = 0, u_SourceCommitSha = '''',
       u_CaptureMeta = \<lparr>Classifier = '''', DedupeKey = ''''\<rparr>,
       u_Content = \<lparr>cr_Representation = StructuredJSON, cr_File = ''content''\<rparr>,
       u_ContentPayload = content, u_UnitDir = '''', u_Digest = ''''\<rparr>)"

lemma six_domains: "stateFields = [DomainContentState, DomainExecutionState, DomainPlanningState,
    DomainContainerState, DomainExistenceState, DomainNoteState]"
  by (simp add: stateFields_def)

lemma get_or_absent: "d \<notin> fst ` set xs \<Longrightarrow> get_or xs d v = v"
  by (simp add: get_or_def map_of_eq_None_iff [THEN iffD2])

lemma get_or_filter:
  "distinct (map fst xs) \<Longrightarrow> get_or (filter (\<lambda>(d, v). v \<noteq> []) xs) d [] = get_or xs d []"
proof (induction xs)
  case (Cons x xs)
  obtain k v where "x = (k, v)" by (cases x)
  then show ?case using Cons by (auto simp: get_or_absent)
qed simp

lemma stateMap_value:
  "get_or (stateMap (stateVectorFrom states)) d '''' = (if d \<in> set stateFields then get_or states d '''' else '''')"
  unfolding stateMap_def stateVectorFrom_def StateVector.select_convs
  by (subst get_or_filter) (simp_all add: six_domains domain_names)

definition plainArtifact :: "Artifact \<Rightarrow> bool" where
  "plainArtifact a = (list_all (\<lambda>(d, v). List.member stateFields d \<and> v \<noteq> '''') (States a)
     \<and> (HasPhase a = (Phase a \<noteq> '''')) \<and> (HasDimension a = (Dimension a \<noteq> '''')))"

lemma logEntry_inverse [simp]: "logEntryOf (unitLogOf e) = e"
  by (simp add: logEntryOf_def unitLogOf_def)

lemma logEntries_inverse [simp]: "map (logEntryOf \<circ> unitLogOf) xs = xs"
  by (simp add: map_idI)

text \<open>Exporting an artifact as a unit and reading the unit back as an artifact preserves
  identity, revision, metadata, every state value, phase, dimensions and the change log; the
  capture fields do not survive: provenance comes back as human, confidence, prompt hash,
  commit and capture metadata as absent, whatever the artifact declared.\<close>

theorem unit_projection_roundtrip:
  fixes a :: Artifact and unmarshal :: "string \<Rightarrow> gvalue option"
    and resolveTarget :: "reference \<Rightarrow> Artifact option" and content d :: string
  assumes "plainArtifact a"
  defines "b \<equiv> ToArtifact unmarshal (toUnit resolveTarget content a)"
  shows "(Namespace b, Type b, ID b, InstanceVersion b, Revision b) = (Namespace a, Type a, ID a, InstanceVersion a, Revision a)
    \<and> (Author b, AuthorKind b, Created b, Updated b) = (Author a, AuthorKind a, Created a, Updated a)
    \<and> state_of b d = state_of a d \<and> (Phase b, HasPhase b) = (Phase a, HasPhase a)
    \<and> (Dimension b, HasDimension b, DimensionsSecondary b) = (Dimension a, HasDimension a, DimensionsSecondary a)
    \<and> ChangeLog b = ChangeLog a
    \<and> (Provenance b, HasConfidence b, SourcePromptHash b, SourceCommitSha b) = (''human'', False, '''', '''')"
proof -
  have "state_of b d = state_of a d"
  proof (cases "d \<in> set stateFields")
    case False
    then have "d \<notin> fst ` set (States a)" using assms(1) by (auto simp: plainArtifact_def list_all_iff)
    then have "state_of a d = ''''" by (simp add: get_or_def map_of_eq_None_iff [THEN iffD2])
    then show ?thesis using False by (simp add: b_def ToArtifact_def toUnit_def Let_def stateMap_value)
  qed (simp add: b_def ToArtifact_def toUnit_def Let_def stateMap_value)
  then show ?thesis using assms(1) by (simp add: b_def ToArtifact_def toUnit_def Let_def plainArtifact_def)
qed

definition sampleInferred :: Artifact where
  "sampleInferred = emptyArtifact\<lparr>States := [(''content-state'', ''draft'')], Provenance := ''inferred'', HasConfidence := True\<rparr>"

theorem unit_projection_roundtrip_witness:
  "Provenance (ToArtifact (\<lambda>s. None) (toUnit (\<lambda>r. None) ''{}'' sampleInferred)) = ''human''"
proof -
  let ?b = "ToArtifact (\<lambda>s. None) (toUnit (\<lambda>r. None) ''{}'' sampleInferred)"
  have "plainArtifact sampleInferred"
    by (simp add: plainArtifact_def sampleInferred_def emptyArtifact_def six_domains domain_names)
  note rt = unit_projection_roundtrip [OF this, where unmarshal = "\<lambda>s. None" and resolveTarget = "\<lambda>r. None"
      and content = "''{}''" and d = "''x''"]
  have "(Provenance ?b, HasConfidence ?b, SourcePromptHash ?b, SourceCommitSha ?b) = (''human'', False, '''', '''')"
    by (rule rt [THEN conjunct2, THEN conjunct2, THEN conjunct2, THEN conjunct2, THEN conjunct2, THEN conjunct2])
  then show ?thesis by (simp only: prod.inject)
qed

section \<open>Unit directories\<close>

lemma itoa_no_dash: "0 \<le> n \<Longrightarrow> dash \<notin> set (itoa n)"
  using allDigits_itoa [of n] by (auto simp: allDigits_def dest: no_separator_in_digits)

text \<open>Unit directories do not collide: on identities of known types with slash-free
  namespaces and non-negative versions the entry directory determines the identity.\<close>

theorem unit_dir_injective:
  assumes "UnitDirName i = UnitDirName j" and "IsKnownType (id_Type i)" and "IsKnownType (id_Type j)"
    and "slash \<notin> set (id_Namespace i)" and "slash \<notin> set (id_Namespace j)"
    and "0 \<le> id_InstanceVersion i" and "0 \<le> id_InstanceVersion j"
  shows "i = j"
proof -
  have rest: "id_Namespace i @ slash # id_Type i @ dash # id_ID i @ dash # CHR ''v'' # itoa (id_InstanceVersion i)
    = id_Namespace j @ slash # id_Type j @ dash # id_ID j @ dash # CHR ''v'' # itoa (id_InstanceVersion j)"
    using assms(1) by (simp add: UnitDirName_def)
  then have "cut_first slash (id_Namespace i @ slash # id_Type i @ dash # id_ID i @ dash # CHR ''v'' # itoa (id_InstanceVersion i))
    = cut_first slash (id_Namespace j @ slash # id_Type j @ dash # id_ID j @ dash # CHR ''v'' # itoa (id_InstanceVersion j))"
    by simp
  then have 1: "id_Namespace i = id_Namespace j"
    "id_Type i @ dash # id_ID i @ dash # CHR ''v'' # itoa (id_InstanceVersion i)
     = id_Type j @ dash # id_ID j @ dash # CHR ''v'' # itoa (id_InstanceVersion j)"
    using assms(4,5) by simp_all
  from 1(2) have "cut_first dash (id_Type i @ dash # id_ID i @ dash # CHR ''v'' # itoa (id_InstanceVersion i))
    = cut_first dash (id_Type j @ dash # id_ID j @ dash # CHR ''v'' # itoa (id_InstanceVersion j))" by simp
  then have 2: "id_Type i = id_Type j"
    "id_ID i @ dash # CHR ''v'' # itoa (id_InstanceVersion i) = id_ID j @ dash # CHR ''v'' # itoa (id_InstanceVersion j)"
    using known_type_chars(5) [OF assms(2)] known_type_chars(5) [OF assms(3)] by simp_all
  from 2(2) have "cut_last dash (id_ID i @ dash # CHR ''v'' # itoa (id_InstanceVersion i))
    = cut_last dash (id_ID j @ dash # CHR ''v'' # itoa (id_InstanceVersion j))" by simp
  then have "id_ID i = id_ID j" "itoa (id_InstanceVersion i) = itoa (id_InstanceVersion j)"
    using itoa_no_dash [OF assms(6)] itoa_no_dash [OF assms(7)] by simp_all
  then show ?thesis using 1 2 by simp
qed

theorem unit_dir_injective_witness:
  "UnitDirName \<lparr>id_Namespace = ''core'', id_Type = ''adr'', id_ID = ''x-v1'', id_InstanceVersion = 2\<rparr>
   \<noteq> UnitDirName \<lparr>id_Namespace = ''core'', id_Type = ''adr'', id_ID = ''x'', id_InstanceVersion = 12\<rparr>"
proof
  assume "UnitDirName \<lparr>id_Namespace = ''core'', id_Type = ''adr'', id_ID = ''x-v1'', id_InstanceVersion = 2\<rparr>
    = UnitDirName \<lparr>id_Namespace = ''core'', id_Type = ''adr'', id_ID = ''x'', id_InstanceVersion = 12\<rparr>"
  from unit_dir_injective [OF this] show False by (simp add: known_type_cases)
qed

end
