(* ===== verification/Store_Units.thy ===== *)
theory Store_Units
  imports Store_Lineage Exchange_Unit
begin

text \<open>
  The unit projection of the store (\<open>units.go\<close>): references resolved to the units their
  payloads decode to, and what a put does to it.  The strict JSON decoder of a unit file
  (with its legacy fallback) is the argument \<open>dec\<close>; \<open>None\<close> stands for an error, which every
  read that meets it returns.
\<close>

section \<open>Reading units\<close>

definition DecodeUnit :: "(string \<Rightarrow> Unit option) \<Rightarrow> string \<Rightarrow> string \<Rightarrow> Unit option" where
  "DecodeUnit dec unitJSON content = map_option (\<lambda>u. u\<lparr>u_ContentPayload := content\<rparr>) (dec unitJSON)"

definition decodeUnit :: "(string \<Rightarrow> Unit option) \<Rightarrow> db \<Rightarrow> string \<Rightarrow> string \<Rightarrow> Unit option" where
  "decodeUnit dec d form hash = (case Payload d hash of
       None \<Rightarrow> None
     | Some (unitJSON, content) \<Rightarrow>
         (case DecodeUnit dec unitJSON content of
            None \<Rightarrow> None
          | Some u \<Rightarrow> if CanonicalForm (u_Identity u) \<noteq> form then None else Some (u\<lparr>u_Digest := hash\<rparr>)))"

definition rowUnit :: "(string \<Rightarrow> Unit option) \<Rightarrow> db \<Rightarrow> string \<times> ref_row \<Rightarrow> Unit option" where
  "rowUnit dec d p = (case p of (form, row) \<Rightarrow> decodeUnit dec d form (r_ObjectHash (row_ref row)))"

definition unitsByQuery :: "(string \<Rightarrow> Unit option) \<Rightarrow> db \<Rightarrow> (Ref \<Rightarrow> bool) \<Rightarrow> Unit list option" where
  "unitsByQuery dec d cond =
     those (map (rowUnit dec d) (sort_key fst (filter (\<lambda>(form, row). cond (row_ref row)) (refs d))))"

definition Units :: "(string \<Rightarrow> Unit option) \<Rightarrow> db \<Rightarrow> string \<Rightarrow> string \<Rightarrow> Unit list option" where
  "Units dec d projectID sourceRepo = unitsByQuery dec d (\<lambda>r. r_ProjectID r = projectID \<and> r_SourceRepo r = sourceRepo)"

definition UnitsByProject :: "(string \<Rightarrow> Unit option) \<Rightarrow> db \<Rightarrow> string \<Rightarrow> Unit list option" where
  "UnitsByProject dec d projectID = unitsByQuery dec d (\<lambda>r. r_ProjectID r = projectID)"

definition UnitsByLine :: "(string \<Rightarrow> Unit option) \<Rightarrow> db \<Rightarrow> string \<Rightarrow> string \<Rightarrow> string \<Rightarrow> Unit list option" where
  "UnitsByLine dec d ns t i = unitsByQuery dec d (onLine ns t i)"

text \<open>\<open>Unit\<close>: an error, no such form, or the unit.\<close>

definition UnitAt :: "(string \<Rightarrow> Unit option) \<Rightarrow> db \<Rightarrow> string \<Rightarrow> Unit option option" where
  "UnitAt dec d form = (case Ref_of d form of
       None \<Rightarrow> Some None
     | Some r \<Rightarrow> (case decodeUnit dec d (r_Form r) (r_ObjectHash r) of None \<Rightarrow> None | Some u \<Rightarrow> Some (Some u)))"

section \<open>Lines\<close>

definition unitLine :: "Unit \<Rightarrow> string" where
  "unitLine u = id_Namespace (u_Identity u) @ ''/'' @ id_Type (u_Identity u) @ '':'' @ id_ID (u_Identity u)"

text \<open>The first unit of the greatest instance version.\<close>

fun highestFrom :: "Unit option \<Rightarrow> Unit list \<Rightarrow> Unit option" where
  "highestFrom cur [] = cur"
| "highestFrom cur (u # us) = highestFrom (case cur of
       None \<Rightarrow> Some u
     | Some c \<Rightarrow> if id_InstanceVersion (u_Identity u) > id_InstanceVersion (u_Identity c) then Some u else cur) us"

definition highest :: "Unit list \<Rightarrow> Unit option" where
  "highest us = highestFrom None us"

definition lineUnit :: "Unit list \<Rightarrow> string \<Rightarrow> Unit option" where
  "lineUnit us line = highest (filter (\<lambda>u. unitLine u = line) us)"

definition lines :: "Unit list \<Rightarrow> string list" where
  "lines us = remdups (map unitLine us)"

section \<open>Lemmas\<close>

lemma those_Some: "those xs = Some ys \<longleftrightarrow> xs = map Some ys"
  by (induction xs arbitrary: ys) (auto split: option.splits)

lemma those_None: "those xs = None \<longleftrightarrow> None \<in> set xs"
  by (induction xs) (auto split: option.splits)

lemma highestFrom_spec:
  "highestFrom cur us = Some v \<Longrightarrow>
     (v \<in> set us \<or> cur = Some v)
     \<and> (\<forall>u \<in> set us. id_InstanceVersion (u_Identity u) \<le> id_InstanceVersion (u_Identity v))
     \<and> (\<forall>c. cur = Some c \<longrightarrow> id_InstanceVersion (u_Identity c) \<le> id_InstanceVersion (u_Identity v))"
proof (induction us arbitrary: cur)
  case (Cons u us)
  from Cons.IH [OF Cons.prems [unfolded highestFrom.simps]] show ?case
    by (auto split: option.splits if_splits)
qed simp

lemma highestFrom_None: "highestFrom cur us = None \<longleftrightarrow> cur = None \<and> us = []"
  by (induction us arbitrary: cur) (auto split: option.splits)

lemma highest_Some:
  assumes "highest us = Some v"
  shows "v \<in> set us" and "u \<in> set us \<Longrightarrow> id_InstanceVersion (u_Identity u) \<le> id_InstanceVersion (u_Identity v)"
  using highestFrom_spec [of None us v] assms by (auto simp: highest_def)

lemma highest_None [simp]: "highest us = None \<longleftrightarrow> us = []"
  by (simp add: highest_def highestFrom_None)

lemma lineUnit_Some:
  assumes "lineUnit us line = Some v"
  shows "v \<in> set us" and "unitLine v = line"
  using highest_Some(1) [OF assms [unfolded lineUnit_def]] by auto

lemma unitsByQuery_mem:
  assumes "unitsByQuery dec d cond = Some us"
  shows "u \<in> set us \<longleftrightarrow> (\<exists>form row. (form, row) \<in> set (refs d) \<and> cond (row_ref row) \<and> rowUnit dec d (form, row) = Some u)"
proof -
  have m: "map (rowUnit dec d) (sort_key fst (filter (\<lambda>(form, row). cond (row_ref row)) (refs d))) = map Some us"
    using assms by (simp add: unitsByQuery_def those_Some)
  then have "set (map (rowUnit dec d) (sort_key fst (filter (\<lambda>(form, row). cond (row_ref row)) (refs d)))) = set (map Some us)"
    by simp
  then have "Some ` set us = rowUnit dec d ` {p \<in> set (refs d). case p of (form, row) \<Rightarrow> cond (row_ref row)}" by simp
  then have "Some u \<in> Some ` set us \<longleftrightarrow> Some u \<in> rowUnit dec d ` {p \<in> set (refs d). case p of (form, row) \<Rightarrow> cond (row_ref row)}" by simp
  then show ?thesis by (auto simp: image_iff) (metis)+
qed

end
