(* ===== verification/Store_Integrity.thy ===== *)
theory Store_Integrity
  imports Store_Units
begin

text \<open>
  The integrity scan of \<open>store/integrity.go\<close> and what it decides: its report is empty
  exactly when every stored value agrees with the value derived from the stored bytes,
  and a store written by puts whose index columns come from the unit they store is
  always clean.  The digest and the unit decoder are arguments.
\<close>

section \<open>The scan\<close>

datatype mismatch =
    NamespaceDiffers string string
  | TypeDiffers string string
  | IDDiffers string string
  | VersionDiffers int int
  | RevisionDiffers int int
  | DimensionDiffers string string
  | DomainDiffers string string
  | PhaseDiffers string string
  | FormDiffers string string

datatype violation_detail =
    Recomputed string
  | Undecodable
  | NoPayload string
  | IndexMismatch mismatch
  | NoProject string string

record IntegrityViolation =
  iv_Kind :: string
  iv_Subject :: string
  iv_Detail :: violation_detail

record IntegrityReport =
  ir_PayloadsChecked :: nat
  ir_RefsChecked :: nat
  ir_AttachmentsChecked :: nat
  ir_OrphanPayloads :: nat
  ir_Violations :: "IntegrityViolation list"

text \<open>The tables the scan reads beside payloads and references.\<close>

record side_tables =
  attachments :: "(string \<times> string \<times> string) list"
  repos :: "(string \<times> string) list"
  projects :: "string list"

definition deriveRefMismatch :: "Ref \<Rightarrow> Unit \<Rightarrow> mismatch option" where
  "deriveRefMismatch r u =
     (let i = u_Identity u; c = u_Classification u in
      if r_Namespace r \<noteq> id_Namespace i then Some (NamespaceDiffers (r_Namespace r) (id_Namespace i))
      else if r_Type r \<noteq> id_Type i then Some (TypeDiffers (r_Type r) (id_Type i))
      else if r_ID r \<noteq> id_ID i then Some (IDDiffers (r_ID r) (id_ID i))
      else if r_InstanceVersion r \<noteq> id_InstanceVersion i then Some (VersionDiffers (r_InstanceVersion r) (id_InstanceVersion i))
      else if r_Revision r \<noteq> u_Revision u then Some (RevisionDiffers (r_Revision r) (u_Revision u))
      else if r_Dimension r \<noteq> cl_Dimension c then Some (DimensionDiffers (r_Dimension r) (cl_Dimension c))
      else if r_Domain r \<noteq> cl_Domain c then Some (DomainDiffers (r_Domain r) (cl_Domain c))
      else if r_Phase r \<noteq> u_Phase u then Some (PhaseDiffers (r_Phase r) (u_Phase u))
      else if r_Form r \<noteq> CanonicalForm i then Some (FormDiffers (r_Form r) (CanonicalForm i))
      else None)"

definition payloadViolations ::
  "(string \<Rightarrow> string) \<Rightarrow> (string \<Rightarrow> Unit option) \<Rightarrow> string \<times> string \<times> string \<Rightarrow> IntegrityViolation list" where
  "payloadViolations H dec p = (case p of (hash, unitJSON, content) \<Rightarrow>
     (if hashUnit H unitJSON content \<noteq> hash
      then [\<lparr>iv_Kind = ''payload-hash'', iv_Subject = hash, iv_Detail = Recomputed (hashUnit H unitJSON content)\<rparr>] else []) @
     (if DecodeUnit dec unitJSON content = None
      then [\<lparr>iv_Kind = ''payload-decode'', iv_Subject = hash, iv_Detail = Undecodable\<rparr>] else []))"

definition refViolations :: "(string \<Rightarrow> Unit option) \<Rightarrow> db \<Rightarrow> Ref \<Rightarrow> IntegrityViolation list" where
  "refViolations dec d r = (case Payload d (r_ObjectHash r) of
       None \<Rightarrow> [\<lparr>iv_Kind = ''reference-target'', iv_Subject = r_Form r, iv_Detail = NoPayload (r_ObjectHash r)\<rparr>]
     | Some (unitJSON, content) \<Rightarrow>
         (case DecodeUnit dec unitJSON content of
            None \<Rightarrow> []
          | Some u \<Rightarrow> (case deriveRefMismatch r u of
              None \<Rightarrow> []
            | Some m \<Rightarrow> [\<lparr>iv_Kind = ''reference-index'', iv_Subject = r_Form r, iv_Detail = IndexMismatch m\<rparr>])))"

definition allRefs :: "db \<Rightarrow> Ref list" where
  "allRefs d = map (\<lambda>(f, row). row_ref row) (refs d)"

definition orphanPayloads :: "db \<Rightarrow> nat" where
  "orphanPayloads d = length (filter (\<lambda>(hash, unitJSON, content).
     \<not> list_ex (\<lambda>r. r_ObjectHash r = hash) (allRefs d)) (AllPayloads d))"

definition attachmentViolations :: "(string \<Rightarrow> string) \<Rightarrow> string \<times> string \<times> string \<Rightarrow> IntegrityViolation list" where
  "attachmentViolations H att = (case att of (i, digest, contents) \<Rightarrow>
     if H contents \<noteq> digest
     then [\<lparr>iv_Kind = ''attachment-hash'', iv_Subject = i, iv_Detail = Recomputed (H contents)\<rparr>] else [])"

definition registryViolations :: "string list \<Rightarrow> string \<times> string \<Rightarrow> IntegrityViolation list" where
  "registryViolations known repo = (case repo of (projectID, repo_name) \<Rightarrow>
     if \<not> List.member known projectID
     then [\<lparr>iv_Kind = ''registry'', iv_Subject = projectID @ ''/'' @ repo_name, iv_Detail = NoProject repo_name projectID\<rparr>] else [])"

definition VerifyIntegrity ::
  "(string \<Rightarrow> string) \<Rightarrow> (string \<Rightarrow> Unit option) \<Rightarrow> db \<Rightarrow> side_tables \<Rightarrow> IntegrityReport" where
  "VerifyIntegrity H dec d t =
     \<lparr>ir_PayloadsChecked = length (AllPayloads d), ir_RefsChecked = length (allRefs d),
      ir_AttachmentsChecked = length (attachments t), ir_OrphanPayloads = orphanPayloads d,
      ir_Violations = sort_key (\<lambda>v. (iv_Kind v, iv_Subject v))
        (concat (map (payloadViolations H dec) (AllPayloads d)) @ concat (map (refViolations dec d) (allRefs d)) @
         concat (map (attachmentViolations H) (attachments t)) @
         concat (map (registryViolations (projects t)) (repos t)))\<rparr>"

section \<open>What an empty report means\<close>

definition derivedRef :: "Ref \<Rightarrow> Unit \<Rightarrow> bool" where
  "derivedRef r u = (r_Namespace r = id_Namespace (u_Identity u) \<and> r_Type r = id_Type (u_Identity u)
     \<and> r_ID r = id_ID (u_Identity u) \<and> r_InstanceVersion r = id_InstanceVersion (u_Identity u)
     \<and> r_Revision r = u_Revision u \<and> r_Dimension r = cl_Dimension (u_Classification u)
     \<and> r_Domain r = cl_Domain (u_Classification u) \<and> r_Phase r = u_Phase u \<and> r_Form r = CanonicalForm (u_Identity u))"

lemma deriveRefMismatch_None: "deriveRefMismatch r u = None \<longleftrightarrow> derivedRef r u"
  by (simp add: deriveRefMismatch_def derivedRef_def Let_def)

lemma deriveRefMismatch_content [simp]: "deriveRefMismatch r (u\<lparr>u_ContentPayload := c\<rparr>) = deriveRefMismatch r u"
  by (simp add: deriveRefMismatch_def Let_def cong: if_cong)

lemma AllPayloads_set: "set (AllPayloads d) = (\<lambda>(h, p). (h, p_unit p, p_content p)) ` set (payloads d)"
  by (simp add: AllPayloads_def)

lemma payloadViolations_Nil:
  "payloadViolations H dec (h, u, c) = [] \<longleftrightarrow> hashUnit H u c = h \<and> dec u \<noteq> None"
  by (simp add: payloadViolations_def DecodeUnit_def)

lemma refViolations_Nil:
  "refViolations dec d r = [] \<longleftrightarrow> (\<exists>p. map_of (payloads d) (r_ObjectHash r) = Some p
     \<and> (case dec (p_unit p) of None \<Rightarrow> True | Some u \<Rightarrow> derivedRef r u))"
  by (auto simp: refViolations_def Payload_def DecodeUnit_def deriveRefMismatch_None split: option.splits)
    (metis deriveRefMismatch_None option.distinct(1))+

definition payloadsDerived :: "(string \<Rightarrow> string) \<Rightarrow> (string \<Rightarrow> Unit option) \<Rightarrow> db \<Rightarrow> bool" where
  "payloadsDerived H dec d \<longleftrightarrow> (\<forall>(h, p) \<in> set (payloads d). hashUnit H (p_unit p) (p_content p) = h \<and> dec (p_unit p) \<noteq> None)"

definition refsDerived :: "(string \<Rightarrow> Unit option) \<Rightarrow> db \<Rightarrow> bool" where
  "refsDerived dec d \<longleftrightarrow> (\<forall>(f, row) \<in> set (refs d). \<exists>p u. map_of (payloads d) (r_ObjectHash (row_ref row)) = Some p
     \<and> dec (p_unit p) = Some u \<and> derivedRef (row_ref row) u)"

text \<open>C39: The integrity scan is exact: it reports nothing exactly when every payload hashes to its
  key and decodes, every reference points at a payload its index columns are derived from,
  every attachment hashes to its digest and every repository belongs to a known project.\<close>
theorem integrity_exact:
  "ir_Violations (VerifyIntegrity H dec d t) = [] \<longleftrightarrow> payloadsDerived H dec d \<and> refsDerived dec d
     \<and> list_all (\<lambda>(i, digest, contents). H contents = digest) (attachments t)
     \<and> list_all (\<lambda>(projectID, repo). projectID \<in> set (projects t)) (repos t)"
proof -
  have p: "concat (map (payloadViolations H dec) (AllPayloads d)) = [] \<longleftrightarrow> payloadsDerived H dec d"
    unfolding payloadsDerived_def by (auto simp: AllPayloads_set payloadViolations_Nil case_prod_beta)
  have r: "concat (map (refViolations dec d) (allRefs d)) = [] \<longleftrightarrow> refsDerived dec d" if "payloadsDerived H dec d"
  proof -
    have "dec (p_unit q) \<noteq> None" if "map_of (payloads d) h = Some q" for h q
      using map_of_SomeD [OF that] \<open>payloadsDerived H dec d\<close> by (auto simp: payloadsDerived_def)
    then show ?thesis unfolding refsDerived_def by (fastforce simp: allRefs_def refViolations_Nil split: option.splits)
  qed
  have a: "concat (map (attachmentViolations H) (attachments t)) = [] \<longleftrightarrow> list_all (\<lambda>(i, digest, contents). H contents = digest) (attachments t)"
    by (auto simp: attachmentViolations_def list_all_iff split: if_splits)
  have g: "concat (map (registryViolations (projects t)) (repos t)) = [] \<longleftrightarrow> list_all (\<lambda>(projectID, repo). projectID \<in> set (projects t)) (repos t)"
    by (auto simp: registryViolations_def list_all_iff split: if_splits)
  have e: "sort_key k xs = [] \<longleftrightarrow> xs = []" for k :: "IntegrityViolation \<Rightarrow> string \<times> string" and xs
    by (metis length_sort length_0_conv)
  show ?thesis using p r a g unfolding VerifyIntegrity_def by (auto simp: e)
qed

section \<open>Stores written through the services\<close>

text \<open>The services put a unit with the index columns of the unit its bytes decode to.\<close>

definition derivedPut :: "(string \<Rightarrow> Unit option) \<Rightarrow> string \<Rightarrow> Ref \<Rightarrow> bool" where
  "derivedPut dec unitJSON r = (case dec unitJSON of None \<Rightarrow> False | Some u \<Rightarrow> derivedRef r u)"

text \<open>A history of puts and repoints from the empty store, with the bytes each of them hashed.\<close>

inductive derived_history :: "(string \<Rightarrow> string) \<Rightarrow> (string \<Rightarrow> Unit option) \<Rightarrow> (string \<times> string) list \<Rightarrow> db \<Rightarrow> bool" for H dec where
  history_empty: "derived_history H dec [] empty_db"
| history_put: "derived_history H dec ws d \<Longrightarrow> putUnitTx H now d u c r rep = Inr (d', h, kept) \<Longrightarrow> derivedPut dec u r \<Longrightarrow>
     derived_history H dec ((u, c) # ws) d'"

text \<open>What the scan relies on of the digest, for the puts of one history: no two of the byte
  strings hashed collide, and two puts that hash the same bytes have the same unit part (the
  digest covers unit and content without a boundary between them).\<close>

definition digestTrusted :: "(string \<Rightarrow> string) \<Rightarrow> (string \<times> string) list \<Rightarrow> bool" where
  "digestTrusted H ws = list_all (\<lambda>(u, c). list_all (\<lambda>(u', c').
     (H (u @ c) = H (u' @ c') \<longrightarrow> u @ c = u' @ c') \<and> (u @ c = u' @ c' \<longrightarrow> u = u')) ws) ws"

definition clean_store :: "(string \<Rightarrow> string) \<Rightarrow> (string \<Rightarrow> Unit option) \<Rightarrow> db \<Rightarrow> bool" where
  "clean_store H dec d \<longleftrightarrow> wf_db H d \<and> payloadsDerived H dec d \<and> refsDerived dec d"

lemma derivedRef_hash [simp]: "derivedRef (r\<lparr>r_ObjectHash := h\<rparr>) u = derivedRef r u"
  by (simp add: derivedRef_def)

lemma same_digest_unit:
  "digestTrusted H ws \<Longrightarrow> (u, c) \<in> set ws \<Longrightarrow> (u', c') \<in> set ws \<Longrightarrow> hashUnit H u c = hashUnit H u' c' \<Longrightarrow> u = u'"
  unfolding digestTrusted_def hashUnit_def list_all_iff by fast

lemma digestTrusted_tail: "digestTrusted H (w # ws) \<Longrightarrow> digestTrusted H ws"
  unfolding digestTrusted_def list_all_iff by auto

definition archivedFrom :: "(string \<times> string) list \<Rightarrow> db \<Rightarrow> bool" where
  "archivedFrom ws d = list_all (\<lambda>(h, p). (p_unit p, p_content p) \<in> set ws) (payloads d)"

lemma archived_derived:
  assumes "clean_store H dec d" "dec u \<noteq> None"
  shows "clean_store H dec (archived H now d u c (currentHash d f))"
proof -
  have wf: "wf_db H d" using assms(1) by (simp add: clean_store_def)
  have "wf_db H (archived H now d u c (currentHash d f))"
    using wf_insert_payload [OF wf, of "\<lparr>p_unit = u, p_content = c, p_prev = currentHash d f, p_created = now\<rparr>"]
      currentHash_archived [OF wf] by (simp add: archived_def)
  moreover have "payloadsDerived H dec (archived H now d u c (currentHash d f))"
    using assms by (auto simp: clean_store_def payloadsDerived_def archived_def insert_payload_def)
  moreover have "refsDerived dec (archived H now d u c (currentHash d f))"
    using assms(1) insert_payload_old unfolding clean_store_def refsDerived_def archived_def
    by (simp add: case_prod_beta) (metis insert_payload_old)
  ultimately show ?thesis by (simp add: clean_store_def)
qed

lemma upsert_derived:
  assumes "clean_store H dec d" "upsert_ref r h n g d = Inr d'"
    and "map_of (payloads d) h = Some p" "dec (p_unit p) = Some v" "derivedRef r v"
  shows "clean_store H dec d'"
proof -
  have ps: "payloads d' = payloads d" using assms(2) by (rule upsert_payloads)
  have "h \<in> keys (payloads d)" using assms(3) by (metis map_of_None_keys option.distinct(1))
  then have wf: "wf_db H d'" using wf_upsert [OF assms(2)] assms(1) by (simp add: clean_store_def)
  have "\<exists>p u. map_of (payloads d') (r_ObjectHash (row_ref row)) = Some p \<and> dec (p_unit p) = Some u \<and> derivedRef (row_ref row) u"
    if "(f, row) \<in> set (refs d')" for f row
  proof -
    have "map_of (refs d') f = Some row" using that wf by (simp add: wf_db_def)
    then have "row_ref row = r\<lparr>r_ObjectHash := h\<rparr> \<or> map_of (refs d) f = Some row"
      unfolding upsert_lookup [OF assms(2)] by (auto split: if_splits option.splits)
    then show ?thesis
    proof
      assume "row_ref row = r\<lparr>r_ObjectHash := h\<rparr>"
      then show ?thesis using assms(3,4,5) ps by auto
    next
      assume "map_of (refs d) f = Some row"
      then have "(f, row) \<in> set (refs d)" by (rule map_of_SomeD)
      then show ?thesis using assms(1) unfolding clean_store_def refsDerived_def ps by fastforce
    qed
  qed
  then show ?thesis using wf assms(1) ps by (fastforce simp: clean_store_def payloadsDerived_def refsDerived_def)
qed

lemma archived_from:
  assumes "archivedFrom ws d" "putUnitTx H now d u c r rep = Inr (d', h, kept)"
  shows "archivedFrom ((u, c) # ws) d'" "archivedFrom ((u, c) # ws) (archived H now d u c (currentHash d (r_Form r)))"
proof -
  show a: "archivedFrom ((u, c) # ws) (archived H now d u c (currentHash d (r_Form r)))"
    using assms(1) by (auto simp: archivedFrom_def archived_def insert_payload_def list_all_iff)
  have "payloads d' = payloads (archived H now d u c (currentHash d (r_Form r)))"
    using putUnitTx_cases(3) [OF assms(2)] by (auto dest: upsert_payloads)
  with a show "archivedFrom ((u, c) # ws) d'" by (simp add: archivedFrom_def)
qed

lemma clean_put:
  assumes "clean_store H dec d" "putUnitTx H now d u c r rep = Inr (d', h, kept)" "derivedPut dec u r"
    and "archivedFrom ws d" "digestTrusted H ((u, c) # ws)"
  shows "clean_store H dec d'"
proof -
  let ?d1 = "archived H now d u c (currentHash d (r_Form r))"
  obtain v where v: "dec u = Some v" "derivedRef r v" using assms(3) by (auto simp: derivedPut_def split: option.splits)
  have c1: "clean_store H dec ?d1" using archived_derived [OF assms(1)] v(1) by simp
  have h: "h = hashUnit H u c" using putUnitTx_cases(1) [OF assms(2)] .
  have "h \<in> keys (payloads ?d1)" by (simp add: h archived_def insert_payload_keys)
  then obtain p where p: "map_of (payloads ?d1) h = Some p" by (metis map_of_None_keys not_None_eq)
  have "hashUnit H (p_unit p) (p_content p) = h"
    using c1 map_of_SomeD [OF p] by (auto simp: clean_store_def payloadsDerived_def)
  moreover have "(p_unit p, p_content p) \<in> set ((u, c) # ws)"
    using archived_from(2) [OF assms(4,2)] map_of_SomeD [OF p] unfolding archivedFrom_def list_all_iff by fast
  ultimately have "u = p_unit p" using same_digest_unit [OF assms(5)] h by (metis list.set_intros(1))
  then have w: "dec (p_unit p) = Some v" using v(1) by simp
  from putUnitTx_cases(3) [OF assms(2)] show ?thesis
    using c1 upsert_derived [OF c1 _ p w v(2)] by blast
qed

lemma clean_history: "derived_history H dec ws d \<Longrightarrow> digestTrusted H ws \<Longrightarrow> clean_store H dec d \<and> archivedFrom ws d"
proof (induction rule: derived_history.induct)
  case history_empty
  have "clean_store H dec empty_db" by (simp add: clean_store_def payloadsDerived_def refsDerived_def) (simp add: empty_db_def)
  moreover have "archivedFrom [] empty_db" by (simp add: archivedFrom_def empty_db_def)
  ultimately show ?case ..
next
  case (history_put ws d now u c r rep d' h kept)
  have c: "clean_store H dec d" "archivedFrom ws d" using history_put.IH digestTrusted_tail [OF history_put.prems] by simp_all
  show ?case
    by (intro conjI clean_put [OF c(1) history_put.hyps(2,3) c(2) history_put.prems] archived_from(1) [OF c(2) history_put.hyps(2)])
qed

text \<open>C40: A store that only the services wrote verifies: after any history of puts and repoints
  from the empty store, each with the index columns of the unit it stores, the scan finds no
  violation, provided no two of the byte strings hashed in that history collide and no two
  puts split the same bytes into different units.\<close>
theorem service_store_verifies:
  assumes "derived_history H dec ws d" and "digestTrusted H ws"
  shows "ir_Violations (VerifyIntegrity H dec d \<lparr>attachments = [], repos = [], projects = []\<rparr>) = []"
  using clean_history [OF assms] by (simp add: integrity_exact clean_store_def)

definition sampleStory :: Unit where
  "sampleStory = toUnit (\<lambda>r. None) ''{}'' (emptyArtifact\<lparr>Namespace := ''core'', Type := ''sto'', ID := ''x'',
     InstanceVersion := 1, Revision := 1\<rparr>)"

definition sampleDecoder :: "string \<Rightarrow> Unit option" where
  "sampleDecoder s = (if s = ''A'' \<or> s = ''B'' then Some sampleStory else None)"

text \<open>A digest that keeps the first eight characters only: it is far from injective, and does not
  collide on the two puts of the sample history.\<close>

definition shortHash :: "string \<Rightarrow> string" where
  "shortHash s = ''#'' @ take 8 s"

theorem service_store_verifies_witness:
  "\<exists>d. derived_history shortHash sampleDecoder [(''B'', ''content''), (''A'', '''')] d
     \<and> length (payloads d) = 2 \<and> length (refs d) = 1
     \<and> ir_Violations (VerifyIntegrity shortHash sampleDecoder d \<lparr>attachments = [], repos = [], projects = []\<rparr>) = []"
proof -
  let ?r = "sampleRef ''p'' ''x'' 1"
  let ?put = "\<lambda>d u c. putUnitTx shortHash ''now'' d u c ?r False"
  have r: "derivedPut sampleDecoder ''A'' ?r" "derivedPut sampleDecoder ''B'' ?r" by code_simp+
  have "case ?put empty_db ''A'' '''' of Inl e \<Rightarrow> False | Inr (d1, h, k) \<Rightarrow> (case ?put d1 ''B'' ''content'' of
      Inl e \<Rightarrow> False | Inr (d2, h2, k2) \<Rightarrow> length (payloads d2) = 2 \<and> length (refs d2) = 1)" by code_simp
  then obtain d1 h k d2 h2 k2 where p: "?put empty_db ''A'' '''' = Inr (d1, h, k)" "?put d1 ''B'' ''content'' = Inr (d2, h2, k2)"
    "length (payloads d2) = 2" "length (refs d2) = 1" by (auto split: sum.split_asm prod.split_asm)
  have hist: "derived_history shortHash sampleDecoder [(''B'', ''content''), (''A'', '''')] d2"
    by (rule history_put [OF history_put [OF history_empty p(1) r(1)] p(2) r(2)])
  have t: "digestTrusted shortHash [(''B'', ''content''), (''A'', '''')]" by code_simp
  from service_store_verifies [OF hist t] hist p(3,4) show ?thesis by blast
qed

text \<open>A digest covers the unit bytes followed by the content bytes without a boundary: of two puts
  that split the same bytes differently the second stores nothing, and its reference reads
  the first one's bytes back.\<close>
lemma split_is_ambiguous:
  "Payload (runPuts empty_db [(''A'', sampleRef ''p'' ''x'' 1, False)]) (hashUnit tagHash ''A'' '''') = Some (''A'', '''')
   \<and> hashUnit tagHash ''A'' '''' = hashUnit tagHash '''' ''A''
   \<and> (case putUnitTx tagHash ''now'' (runPuts empty_db [(''A'', sampleRef ''p'' ''x'' 1, False)]) '''' ''A'' (sampleRef ''p'' ''y'' 1) False of
        Inl e \<Rightarrow> None | Inr (d, h, k) \<Rightarrow> (case Ref_of d ''core/sto:y:1'' of None \<Rightarrow> None | Some r \<Rightarrow> Payload d (r_ObjectHash r)))
      = Some (''A'', '''')"
  by (intro conjI) code_simp+

end
