(* ===== verification/Exchange_Package.thy ===== *)
theory Exchange_Package
  imports Exchange_Unit
begin

text \<open>
  Loading a package (\<open>deserialize.go\<close>): the entries of a package (\<open>reader.go\<close>, a map from
  entry names to bytes), the correspondence of manifest entries and unit directories, the
  digests and the self-consistency checks, and phases 1 and 2 of the import.  The strict
  JSON decoders are the fields of \<open>decoders\<close>, the digest is the argument \<open>H\<close>.  Every refusal
  is a \<open>package_error\<close>; a check returns the first one it finds.
\<close>

section \<open>The package model\<close>

record Header =
  h_SerializationVersion :: string
  h_ExchangeFormatVersion :: string
  h_SpecificationVersion :: string
  h_Exporter :: string
  h_PackageIdentityLabel :: string
  h_ExportScope :: string
  h_Namespace :: string

record ManifestUnit =
  mu_CanonicalIdentityForm :: string
  mu_Type :: string
  mu_ID :: string
  mu_Namespace :: string
  mu_InstanceVersion :: int
  mu_Revision :: int
  mu_ContentRepresentation :: string
  mu_ContentFile :: string
  mu_UnitDigest :: string

record Counts =
  ct_Units :: int
  ct_Attachments :: int
  ct_ExternalReferences :: int
  ct_Extensions :: int

record ClosureDeclaration =
  cd_Scope :: string
  cd_Seeds :: "string list"

record Manifest =
  m_Scope :: string
  m_PackageIdentityLabel :: string
  m_SerializationVersion :: string
  m_ExchangeFormatVersion :: string
  m_SpecificationVersion :: string
  m_PackageDigest :: string
  m_Units :: "ManifestUnit list"
  m_Counts :: Counts
  m_Closure :: ClosureDeclaration

record ExternalReference =
  er_Source :: string
  er_Type :: string
  er_Target :: string

record Declarations =
  d_Closure :: ClosureDeclaration
  d_ExternalReferences :: "ExternalReference list"
  d_Extensions :: "unit list"

record Integrity =
  i_PackageDigest :: string
  i_Units :: "(string \<times> string) list"
  i_Attachments :: "(string \<times> string) list"

record Attachment =
  at_ID :: string
  at_Data :: string

record loadedPackage =
  lp_header :: Header
  lp_manifest :: Manifest
  lp_declarations :: Declarations
  lp_integrity :: Integrity
  lp_units :: "Unit list"
  lp_attachments :: "Attachment list"

record decoders =
  decodeHeader :: "string \<Rightarrow> Header option"
  decodeManifest :: "string \<Rightarrow> Manifest option"
  decodeDeclarations :: "string \<Rightarrow> Declarations option"
  decodeIntegrity :: "string \<Rightarrow> Integrity option"
  decodeUnitJSON :: "string \<Rightarrow> Unit option"

definition SpecificationVersion :: string where "SpecificationVersion = ''1.3''"
definition LegacySpecificationVersion :: string where "LegacySpecificationVersion = ''1.1''"
definition ExchangeFormatVersion :: string where "ExchangeFormatVersion = ''1''"
definition SerializationVersion :: string where "SerializationVersion = ''2''"
definition LegacySerializationVersion :: string where "LegacySerializationVersion = ''1.1''"
definition LegacySerializationVersionV1 :: string where "LegacySerializationVersionV1 = ''1''"

datatype package_error =
    UnknownEntry string
  | MissingEntry string
  | BadBlock string
  | MalformedUnitEntry string
  | DuplicateManifestForm string
  | NoUnitDirectory string string
  | DirectoryReferences string nat
  | MissingUnitEntry string
  | MissingContentEntry string
  | IdentityMismatch string string
  | DirectoryMismatch string string
  | CanonicalFormMismatch string string
  | ContentIncomplete string
  | ContentFileLayout string
  | ContentUnsupported string
  | ManifestContentFile string
  | NoPackageDigest
  | PackageDigestMismatch string string
  | ManifestDigestEcho string string
  | ManifestUnitDigest string
  | IntegrityUnitDigest string
  | IntegrityUnitCount nat nat
  | IntegrityAttachmentDigest string
  | IntegrityAttachmentCount nat nat
  | VersionEcho
  | LabelEcho
  | LabelDerivation string
  | CountsEcho
  | ScopeEcho
  | UnsupportedSerialization string
  | UnsupportedFormat string
  | UnsupportedSpecification string
  | NoExporter
  | ExtensionsDeclared nat
  | IdentityCharset content_error
  | InstanceBelowOne string int
  | DuplicateIdentity string
  | EmptyRelationType string
  | RelationTypeUnknown string string
  | RelationTarget string string form_error

section \<open>First errors\<close>

fun firstSome :: "'e option list \<Rightarrow> 'e option" where
  "firstSome [] = None"
| "firstSome (Some e # es) = Some e"
| "firstSome (None # es) = firstSome es"

definition firstError :: "('a \<Rightarrow> 'e option) \<Rightarrow> 'a list \<Rightarrow> 'e option" where
  "firstError check xs = firstSome (map check xs)"

definition require :: "bool \<Rightarrow> 'e \<Rightarrow> 'e option" where
  "require ok e = (if ok then None else Some e)"

lemma firstSome_None [simp]: "firstSome es = None \<longleftrightarrow> (\<forall>e \<in> set es. e = None)"
  by (induction es rule: firstSome.induct) auto

lemma firstError_None [simp]: "firstError check xs = None \<longleftrightarrow> (\<forall>x \<in> set xs. check x = None)"
  by (auto simp: firstError_def)

lemma require_None [simp]: "require ok e = None \<longleftrightarrow> ok"
  by (simp add: require_def)

section \<open>Entries\<close>

definition isKnownEntry :: "string \<Rightarrow> bool" where
  "isKnownEntry nm = (List.member [''header.json'', ''manifest.json'', ''declarations.json'', ''integrity.json''] nm
     \<or> has_prefix ''units/'' nm \<or> has_prefix ''attachments/'' nm)"

definition sortedEntries :: "string gomap \<Rightarrow> string list" where
  "sortedEntries r = sort (map fst r)"

definition splitUnitEntry :: "string \<Rightarrow> (string \<times> string) option" where
  "splitUnitEntry nm = (case cut_last slash (trim_prefix ''units/'' nm) of
       None \<Rightarrow> None
     | Some (dir, kind) \<Rightarrow>
         if kind \<noteq> ''unit.json'' \<and> kind \<noteq> ''content'' then None else Some (''units/'' @ dir, kind))"

definition unitEntries :: "string gomap \<Rightarrow> string list" where
  "unitEntries r = filter (has_prefix ''units/'') (sortedEntries r)"

definition unitDirs :: "string gomap \<Rightarrow> string list" where
  "unitDirs r = remdups (List.map_filter (\<lambda>nm. map_option fst (splitUnitEntry nm)) (unitEntries r))"

definition manifestIdentity :: "ManifestUnit \<Rightarrow> Identity" where
  "manifestIdentity mu = \<lparr>id_Namespace = mu_Namespace mu, id_Type = mu_Type mu, id_ID = mu_ID mu,
     id_InstanceVersion = mu_InstanceVersion mu\<rparr>"

definition manifestDir :: "ManifestUnit \<Rightarrow> string" where
  "manifestDir mu = UnitDirName (manifestIdentity mu)"

text \<open>The manifest scan: forms are distinct and every directory exists.\<close>

fun checkManifestUnits :: "string list \<Rightarrow> string list \<Rightarrow> ManifestUnit list \<Rightarrow> package_error option" where
  "checkManifestUnits dirs seen [] = None"
| "checkManifestUnits dirs seen (mu # mus) =
     (if mu_CanonicalIdentityForm mu \<in> set seen then Some (DuplicateManifestForm (mu_CanonicalIdentityForm mu))
      else if manifestDir mu \<notin> set dirs
        then Some (NoUnitDirectory (mu_CanonicalIdentityForm mu) (manifestDir mu))
      else checkManifestUnits dirs (mu_CanonicalIdentityForm mu # seen) mus)"

definition checkDirCounts :: "string list \<Rightarrow> ManifestUnit list \<Rightarrow> package_error option" where
  "checkDirCounts dirs mus = firstError (\<lambda>dir.
     let n = length (filter (\<lambda>mu. manifestDir mu = dir) mus) in require (n = 1) (DirectoryReferences dir n)) dirs"

definition validateUnitEntryConsistency :: "string \<Rightarrow> ManifestUnit \<Rightarrow> Unit \<Rightarrow> package_error option" where
  "validateUnitEntryConsistency dir mu u = firstSome [
     require (u_Identity u = manifestIdentity mu)
       (IdentityMismatch (CanonicalForm (u_Identity u)) (mu_CanonicalIdentityForm mu)),
     require (dir = UnitDirName (u_Identity u)) (DirectoryMismatch (u_CanonicalIdentityForm u) dir),
     require (u_CanonicalIdentityForm u = CanonicalForm (u_Identity u))
       (CanonicalFormMismatch dir (u_CanonicalIdentityForm u)),
     require (cr_Representation (u_Content u) \<noteq> '''' \<and> cr_File (u_Content u) \<noteq> '''')
       (ContentIncomplete (u_CanonicalIdentityForm u)),
     require (cr_File (u_Content u) = ''content'') (ContentFileLayout (u_CanonicalIdentityForm u)),
     require (cr_Representation (u_Content u) = ContentRepresentation \<or> cr_Representation (u_Content u) = StructuredJSON)
       (ContentUnsupported (u_CanonicalIdentityForm u)),
     require (mu_ContentFile mu = dir @ ''/content'') (ManifestContentFile (mu_ContentFile mu))]"

text \<open>One unit: metadata from the (key-normalized) entries, content from the raw ones.\<close>

definition loadUnit :: "decoders \<Rightarrow> string gomap \<Rightarrow> string gomap \<Rightarrow> ManifestUnit \<Rightarrow> package_error + Unit" where
  "loadUnit dec raw entries mu =
     (let dir = manifestDir mu in
      case map_of entries (dir @ ''/unit.json'') of
        None \<Rightarrow> Inl (MissingUnitEntry (mu_CanonicalIdentityForm mu))
      | Some unitJSON \<Rightarrow>
          (case decodeUnitJSON dec unitJSON of
             None \<Rightarrow> Inl (BadBlock (dir @ ''/unit.json''))
           | Some u \<Rightarrow>
               (case map_of raw (dir @ ''/content'') of
                  None \<Rightarrow> Inl (MissingContentEntry (mu_CanonicalIdentityForm mu))
                | Some content \<Rightarrow>
                    (case validateUnitEntryConsistency dir mu u of
                       Some err \<Rightarrow> Inl err
                     | None \<Rightarrow> Inr (u\<lparr>u_UnitDir := dir, u_ContentPayload := content\<rparr>)))))"

fun loadUnits :: "decoders \<Rightarrow> string gomap \<Rightarrow> string gomap \<Rightarrow> ManifestUnit list \<Rightarrow> package_error + Unit list" where
  "loadUnits dec raw entries [] = Inr []"
| "loadUnits dec raw entries (mu # mus) =
     (case loadUnit dec raw entries mu of
        Inl err \<Rightarrow> Inl err
      | Inr u \<Rightarrow> (case loadUnits dec raw entries mus of Inl err \<Rightarrow> Inl err | Inr us \<Rightarrow> Inr (u # us)))"

definition loadAttachments :: "string gomap \<Rightarrow> Attachment list" where
  "loadAttachments raw = sort_key at_ID (map (\<lambda>nm. \<lparr>at_ID = trim_prefix ''attachments/'' nm, at_Data = get_or raw nm ''''\<rparr>)
     (filter (has_prefix ''attachments/'') (sortedEntries raw)))"

section \<open>Digests\<close>

definition digestInput :: "string gomap \<Rightarrow> string" where
  "digestInput raw = concat (map (\<lambda>nm. get_or raw nm '''')
     (filter (\<lambda>nm. nm \<noteq> ''manifest.json'' \<and> nm \<noteq> ''integrity.json'') (sortedEntries raw)))"

definition verifyPackageDigest :: "(string \<Rightarrow> string) \<Rightarrow> string gomap \<Rightarrow> loadedPackage \<Rightarrow> package_error option" where
  "verifyPackageDigest H raw p =
     (let got = H (digestInput raw); recorded = i_PackageDigest (lp_integrity p) in firstSome [
        require (recorded \<noteq> '''') NoPackageDigest,
        require (got = recorded) (PackageDigestMismatch recorded got),
        require (m_PackageDigest (lp_manifest p) = recorded) (ManifestDigestEcho (m_PackageDigest (lp_manifest p)) recorded)])"

definition manifestUnit :: "loadedPackage \<Rightarrow> string \<Rightarrow> ManifestUnit option" where
  "manifestUnit p form = find (\<lambda>mu. mu_CanonicalIdentityForm mu = form) (m_Units (lp_manifest p))"

text \<open>A Go map filled from a list: the last entry of a key wins, its size counts the keys.\<close>

definition lastOf :: "(string \<times> 'a) list \<Rightarrow> string \<Rightarrow> 'a option" where
  "lastOf ps k = map_of (rev ps) k"

definition keyCount :: "(string \<times> 'a) list \<Rightarrow> nat" where
  "keyCount ps = length (remdups (map fst ps))"

definition verifyUnitDigests :: "(string \<Rightarrow> string) \<Rightarrow> string gomap \<Rightarrow> loadedPackage \<Rightarrow> package_error option" where
  "verifyUnitDigests H raw p = firstSome [
     firstError (\<lambda>u.
       let got = H (get_or raw (u_UnitDir u @ ''/unit.json'') '''' @ u_ContentPayload u) in firstSome [
         (case manifestUnit p (u_CanonicalIdentityForm u) of
            Some mu \<Rightarrow> require (mu_UnitDigest mu = got) (ManifestUnitDigest (u_CanonicalIdentityForm u))
          | None \<Rightarrow> None),
         (case lastOf (i_Units (lp_integrity p)) (u_CanonicalIdentityForm u) of
            Some want \<Rightarrow> require (want = got) (IntegrityUnitDigest (u_CanonicalIdentityForm u))
          | None \<Rightarrow> None)]) (lp_units p),
     require (keyCount (i_Units (lp_integrity p)) = length (lp_units p))
       (IntegrityUnitCount (keyCount (i_Units (lp_integrity p))) (length (lp_units p)))]"

definition verifyAttachmentDigests :: "(string \<Rightarrow> string) \<Rightarrow> loadedPackage \<Rightarrow> package_error option" where
  "verifyAttachmentDigests H p = firstSome [
     firstError (\<lambda>a.
       (case lastOf (i_Attachments (lp_integrity p)) (at_ID a) of
          Some want \<Rightarrow> require (want = H (at_Data a)) (IntegrityAttachmentDigest (at_ID a))
        | None \<Rightarrow> None)) (lp_attachments p),
     require (keyCount (i_Attachments (lp_integrity p)) = length (lp_attachments p))
       (IntegrityAttachmentCount (keyCount (i_Attachments (lp_integrity p))) (length (lp_attachments p)))]"

definition verifySelfConsistency :: "loadedPackage \<Rightarrow> package_error option" where
  "verifySelfConsistency p =
     (let h = lp_header p; m = lp_manifest p in firstSome [
        require (m_SerializationVersion m = h_SerializationVersion h
          \<and> m_ExchangeFormatVersion m = h_ExchangeFormatVersion h
          \<and> m_SpecificationVersion m = h_SpecificationVersion h) VersionEcho,
        require (m_PackageIdentityLabel m = h_PackageIdentityLabel h) LabelEcho,
        (if h_SerializationVersion h = SerializationVersion \<or> h_SerializationVersion h = LegacySerializationVersion
         then require (h_PackageIdentityLabel h
             = PackageIdentityLabelVersion (h_ExportScope h) (h_Namespace h) (h_SerializationVersion h))
           (LabelDerivation (h_PackageIdentityLabel h))
         else None),
        require (ct_Units (m_Counts m) = int (length (lp_units p))
          \<and> ct_Attachments (m_Counts m) = int (length (lp_attachments p))) CountsEcho,
        require (m_Scope m = h_ExportScope h) ScopeEcho])"

section \<open>Loading\<close>

text \<open>The four blocks and the units; \<open>entries\<close> are the raw entries or, for a legacy package,
  the key-normalized ones.\<close>

definition loadBlocks :: "decoders \<Rightarrow> string gomap \<Rightarrow> string gomap \<Rightarrow> package_error + loadedPackage" where
  "loadBlocks dec raw entries =
     (case map_of entries ''header.json'' of None \<Rightarrow> Inl (MissingEntry ''header.json'') | Some hdata \<Rightarrow>
     (case decodeHeader dec hdata of None \<Rightarrow> Inl (BadBlock ''header.json'') | Some h \<Rightarrow>
     (case map_of entries ''manifest.json'' of None \<Rightarrow> Inl (MissingEntry ''manifest.json'') | Some md \<Rightarrow>
     (case decodeManifest dec md of None \<Rightarrow> Inl (BadBlock ''manifest.json'') | Some m \<Rightarrow>
     (case map_of entries ''declarations.json'' of None \<Rightarrow> Inl (MissingEntry ''declarations.json'') | Some dd \<Rightarrow>
     (case decodeDeclarations dec dd of None \<Rightarrow> Inl (BadBlock ''declarations.json'') | Some d \<Rightarrow>
     (case map_of entries ''integrity.json'' of None \<Rightarrow> Inl (MissingEntry ''integrity.json'') | Some idata \<Rightarrow>
     (case decodeIntegrity dec idata of None \<Rightarrow> Inl (BadBlock ''integrity.json'') | Some i \<Rightarrow>
     (case firstSome [
         firstError (\<lambda>nm. require (splitUnitEntry nm \<noteq> None) (MalformedUnitEntry nm)) (unitEntries raw),
         checkManifestUnits (unitDirs raw) [] (m_Units m),
         checkDirCounts (unitDirs raw) (m_Units m)] of
        Some err \<Rightarrow> Inl err
      | None \<Rightarrow>
          (case loadUnits dec raw entries (m_Units m) of
             Inl err \<Rightarrow> Inl err
           | Inr us \<Rightarrow> Inr \<lparr>lp_header = h, lp_manifest = m, lp_declarations = d, lp_integrity = i,
               lp_units = sort_key u_CanonicalIdentityForm us, lp_attachments = loadAttachments raw\<rparr>))))))))))"

definition loadPackage ::
  "(string \<Rightarrow> string) \<Rightarrow> decoders \<Rightarrow> (string gomap \<Rightarrow> bool) \<Rightarrow> (string gomap \<Rightarrow> string gomap option) \<Rightarrow> string gomap
    \<Rightarrow> package_error + loadedPackage" where
  "loadPackage H dec isLegacy keyRename raw =
     (case firstError (\<lambda>nm. require (isKnownEntry nm) (UnknownEntry nm)) (sortedEntries raw) of
        Some err \<Rightarrow> Inl err
      | None \<Rightarrow>
          if map_of raw ''header.json'' = None then Inl (MissingEntry ''header.json'')
          else
            (case (if isLegacy raw then keyRename raw else Some raw) of
               None \<Rightarrow> Inl (BadBlock ''legacy'')
             | Some entries \<Rightarrow>
                 (case loadBlocks dec raw entries of
                    Inl err \<Rightarrow> Inl err
                  | Inr p \<Rightarrow>
                      (case firstSome [verifyPackageDigest H raw p, verifyUnitDigests H raw p,
                          verifyAttachmentDigests H p, verifySelfConsistency p] of
                         Some err \<Rightarrow> Inl err
                       | None \<Rightarrow> Inr p))))"

section \<open>Phases 1 and 2\<close>

definition checkContract :: "loadedPackage \<Rightarrow> package_error option" where
  "checkContract p =
     (let h = lp_header p in firstSome [
        require (h_SerializationVersion h = SerializationVersion \<or> h_SerializationVersion h = LegacySerializationVersion
          \<or> h_SerializationVersion h = LegacySerializationVersionV1) (UnsupportedSerialization (h_SerializationVersion h)),
        require (h_ExchangeFormatVersion h = ExchangeFormatVersion) (UnsupportedFormat (h_ExchangeFormatVersion h)),
        require (h_SpecificationVersion h = SpecificationVersion \<or> h_SpecificationVersion h = LegacySpecificationVersion
          \<or> h_SpecificationVersion h = ''1.0'') (UnsupportedSpecification (h_SpecificationVersion h)),
        require (h_Exporter h \<noteq> '''') NoExporter,
        require (d_Extensions (lp_declarations p) = []) (ExtensionsDeclared (length (d_Extensions (lp_declarations p))))])"

definition isCanonicalRelationshipType :: "string \<Rightarrow> bool" where
  "isCanonicalRelationshipType t = List.member relationshipFields t"

fun checkIdentityList :: "string list \<Rightarrow> Unit list \<Rightarrow> package_error option" where
  "checkIdentityList seen [] = None"
| "checkIdentityList seen (u # us) =
     (let form = u_CanonicalIdentityForm u; i = u_Identity u in
      case firstSome [
          map_option IdentityCharset (validateIdentityComponent (id_Namespace i) ''namespace'' form),
          map_option IdentityCharset (validateIdentityComponent (id_Type i) ''type'' form),
          map_option IdentityCharset (validateIdentityComponent (id_ID i) ''id'' form),
          require (id_InstanceVersion i \<ge> 1) (InstanceBelowOne form (id_InstanceVersion i)),
          require (form \<notin> set seen) (DuplicateIdentity form)] of
        Some err \<Rightarrow> Some err
      | None \<Rightarrow> checkIdentityList (form # seen) us)"

definition checkRelation :: "Unit \<Rightarrow> Relationship \<Rightarrow> package_error option" where
  "checkRelation u rel = firstSome [
     require (rel_Type rel \<noteq> '''') (EmptyRelationType (u_CanonicalIdentityForm u)),
     require (isCanonicalRelationshipType (rel_Type rel)) (RelationTypeUnknown (u_CanonicalIdentityForm u) (rel_Type rel)),
     (case parseCanonicalIdentity (rel_Target rel) of
        Inl err \<Rightarrow> Some (RelationTarget (u_CanonicalIdentityForm u) (rel_Target rel) err)
      | Inr i \<Rightarrow> None)]"

definition checkUnitIdentities :: "loadedPackage \<Rightarrow> package_error option" where
  "checkUnitIdentities p = firstSome [
     checkIdentityList [] (lp_units p),
     firstError (\<lambda>u. firstError (checkRelation u) (u_Relationships u)) (lp_units p)]"

section \<open>What a loaded package guarantees\<close>

definition unitOf :: "string gomap \<Rightarrow> ManifestUnit \<Rightarrow> Unit \<Rightarrow> bool" where
  "unitOf raw mu u \<longleftrightarrow> u_Identity u = manifestIdentity mu \<and> u_UnitDir u = UnitDirName (u_Identity u)
     \<and> u_CanonicalIdentityForm u = CanonicalForm (u_Identity u)
     \<and> map_of raw (u_UnitDir u @ ''/content'') = Some (u_ContentPayload u)
     \<and> mu_ContentFile mu = u_UnitDir u @ ''/content''"

lemma loadUnit_ok: "loadUnit dec raw entries mu = Inr u \<Longrightarrow> unitOf raw mu u"
  by (auto simp: loadUnit_def Let_def validateUnitEntryConsistency_def unitOf_def split: option.splits)

lemma loadUnits_ok: "loadUnits dec raw entries mus = Inr us \<Longrightarrow> list_all2 (unitOf raw) mus us"
  by (induction mus arbitrary: us) (auto split: sum.splits intro: loadUnit_ok)

lemma checkManifestUnits_ok:
  "checkManifestUnits dirs seen mus = None \<longleftrightarrow>
     distinct (map mu_CanonicalIdentityForm mus) \<and> set (map mu_CanonicalIdentityForm mus) \<inter> set seen = {}
     \<and> (\<forall>mu \<in> set mus. manifestDir mu \<in> set dirs)"
  by (induction mus arbitrary: seen) auto

lemma filter_length_one:
  "\<forall>d \<in> set (map f xs). length (filter (\<lambda>x. f x = d) xs) = 1 \<Longrightarrow> distinct (map f xs)"
proof (induction xs)
  case (Cons x xs)
  have "filter (\<lambda>y. f y = f x) xs = []" using Cons.prems by simp
  then have fresh: "f x \<notin> set (map f xs)" by (auto simp: filter_empty_conv)
  have "length (filter (\<lambda>y. f y = d) xs) = 1" if "d \<in> set (map f xs)" for d
    using Cons.prems that fresh by (cases "f x = d") auto
  then show ?case using Cons.IH fresh by simp
qed simp

lemma loadBlocks_ok:
  assumes "loadBlocks dec raw entries = Inr p"
  shows "\<exists>us. list_all2 (unitOf raw) (m_Units (lp_manifest p)) us \<and> lp_units p = sort_key u_CanonicalIdentityForm us"
    and "distinct (map mu_CanonicalIdentityForm (m_Units (lp_manifest p)))"
    and "set (map manifestDir (m_Units (lp_manifest p))) = set (unitDirs raw)"
    and "\<forall>d \<in> set (unitDirs raw). length (filter (\<lambda>mu. manifestDir mu = d) (m_Units (lp_manifest p))) = 1"
proof -
  from assms obtain h m d i us where r: "firstSome [
         firstError (\<lambda>nm. require (splitUnitEntry nm \<noteq> None) (MalformedUnitEntry nm)) (unitEntries raw),
         checkManifestUnits (unitDirs raw) [] (m_Units m),
         checkDirCounts (unitDirs raw) (m_Units m)] = None"
    "loadUnits dec raw entries (m_Units m) = Inr us"
    "p = \<lparr>lp_header = h, lp_manifest = m, lp_declarations = d, lp_integrity = i,
               lp_units = sort_key u_CanonicalIdentityForm us, lp_attachments = loadAttachments raw\<rparr>"
    unfolding loadBlocks_def by (simp split: option.splits sum.splits) blast
  show "\<exists>us. list_all2 (unitOf raw) (m_Units (lp_manifest p)) us \<and> lp_units p = sort_key u_CanonicalIdentityForm us"
    using loadUnits_ok [OF r(2)] r(3) by auto
  have c: "checkManifestUnits (unitDirs raw) [] (m_Units m) = None" "checkDirCounts (unitDirs raw) (m_Units m) = None"
    using r(1) by simp_all
  then show "distinct (map mu_CanonicalIdentityForm (m_Units (lp_manifest p)))"
    using r(3) by (simp add: checkManifestUnits_ok)
  show one: "\<forall>d \<in> set (unitDirs raw). length (filter (\<lambda>mu. manifestDir mu = d) (m_Units (lp_manifest p))) = 1"
    using c(2) r(3) by (simp add: checkDirCounts_def Let_def)
  show "set (map manifestDir (m_Units (lp_manifest p))) = set (unitDirs raw)"
  proof
    show "set (map manifestDir (m_Units (lp_manifest p))) \<subseteq> set (unitDirs raw)"
      using c(1) r(3) by (auto simp: checkManifestUnits_ok)
    show "set (unitDirs raw) \<subseteq> set (map manifestDir (m_Units (lp_manifest p)))"
    proof
      fix d assume "d \<in> set (unitDirs raw)"
      then have "filter (\<lambda>mu. manifestDir mu = d) (m_Units (lp_manifest p)) \<noteq> []" using one by fastforce
      then show "d \<in> set (map manifestDir (m_Units (lp_manifest p)))" by (auto simp: filter_empty_conv)
    qed
  qed
qed

lemma loadPackage_ok:
  assumes "loadPackage H dec isLegacy keyRename raw = Inr p"
  shows "\<exists>entries. loadBlocks dec raw entries = Inr p" and "list_all isKnownEntry (map fst raw)"
    and "verifyPackageDigest H raw p = None" and "verifyUnitDigests H raw p = None"
    and "verifyAttachmentDigests H p = None" and "verifySelfConsistency p = None"
  using assms unfolding loadPackage_def
  by (auto simp: sortedEntries_def list_all_iff simp del: firstSome_None split: option.splits if_splits sum.splits)
    (simp_all add: list_all_iff)

lemma find_distinct:
  "distinct (map f xs) \<Longrightarrow> x \<in> set xs \<Longrightarrow> find (\<lambda>y. f y = f x) xs = Some x"
  by (induction xs) (auto simp: rev_image_eqI)

lemma package_units:
  assumes "loadPackage H dec isLegacy keyRename raw = Inr p" and "u \<in> set (lp_units p)"
  shows "\<exists>mu \<in> set (m_Units (lp_manifest p)). unitOf raw mu u \<and>
    (mu_CanonicalIdentityForm mu = u_CanonicalIdentityForm u \<longrightarrow>
       mu_UnitDigest mu = H (get_or raw (u_UnitDir u @ ''/unit.json'') '''' @ u_ContentPayload u))"
proof -
  obtain entries where b: "loadBlocks dec raw entries = Inr p" using loadPackage_ok(1) [OF assms(1)] by blast
  obtain us where us: "list_all2 (unitOf raw) (m_Units (lp_manifest p)) us" "lp_units p = sort_key u_CanonicalIdentityForm us"
    using loadBlocks_ok(1) [OF b] by blast
  have "u \<in> set us" using us(2) assms(2) by simp
  then obtain mu where mu: "mu \<in> set (m_Units (lp_manifest p))" "unitOf raw mu u"
    using us(1) by (metis in_set_conv_nth list_all2_conv_all_nth)
  have "mu_UnitDigest mu = H (get_or raw (u_UnitDir u @ ''/unit.json'') '''' @ u_ContentPayload u)"
    if "mu_CanonicalIdentityForm mu = u_CanonicalIdentityForm u"
  proof -
    have "manifestUnit p (u_CanonicalIdentityForm u) = Some mu"
      unfolding manifestUnit_def using find_distinct [OF loadBlocks_ok(2) [OF b] mu(1)] that by simp
    then show ?thesis using loadPackage_ok(4) [OF assms(1)] assms(2) by (auto simp: verifyUnitDigests_def Let_def)
  qed
  then show ?thesis using mu by blast
qed

lemma package_dirs:
  assumes "loadPackage H dec isLegacy keyRename raw = Inr p"
  shows "set (map u_UnitDir (lp_units p)) = set (unitDirs raw)" and "distinct (map u_UnitDir (lp_units p))"
proof -
  obtain entries where b: "loadBlocks dec raw entries = Inr p" using loadPackage_ok(1) [OF assms] by blast
  obtain us where us: "list_all2 (unitOf raw) (m_Units (lp_manifest p)) us" "lp_units p = sort_key u_CanonicalIdentityForm us"
    using loadBlocks_ok(1) [OF b] by blast
  have dirs: "map u_UnitDir us = map manifestDir (m_Units (lp_manifest p))"
    using us(1) by (induction rule: list_all2_induct) (simp_all add: unitOf_def manifestDir_def)
  show "set (map u_UnitDir (lp_units p)) = set (unitDirs raw)"
    using loadBlocks_ok(3) [OF b] dirs us(2) by (metis list.set_map set_sort)
  have "distinct (map manifestDir (m_Units (lp_manifest p)))"
    using loadBlocks_ok(3,4) [OF b] by (intro filter_length_one) simp
  then have "distinct (map u_UnitDir us)" using dirs by simp
  moreover have "mset (map u_UnitDir (lp_units p)) = mset (map u_UnitDir us)" using us(2) by (simp add: mset_map)
  ultimately show "distinct (map u_UnitDir (lp_units p))" using mset_eq_imp_distinct_iff by blast
qed

section \<open>A sample package\<close>

definition sampleIdentity :: Identity where
  "sampleIdentity = \<lparr>id_Namespace = ''core'', id_Type = ''adr'', id_ID = ''x'', id_InstanceVersion = 1\<rparr>"

definition sampleVector :: StateVector where
  "sampleVector = \<lparr>sv_ContentState = ''draft'', sv_ExecutionState = '''', sv_PlanningState = '''',
     sv_ContainerState = '''', sv_ExistenceState = ''active'', sv_NoteState = ''''\<rparr>"

definition sampleUnit :: Unit where
  "sampleUnit = \<lparr>u_Identity = sampleIdentity, u_CanonicalIdentityForm = ''core/adr:x:1'', u_Revision = 1,
     u_Author = User ''a'', u_Created = '''', u_Updated = '''', u_StateVector = sampleVector,
     u_ChangeLog = [], u_Relationships = [],
     u_Classification = \<lparr>cl_Dimension = ''decisions'', cl_DimensionsSecondary = [], cl_Domain = ''''\<rparr>,
     u_Phase = '''', u_Provenance = '''', u_SourcePromptHash = '''', u_Confidence = 0, u_SourceCommitSha = '''',
     u_CaptureMeta = \<lparr>Classifier = '''', DedupeKey = ''''\<rparr>,
     u_Content = \<lparr>cr_Representation = StructuredJSON, cr_File = ''content''\<rparr>,
     u_ContentPayload = '''', u_UnitDir = '''', u_Digest = ''''\<rparr>"

definition sampleManifest :: "string \<Rightarrow> string \<Rightarrow> string \<Rightarrow> Manifest" where
  "sampleManifest form unitDigest packageDigest = \<lparr>m_Scope = ''repo'', m_PackageIdentityLabel = ''rsf-repo-core-2'',
     m_SerializationVersion = ''2'', m_ExchangeFormatVersion = ''1'', m_SpecificationVersion = ''1.3'',
     m_PackageDigest = packageDigest,
     m_Units = [\<lparr>mu_CanonicalIdentityForm = form, mu_Type = ''adr'', mu_ID = ''x'', mu_Namespace = ''core'',
       mu_InstanceVersion = 1, mu_Revision = 1, mu_ContentRepresentation = StructuredJSON,
       mu_ContentFile = ''units/core/adr-x-v1/content'', mu_UnitDigest = unitDigest\<rparr>],
     m_Counts = \<lparr>ct_Units = 1, ct_Attachments = 0, ct_ExternalReferences = 0, ct_Extensions = 0\<rparr>,
     m_Closure = \<lparr>cd_Scope = ''repo'', cd_Seeds = []\<rparr>\<rparr>"

definition sampleDecoders :: "string \<Rightarrow> string \<Rightarrow> decoders" where
  "sampleDecoders form unitDigest = \<lparr>
     decodeHeader = (\<lambda>s. Some \<lparr>h_SerializationVersion = ''2'', h_ExchangeFormatVersion = ''1'', h_SpecificationVersion = ''1.3'',
       h_Exporter = ''eka'', h_PackageIdentityLabel = ''rsf-repo-core-2'', h_ExportScope = ''repo'', h_Namespace = ''core''\<rparr>),
     decodeManifest = (\<lambda>s. Some (sampleManifest form unitDigest ''#DHCU'')),
     decodeDeclarations = (\<lambda>s. Some \<lparr>d_Closure = \<lparr>cd_Scope = ''repo'', cd_Seeds = []\<rparr>, d_ExternalReferences = [], d_Extensions = []\<rparr>),
     decodeIntegrity = (\<lambda>s. Some \<lparr>i_PackageDigest = ''#DHCU'', i_Units = [(form, unitDigest)], i_Attachments = []\<rparr>),
     decodeUnitJSON = (\<lambda>s. Some sampleUnit)\<rparr>"

definition sampleEntries :: "string gomap" where
  "sampleEntries = [(''header.json'', ''H''), (''manifest.json'', ''M''), (''declarations.json'', ''D''), (''integrity.json'', ''I''),
     (''units/core/adr-x-v1/unit.json'', ''U''), (''units/core/adr-x-v1/content'', ''C'')]"

definition markDigest :: "string \<Rightarrow> string" where
  "markDigest s = ''#'' @ s"

definition loadSample :: "string \<Rightarrow> string \<Rightarrow> package_error + loadedPackage" where
  "loadSample form unitDigest =
     loadPackage markDigest (sampleDecoders form unitDigest) (\<lambda>r. False) (\<lambda>r. None) sampleEntries"

section \<open>Properties\<close>

text \<open>The blocks of a package file their records by form: every manifest entry carries the
  canonical form of its own identity tuple, and the integrity block names units of the package
  only.  The loader does not check this (below).\<close>

definition filedByForm :: "loadedPackage \<Rightarrow> bool" where
  "filedByForm p \<longleftrightarrow>
     list_all (\<lambda>mu. mu_CanonicalIdentityForm mu = CanonicalForm (manifestIdentity mu)) (m_Units (lp_manifest p))
     \<and> list_all (\<lambda>form. form \<in> set (map u_CanonicalIdentityForm (lp_units p))) (map fst (i_Units (lp_integrity p)))"

lemma integrity_records:
  assumes "loadPackage H dec isLegacy keyRename raw = Inr p" and "filedByForm p" and "u \<in> set (lp_units p)"
  shows "lastOf (i_Units (lp_integrity p)) (u_CanonicalIdentityForm u)
    = Some (H (get_or raw (u_UnitDir u @ ''/unit.json'') '''' @ u_ContentPayload u))"
proof -
  let ?K = "set (map fst (i_Units (lp_integrity p)))" and ?F = "set (map u_CanonicalIdentityForm (lp_units p))"
  have ok: "keyCount (i_Units (lp_integrity p)) = length (lp_units p)"
    "\<And>want. lastOf (i_Units (lp_integrity p)) (u_CanonicalIdentityForm u) = Some want \<Longrightarrow>
       want = H (get_or raw (u_UnitDir u @ ''/unit.json'') '''' @ u_ContentPayload u)"
    using loadPackage_ok(4) [OF assms(1)] assms(3) by (auto simp: verifyUnitDigests_def Let_def)
  have "?K \<subseteq> ?F" using assms(2) by (auto simp: filedByForm_def list_all_iff)
  moreover have "card ?F \<le> card ?K"
    using ok(1) card_length [of "map u_CanonicalIdentityForm (lp_units p)"]
    by (simp only: keyCount_def length_remdups_card_conv length_map)
  ultimately have "?K = ?F" by (intro card_seteq) simp_all
  then have "u_CanonicalIdentityForm u \<in> fst ` set (i_Units (lp_integrity p))" using assms(3) by auto
  then obtain want where "lastOf (i_Units (lp_integrity p)) (u_CanonicalIdentityForm u) = Some want"
    by (cases "lastOf (i_Units (lp_integrity p)) (u_CanonicalIdentityForm u)") (simp_all add: lastOf_def map_of_eq_None_iff)
  with ok(2) show ?thesis by blast
qed

text \<open>C33: A package that loads is complete and consistent: it has no unknown entry, its unit
  directories are exactly those of its units, each once, the recorded package digest is the
  digest of the entries, and each unit sits in the directory of its identity under its
  canonical form with the bytes of its content entry and belongs to a manifest entry of the
  same identity.  When the manifest and the integrity block file their records by form (every
  manifest entry carries the form of its own identity, the integrity block names units of the
  package only), the manifest entry and the integrity record of every unit hold the digest of
  its bytes.\<close>

theorem package_load_sound:
  assumes "loadPackage H dec isLegacy keyRename raw = Inr p"
  shows "list_all isKnownEntry (map fst raw)
    \<and> set (map u_UnitDir (lp_units p)) = set (unitDirs raw) \<and> distinct (map u_UnitDir (lp_units p))
    \<and> i_PackageDigest (lp_integrity p) = H (digestInput raw) \<and> m_PackageDigest (lp_manifest p) = H (digestInput raw)
    \<and> list_all (\<lambda>u. u_UnitDir u = UnitDirName (u_Identity u) \<and> u_CanonicalIdentityForm u = CanonicalForm (u_Identity u)
         \<and> map_of raw (u_UnitDir u @ ''/content'') = Some (u_ContentPayload u)
         \<and> list_ex (\<lambda>mu. u_Identity u = manifestIdentity mu
             \<and> (filedByForm p \<longrightarrow> mu_UnitDigest mu = H (get_or raw (u_UnitDir u @ ''/unit.json'') '''' @ u_ContentPayload u)))
           (m_Units (lp_manifest p))
         \<and> (filedByForm p \<longrightarrow> lastOf (i_Units (lp_integrity p)) (u_CanonicalIdentityForm u)
               = Some (H (get_or raw (u_UnitDir u @ ''/unit.json'') '''' @ u_ContentPayload u)))) (lp_units p)"
proof -
  have "i_PackageDigest (lp_integrity p) = H (digestInput raw) \<and> m_PackageDigest (lp_manifest p) = H (digestInput raw)"
    using loadPackage_ok(3) [OF assms] by (simp add: verifyPackageDigest_def Let_def)
  moreover have "\<exists>mu\<in>set (m_Units (lp_manifest p)). unitOf raw mu u
      \<and> (filedByForm p \<longrightarrow> mu_UnitDigest mu = H (get_or raw (u_UnitDir u @ ''/unit.json'') '''' @ u_ContentPayload u))"
    if u: "u \<in> set (lp_units p)" for u
  proof -
    from package_units [OF assms u] obtain mu where mu: "mu \<in> set (m_Units (lp_manifest p))" "unitOf raw mu u"
      "mu_CanonicalIdentityForm mu = u_CanonicalIdentityForm u \<longrightarrow>
         mu_UnitDigest mu = H (get_or raw (u_UnitDir u @ ''/unit.json'') '''' @ u_ContentPayload u)" by blast
    have "mu_CanonicalIdentityForm mu = u_CanonicalIdentityForm u" if "filedByForm p"
      using that mu(1,2) by (simp add: filedByForm_def list_all_iff unitOf_def)
    with mu show ?thesis by blast
  qed
  ultimately show ?thesis using loadPackage_ok(2) [OF assms] package_dirs [OF assms] integrity_records [OF assms]
    unfolding list_all_iff list_ex_iff unitOf_def by blast
qed

theorem package_load_sound_witness:
  "case loadSample ''core/adr:x:1'' ''#UC'' of Inl e \<Rightarrow> False
   | Inr p \<Rightarrow> set (map u_UnitDir (lp_units p)) = {''units/core/adr-x-v1''} \<and> filedByForm p
       \<and> lastOf (i_Units (lp_integrity p)) ''core/adr:x:1'' = Some ''#UC''"
proof -
  have "case loadSample ''core/adr:x:1'' ''#UC'' of Inl e \<Rightarrow> False | Inr p \<Rightarrow> filedByForm p \<and> length (lp_units p) = 1
      \<and> list_all (\<lambda>u. u_CanonicalIdentityForm u = ''core/adr:x:1''
          \<and> markDigest (get_or sampleEntries (u_UnitDir u @ ''/unit.json'') '''' @ u_ContentPayload u) = ''#UC'') (lp_units p)" by code_simp
  then obtain p u where p: "loadSample ''core/adr:x:1'' ''#UC'' = Inr p" "filedByForm p" "lp_units p = [u]"
    "u_CanonicalIdentityForm u = ''core/adr:x:1''"
    "markDigest (get_or sampleEntries (u_UnitDir u @ ''/unit.json'') '''' @ u_ContentPayload u) = ''#UC''"
    by (auto simp: length_Suc_conv split: sum.splits)
  have dirs: "set (unitDirs sampleEntries) = {''units/core/adr-x-v1''}" by code_simp
  note sound = package_load_sound [OF p(1) [unfolded loadSample_def]]
  from sound have "\<forall>u\<in>set (lp_units p). filedByForm p \<longrightarrow> lastOf (i_Units (lp_integrity p)) (u_CanonicalIdentityForm u)
      = Some (markDigest (get_or sampleEntries (u_UnitDir u @ ''/unit.json'') '''' @ u_ContentPayload u))"
    unfolding list_all_iff by (elim conjE) blast
  then have "lastOf (i_Units (lp_integrity p)) (u_CanonicalIdentityForm u)
      = Some (markDigest (get_or sampleEntries (u_UnitDir u @ ''/unit.json'') '''' @ u_ContentPayload u))"
    using p(2) unfolding p(3) by simp
  then have "lastOf (i_Units (lp_integrity p)) ''core/adr:x:1'' = Some ''#UC''" unfolding p(4,5) .
  moreover from sound have "set (map u_UnitDir (lp_units p)) = {''units/core/adr-x-v1''}" unfolding dirs by (elim conjE)
  ultimately show ?thesis unfolding p(1) sum.case using p(2) by (intro conjI)
qed

text \<open>The digest checks compare only what is filed under the unit's own form: a wrong unit
  digest is refused when the manifest entry and the integrity record carry the form, and the
  same wrong digest is accepted when both file it under another form.\<close>

theorem unit_digest_gap:
  "loadSample ''core/adr:x:1'' ''bad'' = Inl (ManifestUnitDigest ''core/adr:x:1'')
   \<and> (case loadSample ''other'' ''bad'' of Inl e \<Rightarrow> False
      | Inr p \<Rightarrow> map u_CanonicalIdentityForm (lp_units p) = [''core/adr:x:1'']
          \<and> map mu_CanonicalIdentityForm (m_Units (lp_manifest p)) = [''other''])"
  by code_simp

end
