(* ===== verification/Exchange_Import.thy ===== *)
theory Exchange_Import
  imports Exchange_Package Rules_Core Rules_Projection Rules_Domain
begin

text \<open>
  Phases 3 to 5 of the import (\<open>import.go\<close>, \<open>resolver.go\<close>): the state validation of every
  unit, the structural validation of its content, and the resolution of its relationships
  in the order package, target repository, declared external reference.  The phase-3
  checks are compared with the rules 3, 4, 7 and 11 the repository is revalidated with.
\<close>

section \<open>Phase 3: states\<close>

datatype state_error =
    TypeUnknown string string
  | OwnedMissing string string
  | StateNotOwned string string
  | StateInvalid string string string
  | PhaseForbidden string string
  | PhaseInvalid string string
  | NoDimension string
  | DimensionInvalid string string
  | ProjectionClassified string
  | DomainUnknown string string
  | DomainForeign string string
  | NoLogEntry string string
  | LogMismatch string string string
  | EntryDomainUnknown string nat string
  | EntryPhaseForbidden string nat
  | EntryNotOwned string nat string
  | EntryFrom string nat string
  | EntryTo string nat string
  | EntryBy string nat
  | EntryDate string nat

text \<open>The five domains the importer knows; the note domain is not among them.\<close>

definition importDomains :: "string list" where
  "importDomains = [DomainContentState, DomainExecutionState, DomainPlanningState, DomainContainerState, DomainExistenceState]"

definition isKnownStateDomain :: "string \<Rightarrow> bool" where
  "isKnownStateDomain d = List.member (importDomains @ [DomainPhase]) d"

definition isProjectionToken :: "string \<Rightarrow> bool" where
  "isProjectionToken token = List.member [''ctr'', ''tkt'', ''ses''] token"

definition changeLogEntriesFor :: "UnitLogEntry list \<Rightarrow> string \<Rightarrow> UnitLogEntry list" where
  "changeLogEntriesFor clog domain = filter (\<lambda>e. le_Domain e = domain) clog"

definition checkStateDomain :: "TypeInfo \<Rightarrow> Unit \<Rightarrow> string \<Rightarrow> state_error option" where
  "checkStateDomain info u d =
     (let v = StateVectorValue u d; form = u_CanonicalIdentityForm u in
      if v = '''' then require (\<not> List.member (Owned info) d) (OwnedMissing form d)
      else firstSome [
        require (List.member (Owned info) d) (StateNotOwned form d),
        require (ValidStateValue d (id_Type (u_Identity u)) v) (StateInvalid form d v)])"

definition checkPhase :: "Unit \<Rightarrow> state_error option" where
  "checkPhase u =
     (if u_Phase u = '''' then None
      else firstSome [
        require (IsVersionedType (id_Type (u_Identity u))) (PhaseForbidden (u_CanonicalIdentityForm u) (u_Phase u)),
        require (ValidPhaseValue (u_Phase u)) (PhaseInvalid (u_CanonicalIdentityForm u) (u_Phase u))])"

definition checkClassification :: "TypeInfo \<Rightarrow> Unit \<Rightarrow> state_error option" where
  "checkClassification info u =
     (let c = u_Classification u; form = u_CanonicalIdentityForm u in
      if IsKnowledge info then firstSome [
        require (cl_Dimension c \<noteq> '''') (NoDimension form),
        require (IsDimensionToken (cl_Dimension c)) (DimensionInvalid form (cl_Dimension c))]
      else if isProjectionToken (id_Type (u_Identity u)) then
        require (cl_Dimension c = '''' \<and> cl_DimensionsSecondary c = []) (ProjectionClassified form)
      else None)"

definition checkDomain :: "Unit \<Rightarrow> state_error option" where
  "checkDomain u =
     (let d = cl_Domain (u_Classification u); form = u_CanonicalIdentityForm u in
      if d = '''' then None
      else firstSome [
        require (IsDomain d) (DomainUnknown form d),
        require (map_option domain_string (DomainForToken (id_Type (u_Identity u))) = Some d) (DomainForeign form d)])"

definition checkLogDomain :: "Unit \<Rightarrow> string \<Rightarrow> state_error option" where
  "checkLogDomain u domain =
     (let current = (if domain = DomainPhase then u_Phase u else StateVectorValue u domain);
          entries = changeLogEntriesFor (u_ChangeLog u) domain; form = u_CanonicalIdentityForm u in
      if current = '''' then None
      else if entries = [] then Some (NoLogEntry form domain)
      else require (le_To (last entries) = current) (LogMismatch form domain (le_To (last entries))))"

definition checkLogEntry :: "TypeInfo \<Rightarrow> Unit \<Rightarrow> nat \<times> UnitLogEntry \<Rightarrow> state_error option" where
  "checkLogEntry info u p = (case p of (n, e) \<Rightarrow>
     let form = u_CanonicalIdentityForm u; t = id_Type (u_Identity u); d = le_Domain e in firstSome [
       require (isKnownStateDomain d) (EntryDomainUnknown form n d),
       (if d = DomainPhase then require (IsVersionedType t) (EntryPhaseForbidden form n)
        else require (List.member (Owned info) d) (EntryNotOwned form n d)),
       require (le_From e = ''-'' \<or> ValidStateValue d t (le_From e)) (EntryFrom form n (le_From e)),
       require (le_To e \<noteq> ''-'' \<and> ValidStateValue d t (le_To e)) (EntryTo form n (le_To e)),
       require (au_Name (le_By e) \<noteq> '''') (EntryBy form n),
       require (le_Date e \<noteq> '''') (EntryDate form n)])"

definition checkUnitState :: "Unit \<Rightarrow> state_error option" where
  "checkUnitState u =
     (case TypeInfoFor (id_Type (u_Identity u)) of
        None \<Rightarrow> Some (TypeUnknown (u_CanonicalIdentityForm u) (id_Type (u_Identity u)))
      | Some info \<Rightarrow> firstSome [
          firstError (checkStateDomain info u) importDomains,
          checkPhase u, checkClassification info u, checkDomain u,
          firstError (checkLogDomain u) (Owned info @ (if u_Phase u \<noteq> '''' then [DomainPhase] else [])),
          firstError (checkLogEntry info u) (zip [1..<length (u_ChangeLog u) + 1] (u_ChangeLog u))])"

definition checkUnitStates :: "loadedPackage \<Rightarrow> state_error option" where
  "checkUnitStates p = firstError checkUnitState (lp_units p)"

section \<open>Phase 4: structure\<close>

datatype structure_error = EmptyBody string | MissingSections string "string list"

definition bodyHasSection :: "string \<Rightarrow> string \<Rightarrow> bool" where
  "bodyHasSection body wanted = list_ex (\<lambda>line.
     let t = trim_space line in
     has_prefix ''## '' t \<and>
       (let heading = trim_space (trim_prefix ''## '' t) in heading = wanted \<or> has_prefix (wanted @ '' '') heading))
     (split_on newline body)"

definition missingSections :: "(string \<Rightarrow> gvalue option) \<Rightarrow> string list \<Rightarrow> Unit \<Rightarrow> string list" where
  "missingSections unmarshal required u =
     (if required = [] then []
      else if cr_Representation (u_Content u) = StructuredJSON then
        (case unmarshal (u_ContentPayload u) of
           Some (GMap m) \<Rightarrow> map SectionKey (filter (\<lambda>s. \<not> has_key m (SectionKey s)) required)
         | Some GNil \<Rightarrow> map SectionKey required
         | _ \<Rightarrow> [''content is not a valid JSON object''])
      else filter (\<lambda>s. \<not> bodyHasSection (u_ContentPayload u) s) required)"

definition checkStructure :: "(string \<Rightarrow> gvalue option) \<Rightarrow> Unit \<Rightarrow> structure_error option" where
  "checkStructure unmarshal u =
     (if u_ContentPayload u = '''' then Some (EmptyBody (u_CanonicalIdentityForm u))
      else let missing = missingSections unmarshal (case requiredSectionsFor (id_Type (u_Identity u)) of None \<Rightarrow> [] | Some req \<Rightarrow> req) u in
        require (missing = []) (MissingSections (u_CanonicalIdentityForm u) missing))"

definition checkUnitStructure :: "(string \<Rightarrow> gvalue option) \<Rightarrow> loadedPackage \<Rightarrow> structure_error option" where
  "checkUnitStructure unmarshal p = firstError (checkStructure unmarshal) (lp_units p)"

section \<open>Phase 5: references\<close>

record resolution =
  res_ok :: bool
  res_declared :: bool

definition declKey :: "string \<Rightarrow> string \<Rightarrow> string \<Rightarrow> string" where
  "declKey source relType target = source @ [nul] @ relType @ [nul] @ target"

definition isDeclared :: "loadedPackage \<Rightarrow> string \<Rightarrow> string \<Rightarrow> string \<Rightarrow> bool" where
  "isDeclared p source relType target = list_ex (\<lambda>d. declKey (er_Source d) (er_Type d) (er_Target d)
     = declKey source relType target) (d_ExternalReferences (lp_declarations p))"

text \<open>\<open>formExists\<close> answers for the target repository.\<close>

definition resolveRelation :: "loadedPackage \<Rightarrow> (string \<Rightarrow> bool) \<Rightarrow> string \<Rightarrow> string \<Rightarrow> string \<Rightarrow> resolution" where
  "resolveRelation p formExists source relType target =
     (let declared = isDeclared p source relType target in
      if List.member (map u_CanonicalIdentityForm (lp_units p)) target then \<lparr>res_ok = True, res_declared = declared\<rparr>
      else if formExists target then \<lparr>res_ok = True, res_declared = declared\<rparr>
      else \<lparr>res_ok = False, res_declared = declared\<rparr>)"

definition isDraft :: "Unit \<Rightarrow> bool" where
  "isDraft u = (sv_ContentState (u_StateVector u) = ''draft'')"

datatype reference_error = Undeclared string string string | Unresolved "string list"

definition warningLine :: "Unit \<times> Relationship \<Rightarrow> string" where
  "warningLine p = (case p of (u, rel) \<Rightarrow> u_CanonicalIdentityForm u @ '': declared external reference '' @ rel_Type rel @ '' ''
     @ rel_Target rel @ '' is unresolved; allowed while content-state is draft (draft tolerance, rule 5)'')"

definition failureLine :: "Unit \<times> Relationship \<Rightarrow> string" where
  "failureLine p = (case p of (u, rel) \<Rightarrow> u_CanonicalIdentityForm u @ '' -> '' @ rel_Type rel @ '' '' @ rel_Target rel
     @ '' (declared external reference does not resolve in the target repository)'')"

text \<open>The scan accumulates warnings and failures and stops at an undeclared target.\<close>

fun scanRelations :: "(string \<Rightarrow> string \<Rightarrow> string \<Rightarrow> resolution) \<Rightarrow> (Unit \<times> Relationship) list
    \<Rightarrow> string list \<Rightarrow> string list \<Rightarrow> reference_error + (string list \<times> string list)" where
  "scanRelations rsv [] warnings failures = Inr (warnings, failures)"
| "scanRelations rsv ((u, rel) # rest) warnings failures =
     (let res = rsv (u_CanonicalIdentityForm u) (rel_Type rel) (rel_Target rel) in
      if res_ok res then scanRelations rsv rest warnings failures
      else if \<not> res_declared res then Inl (Undeclared (u_CanonicalIdentityForm u) (rel_Type rel) (rel_Target rel))
      else if isDraft u then scanRelations rsv rest (warnings @ [warningLine (u, rel)]) failures
      else scanRelations rsv rest warnings (failures @ [failureLine (u, rel)]))"

definition packageRelations :: "loadedPackage \<Rightarrow> (Unit \<times> Relationship) list" where
  "packageRelations p = concat (map (\<lambda>u. map (Pair u) (u_Relationships u)) (lp_units p))"

definition checkReferences :: "loadedPackage \<Rightarrow> (string \<Rightarrow> bool) \<Rightarrow> reference_error + string list" where
  "checkReferences p formExists =
     (case scanRelations (resolveRelation p formExists) (packageRelations p) [] [] of
        Inl err \<Rightarrow> Inl err
      | Inr (warnings, failures) \<Rightarrow> if failures \<noteq> [] then Inl (Unresolved (sort failures)) else Inr (sort warnings))"

section \<open>Comparison with the rules\<close>

lemma import_domains: "importDomains = [DomainContentState, DomainExecutionState, DomainPlanningState,
    DomainContainerState, DomainExistenceState]" "set stateFields = insert DomainNoteState (set importDomains)"
  by (auto simp: importDomains_def six_domains)

lemma isKnownStateDomain_iff: "isKnownStateDomain d \<longleftrightarrow> d = DomainPhase \<or> d \<in> set importDomains"
  by (auto simp: isKnownStateDomain_def)

lemma domain_constants_distinct:
  "distinct [DomainContentState, DomainExecutionState, DomainPlanningState, DomainContainerState,
     DomainExistenceState, DomainNoteState, DomainPhase]"
  by (simp add: domain_names)

lemmas domain_neq = domain_constants_distinct [simplified]

lemma StateVectorValue_note: "StateVectorValue u DomainNoteState = ''''"
  by (simp add: StateVectorValue_def domain_names)

lemma StateVectorValue_of:
  assumes "sv_NoteState (u_StateVector u) = '''' \<or> d \<noteq> DomainNoteState"
  shows "get_or (stateMap (u_StateVector u)) d '''' = StateVectorValue u d"
proof -
  have "distinct (map fst [(DomainContentState, sv_ContentState sv), (DomainExecutionState, sv_ExecutionState sv),
     (DomainPlanningState, sv_PlanningState sv), (DomainContainerState, sv_ContainerState sv),
     (DomainExistenceState, sv_ExistenceState sv), (DomainNoteState, sv_NoteState sv)])" for sv :: StateVector
    using domain_neq by simp
  note lookup = get_or_filter [OF this, folded stateMap_def]
  show ?thesis using assms unfolding lookup StateVectorValue_def Let_def by (auto simp: eq_commute [of _ d])
qed

lemma stateMap_mem:
  assumes "(d, v) \<in> set (stateMap sv)"
  shows "v \<noteq> '''' \<and> d \<in> set stateFields \<and> get_or (stateMap sv) d '''' = v"
proof -
  have "distinct (map fst (stateMap sv))"
    unfolding stateMap_def by (rule distinct_map_filter) (simp add: domain_names)
  then have "get_or (stateMap sv) d [] = v" using assms by (simp add: get_or_def)
  moreover have "v \<noteq> []" using assms unfolding stateMap_def set_filter by blast
  moreover have "d \<in> set stateFields" using assms unfolding stateMap_def six_domains set_filter by auto
  ultimately show ?thesis by blast
qed

lemma state_entry:
  assumes "(d, v) \<in> set (stateMap (u_StateVector u))" "sv_NoteState (u_StateVector u) = ''''"
  shows "d \<in> set importDomains \<and> v = StateVectorValue u d \<and> v \<noteq> ''''"
  using stateMap_mem [OF assms(1)] StateVectorValue_of [of u d] assms(2) StateVectorValue_note [of u]
  by (auto simp: import_domains(2))

lemma stateMap_key: "has_key (stateMap sv) d \<longleftrightarrow> get_or (stateMap sv) d '''' \<noteq> ''''"
proof
  assume "has_key (stateMap sv) d"
  then obtain v where "(d, v) \<in> set (stateMap sv)" by (auto simp: has_key_iff)
  then show "get_or (stateMap sv) d [] \<noteq> []" using stateMap_mem by metis
next
  assume "get_or (stateMap sv) d [] \<noteq> []"
  then show "has_key (stateMap sv) d" by (auto simp: get_or_def has_key_def split: option.splits)
qed

definition statesOk :: "Unit \<Rightarrow> TypeInfo \<Rightarrow> bool" where
  "statesOk u info \<longleftrightarrow> (\<forall>d \<in> set importDomains.
     (StateVectorValue u d = '''' \<longleftrightarrow> d \<notin> set (Owned info))
     \<and> (StateVectorValue u d \<noteq> '''' \<longrightarrow> StateVectorValue u d \<in> set (domainValues d (id_Type (u_Identity u)))))"

lemma checkUnitState_ok:
  assumes "checkUnitState u = None"
  obtains info where "TypeInfoFor (id_Type (u_Identity u)) = Some info" "statesOk u info"
    "checkPhase u = None" "checkDomain u = None"
    "\<forall>d \<in> set (Owned info @ (if u_Phase u \<noteq> '''' then [DomainPhase] else [])). checkLogDomain u d = None"
    "\<forall>p \<in> set (zip [1..<length (u_ChangeLog u) + 1] (u_ChangeLog u)). checkLogEntry info u p = None"
proof -
  from assms obtain info where i: "TypeInfoFor (id_Type (u_Identity u)) = Some info"
    by (auto simp: checkUnitState_def split: option.splits)
  have c: "\<forall>d \<in> set importDomains. checkStateDomain info u d = None" "checkPhase u = None" "checkDomain u = None"
    "\<forall>d \<in> set (Owned info @ (if u_Phase u \<noteq> '''' then [DomainPhase] else [])). checkLogDomain u d = None"
    "\<forall>p \<in> set (zip [1..<length (u_ChangeLog u) + 1] (u_ChangeLog u)). checkLogEntry info u p = None"
    using assms i unfolding checkUnitState_def by (simp_all del: set_append upt_Suc)
  have "statesOk u info"
    using c(1) unfolding statesOk_def checkStateDomain_def Let_def
    by (auto simp: ValidStateValue_def split: if_splits)
  then show ?thesis using that i c by blast
qed

lemma owned_import_domains:
  assumes "TypeInfoFor t = Some info"
  shows "set (Owned info) \<subseteq> set stateFields" and "t \<noteq> ''cmt'' \<Longrightarrow> DomainNoteState \<notin> set (Owned info)"
    and "t = ''cmt'' \<Longrightarrow> DomainNoteState \<in> set (Owned info)"
  using map_of_SomeD [OF assms [unfolded TypeInfoFor_def]]
  by (auto simp: typeTokens_def type_row_def six_domains domain_names)

lemma artifact_fields [simp]:
  "Type (ToArtifact um u) = id_Type (u_Identity u)" "States (ToArtifact um u) = stateMap (u_StateVector u)"
  "Phase (ToArtifact um u) = u_Phase u" "HasPhase (ToArtifact um u) = (u_Phase u \<noteq> '''')"
  "HasPhaseKey (ToArtifact um u) = (u_Phase u \<noteq> '''')" "ChangeLog (ToArtifact um u) = map logEntryOf (u_ChangeLog u)"
  "DeclaredDomain (ToArtifact um u) = cl_Domain (u_Classification u)"
  by (simp_all add: ToArtifact_def)

lemma import_rule3:
  assumes "checkUnitState u = None" "sv_NoteState (u_StateVector u) = ''''"
  shows "rule3 e (ToArtifact um u) = []"
proof -
  obtain info where i: "statesOk u info" "checkPhase u = None"
    using checkUnitState_ok [OF assms(1)] by metis
  have "v \<in> set (domainValues d (id_Type (u_Identity u)))" if "(d, v) \<in> set (stateMap (u_StateVector u))" for d v
    using state_entry [OF that assms(2)] i(1) unfolding statesOk_def by blast
  moreover have "u_Phase u \<noteq> [] \<Longrightarrow> IsVersionedType (id_Type (u_Identity u)) \<and> u_Phase u \<in> set phaseValues"
    using i(2) by (simp add: checkPhase_def ValidPhaseValue_def split: if_splits)
  ultimately show ?thesis by (auto simp: rule3_def)
qed

lemma import_rule4:
  assumes "checkUnitState u = None" "sv_NoteState (u_StateVector u) = ''''" "id_Type (u_Identity u) \<noteq> ''cmt''"
  shows "rule4 e (ToArtifact um u) = []"
proof -
  obtain info where i: "TypeInfoFor (id_Type (u_Identity u)) = Some info" "statesOk u info"
    by (rule checkUnitState_ok [OF assms(1)])
  note own = owned_import_domains(1) [OF i(1)] owned_import_domains(2) [OF i(1) assms(3)]
  have carried: "List.member (Owned info) d" if "(d, v) \<in> set (stateMap (u_StateVector u))" for d v
  proof -
    from state_entry [OF that assms(2)] have "d \<in> set importDomains" "StateVectorValue u d \<noteq> []" by blast+
    with i(2) show ?thesis by (simp add: statesOk_def)
  qed
  have present: "has_key (stateMap (u_StateVector u)) d" if d: "d \<in> set (Owned info)" for d
  proof -
    have "d \<in> insert DomainNoteState (set importDomains)" using d own(1) unfolding import_domains(2) by (rule rev_subsetD)
    moreover have "d \<noteq> DomainNoteState" using d own(2) by metis
    ultimately have "d \<in> set importDomains" by simp
    then have "StateVectorValue u d \<noteq> []" using d i(2) by (simp add: statesOk_def)
    then show ?thesis using StateVectorValue_of [of u d] assms(2) by (simp add: stateMap_key)
  qed
  have "concat (map (\<lambda>(domain, v). if contains (Owned info) domain then [] else [f domain]) (stateMap (u_StateVector u))) = []" for f :: "string \<Rightarrow> rule_result"
    using carried by (fastforce simp del: contains_iff simp: contains_iff)
  moreover have "concat (map (\<lambda>domain. if has_key (stateMap (u_StateVector u)) domain then [] else [g domain]) (Owned info)) = []" for g :: "string \<Rightarrow> rule_result"
    using present by simp
  ultimately show ?thesis unfolding rule4_def artifact_fields i(1) option.case by simp
qed

lemma import_rule11:
  assumes "checkUnitState u = None"
  shows "rule11 e (ToArtifact um u) = []"
proof (cases "cl_Domain (u_Classification u) = ''''")
  case True then show ?thesis by (simp add: rule11_def)
next
  case False
  have "checkDomain u = None" by (rule checkUnitState_ok [OF assms])
  then have "IsDomain (cl_Domain (u_Classification u))"
    "map_option domain_string (DomainForToken (id_Type (u_Identity u))) = Some (cl_Domain (u_Classification u))"
    using False by (simp_all add: checkDomain_def Let_def)
  then obtain home where "DomainForToken (id_Type (u_Identity u)) = Some home" "domain_string home = cl_Domain (u_Classification u)"
    unfolding map_option_eq_Some by (elim exE conjE)
  then show ?thesis using \<open>IsDomain _\<close> by (simp add: rule11_def)
qed

lemma entriesForDomain_of: "entriesForDomain (map logEntryOf es) d = map logEntryOf (changeLogEntriesFor es d)"
  by (simp add: entriesForDomain_def changeLogEntriesFor_def filter_map comp_def logEntryOf_def)

lemma owned_value:
  assumes "TypeInfoFor (id_Type (u_Identity u)) = Some info" "statesOk u info" "d \<in> set (Owned info)"
    "id_Type (u_Identity u) \<noteq> ''cmt''"
  shows "d \<in> set importDomains \<and> StateVectorValue u d \<noteq> ''''"
proof -
  have "d \<in> insert DomainNoteState (set importDomains)"
    using assms(3) owned_import_domains(1) [OF assms(1)] unfolding import_domains(2) by (rule rev_subsetD)
  moreover have "d \<noteq> DomainNoteState" using assms(3) owned_import_domains(2) [OF assms(1,4)] by metis
  ultimately show ?thesis using assms(2,3) by (simp add: statesOk_def)
qed

definition onlyIllegal :: "rule_result list \<Rightarrow> bool" where
  "onlyIllegal rs = list_all (\<lambda>r. case res_Message r of LogIllegal n d f t \<Rightarrow> True | _ \<Rightarrow> False) rs"

lemma onlyIllegal_concat: "(\<And>x. x \<in> set xs \<Longrightarrow> onlyIllegal (f x)) \<Longrightarrow> onlyIllegal (concat (map f xs))"
  by (auto simp: onlyIllegal_def list_all_iff)

lemma import_rule7_domain:
  assumes "checkLogDomain u d = None" "sv_NoteState (u_StateVector u) = ''''"
  shows "onlyIllegal (rule7Domain (ToArtifact um u) d)"
proof -
  have cur: "(if d = DomainPhase then u_Phase u else get_or (stateMap (u_StateVector u)) d []) =
      (if d = DomainPhase then u_Phase u else StateVectorValue u d)" (is "?c = ?c'")
    using StateVectorValue_of [of u d] assms(2) by simp
  let ?es = "changeLogEntriesFor (u_ChangeLog u) d"
  have "?c' = [] \<or> ?es \<noteq> [] \<and> le_To (last ?es) = ?c'"
    using assms(1) by (auto simp: checkLogDomain_def Let_def split: if_splits)
  moreover have "To (last (map logEntryOf ?es)) = le_To (last ?es)" if "?es \<noteq> []"
    using that by (simp add: last_map logEntryOf_def)
  ultimately show ?thesis
    unfolding rule7Domain_def artifact_fields entriesForDomain_of cur Let_def
    by (auto simp: onlyIllegal_def list_all_iff add_result_def)
qed

lemma import_rule7_entry:
  assumes "checkLogEntry info u (n, e) = None"
  shows "rule7Entry info (ToArtifact um u) (n, logEntryOf e) = []"
proof -
  note c = assms [unfolded checkLogEntry_def Let_def prod.case firstSome_None]
  have k: "le_Domain e = DomainPhase \<or> le_Domain e \<in> set stateFields"
    using c by (auto simp: isKnownStateDomain_iff import_domains(2))
  have "le_Domain e = DomainPhase \<Longrightarrow> IsVersionedType (id_Type (u_Identity u))"
    "le_Domain e \<noteq> DomainPhase \<Longrightarrow> le_Domain e \<in> set (Owned info)"
    "le_From e = ''-'' \<or> le_From e \<in> set (domainValues (le_Domain e) (id_Type (u_Identity u)))"
    "le_To e \<noteq> ''-''" "le_To e \<in> set (domainValues (le_Domain e) (id_Type (u_Identity u)))" "au_Name (le_By e) \<noteq> ''''"
    using c by (simp_all add: ValidStateValue_def)
  then show ?thesis using k by (simp add: rule7Entry_def logEntryOf_def Let_def)
qed

lemma import_rule7:
  assumes "checkUnitState u = None" "sv_NoteState (u_StateVector u) = ''''" "id_Type (u_Identity u) \<noteq> ''cmt''"
  shows "onlyIllegal (rule7 e (ToArtifact um u))"
proof -
  let ?needed = "\<lambda>info. Owned info @ (if u_Phase u \<noteq> '''' then [DomainPhase] else [])"
  obtain info where i: "TypeInfoFor (id_Type (u_Identity u)) = Some info" "statesOk u info"
    "\<forall>d \<in> set (?needed info). checkLogDomain u d = None"
    "\<forall>p \<in> set (zip [1..<length (u_ChangeLog u) + 1] (u_ChangeLog u)). checkLogEntry info u p = None"
    by (rule checkUnitState_ok [OF assms(1)])
  have needed: "neededDomains info (ToArtifact um u) = ?needed info" by (simp add: neededDomains_def)
  have nonempty: "?needed info = []" if "u_ChangeLog u = []"
  proof (rule ccontr)
    assume "?needed info \<noteq> []"
    then obtain d where d: "d \<in> set (?needed info)" by (rule that [OF hd_in_set])
    then have "(if d = DomainPhase then u_Phase u else StateVectorValue u d) \<noteq> []"
      using owned_value [OF i(1,2) _ assms(3), of d] domain_neq by (auto simp: importDomains_def split: if_splits)
    then show False using i(3) d that by (auto simp: checkLogDomain_def Let_def changeLogEntriesFor_def split: if_splits)
  qed
  have entry: "rule7Entry info (ToArtifact um u) p = []"
    if p: "p \<in> set (zip [1..<length (u_ChangeLog u) + 1] (map logEntryOf (u_ChangeLog u)))" for p
  proof -
    from p have "p \<in> (\<lambda>(n, x). (n, logEntryOf x)) ` set (zip [1..<length (u_ChangeLog u) + 1] (u_ChangeLog u))"
      by (simp add: zip_map2 del: upt_Suc)
    then obtain n x where q: "(n, x) \<in> set (zip [1..<length (u_ChangeLog u) + 1] (u_ChangeLog u))" "p = (n, logEntryOf x)"
      by (auto simp del: upt_Suc)
    then show ?thesis using import_rule7_entry i(4) by blast
  qed
  have entries: "concat (map (rule7Entry info (ToArtifact um u)) (zip [1..<length (u_ChangeLog u) + 1] (map logEntryOf (u_ChangeLog u)))) = []"
    using entry by (simp only: concat_eq_Nil_conv set_map) blast
  have domains: "onlyIllegal (concat (map (rule7Domain (ToArtifact um u)) (?needed info)))"
    using i(3) import_rule7_domain assms(2) by (intro onlyIllegal_concat) blast
  show ?thesis
    unfolding rule7_def artifact_fields i(1) option.case Let_def needed length_map entries append_Nil
    using domains nonempty by (simp add: onlyIllegal_def)
qed

section \<open>Properties\<close>

lemma scanRelations_spec:
  "scanRelations rsv prs ws fs =
     (let unresolved = filter (\<lambda>(u, rel). \<not> res_ok (rsv (u_CanonicalIdentityForm u) (rel_Type rel) (rel_Target rel))) prs in
      case find (\<lambda>(u, rel). \<not> res_declared (rsv (u_CanonicalIdentityForm u) (rel_Type rel) (rel_Target rel))) unresolved of
        Some (u, rel) \<Rightarrow> Inl (Undeclared (u_CanonicalIdentityForm u) (rel_Type rel) (rel_Target rel))
      | None \<Rightarrow> Inr (ws @ map warningLine (filter (\<lambda>(u, rel). isDraft u) unresolved),
                    fs @ map failureLine (filter (\<lambda>(u, rel). \<not> isDraft u) unresolved)))"
proof (induction rsv prs ws fs rule: scanRelations.induct)
  case (2 rsv u rel rest ws fs)
  then show ?case by (simp add: Let_def split: option.splits)
qed simp

text \<open>Phase 3 agrees with the rules the repository is validated by: for a unit that is not
  a note and carries no note state, an accepted state block projects to an artifact on which
  Rules 3, 4 and 11 are clean and Rule 7 can only object to the legality of a transition.\<close>

theorem import_states_agree:
  assumes "checkUnitState u = None" and "sv_NoteState (u_StateVector u) = ''''" and "id_Type (u_Identity u) \<noteq> ''cmt''"
  shows "rule3 e (ToArtifact um u) = [] \<and> rule4 e (ToArtifact um u) = [] \<and> rule11 e (ToArtifact um u) = []
    \<and> onlyIllegal (rule7 e (ToArtifact um u))"
  using import_rule3 [OF assms(1,2)] import_rule4 [OF assms] import_rule11 [OF assms(1)] import_rule7 [OF assms] by blast

definition sampleLog :: "UnitLogEntry list" where
  "sampleLog = [\<lparr>le_Date = ''2024-01-01'', le_Domain = ''content-state'', le_From = ''accepted'', le_To = ''proposed'', le_By = User ''a''\<rparr>,
     \<lparr>le_Date = ''2024-01-01'', le_Domain = ''existence-state'', le_From = ''-'', le_To = ''active'', le_By = User ''a''\<rparr>]"

definition sampleLoggedUnit :: Unit where
  "sampleLoggedUnit = sampleUnit\<lparr>u_StateVector := sampleVector\<lparr>sv_ContentState := ''proposed''\<rparr>, u_ChangeLog := sampleLog\<rparr>"

theorem import_states_agree_witness:
  "rule4 (repositoryEngine []) (ToArtifact (\<lambda>s. None) sampleLoggedUnit) = [] \<and> checkUnitState sampleLoggedUnit = None"
proof -
  have ok: "checkUnitState sampleLoggedUnit = None" by code_simp
  have "sv_NoteState (u_StateVector sampleLoggedUnit) = ''''" "id_Type (u_Identity sampleLoggedUnit) \<noteq> ''cmt''" by code_simp+
  from import_states_agree [OF ok this] ok show ?thesis by blast
qed

text \<open>No conformant note can be imported: a unit of the note type whose projection passes
  Rules 4 and 7 is refused by phase 3, since the importer does not know the note-state
  domain its change log must record.\<close>

theorem notes_never_import:
  assumes "id_Type (u_Identity u) = ''cmt''" and "rule4 e (ToArtifact um u) = []" and "rule7 e (ToArtifact um u) = []"
  shows "checkUnitState u \<noteq> None"
proof
  assume ok: "checkUnitState u = None"
  obtain info where i: "TypeInfoFor (id_Type (u_Identity u)) = Some info"
    "\<forall>p \<in> set (zip [1..<length (u_ChangeLog u) + 1] (u_ChangeLog u)). checkLogEntry info u p = None"
    by (rule checkUnitState_ok [OF ok])
  have own: "DomainNoteState \<in> set (Owned info)" using owned_import_domains(3) [OF i(1) assms(1)] .
  then have "has_key (stateMap (u_StateVector u)) DomainNoteState"
    using assms(2) i(1) by (auto simp: rule4_def split: if_splits)
  then have v: "state_of (ToArtifact um u) DomainNoteState \<noteq> ''''" by (simp add: stateMap_key)
  have "rule7Domain (ToArtifact um u) DomainNoteState = []"
    using rule7_NilD(1) [OF assms(3)] i(1) own by (simp add: neededDomains_def)
  then have "changeLogEntriesFor (u_ChangeLog u) DomainNoteState \<noteq> []"
    using v domain_neq unfolding rule7Domain_def artifact_fields entriesForDomain_of Let_def by (auto split: if_splits)
  then obtain x where x: "x \<in> set (u_ChangeLog u)" "le_Domain x = DomainNoteState"
    by (auto simp: changeLogEntriesFor_def filter_empty_conv)
  then obtain k where "k < length (u_ChangeLog u)" "u_ChangeLog u ! k = x" by (auto simp: in_set_conv_nth)
  then have "(k + 1, x) \<in> set (zip [1..<length (u_ChangeLog u) + 1] (u_ChangeLog u))"
    by (auto simp: in_set_zip simp del: upt_Suc intro!: exI [of _ k])
  then have "checkLogEntry info u (k + 1, x) = None" using i(2) by blast
  then have "isKnownStateDomain DomainNoteState" using x(2) by (simp add: checkLogEntry_def Let_def)
  then show False using domain_neq by (simp add: isKnownStateDomain_iff importDomains_def eq_commute [of DomainNoteState])
qed

definition sampleNote :: Unit where
  "sampleNote = sampleUnit\<lparr>u_Identity := sampleIdentity\<lparr>id_Type := ''cmt''\<rparr>,
     u_StateVector := sampleVector\<lparr>sv_NoteState := ''open''\<rparr>,
     u_ChangeLog := map (\<lambda>(d, v). \<lparr>le_Date = ''2024-01-01'', le_Domain = d, le_From = ''-'', le_To = v, le_By = User ''a''\<rparr>)
       [(''content-state'', ''draft''), (''existence-state'', ''active''), (''note-state'', ''open'')]\<rparr>"

theorem notes_never_import_witness: "checkUnitState sampleNote \<noteq> None"
proof -
  have t: "id_Type (u_Identity sampleNote) = ''cmt''" by code_simp
  have "rule4 (repositoryEngine []) (ToArtifact (\<lambda>s. None) sampleNote) = []"
    "rule7 (repositoryEngine []) (ToArtifact (\<lambda>s. None) sampleNote) = []" by code_simp+
  then show ?thesis by (rule notes_never_import [OF t])
qed

text \<open>Reference resolution decides exactly as documented: an unresolved relationship whose
  target is not declared makes the package invalid (the first one is reported); otherwise any
  unresolved relationship of a non-draft unit refuses the import with all of them listed;
  otherwise the import continues with one warning per unresolved relationship.\<close>

lemma reference_check_exact:
  "checkReferences p formExists =
     (let unresolved = filter (\<lambda>(u, rel). rel_Target rel \<notin> u_CanonicalIdentityForm ` set (lp_units p)
            \<and> \<not> formExists (rel_Target rel)) (packageRelations p);
          failing = filter (\<lambda>(u, rel). \<not> isDraft u) unresolved in
      case find (\<lambda>(u, rel). \<not> isDeclared p (u_CanonicalIdentityForm u) (rel_Type rel) (rel_Target rel)) unresolved of
        Some (u, rel) \<Rightarrow> Inl (Undeclared (u_CanonicalIdentityForm u) (rel_Type rel) (rel_Target rel))
      | None \<Rightarrow> if failing = [] then Inr (sort (map warningLine unresolved)) else Inl (Unresolved (sort (map failureLine failing))))"
proof -
  have ok: "res_ok (resolveRelation p formExists s t g) \<longleftrightarrow> g \<in> u_CanonicalIdentityForm ` set (lp_units p) \<or> formExists g"
    "res_declared (resolveRelation p formExists s t g) = isDeclared p s t g" for s t g
    by (auto simp: resolveRelation_def Let_def)
  have drafts: "filter (\<lambda>(u, rel). isDraft u) xs = xs" if "filter (\<lambda>(u, rel). \<not> isDraft u) xs = []" for xs :: "(Unit \<times> Relationship) list"
    using that by (auto simp: filter_empty_conv filter_id_conv)
  show ?thesis
    unfolding checkReferences_def scanRelations_spec ok de_Morgan_disj Let_def
    by (auto simp: drafts simp del: filter_filter split: option.splits)
qed


end
