(* ===== verification/Exchange_Commit.thy ===== *)
theory Exchange_Commit
  imports Exchange_Import
begin

text \<open>
  Phases 6 to 10 of the import (\<open>conflict.go\<close>, \<open>integrate.go\<close>): the verdict on every package
  unit, the dependency-resolved commit order, the write plan, and the repository writer
  with its rollback.  A path is the list of its segments below the repository root; the
  repository is the map of its files and the list of its directories.  The encoders of
  authoring documents and the outcome of an operating system call are arguments.
\<close>

section \<open>Verdicts\<close>

definition stateLabels :: "StateVector \<Rightarrow> string list" where
  "stateLabels sv = sort (map snd (filter (\<lambda>(v, label). v \<noteq> '''')
     [(sv_ContentState sv, ''content-state''), (sv_ExecutionState sv, ''execution-state''),
      (sv_PlanningState sv, ''planning-state''), (sv_ContainerState sv, ''container-state''),
      (sv_ExistenceState sv, ''existence-state''), (sv_NoteState sv, ''note-state'')]))"

definition stateDifference :: "StateVector \<Rightarrow> string" where
  "stateDifference sv = (if stateLabels sv = [] then ''state vector differs''
     else ''state differs (domains: '' @ join_with '', '' (stateLabels sv) @ '')'')"

definition classificationsEqual :: "Classification \<Rightarrow> Classification \<Rightarrow> bool" where
  "classificationsEqual a b = (cl_Dimension a = cl_Dimension b
     \<and> cl_DimensionsSecondary a = cl_DimensionsSecondary b)"

definition unitDifferences :: "Unit \<Rightarrow> Unit \<Rightarrow> string list" where
  "unitDifferences pkgUnit repoUnit =
     (if u_ContentPayload pkgUnit \<noteq> u_ContentPayload repoUnit then [''content differs''] else []) @
     (if u_StateVector pkgUnit \<noteq> u_StateVector repoUnit then [stateDifference (u_StateVector pkgUnit)] else []) @
     (if u_ChangeLog pkgUnit \<noteq> u_ChangeLog repoUnit then [''change log differs''] else []) @
     (if u_Relationships pkgUnit \<noteq> u_Relationships repoUnit then [''relationships differ''] else []) @
     (if \<not> classificationsEqual (u_Classification pkgUnit) (u_Classification repoUnit) then [''classification differs''] else []) @
     (if u_Phase pkgUnit \<noteq> u_Phase repoUnit then [''phase differs''] else []) @
     (if u_Revision pkgUnit \<noteq> u_Revision repoUnit then [''revision differs''] else []) @
     (if u_Author pkgUnit \<noteq> u_Author repoUnit \<or> u_Created pkgUnit \<noteq> u_Created repoUnit
         \<or> u_Updated pkgUnit \<noteq> u_Updated repoUnit
      then [''metadata differs (author/created/updated)''] else [])"

record conflictDetail =
  co_Identity :: string
  co_Differences :: "string list"

record classification =
  c_newUnits :: "Unit list"
  c_duplicateForms :: "string list"
  c_conflicts :: "conflictDetail list"
  c_newAttachments :: "Attachment list"
  c_duplicateAttachment :: "string list"
  c_conflictAttachment :: "conflictDetail list"

datatype fileRead = ReadOk string | ReadMissing | ReadFailed

definition classifyUnits :: "(string \<Rightarrow> Unit option) \<Rightarrow> Unit list \<Rightarrow> Unit list \<times> string list \<times> conflictDetail list" where
  "classifyUnits repoUnit us =
     (filter (\<lambda>u. repoUnit (u_CanonicalIdentityForm u) = None) us,
      map u_CanonicalIdentityForm (filter (\<lambda>u. case repoUnit (u_CanonicalIdentityForm u) of
          None \<Rightarrow> False | Some r \<Rightarrow> unitDifferences u r = []) us),
      List.map_filter (\<lambda>u. case repoUnit (u_CanonicalIdentityForm u) of
          None \<Rightarrow> None
        | Some r \<Rightarrow> if unitDifferences u r = [] then None
            else Some \<lparr>co_Identity = u_CanonicalIdentityForm u, co_Differences = unitDifferences u r\<rparr>) us)"

definition attachmentConflict :: "(string \<Rightarrow> fileRead) \<Rightarrow> Attachment \<Rightarrow> conflictDetail option" where
  "attachmentConflict readFile a = (case readFile (at_ID a) of
       ReadMissing \<Rightarrow> None
     | ReadFailed \<Rightarrow> Some \<lparr>co_Identity = at_ID a, co_Differences = [''target file exists but cannot be read'']\<rparr>
     | ReadOk d \<Rightarrow> if d = at_Data a then None
         else Some \<lparr>co_Identity = at_ID a, co_Differences = [''attachment content differs from the existing target file'']\<rparr>)"

definition classify :: "loadedPackage \<Rightarrow> (string \<Rightarrow> Unit option) \<Rightarrow> (string \<Rightarrow> fileRead) \<Rightarrow> classification" where
  "classify p repoUnit readFile = (case classifyUnits repoUnit (lp_units p) of (news, dups, confl) \<Rightarrow>
     \<lparr>c_newUnits = news, c_duplicateForms = dups, c_conflicts = sort_key co_Identity confl,
      c_newAttachments = filter (\<lambda>a. readFile (at_ID a) = ReadMissing) (lp_attachments p),
      c_duplicateAttachment = map at_ID (filter (\<lambda>a. readFile (at_ID a) = ReadOk (at_Data a)) (lp_attachments p)),
      c_conflictAttachment = sort_key co_Identity (List.map_filter (attachmentConflict readFile) (lp_attachments p))\<rparr>)"

section \<open>The commit order\<close>

text \<open>An edge is a (referrer, target) pair of forms inside the accepted set, one per
  relationship.  \<open>degree\<close> is the map of open in-package targets per form.\<close>

definition packageEdges :: "Unit list \<Rightarrow> (string \<times> string) list" where
  "packageEdges us = concat (map (\<lambda>u. map (\<lambda>r. (u_CanonicalIdentityForm u, rel_Target r))
     (filter (\<lambda>r. List.member (map u_CanonicalIdentityForm us) (rel_Target r)) (u_Relationships u))) us)"

definition referrersOf :: "(string \<times> string) list \<Rightarrow> string \<Rightarrow> string list" where
  "referrersOf edges target = map fst (filter (\<lambda>(f, t). t = target) edges)"

definition initialDegree :: "Unit list \<Rightarrow> (string \<times> int) list" where
  "initialDegree us = map (\<lambda>f. (f, int (length (filter (\<lambda>(g, t). g = f) (packageEdges us)))))
     (remdups (map u_CanonicalIdentityForm us))"

fun decKey :: "(string \<times> int) list \<Rightarrow> string \<Rightarrow> (string \<times> int) list" where
  "decKey [] k = [(k, -1)]"
| "decKey ((k', v) # m) k = (if k' = k then (k', v - 1) # m else (k', v) # decKey m k)"

definition delKey :: "(string \<times> int) list \<Rightarrow> string \<Rightarrow> (string \<times> int) list" where
  "delKey m k = filter (\<lambda>(k', v). k' \<noteq> k) m"

definition readyForms :: "(string \<times> int) list \<Rightarrow> string list" where
  "readyForms m = sort (map fst (filter (\<lambda>(f, deg). deg = 0) m))"

text \<open>The forms of one round: the ready ones, or the smallest open one to break a cycle.\<close>

definition roundForms :: "(string \<times> int) list \<Rightarrow> string list" where
  "roundForms m = (if readyForms m \<noteq> [] then readyForms m
     else take 1 (sort (map fst (filter (\<lambda>(f, deg). deg > 0) m))))"

definition emitForm :: "(string \<times> string) list \<Rightarrow> (string \<times> int) list \<times> string list \<Rightarrow> string \<Rightarrow> (string \<times> int) list \<times> string list" where
  "emitForm edges s form = (case s of (m, ord) \<Rightarrow>
     (delKey (foldl decKey m (referrersOf edges form)) form, ord @ [form]))"

text \<open>The loop; the bound \<open>n\<close> is the number of accepted units and is also the fuel, since
  every round emits at least one form.\<close>

fun orderLoop :: "nat \<Rightarrow> nat \<Rightarrow> (string \<times> string) list \<Rightarrow> (string \<times> int) list \<times> string list \<Rightarrow> string list" where
  "orderLoop 0 n edges s = snd s"
| "orderLoop (Suc k) n edges s =
     (if length (snd s) \<ge> n then snd s
      else if roundForms (fst s) = [] then snd s
      else orderLoop k n edges (foldl (emitForm edges) s (roundForms (fst s))))"

definition commitForms :: "Unit list \<Rightarrow> string list" where
  "commitForms us = orderLoop (length us) (length us) (packageEdges us) (initialDegree us, [])"

definition commitOrder :: "Unit list \<Rightarrow> Unit list" where
  "commitOrder us = List.map_filter (\<lambda>f. find (\<lambda>u. u_CanonicalIdentityForm u = f) (rev us)) (commitForms us)"

section \<open>Repository paths\<close>

definition folderForType :: "string \<Rightarrow> string list" where
  "folderForType t = get_or (
     [(''vis'', [''docs'', ''intent'']), (''str'', [''docs'', ''intent'']), (''req'', [''docs'', ''requirements'']),
      (''arc'', [''docs'', ''architecture'']), (''adr'', [''docs'', ''decisions'']), (''dec'', [''docs'', ''decisions'']),
      (''spec'', [''docs'', ''specifications'']), (''std'', [''docs'', ''standards'']), (''run'', [''docs'', ''operations'']),
      (''rvw'', [''docs'', ''quality'']), (''scp'', [''docs'', ''planning'']), (''epc'', [''docs'', ''planning'']),
      (''plan'', [''docs'', ''planning'']), (''trc'', [''docs'', ''planning'']), (''rel'', [''docs'', ''records'']),
      (''shr'', [''docs'', ''records'']), (''fnd'', [''docs'', ''research'']), (''gls'', [''docs'', ''vocabulary'']),
      (''sto'', [''docs'', ''operating'', ''work-items'', ''stories'']),
      (''ts'', [''docs'', ''operating'', ''work-items'', ''technical-stories'']),
      (''bug'', [''docs'', ''operating'', ''work-items'', ''bugs'']),
      (''td'', [''docs'', ''operating'', ''work-items'', ''tech-debt'']),
      (''ch'', [''docs'', ''operating'', ''work-items'', ''chores'']),
      (''spk'', [''docs'', ''operating'', ''work-items'', ''spikes'']),
      (''ctr'', [''docs'', ''operating'', ''containers'']), (''ses'', [''docs'', ''operating'', ''sessions'']),
      (''tkt'', [''docs'', ''operating'', ''projections''])]) t []"

definition dimensionOfFolder :: "string list \<Rightarrow> string" where
  "dimensionOfFolder folder = (case folder of
       [a, b] \<Rightarrow> if a = ''docs'' \<and> List.member [''intent'', ''requirements'', ''architecture'', ''decisions'', ''specifications'',
          ''standards'', ''operations'', ''quality'', ''planning'', ''records'', ''research'', ''vocabulary''] b then b else ''''
     | _ \<Rightarrow> '''')"

definition unitFileName :: "Unit \<Rightarrow> string" where
  "unitFileName u =
     (let i = u_Identity u;
          base = id_Type i @ ''-'' @ id_ID i @ (if IsVersionedType (id_Type i) then ''-v'' @ itoa (id_InstanceVersion i) else '''') in
      if cr_Representation (u_Content u) = StructuredJSON then base @ ''.json'' else base @ ''.md'')"

datatype plan_error =
    NoFolder string string
  | FolderDimension string string string
  | TargetExists string "string list"
  | TargetUnknown string
  | AuthoringTarget target_error

definition unitFilePath :: "Unit \<Rightarrow> plan_error + string list" where
  "unitFilePath u =
     (let t = id_Type (u_Identity u); folder = folderForType t in
      if folder = [] then Inl (NoFolder (u_CanonicalIdentityForm u) t)
      else if (case TypeInfoFor t of None \<Rightarrow> False | Some info \<Rightarrow> IsKnowledge info)
          \<and> cl_Dimension (u_Classification u) \<noteq> dimensionOfFolder folder
        then Inl (FolderDimension (u_CanonicalIdentityForm u) (cl_Dimension (u_Classification u)) (dimensionOfFolder folder))
      else Inr (folder @ [unitFileName u]))"

text \<open>Two known types, notes and members, have no folder.\<close>

lemma folderForType_missing:
  "filter (\<lambda>t. folderForType t = []) (map fst typeTokens) = [''cmt'', ''mbr'']"
  by code_simp

section \<open>Authoring documents\<close>

record frontmatter =
  fm_Identity :: Identity
  fm_Revision :: int
  fm_States :: "string gomap"
  fm_Dimension :: string
  fm_DimensionsSecondary :: "string list"
  fm_Author :: AuthorIdentity
  fm_Created :: string
  fm_Updated :: string
  fm_Relations :: "string list gomap"
  fm_Phase :: string
  fm_ChangeLog :: "UnitLogEntry list"

record jsonLogEntry =
  jl_Date :: string
  jl_Domain :: string
  jl_From :: string
  jl_To :: string
  jl_By :: AuthorIdentity

record jsonAuthoring =
  ja_Identity :: Identity
  ja_Revision :: int
  ja_Author :: AuthorIdentity
  ja_Created :: string
  ja_Updated :: string
  ja_State :: "string gomap"
  ja_Dimension :: string
  ja_DimensionsSecondary :: "string list"
  ja_Domain :: string
  ja_Phase :: string
  ja_Relationships :: "string list gomap"
  ja_ChangeLog :: "jsonLogEntry list"
  ja_Content :: string

fun repoReferences :: "string \<Rightarrow> Relationship list \<Rightarrow> target_error + (string \<times> string) list" where
  "repoReferences ns [] = Inr []"
| "repoReferences ns (r # rs) =
     (case canonicalToRepoReference (rel_Target r) ns of
        Inl err \<Rightarrow> Inl err
      | Inr ref \<Rightarrow> (case repoReferences ns rs of Inl err \<Rightarrow> Inl err | Inr refs \<Rightarrow> Inr ((rel_Type r, ref) # refs)))"

definition groupByKey :: "(string \<times> string) list \<Rightarrow> string list gomap" where
  "groupByKey ps = map (\<lambda>k. (k, map snd (filter (\<lambda>(k', v). k' = k) ps))) (remdups (map fst ps))"

definition jsonStates :: "StateVector \<Rightarrow> string gomap" where
  "jsonStates sv = filter (\<lambda>(k, v). v \<noteq> '''')
     [(''contentState'', sv_ContentState sv), (''executionState'', sv_ExecutionState sv),
      (''planningState'', sv_PlanningState sv), (''containerState'', sv_ContainerState sv),
      (''existenceState'', sv_ExistenceState sv)]"

text \<open>The frontmatter struct has one field per relationship type it knows, in this order; a
  relationship of another type has no field.\<close>

definition frontmatterRelations :: "string list" where
  "frontmatterRelations = [''amends'', ''supersedes'', ''derives-from'', ''depends-on'', ''validates'']"

definition frontmatterStates :: "StateVector \<Rightarrow> string gomap" where
  "frontmatterStates sv = filter (\<lambda>(k, v). v \<noteq> '''')
     [(''content-state'', sv_ContentState sv), (''execution-state'', sv_ExecutionState sv),
      (''planning-state'', sv_PlanningState sv), (''container-state'', sv_ContainerState sv),
      (''existence-state'', sv_ExistenceState sv)]"

definition buildFrontmatter :: "Unit \<Rightarrow> target_error + frontmatter" where
  "buildFrontmatter u =
     (case repoReferences (id_Namespace (u_Identity u)) (u_Relationships u) of
        Inl err \<Rightarrow> Inl err
      | Inr refs \<Rightarrow> Inr \<lparr>fm_Identity = u_Identity u, fm_Revision = u_Revision u,
          fm_States = frontmatterStates (u_StateVector u), fm_Dimension = cl_Dimension (u_Classification u),
          fm_DimensionsSecondary = cl_DimensionsSecondary (u_Classification u), fm_Author = u_Author u,
          fm_Created = u_Created u, fm_Updated = u_Updated u,
          fm_Relations = filter (\<lambda>(t, rs). rs \<noteq> []) (map (\<lambda>t. (t, get_or (groupByKey refs) t [])) frontmatterRelations),
          fm_Phase = u_Phase u, fm_ChangeLog = u_ChangeLog u\<rparr>)"

definition buildJSONAuthoring :: "Unit \<Rightarrow> target_error + jsonAuthoring" where
  "buildJSONAuthoring u =
     (case repoReferences (id_Namespace (u_Identity u)) (u_Relationships u) of
        Inl err \<Rightarrow> Inl err
      | Inr refs \<Rightarrow> Inr \<lparr>ja_Identity = u_Identity u, ja_Revision = u_Revision u, ja_Author = u_Author u,
          ja_Created = u_Created u, ja_Updated = u_Updated u, ja_State = jsonStates (u_StateVector u),
          ja_Dimension = cl_Dimension (u_Classification u),
          ja_DimensionsSecondary = cl_DimensionsSecondary (u_Classification u),
          ja_Domain = cl_Domain (u_Classification u), ja_Phase = u_Phase u,
          ja_Relationships = groupByKey (map (\<lambda>(t, ref). (StateKeyCamel t, ref)) refs),
          ja_ChangeLog = map (\<lambda>e. \<lparr>jl_Date = le_Date e, jl_Domain = StateKeyCamel (le_Domain e), jl_From = le_From e,
            jl_To = le_To e, jl_By = le_By e\<rparr>) (u_ChangeLog u),
          ja_Content = u_ContentPayload u\<rparr>)"

section \<open>The commit order: lemmas\<close>

definition openTargets :: "(string \<times> string) list \<Rightarrow> string list \<Rightarrow> string \<Rightarrow> int" where
  "openTargets edges ord f = int (length (filter (\<lambda>(g, t). g = f \<and> t \<notin> set ord) edges))"

text \<open>Every open form carries the number of its open targets; an emitted form left behind
  by the cycle tie-break carries a negative number and is never taken again.\<close>

definition orderInv :: "(string \<times> string) list \<Rightarrow> string set \<Rightarrow> (string \<times> int) list \<times> string list \<Rightarrow> bool" where
  "orderInv edges forms s = (case s of (m, ord) \<Rightarrow>
     distinct ord \<and> set ord \<subseteq> forms \<and> distinct (map fst m) \<and> fst ` set m \<subseteq> forms \<and>
     (\<forall>f\<in>forms - set ord. map_of m f = Some (openTargets edges ord f)) \<and>
     (\<forall>f\<in>set ord. \<forall>v. map_of m f = Some v \<longrightarrow> v < 0))"

lemma map_of_decKey:
  "map_of (decKey m k) k' = (if k' = k then Some (case map_of m k of None \<Rightarrow> -1 | Some v \<Rightarrow> v - 1) else map_of m k')"
  by (induction m k rule: decKey.induct) auto

lemma keys_decKey: "fst ` set (decKey m k) = insert k (fst ` set m)"
  by (induction m k rule: decKey.induct) auto

lemma distinct_decKey: "distinct (map fst m) \<Longrightarrow> distinct (map fst (decKey m k))"
proof (induction m k rule: decKey.induct)
  case (2 k' v m k)
  have "fst ` set (decKey m k) = insert k (fst ` set m)" by (rule keys_decKey)
  with 2 show ?case by auto
qed simp

lemma keys_foldl_decKey: "fst ` set (foldl decKey m ks) = fst ` set m \<union> set ks"
  by (induction ks arbitrary: m) (auto simp: keys_decKey)

lemma distinct_foldl_decKey: "distinct (map fst m) \<Longrightarrow> distinct (map fst (foldl decKey m ks))"
  by (induction ks arbitrary: m) (auto simp: distinct_decKey)

lemma map_of_foldl_decKey:
  "map_of (foldl decKey m ks) k = (case map_of m k of
      Some v \<Rightarrow> Some (v - int (count_list ks k))
    | None \<Rightarrow> if k \<in> set ks then Some (- int (count_list ks k)) else None)"
proof (induction ks arbitrary: m)
  case (Cons a ks)
  show ?case
    by (auto simp: Cons.IH map_of_decKey count_list_0_iff split: option.splits)
qed (simp split: option.splits)

lemma map_of_delKey: "map_of (delKey m k) k' = (if k' = k then None else map_of m k')"
  unfolding delKey_def by (induction m) auto

lemma keys_delKey: "fst ` set (delKey m k) = fst ` set m - {k}"
  unfolding delKey_def by force

lemma distinct_delKey: "distinct (map fst m) \<Longrightarrow> distinct (map fst (delKey m k))"
  unfolding delKey_def by (induction m) auto

lemma count_referrersOf:
  "count_list (referrersOf edges t) f = length (filter (\<lambda>(g, u). g = f \<and> u = t) edges)"
  unfolding referrersOf_def by (induction edges) auto

lemma openTargets_emit:
  assumes "t \<notin> set ord"
  shows "openTargets edges (ord @ [t]) f = openTargets edges ord f - int (count_list (referrersOf edges t) f)"
  unfolding openTargets_def count_referrersOf using assms by (induction edges) (auto split: if_splits)

lemma emitForm_inv:
  assumes inv: "orderInv edges forms (m, ord)" and f: "f \<in> forms" "f \<notin> set ord"
    and edges: "fst ` set edges \<subseteq> forms"
  shows "orderInv edges forms (emitForm edges (m, ord) f)"
proof -
  let ?rs = "referrersOf edges f"
  let ?m = "delKey (foldl decKey m ?rs) f"
  have rs: "set ?rs \<subseteq> forms" using edges unfolding referrersOf_def by auto
  have opens: "map_of ?m g = Some (openTargets edges (ord @ [f]) g)" if "g \<in> forms - set (ord @ [f])" for g
  proof -
    from that inv have "map_of m g = Some (openTargets edges ord g)" unfolding orderInv_def by auto
    with that show ?thesis
      by (auto simp: map_of_delKey map_of_foldl_decKey openTargets_emit [OF f(2)])
  qed
  have closed: "v < 0" if "g \<in> set (ord @ [f])" "map_of ?m g = Some v" for g v
  proof (cases "g = f")
    case True with that show ?thesis by (simp add: map_of_delKey)
  next
    case False
    with that have "g \<in> set ord" and v: "map_of (foldl decKey m ?rs) g = Some v" by (auto simp: map_of_delKey)
    have w: "w < 0" if "map_of m g = Some w" for w
      using inv \<open>g \<in> set ord\<close> that unfolding orderInv_def by auto
    have pos: "int (count_list ?rs g) > 0" if "g \<in> set ?rs"
      using that count_list_0_iff [of ?rs g] by simp
    show ?thesis
      using v w pos by (cases "map_of m g") (auto simp: map_of_foldl_decKey split: if_splits dest: w)
  qed
  have keys: "fst ` set ?m \<subseteq> forms"
    using inv rs unfolding orderInv_def by (auto simp: keys_delKey keys_foldl_decKey)
  have "distinct (map fst ?m)"
    using inv unfolding orderInv_def by (auto simp: distinct_delKey distinct_foldl_decKey)
  moreover have "distinct (ord @ [f])" "set (ord @ [f]) \<subseteq> forms" using inv f unfolding orderInv_def by auto
  ultimately show ?thesis
    using keys opens closed unfolding emitForm_def orderInv_def by simp
qed

lemma emitForms_snd: "snd (foldl (emitForm edges) s fs) = snd s @ fs"
  by (induction fs arbitrary: s) (auto simp: emitForm_def split: prod.splits)

lemma emitForms_inv:
  assumes "orderInv edges forms s" "fst ` set edges \<subseteq> forms"
    "distinct fs" "set fs \<subseteq> forms - set (snd s)"
  shows "orderInv edges forms (foldl (emitForm edges) s fs)"
  using assms
proof (induction fs arbitrary: s)
  case (Cons f fs)
  obtain m ord where s: "s = (m, ord)" by (cases s)
  have step: "orderInv edges forms (emitForm edges s f)"
    unfolding s by (rule emitForm_inv) (use Cons.prems s in auto)
  have "snd (emitForm edges s f) = ord @ [f]" unfolding s emitForm_def by simp
  with Cons.prems s step show ?case by (auto intro!: Cons.IH)
qed simp

lemma distinct_fst_filter: "distinct (map fst m) \<Longrightarrow> distinct (map fst (filter P m))"
  by (induction m) auto

lemma readyForms_iff: "distinct (map fst m) \<Longrightarrow> f \<in> set (readyForms m) \<longleftrightarrow> map_of m f = Some 0"
  unfolding readyForms_def by force

lemma roundForms_open:
  assumes inv: "orderInv edges forms (m, ord)"
  shows "distinct (roundForms m)" and "set (roundForms m) \<subseteq> forms - set ord"
proof -
  have d: "distinct (map fst m)" using inv unfolding orderInv_def by simp
  have "distinct (sort (map fst (filter P m)))" for P
    by (simp add: distinct_fst_filter [OF d])
  then show "distinct (roundForms m)" unfolding roundForms_def readyForms_def
    by simp
  show "set (roundForms m) \<subseteq> forms - set ord"
  proof
    fix f assume f: "f \<in> set (roundForms m)"
    have "\<exists>v. (f, v) \<in> set m \<and> v \<ge> 0"
    proof (cases "readyForms m = []")
      case True
      with f have "f \<in> set (take 1 (sort (map fst (filter (\<lambda>(f, deg). deg > 0) m))))"
        unfolding roundForms_def by simp
      then have "f \<in> set (sort (map fst (filter (\<lambda>(f, deg). deg > 0) m)))" by (rule in_set_takeD)
      then have "\<exists>v. (f, v) \<in> set m \<and> v > 0" by auto
      then show ?thesis by (metis less_imp_le)
    next
      case False
      with f have "f \<in> set (readyForms m)" unfolding roundForms_def by simp
      then have "(f, 0) \<in> set m" unfolding readyForms_def by auto
      then show ?thesis by blast
    qed
    then obtain v where v: "(f, v) \<in> set m" "v \<ge> 0" by blast
    have m: "map_of m f = Some v" using map_of_is_SomeI [OF d v(1)] .
    have "f \<in> fst ` set m" using v(1) by (rule rev_image_eqI) simp
    then have "f \<in> forms" using inv unfolding orderInv_def by auto
    moreover have "f \<notin> set ord"
    proof
      assume "f \<in> set ord"
      with inv m have "v < 0" unfolding orderInv_def by simp
      with v(2) show False by simp
    qed
    ultimately show "f \<in> forms - set ord" by simp
  qed
qed

lemma roundForms_progress:
  assumes inv: "orderInv edges forms (m, ord)" and f: "f \<in> forms - set ord"
  shows "roundForms m \<noteq> []"
proof -
  have d: "distinct (map fst m)" using inv unfolding orderInv_def by simp
  from inv f have m: "map_of m f = Some (openTargets edges ord f)" unfolding orderInv_def by simp
  show ?thesis
  proof (cases "openTargets edges ord f = 0")
    case True
    with m d have "f \<in> set (readyForms m)" by (simp add: readyForms_iff)
    then show ?thesis unfolding roundForms_def by auto
  next
    case False
    then have "openTargets edges ord f > 0" unfolding openTargets_def by simp
    with m have "(f, openTargets edges ord f) \<in> set (filter (\<lambda>(g, deg). deg > 0) m)" by (auto dest: map_of_SomeD)
    then have "sort (map fst (filter (\<lambda>(g, deg). deg > 0) m)) \<noteq> []"
      by (metis empty_iff length_0_conv length_map length_sort list.set(1))
    then show ?thesis unfolding roundForms_def by simp
  qed
qed

lemma orderInv_length: "orderInv edges forms (m, ord) \<Longrightarrow> finite forms \<Longrightarrow> length ord \<le> card forms"
  unfolding orderInv_def by (auto dest: card_mono simp flip: distinct_card)

lemma orderInv_full:
  assumes "orderInv edges forms (m, ord)" "finite forms" "card forms \<le> length ord"
  shows "distinct ord" and "set ord = forms"
proof -
  show d: "distinct ord" using assms(1) unfolding orderInv_def by simp
  have "set ord \<subseteq> forms" using assms(1) unfolding orderInv_def by simp
  moreover have "card (set ord) = length ord" using d by (rule distinct_card)
  ultimately show "set ord = forms" using assms(2,3) by (metis card_seteq)
qed

text \<open>\<open>k\<close> rounds are enough when no more than \<open>k\<close> forms are open.\<close>

lemma orderLoop_complete:
  assumes "finite forms" "fst ` set edges \<subseteq> forms" "orderInv edges forms s"
    "card forms \<le> length (snd s) + k"
  shows "distinct (orderLoop k (card forms) edges s) \<and> set (orderLoop k (card forms) edges s) = forms"
  using assms(3,4)
proof (induction k arbitrary: s)
  case 0
  obtain m ord where s: "s = (m, ord)" by (cases s)
  from 0 assms(1) show ?case unfolding s by (auto dest: orderInv_full)
next
  case (Suc k)
  obtain m ord where s: "s = (m, ord)" by (cases s)
  note inv = Suc.prems(1) [unfolded s]
  show ?case
  proof (cases "card forms \<le> length ord")
    case True
    with orderInv_full [OF inv assms(1)] show ?thesis unfolding s by simp
  next
    case False
    have "\<not> forms \<subseteq> set ord"
      using False by (metis List.finite_set card_length card_mono le_trans)
    then obtain f where "f \<in> forms - set ord" by blast
    with inv have ne: "roundForms m \<noteq> []" by (rule roundForms_progress)
    let ?s = "foldl (emitForm edges) (m, ord) (roundForms m)"
    have inv': "orderInv edges forms ?s"
      by (rule emitForms_inv [OF inv assms(2)]) (use roundForms_open [OF inv] in auto)
    have "length (snd ?s) \<ge> Suc (length ord)"
      using ne by (simp add: emitForms_snd Suc_le_eq)
    with Suc.prems(2) s have "card forms \<le> length (snd ?s) + k" by simp
    with inv' have "distinct (orderLoop k (card forms) edges ?s) \<and> set (orderLoop k (card forms) edges ?s) = forms"
      by (rule Suc.IH)
    with False ne show ?thesis unfolding s by simp
  qed
qed

text \<open>Targets come first when a rank falls along every edge: the open form of least rank is
  then ready, so the tie-break is never used.\<close>

definition targetsFirst :: "(string \<times> string) list \<Rightarrow> string list \<Rightarrow> bool" where
  "targetsFirst edges ord = (\<forall>i<length ord. \<forall>(f, t)\<in>set edges. f = ord ! i \<longrightarrow> t \<in> set (take i ord))"

lemma targetsFirst_append:
  assumes "targetsFirst edges ord" "\<And>f t. (f, t) \<in> set edges \<Longrightarrow> f \<in> set fs \<Longrightarrow> t \<in> set ord"
  shows "targetsFirst edges (ord @ fs)"
  unfolding targetsFirst_def
proof (intro allI impI ballI, clarify)
  fix i t assume i: "i < length (ord @ fs)" and e: "((ord @ fs) ! i, t) \<in> set edges"
  show "t \<in> set (take i (ord @ fs))"
  proof (cases "i < length ord")
    case True
    with assms(1) e show ?thesis unfolding targetsFirst_def by (fastforce simp: nth_append)
  next
    case False
    with i have "(ord @ fs) ! i \<in> set fs" by (auto simp: nth_append)
    with assms(2) e have "t \<in> set ord" by blast
    with False show ?thesis by simp
  qed
qed

lemma ready_targets:
  assumes inv: "orderInv edges forms (m, ord)" and f: "f \<in> set (readyForms m)" and e: "(f, t) \<in> set edges"
  shows "t \<in> set ord"
proof -
  have d: "distinct (map fst m)" using inv unfolding orderInv_def by simp
  from f d have m: "map_of m f = Some 0" by (simp add: readyForms_iff)
  have "f \<in> fst ` set m" using map_of_SomeD [OF m] by (rule rev_image_eqI) simp
  then have "f \<in> forms" using inv unfolding orderInv_def by auto
  moreover have "f \<notin> set ord"
  proof
    assume "f \<in> set ord"
    with inv m have "(0::int) < 0" unfolding orderInv_def prod.case by blast
    then show False by simp
  qed
  ultimately have "map_of m f = Some (openTargets edges ord f)" using inv unfolding orderInv_def by simp
  with m have "filter (\<lambda>(g, t). g = f \<and> t \<notin> set ord) edges = []" unfolding openTargets_def by simp
  with e show ?thesis by (auto simp: filter_empty_conv)
qed

lemma acyclic_ready:
  fixes rank :: "string \<Rightarrow> nat"
  assumes inv: "orderInv edges forms (m, ord)" and open_f: "f \<in> forms - set ord"
    and rank: "\<And>f t. (f, t) \<in> set edges \<Longrightarrow> rank t < rank f" and targets: "snd ` set edges \<subseteq> forms"
  shows "readyForms m \<noteq> []"
proof -
  define g where "g = arg_min rank (\<lambda>f. f \<in> forms - set ord)"
  have g: "g \<in> forms - set ord" unfolding g_def by (rule arg_min_natI) (rule open_f)
  have least: "rank g \<le> rank h" if "h \<in> forms - set ord" for h
    unfolding g_def by (rule arg_min_nat_le) (rule that)
  have "t \<in> set ord" if e: "(g, t) \<in> set edges" for t
  proof -
    have "t \<in> snd ` set edges" using e by (rule rev_image_eqI) simp
    with targets have "t \<in> forms" by blast
    with rank [OF e] least [of t] show ?thesis by force
  qed
  then have "openTargets edges ord g = 0" unfolding openTargets_def by (auto simp: filter_empty_conv)
  with inv g have "map_of m g = Some 0" unfolding orderInv_def by simp
  moreover have "distinct (map fst m)" using inv unfolding orderInv_def by simp
  ultimately have "g \<in> set (readyForms m)" by (simp add: readyForms_iff)
  then show ?thesis by auto
qed

lemma orderLoop_targetsFirst:
  fixes rank :: "string \<Rightarrow> nat"
  assumes edges: "fst ` set edges \<subseteq> forms" "snd ` set edges \<subseteq> forms" and fin: "finite forms"
    and rank: "\<And>f t. (f, t) \<in> set edges \<Longrightarrow> rank t < rank f"
  shows "orderInv edges forms s \<Longrightarrow> targetsFirst edges (snd s) \<Longrightarrow> targetsFirst edges (orderLoop k (card forms) edges s)"
proof (induction k arbitrary: s)
  case (Suc k)
  obtain m ord where s: "s = (m, ord)" by (cases s)
  note inv = Suc.prems(1) [unfolded s]
  show ?case
  proof (cases "card forms \<le> length ord \<or> roundForms m = []")
    case True
    with Suc.prems s show ?thesis by auto
  next
    case False
    then have "\<not> forms \<subseteq> set ord" by (metis List.finite_set card_length card_mono le_trans)
    then obtain f where "f \<in> forms - set ord" by blast
    with inv have ready: "readyForms m \<noteq> []" by (rule acyclic_ready) (use rank edges in auto)
    then have r: "roundForms m = readyForms m" unfolding roundForms_def by simp
    let ?s = "foldl (emitForm edges) (m, ord) (roundForms m)"
    have "orderInv edges forms ?s"
      by (rule emitForms_inv [OF inv edges(1)]) (use roundForms_open [OF inv] in auto)
    moreover have "targetsFirst edges (snd ?s)"
      unfolding emitForms_snd snd_conv
      by (rule targetsFirst_append) (use Suc.prems s r ready_targets [OF inv] in auto)
    ultimately have "targetsFirst edges (orderLoop k (card forms) edges ?s)" by (rule Suc.IH)
    with False s show ?thesis by auto
  qed
qed simp

lemma packageEdges_forms:
  "fst ` set (packageEdges us) \<subseteq> u_CanonicalIdentityForm ` set us"
  "snd ` set (packageEdges us) \<subseteq> u_CanonicalIdentityForm ` set us"
  unfolding packageEdges_def by auto

lemma packageEdges_iff:
  "(f, t) \<in> set (packageEdges us) \<longleftrightarrow>
     t \<in> u_CanonicalIdentityForm ` set us \<and>
     (\<exists>u\<in>set us. u_CanonicalIdentityForm u = f \<and> (\<exists>r\<in>set (u_Relationships u). rel_Target r = t))"
  unfolding packageEdges_def by (fastforce simp: image_iff)

lemma orderInv_initial:
  "orderInv (packageEdges us) (u_CanonicalIdentityForm ` set us) (initialDegree us, [])"
proof -
  have "map_of (map (\<lambda>f. (f, c f)) fs) f = (if f \<in> set fs then Some (c f) else None)" for c :: "string \<Rightarrow> int" and fs f
    by (induction fs) auto
  then show ?thesis
    unfolding orderInv_def initialDegree_def openTargets_def by (auto simp: comp_def)
qed

lemma card_forms: "distinct (map u_CanonicalIdentityForm us) \<Longrightarrow> card (u_CanonicalIdentityForm ` set us) = length us"
  by (metis distinct_card length_map set_map)

lemma commitForms_complete:
  assumes "distinct (map u_CanonicalIdentityForm us)"
  shows "distinct (commitForms us)" and "set (commitForms us) = u_CanonicalIdentityForm ` set us"
  using orderLoop_complete [OF _ packageEdges_forms(1) orderInv_initial, of us "length us"]
  unfolding commitForms_def card_forms [OF assms] by auto

lemma commitOrder_map:
  assumes "distinct (map u_CanonicalIdentityForm us)"
  shows "map u_CanonicalIdentityForm (commitOrder us) = commitForms us" and "set (commitOrder us) = set us"
proof -
  have found: "find (\<lambda>v. u_CanonicalIdentityForm v = u_CanonicalIdentityForm u) (rev us) = Some u" if u: "u \<in> set us" for u
  proof -
    obtain w where w: "find (\<lambda>v. u_CanonicalIdentityForm v = u_CanonicalIdentityForm u) (rev us) = Some w"
      using u by (cases "find (\<lambda>v. u_CanonicalIdentityForm v = u_CanonicalIdentityForm u) (rev us)") (auto simp: find_None_iff)
    then have "w \<in> set (rev us)" "u_CanonicalIdentityForm w = u_CanonicalIdentityForm u"
      unfolding find_Some_iff using nth_mem [of _ "rev us"] by auto
    with u assms have "w = u" unfolding set_rev by (auto simp: distinct_map inj_on_def)
    with w show ?thesis by simp
  qed
  have fs: "set (commitForms us) = u_CanonicalIdentityForm ` set us" by (rule commitForms_complete(2) [OF assms])
  let ?units = "List.map_filter (\<lambda>f. find (\<lambda>u. u_CanonicalIdentityForm u = f) (rev us))"
  have "map u_CanonicalIdentityForm (?units fs) = fs \<and> set (?units fs) \<subseteq> set us"
    if "set fs \<subseteq> u_CanonicalIdentityForm ` set us" for fs
    using that by (induction fs) (auto simp: found)
  then have m: "map u_CanonicalIdentityForm (commitOrder us) = commitForms us" "set (commitOrder us) \<subseteq> set us"
    unfolding commitOrder_def using fs by auto
  show "map u_CanonicalIdentityForm (commitOrder us) = commitForms us" by (rule m(1))
  show "set (commitOrder us) = set us"
  proof
    show "set us \<subseteq> set (commitOrder us)"
    proof
      fix u assume u: "u \<in> set us"
      then have "u_CanonicalIdentityForm u \<in> u_CanonicalIdentityForm ` set (commitOrder us)"
        using fs m(1) by (metis image_eqI image_set)
      then obtain w where "w \<in> set (commitOrder us)" "u_CanonicalIdentityForm u = u_CanonicalIdentityForm w" by auto
      moreover from this m(2) u assms have "u = w" by (auto simp: distinct_map inj_on_def)
      ultimately show "u \<in> set (commitOrder us)" by simp
    qed
  qed (rule m(2))
qed

lemma commitOrder_mset:
  assumes "distinct (map u_CanonicalIdentityForm us)"
  shows "mset (commitOrder us) = mset us"
proof -
  have "distinct (commitOrder us)"
    using commitOrder_map(1) [OF assms] commitForms_complete(1) [OF assms] distinct_map by metis
  moreover have "distinct us" using assms by (simp add: distinct_map)
  ultimately show ?thesis using commitOrder_map(2) [OF assms] by (simp add: set_eq_iff_mset_eq_distinct)
qed

text \<open>The commit order of a package whose units have distinct forms (which phase 2 checks)
  is a permutation of its accepted units: Kahn's loop never runs out of rounds, drops no
  unit and repeats none, cycles and self references included.\<close>
theorem commit_order_permutation:
  assumes "distinct (map u_CanonicalIdentityForm us)"
  shows "mset (commitOrder us) = mset us"
  using assms by (rule commitOrder_mset)

text \<open>When the relationships inside the package have no cycle (some rank falls from every
  unit to the units it refers to), every unit is committed after all its in-package targets.\<close>
theorem commit_order_targets_first:
  fixes rank :: "string \<Rightarrow> nat"
  assumes distinct: "distinct (map u_CanonicalIdentityForm us)"
    and rank: "\<And>u r. u \<in> set us \<Longrightarrow> r \<in> set (u_Relationships u) \<Longrightarrow>
       rel_Target r \<in> u_CanonicalIdentityForm ` set us \<Longrightarrow> rank (rel_Target r) < rank (u_CanonicalIdentityForm u)"
    and i: "i < length (commitOrder us)" and r: "r \<in> set (u_Relationships (commitOrder us ! i))"
    and target: "rel_Target r \<in> u_CanonicalIdentityForm ` set us"
  shows "\<exists>j<i. u_CanonicalIdentityForm (commitOrder us ! j) = rel_Target r"
proof -
  let ?o = "commitOrder us"
  have falls: "rank t < rank f" if "(f, t) \<in> set (packageEdges us)" for f t
  proof -
    from that obtain u r where "t \<in> u_CanonicalIdentityForm ` set us" "u \<in> set us"
      "u_CanonicalIdentityForm u = f" "r \<in> set (u_Relationships u)" "rel_Target r = t"
      unfolding packageEdges_iff by blast
    with rank [of u r] show ?thesis by simp
  qed
  have first: "targetsFirst (packageEdges us) (commitForms us)"
    unfolding commitForms_def card_forms [OF distinct, symmetric]
    by (rule orderLoop_targetsFirst [OF packageEdges_forms, where rank = rank])
      (use falls orderInv_initial in \<open>auto simp: targetsFirst_def\<close>)
  have "?o ! i \<in> set us" using i commitOrder_map(2) [OF distinct] nth_mem by blast
  then have e: "(u_CanonicalIdentityForm (?o ! i), rel_Target r) \<in> set (packageEdges us)"
    using r target by (auto simp: packageEdges_iff)
  have len: "length (commitForms us) = length ?o" and nth: "\<And>j. j < length ?o \<Longrightarrow> commitForms us ! j = u_CanonicalIdentityForm (?o ! j)"
    using i by (simp_all add: commitOrder_map(1) [OF distinct, symmetric])
  from first i e len nth have "rel_Target r \<in> set (take i (commitForms us))"
    unfolding targetsFirst_def by fastforce
  then show ?thesis using i len nth by (auto simp: in_set_conv_nth)
qed

section \<open>Relationships in authoring documents\<close>

lemma groupByKey_get: "get_or (groupByKey ps) k [] = map snd (filter (\<lambda>(k', v). k' = k) ps)"
proof -
  have "map_of (map (\<lambda>k. (k, f k)) ks) k = (if k \<in> set ks then Some (f k) else None)" for f :: "string \<Rightarrow> string list" and ks
    by (induction ks) auto
  then show ?thesis
    by (force simp: get_or_def groupByKey_def filter_empty_conv split: option.splits)
qed

definition refsOfType :: "(string \<times> string) list \<Rightarrow> string \<Rightarrow> string list" where
  "refsOfType refs t = map snd (filter (\<lambda>(t', r). t' = t) refs)"

lemma camel_relations_inj: "inj_on StateKeyCamel (set relationshipFields)"
proof -
  have "distinct (map StateKeyCamel relationshipFields)" by code_simp
  then show ?thesis by (simp add: distinct_map)
qed

lemma json_relations:
  assumes doc: "buildJSONAuthoring u = Inr doc" and refs: "repoReferences (id_Namespace (u_Identity u)) (u_Relationships u) = Inr refs"
    and types: "fst ` set refs \<subseteq> set relationshipFields" and t: "t \<in> set relationshipFields"
  shows "get_or (ja_Relationships doc) (StateKeyCamel t) [] = refsOfType refs t"
proof -
  have "filter (\<lambda>(k', v). k' = StateKeyCamel t) (map (\<lambda>(t, ref). (StateKeyCamel t, ref)) refs)
      = map (\<lambda>(t, ref). (StateKeyCamel t, ref)) (filter (\<lambda>(t', r). t' = t) refs)"
    using types t inj_onD [OF camel_relations_inj] by (induction refs) auto
  then have "map snd (filter (\<lambda>(k', v). k' = StateKeyCamel t) (map (\<lambda>(t, ref). (StateKeyCamel t, ref)) refs)) = refsOfType refs t"
    by (simp add: refsOfType_def comp_def case_prod_unfold)
  with doc refs show ?thesis by (auto simp: buildJSONAuthoring_def groupByKey_get)
qed

lemma frontmatter_relations:
  assumes "buildFrontmatter u = Inr fm" "repoReferences (id_Namespace (u_Identity u)) (u_Relationships u) = Inr refs"
  shows "get_or (fm_Relations fm) t [] = (if t \<in> set frontmatterRelations then refsOfType refs t else [])"
proof -
  have get: "get_or (filter (\<lambda>(t, rs). rs \<noteq> []) (map (\<lambda>t. (t, f t)) ts)) t [] = (if t \<in> set ts then f t else [])"
    if "distinct ts" for f :: "string \<Rightarrow> string list" and ts
    using that by (induction ts) (auto simp: get_or_def dest: map_of_SomeD split: option.splits)
  have "distinct frontmatterRelations" by (simp add: frontmatterRelations_def)
  from get [OF this] assms show ?thesis by (auto simp: buildFrontmatter_def groupByKey_get refsOfType_def)
qed

text \<open>The JSON authoring document of an imported unit carries every relationship of the
  unit; the Markdown frontmatter carries exactly those of the five types it has a field
  for and drops the others (discusses, replies-to, assigned-to) without a word.\<close>
lemma authoring_relationships:
  assumes refs: "repoReferences (id_Namespace (u_Identity u)) (u_Relationships u) = Inr refs"
    and types: "fst ` set refs \<subseteq> set relationshipFields" and t: "t \<in> set relationshipFields"
  shows "(\<exists>doc. buildJSONAuthoring u = Inr doc \<and> get_or (ja_Relationships doc) (StateKeyCamel t) [] = refsOfType refs t)
    \<and> (\<exists>fm. buildFrontmatter u = Inr fm \<and> get_or (fm_Relations fm) t [] =
         (if t \<in> set [''amends'', ''supersedes'', ''derives-from'', ''depends-on'', ''validates''] then refsOfType refs t else []))"
proof -
  obtain doc where doc: "buildJSONAuthoring u = Inr doc" using refs by (simp add: buildJSONAuthoring_def)
  obtain fm where fm: "buildFrontmatter u = Inr fm" using refs by (simp add: buildFrontmatter_def)
  show ?thesis
    using doc json_relations [OF doc refs types t] fm frontmatter_relations [OF fm refs, of t, unfolded frontmatterRelations_def]
    by blast
qed

definition sampleAssigned :: Unit where
  "sampleAssigned = sampleUnit\<lparr>u_Relationships := [\<lparr>rel_Type = ''assigned-to'', rel_Target = ''core/fnd:y:1''\<rparr>]\<rparr>"

lemma authoring_relationships_witness:
  "\<exists>fm. buildFrontmatter sampleAssigned = Inr fm \<and> get_or (fm_Relations fm) ''assigned-to'' [] = []"
proof -
  have refs: "repoReferences (id_Namespace (u_Identity sampleAssigned)) (u_Relationships sampleAssigned) = Inr [(''assigned-to'', ''fnd:y'')]"
    by code_simp
  have "fst ` set [(''assigned-to'', ''fnd:y'')] \<subseteq> set relationshipFields" "''assigned-to'' \<in> set relationshipFields"
    by (simp_all add: relationshipFields_def)
  from authoring_relationships [OF refs this] show ?thesis by simp
qed

section \<open>Witnesses for the commit order\<close>

definition sampleChain :: "Unit list" where
  "sampleChain = [sampleUnit\<lparr>u_CanonicalIdentityForm := ''core/adr:a:1'',
       u_Relationships := [\<lparr>rel_Type = ''depends-on'', rel_Target = ''core/adr:b:1''\<rparr>]\<rparr>,
     sampleUnit\<lparr>u_CanonicalIdentityForm := ''core/adr:b:1''\<rparr>]"

lemma sampleChain_distinct: "distinct (map u_CanonicalIdentityForm sampleChain)"
  by (simp add: sampleChain_def)

theorem commit_order_permutation_witness: "mset (commitOrder sampleChain) = mset sampleChain"
  by (rule commit_order_permutation [OF sampleChain_distinct])

theorem commit_order_targets_first_witness:
  "\<exists>j<1. u_CanonicalIdentityForm (commitOrder sampleChain ! j) = ''core/adr:b:1''"
proof -
  have ord: "map u_CanonicalIdentityForm (commitOrder sampleChain) = [''core/adr:b:1'', ''core/adr:a:1'']"
    "map u_Relationships (commitOrder sampleChain) = [[], [\<lparr>rel_Type = ''depends-on'', rel_Target = ''core/adr:b:1''\<rparr>]]"
    by code_simp+
  let ?rank = "\<lambda>f. if f = ''core/adr:a:1'' then 1 else (0 :: nat)"
  let ?r = "\<lparr>rel_Type = ''depends-on'', rel_Target = ''core/adr:b:1''\<rparr>"
  have falls: "?rank (rel_Target r) < ?rank (u_CanonicalIdentityForm u)" if "u \<in> set sampleChain" "r \<in> set (u_Relationships u)" for u r
    using that by (auto simp: sampleChain_def sampleUnit_def)
  have i: "1 < length (commitOrder sampleChain)" using arg_cong [OF ord(1), of length] by simp
  have r: "?r \<in> set (u_Relationships (commitOrder sampleChain ! 1))"
    using arg_cong [OF ord(2), of "\<lambda>xs. xs ! 1"] i by simp
  have t: "rel_Target ?r \<in> u_CanonicalIdentityForm ` set sampleChain" by (simp add: sampleChain_def)
  show ?thesis
    using commit_order_targets_first [OF sampleChain_distinct, of ?rank, OF falls i r t] by simp
qed

end
