(* ===== verification/Exchange_Writer.thy ===== *)
theory Exchange_Writer
  imports Exchange_Commit "HOL-Library.AList"
begin

text \<open>
  The write plan, the repository writer with its rollback (\<open>integrate.go\<close>), and the whole
  pipeline of \<open>exchange.Import\<close> (\<open>import.go\<close>).  A path is the list of its segments below the
  repository root.  The file system is the association list of its files and the list of
  its directories; which calls of the operating system fail is an argument (\<open>osFaults\<close>), so
  the theorems hold for every pattern of failures.
\<close>

section \<open>The file system\<close>

type_synonym path = "string list"

record disk =
  d_files :: "(path \<times> string) list"
  d_dirs :: "path list"

record osFaults =
  mkdirFails :: "path \<Rightarrow> bool"
  writeFails :: "path \<Rightarrow> bool"
  removeFails :: "path \<Rightarrow> bool"

datatype stat = Present | Absent | StatFailed

definition filePaths :: "disk \<Rightarrow> path list" where
  "filePaths d = map fst (d_files d)"

definition onDisk :: "disk \<Rightarrow> path \<Rightarrow> bool" where
  "onDisk d p = (p = [] \<or> List.member (d_dirs d) p \<or> List.member (filePaths d) p)"

text \<open>A path below a regular file cannot be inspected at all (ENOTDIR).\<close>

definition belowFile :: "disk \<Rightarrow> path \<Rightarrow> bool" where
  "belowFile d p = list_ex (\<lambda>n. List.member (filePaths d) (take n p)) [0..<length p]"

definition lstat :: "disk \<Rightarrow> path \<Rightarrow> stat" where
  "lstat d p = (if onDisk d p then Present else if belowFile d p then StatFailed else Absent)"

definition renderPath :: "path \<Rightarrow> string" where
  "renderPath p = join_with ''/'' p"

text \<open>\<open>filepath.Join\<close> drops empty and dot segments; the loader refuses dot-dot.\<close>

definition pathOf :: "string \<Rightarrow> path" where
  "pathOf rel = filter (\<lambda>s. s \<noteq> '''' \<and> s \<noteq> ''.'') (split_on slash rel)"

text \<open>\<open>os.Remove\<close>: a directory goes only when it is empty.\<close>

definition hasChild :: "disk \<Rightarrow> path \<Rightarrow> bool" where
  "hasChild d p = list_ex (\<lambda>q. q \<noteq> [] \<and> butlast q = p) (d_dirs d @ filePaths d)"

definition dropPath :: "path \<Rightarrow> disk \<Rightarrow> disk" where
  "dropPath p d = \<lparr>d_files = filter (\<lambda>(q, c). q \<noteq> p) (d_files d), d_dirs = filter (\<lambda>q. q \<noteq> p) (d_dirs d)\<rparr>"

definition removePath :: "osFaults \<Rightarrow> path \<Rightarrow> disk \<Rightarrow> disk option" where
  "removePath os p d =
     (if removeFails os p then None
      else if List.member (filePaths d) p then Some (dropPath p d)
      else if List.member (d_dirs d) p \<and> \<not> hasChild d p then Some (dropPath p d)
      else None)"

section \<open>The repository writer\<close>

record writeOp =
  op_path :: path
  op_data :: string
  op_attachment :: bool

record repoWriter =
  createdFiles :: "path list"
  createdDirs :: "path list"

definition newRepoWriter :: repoWriter where
  "newRepoWriter = \<lparr>createdFiles = [], createdDirs = []\<rparr>"

datatype write_error =
    CannotInspect path
  | CannotCreate path
  | CannotStage path
  | CannotCommit path

text \<open>The directory chain from the root down; only missing directories are created and
  recorded.  \<open>cur\<close> is the part already walked.\<close>

fun ensureDir :: "osFaults \<Rightarrow> path \<Rightarrow> path \<Rightarrow> disk \<times> repoWriter \<Rightarrow> write_error option \<times> disk \<times> repoWriter" where
  "ensureDir os cur [] s = (None, s)"
| "ensureDir os cur (seg # segs) (d, w) =
     (let p = cur @ [seg] in
      case lstat d p of
        Present \<Rightarrow> ensureDir os p segs (d, w)
      | StatFailed \<Rightarrow> (Some (CannotInspect p), d, w)
      | Absent \<Rightarrow>
          if mkdirFails os p then (Some (CannotCreate p), d, w)
          else ensureDir os p segs (d\<lparr>d_dirs := d_dirs d @ [p]\<rparr>, w\<lparr>createdDirs := createdDirs w @ [p]\<rparr>))"

text \<open>One staged write: the temporary file is renamed into place or removed again.\<close>

definition writeFile :: "osFaults \<Rightarrow> writeOp \<Rightarrow> disk \<times> repoWriter \<Rightarrow> write_error option \<times> disk \<times> repoWriter" where
  "writeFile os op s =
     (let p = op_path op in
      case ensureDir os [] (butlast p) s of
        (Some err, s') \<Rightarrow> (Some err, s')
      | (None, (d, w)) \<Rightarrow>
          if List.member (filePaths d) (butlast p) \<or> writeFails os p then (Some (CannotStage p), d, w)
          else if p = [] \<or> List.member (d_dirs d) p then (Some (CannotCommit p), d, w)
          else (None, d\<lparr>d_files := AList.update p (op_data op) (d_files d)\<rparr>,
                w\<lparr>createdFiles := createdFiles w @ [p]\<rparr>))"

fun writeAll :: "osFaults \<Rightarrow> writeOp list \<Rightarrow> disk \<times> repoWriter \<Rightarrow> write_error option \<times> disk \<times> repoWriter" where
  "writeAll os [] s = (None, s)"
| "writeAll os (op # ops) s =
     (case writeFile os op s of (Some err, s') \<Rightarrow> (Some err, s') | (None, s') \<Rightarrow> writeAll os ops s')"

fun removeAll :: "osFaults \<Rightarrow> path list \<Rightarrow> disk \<Rightarrow> path list \<times> disk" where
  "removeAll os [] d = ([], d)"
| "removeAll os (p # ps) d =
     (case removePath os p d of
        Some d' \<Rightarrow> removeAll os ps d'
      | None \<Rightarrow> (case removeAll os ps d of (failures, d') \<Rightarrow> (p # failures, d')))"

text \<open>Longest rendered path first, equal lengths in string order.\<close>

definition rollbackDirs :: "path list \<Rightarrow> path list" where
  "rollbackDirs ps = sort_key (\<lambda>p. (- int (length (renderPath p)), renderPath p)) ps"

definition rollback :: "osFaults \<Rightarrow> disk \<times> repoWriter \<Rightarrow> path list \<times> disk" where
  "rollback os s = (case s of (d, w) \<Rightarrow> removeAll os (createdFiles w @ rollbackDirs (createdDirs w)) d)"

section \<open>The write plan\<close>

definition attachmentOp :: "disk \<Rightarrow> Attachment \<Rightarrow> plan_error + writeOp" where
  "attachmentOp d a = (case lstat d (pathOf (at_ID a)) of
       Present \<Rightarrow> Inl (TargetExists (at_ID a) (pathOf (at_ID a)))
     | StatFailed \<Rightarrow> Inl (TargetUnknown (at_ID a))
     | Absent \<Rightarrow> Inr \<lparr>op_path = pathOf (at_ID a), op_data = at_Data a, op_attachment = True\<rparr>)"

definition unitOp :: "disk \<Rightarrow> (Unit \<Rightarrow> plan_error + string) \<Rightarrow> Unit \<Rightarrow> plan_error + writeOp" where
  "unitOp d render u = (case unitFilePath u of
       Inl err \<Rightarrow> Inl err
     | Inr p \<Rightarrow>
         (case lstat d p of
            Present \<Rightarrow> Inl (TargetExists (u_CanonicalIdentityForm u) p)
          | StatFailed \<Rightarrow> Inl (TargetUnknown (u_CanonicalIdentityForm u))
          | Absent \<Rightarrow>
              (case render u of
                 Inl err \<Rightarrow> Inl err
               | Inr data \<Rightarrow> Inr \<lparr>op_path = p, op_data = data, op_attachment = False\<rparr>)))"

fun planAll :: "('a \<Rightarrow> plan_error + writeOp) \<Rightarrow> 'a list \<Rightarrow> plan_error + writeOp list" where
  "planAll f [] = Inr []"
| "planAll f (x # xs) =
     (case f x of Inl err \<Rightarrow> Inl err
      | Inr op \<Rightarrow> (case planAll f xs of Inl err \<Rightarrow> Inl err | Inr ops \<Rightarrow> Inr (op # ops)))"

definition buildWritePlan :: "disk \<Rightarrow> (Unit \<Rightarrow> plan_error + string) \<Rightarrow> classification \<Rightarrow> Unit list \<Rightarrow> plan_error + writeOp list" where
  "buildWritePlan d render cl ord =
     (case planAll (attachmentOp d) (c_newAttachments cl) of
        Inl err \<Rightarrow> Inl err
      | Inr aops \<Rightarrow> (case planAll (unitOp d render) ord of Inl err \<Rightarrow> Inl err | Inr uops \<Rightarrow> Inr (aops @ uops)))"

text \<open>The text of a unit file: the JSON document, or the frontmatter between delimiters and
  the payload.  The two encoders are arguments.\<close>

definition renderUnit :: "(jsonAuthoring \<Rightarrow> string) \<Rightarrow> (frontmatter \<Rightarrow> string) \<Rightarrow> Unit \<Rightarrow> plan_error + string" where
  "renderUnit encodeJSON encodeYAML u =
     (if cr_Representation (u_Content u) = StructuredJSON
      then (case buildJSONAuthoring u of Inl err \<Rightarrow> Inl (AuthoringTarget err) | Inr doc \<Rightarrow> Inr (encodeJSON doc))
      else (case buildFrontmatter u of Inl err \<Rightarrow> Inl (AuthoringTarget err)
            | Inr fm \<Rightarrow> Inr (''---'' @ [newline] @ encodeYAML fm @ ''---'' @ [newline] @ u_ContentPayload u)))"

section \<open>The pipeline\<close>

datatype import_error =
    NoDocsTree
  | ValidationUnavailable
  | PreValidation
  | Package package_error
  | States state_error
  | Structure structure_error
  | References reference_error
  | Conflict "conflictDetail list"
  | Plan plan_error
  | Write write_error
  | PostValidationUnavailable
  | PostValidation

record importResult =
  r_ImportedArtifacts :: "string list"
  r_SkippedArtifacts :: "string list"
  r_Warnings :: "string list"
  r_AttachmentsImported :: "string list"
  r_AttachmentsSkipped :: "string list"

text \<open>The end of a run: the result, or the error with the paths a rollback could not remove
  (empty when nothing was written or the rollback was complete).\<close>

datatype import_outcome = Imported importResult | Refused import_error "path list"

text \<open>Phases 9 and 10.\<close>

definition commitOps :: "osFaults \<Rightarrow> (disk \<Rightarrow> bool option) \<Rightarrow> writeOp list \<Rightarrow> disk \<Rightarrow> (import_error \<times> path list) option \<times> disk" where
  "commitOps os validate ops d =
     (case writeAll os ops (d, newRepoWriter) of
        (Some err, s) \<Rightarrow> (case rollback os s of (failures, d') \<Rightarrow> (Some (Write err, failures), d'))
      | (None, s) \<Rightarrow>
          (case validate (fst s) of
             None \<Rightarrow> (case rollback os s of (failures, d') \<Rightarrow> (Some (PostValidationUnavailable, failures), d'))
           | Some False \<Rightarrow> (case rollback os s of (failures, d') \<Rightarrow> (Some (PostValidation, failures), d'))
           | Some True \<Rightarrow> (None, fst s)))"

text \<open>What \<open>exchange.Import\<close> calls: the package as loaded, the validator, the repository index
  (canonical form to projected unit), the JSON decoder of payloads, the encoders.\<close>

record importEnv =
  env_package :: "package_error + loadedPackage"
  env_validate :: "disk \<Rightarrow> bool option"
  env_index :: "disk \<Rightarrow> string \<Rightarrow> Unit option"
  env_fields :: "string \<Rightarrow> gvalue option"
  env_encodeJSON :: "jsonAuthoring \<Rightarrow> string"
  env_encodeYAML :: "frontmatter \<Rightarrow> string"

definition readTarget :: "disk \<Rightarrow> string \<Rightarrow> fileRead" where
  "readTarget d rel = (case map_of (d_files d) (pathOf rel) of
       Some data \<Rightarrow> ReadOk data
     | None \<Rightarrow> (case lstat d (pathOf rel) of Absent \<Rightarrow> ReadMissing | _ \<Rightarrow> ReadFailed))"

definition requireEKARepo :: "disk \<Rightarrow> import_error option" where
  "requireEKARepo d = (if List.member (d_dirs d) [''docs''] then None else Some NoDocsTree)"

definition analyse :: "importEnv \<Rightarrow> disk \<Rightarrow> import_error + loadedPackage \<times> string list \<times> classification \<times> writeOp list" where
  "analyse env d =
     (case requireEKARepo d of Some err \<Rightarrow> Inl err | None \<Rightarrow>
     (case env_validate env d of None \<Rightarrow> Inl ValidationUnavailable | Some False \<Rightarrow> Inl PreValidation | Some True \<Rightarrow>
     (case env_package env of Inl err \<Rightarrow> Inl (Package err) | Inr p \<Rightarrow>
     (case firstSome [map_option Package (checkContract p), map_option Package (checkUnitIdentities p),
         map_option States (checkUnitStates p), map_option Structure (checkUnitStructure (env_fields env) p)] of
        Some err \<Rightarrow> Inl err | None \<Rightarrow>
     (case checkReferences p (\<lambda>form. env_index env d form \<noteq> None) of Inl err \<Rightarrow> Inl (References err) | Inr warnings \<Rightarrow>
       (let cl = classify p (env_index env d) (readTarget d) in
        if c_conflicts cl \<noteq> [] \<or> c_conflictAttachment cl \<noteq> []
        then Inl (Conflict (sort_key co_Identity (c_conflicts cl @ c_conflictAttachment cl)))
        else (case buildWritePlan d (renderUnit (env_encodeJSON env) (env_encodeYAML env)) cl (commitOrder (c_newUnits cl)) of
                Inl err \<Rightarrow> Inl (Plan err)
              | Inr ops \<Rightarrow> Inr (p, warnings, cl, ops))))))))"

definition Import :: "osFaults \<Rightarrow> importEnv \<Rightarrow> disk \<Rightarrow> import_outcome \<times> disk" where
  "Import os env d =
     (case analyse env d of
        Inl err \<Rightarrow> (Refused err [], d)
      | Inr (p, warnings, cl, ops) \<Rightarrow>
          (case commitOps os (env_validate env) ops d of
             (Some (err, failures), d') \<Rightarrow> (Refused err failures, d')
           | (None, d') \<Rightarrow> (Imported \<lparr>r_ImportedArtifacts = map u_CanonicalIdentityForm (c_newUnits cl),
               r_SkippedArtifacts = c_duplicateForms cl, r_Warnings = warnings,
               r_AttachmentsImported = sort (map at_ID (c_newAttachments cl)),
               r_AttachmentsSkipped = c_duplicateAttachment cl\<rparr>, d')))"

section \<open>What a run has created\<close>

definition wfDisk :: "disk \<Rightarrow> bool" where
  "wfDisk d = (distinct (filePaths d @ d_dirs d) \<and>
     (\<forall>p\<in>set (filePaths d @ d_dirs d). p \<noteq> [] \<and> (butlast p = [] \<or> butlast p \<in> set (d_dirs d))))"

text \<open>The state \<open>(d, w)\<close> is the initial disk \<open>d0\<close> plus what the writer recorded.\<close>

definition writerInv :: "disk \<Rightarrow> disk \<times> repoWriter \<Rightarrow> bool" where
  "writerInv d0 s = (case s of (d, w) \<Rightarrow> wfDisk d \<and> d_dirs d = d_dirs d0 @ createdDirs w \<and>
     (\<exists>new. d_files d = d_files d0 @ new \<and> map fst new = createdFiles w))"

lemma filePaths_dirs [simp]: "filePaths (d\<lparr>d_dirs := x\<rparr>) = filePaths d"
  by (simp add: filePaths_def)

lemma lstat_simps:
  "lstat d p = Present \<longleftrightarrow> p = [] \<or> p \<in> set (d_dirs d) \<or> p \<in> set (filePaths d)"
  "lstat d p = Absent \<Longrightarrow> p \<noteq> [] \<and> p \<notin> set (d_dirs d) \<and> p \<notin> set (filePaths d) \<and> (\<forall>n<length p. take n p \<notin> set (filePaths d))"
  by (auto simp: lstat_def onDisk_def belowFile_def list_ex_iff split: if_splits)

lemma writerInv_new: "wfDisk d \<Longrightarrow> writerInv d (d, newRepoWriter)"
  by (simp add: writerInv_def newRepoWriter_def)

lemma mkdir_inv:
  assumes inv: "writerInv d0 (d, w)" and absent: "lstat d (cur @ [seg]) = Absent"
    and cur: "lstat d cur = Present"
  shows "writerInv d0 (d\<lparr>d_dirs := d_dirs d @ [cur @ [seg]]\<rparr>, w\<lparr>createdDirs := createdDirs w @ [cur @ [seg]]\<rparr>)"
proof -
  have "cur \<notin> set (filePaths d)" using lstat_simps(2) [OF absent] by (auto dest: spec [of _ "length cur"])
  with cur have "cur = [] \<or> cur \<in> set (d_dirs d)" by (simp add: lstat_simps)
  with inv lstat_simps(2) [OF absent] show ?thesis by (auto simp: writerInv_def wfDisk_def)
qed

lemma ensureDir_inv:
  "writerInv d0 s \<Longrightarrow> lstat (fst s) cur = Present \<Longrightarrow> ensureDir os cur segs s = (res, s') \<Longrightarrow>
     writerInv d0 s' \<and> d_files (fst s') = d_files (fst s) \<and> createdFiles (snd s') = createdFiles (snd s)
     \<and> set (d_dirs (fst s)) \<subseteq> set (d_dirs (fst s'))
     \<and> (res = None \<longrightarrow> lstat (fst s') (cur @ segs) = Present)"
proof (induction os cur segs s arbitrary: res s' rule: ensureDir.induct)
  case (2 os cur seg segs d w)
  let ?p = "cur @ [seg]"
  show ?case
  proof (cases "lstat d ?p")
    case Present
    then have "ensureDir os ?p segs (d, w) = (res, s')" using "2.prems"(3) by simp
    from "2.IH"(1) [OF refl Present "2.prems"(1) _ this] Present show ?thesis by simp
  next
    case StatFailed
    with "2.prems" show ?thesis by auto
  next
    case Absent
    show ?thesis
    proof (cases "mkdirFails os ?p")
      case True
      with Absent "2.prems" show ?thesis by auto
    next
      case False
      let ?s = "(d\<lparr>d_dirs := d_dirs d @ [?p]\<rparr>, w\<lparr>createdDirs := createdDirs w @ [?p]\<rparr>)"
      have inv: "writerInv d0 ?s" by (rule mkdir_inv [OF "2.prems"(1) Absent]) (use "2.prems"(2) in simp)
      have pres: "lstat (fst ?s) ?p = Present" by (simp add: lstat_simps)
      have "ensureDir os ?p segs ?s = (res, s')" using "2.prems"(3) Absent False by (simp add: Let_def)
      from "2.IH"(2) [OF refl Absent False inv pres this] show ?thesis by simp
    qed
  qed
qed auto

lemma update_new: "k \<notin> set (map fst m) \<Longrightarrow> AList.update k v m = m @ [(k, v)]"
  by (induction m) auto

lemma writeFile_inv:
  assumes inv: "writerInv d0 s" and new: "op_path op \<notin> set (filePaths (fst s))"
    and run: "writeFile os op s = (res, s')"
  shows "writerInv d0 s'"
    and "res = None \<Longrightarrow> d_files (fst s') = d_files (fst s) @ [(op_path op, op_data op)]"
    and "set (filePaths (fst s')) \<subseteq> insert (op_path op) (set (filePaths (fst s)))"
proof -
  obtain d w where s: "s = (d, w)" by (cases s)
  obtain e d1 w1 where e: "ensureDir os [] (butlast (op_path op)) s = (e, d1, w1)" by (metis prod_cases3)
  have root: "lstat (fst s) [] = Present" by (simp add: lstat_simps)
  note ens = ensureDir_inv [OF inv root e]
  have files: "d_files d1 = d_files d" and inv1: "writerInv d0 (d1, w1)"
    and parent: "e = None \<Longrightarrow> lstat d1 (butlast (op_path op)) = Present"
    using ens s by auto
  let ?s = "(d1\<lparr>d_files := d_files d1 @ [(op_path op, op_data op)]\<rparr>, w1\<lparr>createdFiles := createdFiles w1 @ [op_path op]\<rparr>)"
  have new1: "op_path op \<notin> set (filePaths d1)" using new s files by (simp add: filePaths_def)
  have written: "writerInv d0 ?s"
    if "e = None" "op_path op \<noteq> []" "butlast (op_path op) \<notin> set (filePaths d1)" "op_path op \<notin> set (d_dirs d1)"
    using inv1 parent [OF that(1)] that(2-) new1
    by (auto simp: writerInv_def wfDisk_def lstat_simps filePaths_def)
  have update: "AList.update (op_path op) (op_data op) (d_files d1) = d_files d1 @ [(op_path op, op_data op)]"
    using new1 by (simp add: update_new filePaths_def)
  consider (failed) "res \<noteq> None" "s' = (d1, w1)"
    | (written) "res = None" "s' = ?s" "e = None" "op_path op \<noteq> []" "butlast (op_path op) \<notin> set (filePaths d1)"
        "op_path op \<notin> set (d_dirs d1)"
    using run unfolding writeFile_def Let_def e update
    by (cases e) (auto simp: update split: if_splits)
  then have "writerInv d0 s' \<and> (res = None \<longrightarrow> d_files (fst s') = d_files (fst s) @ [(op_path op, op_data op)])
      \<and> set (filePaths (fst s')) \<subseteq> insert (op_path op) (set (filePaths (fst s)))"
  proof cases
    case failed
    with inv1 files s show ?thesis by (auto simp: filePaths_def)
  next
    case c: written
    from c(2) written [OF c(3-6)] files s show ?thesis by (auto simp: filePaths_def)
  qed
  then show "writerInv d0 s'" "res = None \<Longrightarrow> d_files (fst s') = d_files (fst s) @ [(op_path op, op_data op)]"
    "set (filePaths (fst s')) \<subseteq> insert (op_path op) (set (filePaths (fst s)))" by blast+
qed

lemma writeAll_inv:
  assumes "writerInv d0 s" "distinct (map op_path ops)" "set (map op_path ops) \<inter> set (filePaths (fst s)) = {}"
    "writeAll os ops s = (res, s')"
  shows "writerInv d0 s' \<and> (res = None \<longrightarrow> d_files (fst s') = d_files (fst s) @ map (\<lambda>op. (op_path op, op_data op)) ops)"
  using assms
proof (induction ops arbitrary: s)
  case (Cons op ops)
  obtain r1 s1 where w: "writeFile os op s = (r1, s1)" by (metis surj_pair)
  have new: "op_path op \<notin> set (filePaths (fst s))" using Cons.prems by auto
  note step = writeFile_inv [OF Cons.prems(1) new w]
  show ?case
  proof (cases r1)
    case (Some e)
    with Cons.prems(4) w step(1) show ?thesis by auto
  next
    case None
    with Cons.prems(4) w have run: "writeAll os ops s1 = (res, s')" by simp
    have "writerInv d0 s' \<and> (res = None \<longrightarrow> d_files (fst s') = d_files (fst s1) @ map (\<lambda>op. (op_path op, op_data op)) ops)"
    proof (rule Cons.IH [OF step(1) _ _ run])
      show "distinct (map op_path ops)" using Cons.prems(2) by simp
      have "op_path op \<notin> set (map op_path ops)" "set (map op_path ops) \<inter> set (filePaths (fst s)) = {}"
        using Cons.prems(2,3) by auto
      with step(3) show "set (map op_path ops) \<inter> set (filePaths (fst s1)) = {}" by blast
    qed
    with step(2) [OF None] show ?thesis by simp
  qed
qed simp

section \<open>Rolling back\<close>

lemma removePath_Some: "removePath os p d = Some d' \<Longrightarrow> d' = dropPath p d"
  by (auto simp: removePath_def split: if_splits)

lemma removeAll_clean:
  "removeAll os ps d = ([], d') \<Longrightarrow>
     d_files d' = filter (\<lambda>(q, c). q \<notin> set ps) (d_files d) \<and> d_dirs d' = filter (\<lambda>q. q \<notin> set ps) (d_dirs d)"
proof (induction ps arbitrary: d)
  case (Cons p ps)
  from Cons.prems have "removePath os p d = Some (dropPath p d)" and "removeAll os ps (dropPath p d) = ([], d')"
    by (auto split: option.splits prod.splits dest: removePath_Some)
  from Cons.IH [OF this(2)] show ?case by (auto simp: dropPath_def intro: filter_cong)
qed (simp add: case_prod_beta)

text \<open>A rollback that reports nothing restores the disk, whatever calls failed before it.\<close>

lemma rollback_clean:
  assumes inv: "writerInv d0 s" and run: "rollback os s = ([], d')"
  shows "d' = d0"
proof -
  obtain d w where s: "s = (d, w)" by (cases s)
  from inv s obtain new where d: "d_dirs d = d_dirs d0 @ createdDirs w" "d_files d = d_files d0 @ new"
    "map fst new = createdFiles w" and wf: "wfDisk d" by (auto simp: writerInv_def)
  let ?ps = "createdFiles w @ rollbackDirs (createdDirs w)"
  have ps: "set ?ps = set (createdFiles w) \<union> set (createdDirs w)" by (simp add: rollbackDirs_def)
  have distinct: "distinct (map fst (d_files d0) @ createdFiles w @ d_dirs d0 @ createdDirs w)"
    using wf d by (simp add: wfDisk_def filePaths_def)
  have out: "d_files d' = filter (\<lambda>(q, c). q \<notin> set ?ps) (d_files d)" "d_dirs d' = filter (\<lambda>q. q \<notin> set ?ps) (d_dirs d)"
    using run s removeAll_clean [of os ?ps d d'] by (simp_all add: rollback_def)
  have "filter (\<lambda>(q, c). q \<notin> set ?ps) (d_files d0) = d_files d0"
    unfolding ps using distinct by (auto simp: filter_id_conv)
  moreover have "filter (\<lambda>(q, c). q \<notin> set ?ps) new = []"
    unfolding ps d(3) [symmetric] by (force simp: filter_empty_conv)
  moreover have "filter (\<lambda>q. q \<notin> set ?ps) (d_dirs d0) = d_dirs d0" "filter (\<lambda>q. q \<notin> set ?ps) (createdDirs w) = []"
    unfolding ps using distinct by (auto simp: filter_id_conv filter_empty_conv)
  ultimately show ?thesis using out d by simp
qed

lemma renderPath_snoc: "p \<noteq> [] \<Longrightarrow> length (renderPath p) < length (renderPath (p @ [s]))"
proof -
  have "ps \<noteq> [] \<Longrightarrow> join_with sep (ps @ [s]) = join_with sep ps @ sep @ s" for sep and ps :: "string list"
    by (induction sep ps rule: join_with.induct) auto
  then show "p \<noteq> [] \<Longrightarrow> ?thesis" by (simp add: renderPath_def)
qed

text \<open>A rollback in which the system removes what may be removed reports nothing: files first,
  then every directory after everything below it.\<close>

lemma removeAll_files:
  assumes "\<And>p. \<not> removeFails os p" "wfDisk d" "distinct ps" "set ps \<subseteq> set (filePaths d)"
  shows "removeAll os (ps @ qs) d = removeAll os qs (foldl (\<lambda>d p. dropPath p d) d ps)"
  using assms(2-)
proof (induction ps arbitrary: d)
  case (Cons p ps)
  have "p \<in> set (filePaths d)" using Cons.prems by simp
  then have rm: "removePath os p d = Some (dropPath p d)" by (simp add: removePath_def assms(1))
  have "p \<notin> set (d_dirs d)" using Cons.prems(1) \<open>p \<in> set (filePaths d)\<close> by (auto simp: wfDisk_def)
  then have dirs: "d_dirs (dropPath p d) = d_dirs d" by (auto simp: dropPath_def filter_id_conv)
  have files: "filePaths (dropPath p d) = filter (\<lambda>q. q \<noteq> p) (filePaths d)"
    by (simp add: dropPath_def filePaths_def filter_map comp_def case_prod_unfold)
  have "wfDisk (dropPath p d)" using Cons.prems(1) by (auto simp: wfDisk_def files dirs)
  moreover have "set ps \<subseteq> set (filePaths (dropPath p d))" using Cons.prems by (auto simp: files)
  ultimately show ?case using Cons.IH Cons.prems(2) rm by simp
qed simp

lemma removeAll_dirs:
  assumes "\<And>p. \<not> removeFails os p" "wfDisk d0" "filePaths d = filePaths d0"
    "set (d_dirs d) = set (d_dirs d0) \<union> set ps" "set (d_dirs d0) \<inter> set ps = {}" "distinct ps"
    "[] \<notin> set ps" "set ps \<inter> set (filePaths d0) = {}"
    "sorted (map (\<lambda>p. - int (length (renderPath p))) ps)"
  shows "fst (removeAll os ps d) = []"
  using assms(3-)
proof (induction ps arbitrary: d)
  case (Cons p ps)
  have "\<not> hasChild d p"
  proof
    assume "hasChild d p"
    then obtain q where q: "q \<in> set (d_dirs d) \<union> set (filePaths d)" "q \<noteq> []" "butlast q = p"
      by (auto simp: hasChild_def list_ex_iff)
    have p: "p \<noteq> []" "p \<notin> set (d_dirs d0)" using Cons.prems(3,5) by auto
    from q(1) Cons.prems(1,2) consider "q \<in> set (filePaths d0 @ d_dirs d0)" | "q \<in> set (p # ps)" by auto
    then show False
    proof cases
      case 1
      with assms(2) q p show False by (auto simp: wfDisk_def)
    next
      case 2
      have "q = p @ [last q]" using q(2,3) append_butlast_last_id by metis
      then have "length (renderPath p) < length (renderPath q)" using renderPath_snoc [OF p(1)] by metis
      with 2 Cons.prems(7) show False by fastforce
    qed
  qed
  then have rm: "removePath os p d = Some (dropPath p d)"
    using assms(1) Cons.prems by (auto simp: removePath_def)
  have "fst (removeAll os ps (dropPath p d)) = []"
  proof (rule Cons.IH)
    have "p \<notin> set (filePaths d)" using Cons.prems(1,6) by auto
    then have "filter (\<lambda>(q, c). q \<noteq> p) (d_files d) = d_files d"
      unfolding filePaths_def by (force simp: filter_id_conv)
    then have "filePaths (dropPath p d) = filePaths d" by (simp add: filePaths_def dropPath_def)
    then show "filePaths (dropPath p d) = filePaths d0" using Cons.prems(1) by simp
    show "set (d_dirs (dropPath p d)) = set (d_dirs d0) \<union> set ps"
      using Cons.prems(2-4) by (auto simp: dropPath_def)
  qed (use Cons.prems in auto)
  with rm show ?case by simp
qed simp

lemma foldl_dropPath:
  "d_files (foldl (\<lambda>d p. dropPath p d) d ps) = filter (\<lambda>(q, c). q \<notin> set ps) (d_files d)"
  "d_dirs (foldl (\<lambda>d p. dropPath p d) d ps) = filter (\<lambda>q. q \<notin> set ps) (d_dirs d)"
  by (induction ps arbitrary: d) (auto simp: dropPath_def case_prod_beta intro: filter_cong)

lemma rollback_complete:
  assumes wf0: "wfDisk d0" and inv: "writerInv d0 s" and ok: "\<And>p. \<not> removeFails os p"
  shows "fst (rollback os s) = []"
proof -
  obtain d w where s: "s = (d, w)" by (cases s)
  from inv s obtain new where d: "d_dirs d = d_dirs d0 @ createdDirs w" "d_files d = d_files d0 @ new"
    "map fst new = createdFiles w" and wf: "wfDisk d" by (auto simp: writerInv_def)
  have distinct: "distinct (map fst (d_files d0) @ createdFiles w @ d_dirs d0 @ createdDirs w)"
    using wf d by (simp add: wfDisk_def filePaths_def)
  let ?d = "foldl (\<lambda>d p. dropPath p d) d (createdFiles w)"
  have keep: "filter (\<lambda>(q, c). q \<notin> set (createdFiles w)) (d_files d0) = d_files d0"
    using distinct by (auto simp: filter_id_conv)
  have gone: "filter (\<lambda>(q, c). q \<notin> set (createdFiles w)) new = []"
    unfolding d(3) [symmetric] by (force simp: filter_empty_conv)
  have files: "filePaths ?d = filePaths d0" unfolding filePaths_def foldl_dropPath d(2) by (simp add: keep gone)
  have dirs: "set (d_dirs ?d) = set (d_dirs d0) \<union> set (rollbackDirs (createdDirs w))"
  proof -
    have "set (d_dirs d) \<inter> set (createdFiles w) = {}" unfolding d(1) using distinct by auto
    then have "d_dirs ?d = d_dirs d" unfolding foldl_dropPath by (intro filter_True) blast
    then show ?thesis by (simp add: d(1) rollbackDirs_def)
  qed
  have "distinct (createdFiles w)" "set (createdFiles w) \<subseteq> set (filePaths d)"
    using distinct by (simp_all add: filePaths_def d(2) d(3))
  then have first: "removeAll os (createdFiles w @ rollbackDirs (createdDirs w)) d = removeAll os (rollbackDirs (createdDirs w)) ?d"
    by (rule removeAll_files [OF ok wf])
  have "sorted (map (\<lambda>p. (- int (length (renderPath p)), renderPath p)) (rollbackDirs (createdDirs w)))"
    unfolding rollbackDirs_def by (rule sorted_sort_key)
  then have "sorted (map (\<lambda>p. - int (length (renderPath p))) (rollbackDirs (createdDirs w)))"
    unfolding sorted_map by (rule sorted_wrt_mono_rel [rotated]) (auto simp: less_eq_prod_def)
  moreover have "[] \<notin> set (rollbackDirs (createdDirs w))"
    using wf d by (auto simp: wfDisk_def rollbackDirs_def)
  moreover have "set (d_dirs d0) \<inter> set (rollbackDirs (createdDirs w)) = {}" "distinct (rollbackDirs (createdDirs w))"
    "set (rollbackDirs (createdDirs w)) \<inter> set (filePaths d0) = {}"
    using distinct by (auto simp: rollbackDirs_def filePaths_def)
  ultimately have "fst (removeAll os (rollbackDirs (createdDirs w)) ?d) = []"
    by (intro removeAll_dirs [OF ok wf0 files dirs])
  with first s show ?thesis by (simp add: rollback_def)
qed

section \<open>The pipeline as a transaction\<close>

lemma planAll_ok: "planAll f xs = Inr ops \<Longrightarrow> list_all2 (\<lambda>x op. f x = Inr op) xs ops"
  by (induction xs arbitrary: ops) (auto split: sum.splits)

lemma attachmentOp_ok: "attachmentOp d a = Inr op \<Longrightarrow> lstat d (op_path op) = Absent"
  by (auto simp: attachmentOp_def split: stat.splits)

lemma unitOp_ok:
  "unitOp d render u = Inr op \<Longrightarrow> lstat d (op_path op) = Absent \<and> unitFilePath u = Inr (op_path op) \<and> render u = Inr (op_data op)"
  by (auto simp: unitOp_def split: sum.splits stat.splits)

lemma buildWritePlan_ok:
  assumes "buildWritePlan d render cl ord = Inr ops"
  shows "\<exists>aops uops. ops = aops @ uops \<and> list_all2 (\<lambda>a op. attachmentOp d a = Inr op) (c_newAttachments cl) aops
    \<and> list_all2 (\<lambda>u op. unitOp d render u = Inr op) ord uops"
  using assms by (auto simp: buildWritePlan_def split: sum.splits dest!: planAll_ok)

lemma buildWritePlan_absent:
  assumes "buildWritePlan d render cl ord = Inr ops"
  shows "set (map op_path ops) \<inter> set (filePaths d) = {}"
proof -
  from buildWritePlan_ok [OF assms] obtain aops uops where o: "ops = aops @ uops"
    "list_all2 (\<lambda>a op. attachmentOp d a = Inr op) (c_newAttachments cl) aops"
    "list_all2 (\<lambda>u op. unitOp d render u = Inr op) ord uops" by blast
  have "lstat d (op_path op) = Absent" if "op \<in> set ops" for op
    using that o attachmentOp_ok unitOp_ok by (fastforce simp: list_all2_conv_all_nth in_set_conv_nth)
  then show ?thesis using lstat_simps(2) by fastforce
qed

text \<open>What an accepted analysis says.\<close>

lemma analyse_ok:
  assumes "analyse env d = Inr (p, warnings, cl, ops)"
  obtains "env_package env = Inr p" "checkUnitIdentities p = None" "checkUnitStates p = None"
    "cl = classify p (env_index env d) (readTarget d)"
    "buildWritePlan d (renderUnit (env_encodeJSON env) (env_encodeYAML env)) cl (commitOrder (c_newUnits cl)) = Inr ops"
  using assms unfolding analyse_def
  by (auto simp: Let_def split: option.splits sum.splits bool.splits if_splits)

definition planDistinct :: "importEnv \<Rightarrow> disk \<Rightarrow> bool" where
  "planDistinct env d = (case analyse env d of Inl err \<Rightarrow> True | Inr (p, warnings, cl, ops) \<Rightarrow> distinct (map op_path ops))"

lemma commitOps_refused:
  assumes "wfDisk d" "distinct (map op_path ops)" "set (map op_path ops) \<inter> set (filePaths d) = {}"
    "commitOps os validate ops d = (Some (err, failures), d')"
  shows "\<exists>s. writerInv d s \<and> rollback os s = (failures, d')"
proof -
  obtain res s where w: "writeAll os ops (d, newRepoWriter) = (res, s)" by (metis surj_pair)
  have "writerInv d s" using writeAll_inv [OF writerInv_new [OF assms(1)] assms(2) _ w] assms(3) by simp
  moreover have "rollback os s = (failures, d')"
    using assms(4) w unfolding commitOps_def by (auto split: option.splits bool.splits prod.splits)
  ultimately show ?thesis by blast
qed

lemma commitOps_done:
  assumes "wfDisk d" "distinct (map op_path ops)" "set (map op_path ops) \<inter> set (filePaths d) = {}"
    "commitOps os validate ops d = (None, d')"
  shows "validate d' = Some True \<and> d_files d' = d_files d @ map (\<lambda>op. (op_path op, op_data op)) ops \<and> wfDisk d'"
proof -
  obtain res s where w: "writeAll os ops (d, newRepoWriter) = (res, s)" by (metis surj_pair)
  have "writerInv d s \<and> (res = None \<longrightarrow> d_files (fst s) = d_files d @ map (\<lambda>op. (op_path op, op_data op)) ops)"
    using writeAll_inv [OF writerInv_new [OF assms(1)] assms(2) _ w] assms(3) by simp
  moreover have "res = None" "validate (fst s) = Some True" "d' = fst s"
    using assms(4) w unfolding commitOps_def by (auto split: option.splits bool.splits prod.splits)
  ultimately show ?thesis by (auto simp: writerInv_def)
qed


lemma checkIdentityList_distinct:
  "checkIdentityList seen us = None \<Longrightarrow> distinct (map u_CanonicalIdentityForm us) \<and> set (map u_CanonicalIdentityForm us) \<inter> set seen = {}"
proof (induction us arbitrary: seen)
  case (Cons u us)
  then have "u_CanonicalIdentityForm u \<notin> set seen" "checkIdentityList (u_CanonicalIdentityForm u # seen) us = None"
    by (auto simp: Let_def split: option.splits simp del: firstSome.simps)
  with Cons.IH [of "u_CanonicalIdentityForm u # seen"] show ?case by auto
qed simp

lemma newUnits_distinct:
  assumes "checkUnitIdentities p = None"
  shows "distinct (map u_CanonicalIdentityForm (c_newUnits (classify p repoUnit readFile)))"
proof -
  have "distinct (map u_CanonicalIdentityForm (lp_units p))"
    using assms checkIdentityList_distinct [of "[]" "lp_units p"] by (simp add: checkUnitIdentities_def)
  then show ?thesis by (simp add: classify_def classifyUnits_def distinct_map_filter)
qed


section \<open>A sample run\<close>

definition sampleAdr :: "int \<Rightarrow> Unit" where
  "sampleAdr n = sampleLoggedUnit\<lparr>u_Identity := sampleIdentity\<lparr>id_InstanceVersion := n\<rparr>,
     u_CanonicalIdentityForm := ''core/adr:x:'' @ itoa n, u_ContentPayload := ''{}''\<rparr>"

definition sampleContract :: loadedPackage where
  "sampleContract = \<lparr>lp_header = \<lparr>h_SerializationVersion = ''2'', h_ExchangeFormatVersion = ''1'', h_SpecificationVersion = ''1.3'',
       h_Exporter = ''eka'', h_PackageIdentityLabel = ''rsf-repo-core-2'', h_ExportScope = ''repo'', h_Namespace = ''core''\<rparr>,
     lp_manifest = sampleManifest '''' '''' '''',
     lp_declarations = \<lparr>d_Closure = \<lparr>cd_Scope = ''repo'', cd_Seeds = []\<rparr>, d_ExternalReferences = [], d_Extensions = []\<rparr>,
     lp_integrity = \<lparr>i_PackageDigest = '''', i_Units = [], i_Attachments = []\<rparr>, lp_units = [], lp_attachments = []\<rparr>"

definition sampleImport :: "Unit list \<Rightarrow> importEnv" where
  "sampleImport us = \<lparr>env_package = Inr (sampleContract\<lparr>lp_units := us\<rparr>),
     env_validate = (\<lambda>d. Some (\<not> List.member (filePaths d) [''docs'', ''decisions'', ''bad''])),
     env_index = (\<lambda>d form. None),
     env_fields = (\<lambda>s. Some (GMap (map (\<lambda>k. (SectionKey k, GNil)) [''Context'', ''Decision'', ''Consequences'', ''Alternatives Considered'']))),
     env_encodeJSON = (\<lambda>doc. itoa (id_InstanceVersion (ja_Identity doc))), env_encodeYAML = (\<lambda>fm. ''y'')\<rparr>"

definition noFaults :: osFaults where
  "noFaults = \<lparr>mkdirFails = (\<lambda>p. False), writeFails = (\<lambda>p. False), removeFails = (\<lambda>p. False)\<rparr>"

definition sampleDisk :: disk where
  "sampleDisk = \<lparr>d_files = [([''eka.yaml''], ''e'')], d_dirs = [[''docs'']]\<rparr>"

lemma sample_refused:
  "Import (noFaults\<lparr>writeFails := \<lambda>p. True\<rparr>) (sampleImport [sampleAdr 1]) sampleDisk =
     (Refused (Write (CannotStage [''docs'', ''decisions'', ''adr-x.json''])) [], sampleDisk)"
  "wfDisk sampleDisk" "planDistinct (sampleImport [sampleAdr 1]) sampleDisk"
  by code_simp+


lemma sample_imported:
  "Import noFaults (sampleImport [sampleAdr 1]) sampleDisk =
     (Imported \<lparr>r_ImportedArtifacts = [''core/adr:x:1''], r_SkippedArtifacts = [], r_Warnings = [],
        r_AttachmentsImported = [], r_AttachmentsSkipped = []\<rparr>,
      \<lparr>d_files = [([''eka.yaml''], ''e''), ([''docs'', ''decisions'', ''adr-x.json''], ''1'')],
        d_dirs = [[''docs''], [''docs'', ''decisions'']]\<rparr>)"
  by code_simp


text \<open>The file name of a type without instance suffix leaves the instance out, so a package
  that carries two instances of one line passes every phase; the second file replaces the
  first, and both instances are reported as imported.\<close>
lemma instances_overwrite:
  "Import noFaults (sampleImport [sampleAdr 1, sampleAdr 2]) sampleDisk =
     (Imported \<lparr>r_ImportedArtifacts = [''core/adr:x:1'', ''core/adr:x:2''], r_SkippedArtifacts = [], r_Warnings = [],
        r_AttachmentsImported = [], r_AttachmentsSkipped = []\<rparr>,
      \<lparr>d_files = [([''eka.yaml''], ''e''), ([''docs'', ''decisions'', ''adr-x.json''], ''2'')],
        d_dirs = [[''docs''], [''docs'', ''decisions'']]\<rparr>)"
  by code_simp

end
