(* ===== verification/Runtime_Transition.thy ===== *)
theory Runtime_Transition
  imports Store_Units Graph_Search
begin

text \<open>
  The transition service of \<open>runtime/transition.go\<close> with the plan lock of
  \<open>runtime/container.go\<close>: a work item moves along the D1 table under the note gates, a plan
  along the planning table, a container along the container table under the activation
  and completion gates, a knowledge artifact along its content-state variant; each move
  publishes one new payload (an activation publishes two, in one transaction).  Arguments
  of the model are the digest, the serializer and the decoders, the clock, the context of
  the repository and the drafts directory as scanned.
\<close>

section \<open>Requests, refusals and context\<close>

record TransitionRequest =
  rq_Target :: string
  rq_To :: string
  rq_Forward :: bool
  rq_Backward :: bool
  rq_By :: string
  rq_ByKind :: string
  rq_Confirmed :: bool

record TransitionResult =
  tr_Target :: string
  tr_From :: string
  tr_To :: string
  tr_By :: AuthorIdentity
  tr_ObjectHash :: string
  tr_LockedPlan :: string
  tr_LockedPlanHash :: string
  tr_Warning :: bool

datatype refusal =
    AuthorityRequired
  | NotARepository
  | Unregistered
  | NotInStore string
  | CarriesNoState string string
  | NoStep string bool string
  | NotInTable string string string
  | ForwardOnly string
  | TerminalState string
  | PlanLock
  | ContainersUnreadable
  | StillActive string "string list"
  | AnotherActive string
  | ClosureUnreadable string
  | ClosureShared string string
  | NoPlanReference
  | ManyPlanReferences
  | PlanMissing string
  | PlanRetired string
  | PlanNotApproved string string
  | NoteGate "string list"
  | MembershipUnconfirmed
  | WorkPending "string list"
  | NotSuperseded

datatype usage =
    UnknownKind string
  | ToAndStep
  | BothSteps
  | BadTarget ref_error
  | VersionedTarget
  | NotTransitionable string
  | ForeignNamespace string

datatype transition_error = Refused refusal | Usage usage | ReadFailure | PublishFailure store_error

text \<open>The context of a call: \<open>x_project\<close> is what the workspace registers for the repository,
  \<open>x_drafts\<close> the scanned note drafts of the project (None when the scan fails).\<close>

record callContext =
  x_hash :: "string \<Rightarrow> string"
  x_marshal :: "Unit \<Rightarrow> string"
  x_decode :: "string \<Rightarrow> Unit option"
  x_fields :: "string \<Rightarrow> gvalue option"
  x_today :: string
  x_now :: string
  x_isRepo :: bool
  x_namespace :: string
  x_project :: "(string \<times> string) option"
  x_drafts :: "Artifact list option"

section \<open>Tables\<close>

definition refLine :: "reference \<Rightarrow> string" where
  "refLine r = ref_Namespace r @ ''/'' @ ref_Type r @ '':'' @ ref_ID r"

definition transitionStep :: "string \<Rightarrow> bool \<Rightarrow> string" where
  "transitionStep src forward =
     (if forward then
        (if src = ''planned'' then ''todo'' else if src = ''todo'' then ''in-progress''
         else if src = ''in-progress'' then ''in-review'' else if src = ''in-review'' then ''done''
         else if src = ''canceled'' then ''todo'' else '''')
      else
        (if src = ''in-review'' then ''in-progress'' else if src = ''in-progress'' then ''todo'' else ''''))"

definition ownsContentState :: "string \<Rightarrow> bool" where
  "ownsContentState typeToken = List.member (OwnedDomains typeToken) DomainContentState"

definition transitionDomain :: "string \<Rightarrow> string" where
  "transitionDomain t = (if t = ''plan'' then DomainPlanningState
     else if t = ''ctr'' then DomainContainerState
     else if ownsContentState t then DomainContentState else DomainExecutionState)"

section \<open>Publishing\<close>

definition withState :: "StateVector \<Rightarrow> string \<Rightarrow> string \<Rightarrow> StateVector" where
  "withState sv domain to =
     (if domain = DomainContentState then sv\<lparr>sv_ContentState := to\<rparr>
      else if domain = DomainExecutionState then sv\<lparr>sv_ExecutionState := to\<rparr>
      else if domain = DomainPlanningState then sv\<lparr>sv_PlanningState := to\<rparr>
      else if domain = DomainContainerState then sv\<lparr>sv_ContainerState := to\<rparr>
      else sv)"

text \<open>The transitioned unit: new state, date, one more change-log entry.\<close>

definition transitioned :: "string \<Rightarrow> AuthorIdentity \<Rightarrow> Unit \<Rightarrow> string \<Rightarrow> string \<Rightarrow> string \<Rightarrow> Unit" where
  "transitioned today by u domain src to =
     u\<lparr>u_StateVector := withState (u_StateVector u) domain to, u_Updated := today,
       u_ChangeLog := u_ChangeLog u @ [\<lparr>le_Date = today, le_Domain = domain, le_From = src, le_To = to, le_By = by\<rparr>]\<rparr>"

lemma transitioned_simps [simp]:
  "u_Identity (transitioned t who u sd a z) = u_Identity u"
  "u_CanonicalIdentityForm (transitioned t who u sd a z) = u_CanonicalIdentityForm u"
  "u_Relationships (transitioned t who u sd a z) = u_Relationships u"
  "u_ContentPayload (transitioned t who u sd a z) = u_ContentPayload u"
  "u_StateVector (transitioned t who u sd a z) = withState (u_StateVector u) sd z"
  by (simp_all add: transitioned_def)

definition unitPut :: "callContext \<Rightarrow> string \<Rightarrow> string \<Rightarrow> string \<Rightarrow> Unit \<Rightarrow> Put" where
  "unitPut x project sourceRepo updated u =
     \<lparr>put_UnitJSON = x_marshal x u, put_Content = u_ContentPayload u,
      put_Ref = \<lparr>r_Form = u_CanonicalIdentityForm u, r_ObjectHash = '''', r_ProjectID = project, r_SourceRepo = sourceRepo,
        r_Namespace = id_Namespace (u_Identity u), r_Type = id_Type (u_Identity u), r_ID = id_ID (u_Identity u),
        r_InstanceVersion = id_InstanceVersion (u_Identity u), r_Revision = u_Revision u,
        r_Dimension = cl_Dimension (u_Classification u), r_Domain = cl_Domain (u_Classification u),
        r_Phase = u_Phase u, r_UpdatedAt = updated\<rparr>\<rparr>"

definition publishStateTransition ::
  "callContext \<Rightarrow> db \<Rightarrow> string \<Rightarrow> string \<Rightarrow> Unit \<Rightarrow> string \<Rightarrow> string \<Rightarrow> string \<Rightarrow> AuthorIdentity \<Rightarrow>
     transition_error + (db \<times> TransitionResult)" where
  "publishStateTransition x d project sourceRepo current src to domain by =
     (let p = unitPut x project sourceRepo (x_today x) (transitioned (x_today x) by current domain src to) in
      case PutUnit (x_hash x) (x_now x) d (put_UnitJSON p) (put_Content p) (put_Ref p) of
        Inl err \<Rightarrow> Inl (PublishFailure err)
      | Inr (d', hash, kept) \<Rightarrow> Inr (d', \<lparr>tr_Target = unitLine current, tr_From = src, tr_To = to, tr_By = by,
          tr_ObjectHash = hash, tr_LockedPlan = '''', tr_LockedPlanHash = '''', tr_Warning = False\<rparr>))"

section \<open>Plans and containers\<close>

definition dependsOnPlans :: "Unit \<Rightarrow> reference list" where
  "dependsOnPlans u = List.map_filter (\<lambda>rel.
     if rel_Type rel \<noteq> ''depends-on'' then None
     else (case parseReference (rel_Target rel) (id_Namespace (u_Identity u)) (id_Type (u_Identity u)) of
             Inl err \<Rightarrow> None
           | Inr r \<Rightarrow> if ref_Type r = ''plan'' then Some r else None)) (u_Relationships u)"

text \<open>The single plan line; the last reference of the line is the one the map keeps.\<close>

definition resolveDependsOnPlan :: "Unit \<Rightarrow> refusal + reference" where
  "resolveDependsOnPlan u =
     (let rs = dependsOnPlans u in
      if rs = [] then Inl NoPlanReference
      else if length (remdups (map refLine rs)) > 1 then Inl ManyPlanReferences
      else Inr (last rs))"

record activeContainer =
  ac_Line :: string
  ac_SourceRepo :: string
  ac_Unit :: Unit

text \<open>The scan of the container references: per line the unit of the highest instance, the
  smaller source repository on a tie.\<close>

definition betterContainer :: "Unit \<times> string \<Rightarrow> (Unit \<times> string) option \<Rightarrow> bool" where
  "betterContainer p cur = (case cur of
       None \<Rightarrow> True
     | Some c \<Rightarrow> id_InstanceVersion (u_Identity (fst p)) > id_InstanceVersion (u_Identity (fst c))
         \<or> id_InstanceVersion (u_Identity (fst p)) = id_InstanceVersion (u_Identity (fst c)) \<and> snd p < snd c)"

fun bestContainer :: "(Unit \<times> string) option \<Rightarrow> (Unit \<times> string) list \<Rightarrow> (Unit \<times> string) option" where
  "bestContainer cur [] = cur"
| "bestContainer cur (p # ps) = bestContainer (if betterContainer p cur then Some p else cur) ps"

definition containerRows :: "callContext \<Rightarrow> db \<Rightarrow> string \<Rightarrow> (string \<times> Unit \<times> string) list option" where
  "containerRows x d project = those (map (\<lambda>r. case UnitAt (x_decode x) d (r_Form r) of
       Some (Some u) \<Rightarrow> Some (r_Namespace r @ ''/'' @ r_Type r @ '':'' @ r_ID r, u, r_SourceRepo r)
     | _ \<Rightarrow> None) (filter (\<lambda>r. r_Type r = ''ctr'') (RefsByProject d project)))"

definition activeRows :: "(string \<times> Unit \<times> string) list \<Rightarrow> activeContainer list" where
  "activeRows rows = List.map_filter (\<lambda>line. case bestContainer None (map snd (filter (\<lambda>(l, p). l = line) rows)) of
       None \<Rightarrow> None
     | Some (u, repo) \<Rightarrow>
         if sv_ContainerState (u_StateVector u) = ''active''
         then Some \<lparr>ac_Line = line, ac_SourceRepo = repo, ac_Unit = u\<rparr> else None)
     (sort (remdups (map fst rows)))"

definition otherActiveContainers :: "callContext \<Rightarrow> db \<Rightarrow> string \<Rightarrow> reference \<Rightarrow> activeContainer list option" where
  "otherActiveContainers x d project target =
     map_option (\<lambda>rows. filter (\<lambda>ac. ac_Line ac \<noteq> refLine target) (activeRows rows)) (containerRows x d project)"

definition activeContainersForPlan :: "callContext \<Rightarrow> db \<Rightarrow> string \<Rightarrow> string \<Rightarrow> string list option" where
  "activeContainersForPlan x d project planLine =
     map_option (\<lambda>us.
       let ctrs = filter (\<lambda>u. id_Type (u_Identity u) = ''ctr'') us in
       sort (filter (\<lambda>line. case lineUnit ctrs line of
           None \<Rightarrow> False
         | Some u \<Rightarrow> sv_ContainerState (u_StateVector u) = ''active''
             \<and> (case resolveDependsOnPlan u of Inl err \<Rightarrow> False
                | Inr r \<Rightarrow> ref_Namespace r @ ''/plan:'' @ ref_ID r = planLine)) (lines ctrs)))
       (UnitsByProject (x_decode x) d project)"

section \<open>The plan closure\<close>

definition identityNamespace :: "string \<Rightarrow> string" where
  "identityNamespace line = (case cut_first slash line of None \<Rightarrow> line | Some (ns, rest) \<Rightarrow> ns)"

definition identityType :: "string \<Rightarrow> string" where
  "identityType line =
     (let rest = (case cut_first slash line of None \<Rightarrow> line | Some (ns, r) \<Rightarrow> r) in
      case cut_first colon rest of None \<Rightarrow> '''' | Some (t, i) \<Rightarrow> t)"

definition identityID :: "string \<Rightarrow> string" where
  "identityID line = (case cut_last colon line of None \<Rightarrow> line | Some (p, i) \<Rightarrow> i)"

definition unitTargets :: "Unit \<Rightarrow> string list" where
  "unitTargets u = List.map_filter (\<lambda>rel.
     if rel_Type rel \<noteq> ''depends-on'' \<and> rel_Type rel \<noteq> ''derives-from'' then None
     else (case parseReference (rel_Target rel) (id_Namespace (u_Identity u)) (id_Type (u_Identity u)) of
             Inl err \<Rightarrow> None | Inr r \<Rightarrow> Some (refLine r))) (u_Relationships u)"

text \<open>What the walk reads at a line: the targets of its latest unit, none for an unknown
  line, an error when the store cannot be read.\<close>

definition lineTargets :: "callContext \<Rightarrow> db \<Rightarrow> string \<Rightarrow> string list option" where
  "lineTargets x d line =
     map_option (\<lambda>us. case highest us of None \<Rightarrow> [] | Some u \<Rightarrow> unitTargets u)
       (UnitsByLine (x_decode x) d (identityNamespace line) (identityType line) (identityID line))"

text \<open>Fuel for the walk: every line it can meet is the plan or the target of a stored
  relationship, and is expanded at most once.\<close>

definition storedRelations :: "callContext \<Rightarrow> db \<Rightarrow> nat" where
  "storedRelations x d = sum_list (map (\<lambda>p. case rowUnit (x_decode x) d p of None \<Rightarrow> 0 | Some u \<Rightarrow> length (u_Relationships u)) (refs d))"

definition closureFuel :: "callContext \<Rightarrow> db \<Rightarrow> nat" where
  "closureFuel x d = 1 + (1 + storedRelations x d) * storedRelations x d"

datatype closure_error = ClosurePlan refusal | ClosureRead

definition planClosure :: "callContext \<Rightarrow> db \<Rightarrow> Unit \<Rightarrow> closure_error + string list" where
  "planClosure x d ctr = (case resolveDependsOnPlan ctr of
       Inl err \<Rightarrow> Inl (ClosurePlan err)
     | Inr r \<Rightarrow> (case closureWalk (closureFuel x d) (lineTargets x d) [] [ref_Namespace r @ ''/plan:'' @ ref_ID r] of
           Some (Some closure) \<Rightarrow> Inr closure
         | _ \<Rightarrow> Inl ClosureRead))"

section \<open>The lock\<close>

definition lockPlanPuts ::
  "callContext \<Rightarrow> db \<Rightarrow> string \<Rightarrow> string \<Rightarrow> Unit \<Rightarrow> AuthorIdentity \<Rightarrow> transition_error + (Put list \<times> string \<times> bool)" where
  "lockPlanPuts x d project sourceRepo ctr by =
     (case resolveDependsOnPlan ctr of
        Inl err \<Rightarrow> Inl (Refused err)
      | Inr r \<Rightarrow>
          let plan = ref_Namespace r @ ''/plan:'' @ ref_ID r;
              put1 = unitPut x project sourceRepo (x_now x) ctr in
          (case UnitsByLine (x_decode x) d (ref_Namespace r) (ref_Type r) (ref_ID r) of
             None \<Rightarrow> Inl ReadFailure
           | Some line \<Rightarrow>
               (case highest line of
                  None \<Rightarrow> Inl (Refused (PlanMissing plan))
                | Some p \<Rightarrow>
                    let state = sv_PlanningState (u_StateVector p) in
                    if state = ''approved'' then
                      Inr ([put1, unitPut x project sourceRepo (x_today x)
                          (transitioned (x_today x) by p DomainPlanningState state ''immutable'')], plan, True)
                    else if state = ''superseded'' then Inl (Refused (PlanRetired plan))
                    else if state \<noteq> ''immutable'' then Inl (Refused (PlanNotApproved plan state))
                    else Inr ([put1], plan, False))))"

section \<open>The branches\<close>

definition transitionPlanState ::
  "callContext \<Rightarrow> db \<Rightarrow> string \<Rightarrow> string \<Rightarrow> reference \<Rightarrow> Unit \<Rightarrow> string \<Rightarrow> TransitionRequest \<Rightarrow> AuthorIdentity
     \<Rightarrow> transition_error + (db \<times> TransitionResult)" where
  "transitionPlanState x d project sourceRepo target current src rq by =
     (let step = rq_Forward rq \<or> rq_Backward rq;
          to = (if step then (if src = ''draft'' then ''approved'' else ''superseded'') else rq_To rq) in
      if step \<and> rq_Backward rq then Inl (Refused (ForwardOnly DomainPlanningState))
      else if step \<and> src = ''approved'' then Inl (Refused PlanLock)
      else if step \<and> src \<noteq> ''draft'' \<and> src \<noteq> ''immutable'' then Inl (Refused (NoStep DomainPlanningState True src))
      else if src = ''approved'' \<and> to = ''immutable'' then Inl (Refused PlanLock)
      else if src = ''immutable'' \<and> to = ''superseded'' then
        (case activeContainersForPlan x d project (refLine target) of
           None \<Rightarrow> Inl (Refused ContainersUnreadable)
         | Some offenders \<Rightarrow>
             if offenders \<noteq> [] then Inl (Refused (StillActive (refLine target) offenders))
             else publishStateTransition x d project sourceRepo current src to DomainPlanningState by)
      else if \<not> (src = ''draft'' \<and> to = ''approved'') then Inl (Refused (NotInTable DomainPlanningState src to))
      else publishStateTransition x d project sourceRepo current src to DomainPlanningState by)"

definition ticketMembership :: "Unit \<Rightarrow> (reference \<Rightarrow> Unit option) \<Rightarrow> string \<times> string" where
  "ticketMembership u lookup = foldl (\<lambda>(container, workItem) rel.
     if rel_Type rel \<noteq> ''derives-from'' then (container, workItem)
     else (case parseReference (rel_Target rel) (id_Namespace (u_Identity u)) (id_Type (u_Identity u)) of
         Inl err \<Rightarrow> (container, workItem)
       | Inr r \<Rightarrow>
           if lookup r = None then (container, workItem)
           else if container = '''' \<and> ref_Type r = ''ctr'' then (refLine r, workItem)
           else if workItem = '''' \<and> IsWorkItemType (ref_Type r) then (container, refLine r)
           else (container, workItem))) ('''', '''') (u_Relationships u)"

text \<open>The work items of the tickets of a container, one per line, highest instance; nothing
  when the project cannot be read.\<close>

definition containerWorkItems :: "callContext \<Rightarrow> db \<Rightarrow> string \<Rightarrow> reference \<Rightarrow> Unit list" where
  "containerWorkItems x d project ctrRef = (case UnitsByProject (x_decode x) d project of
       None \<Rightarrow> []
     | Some us \<Rightarrow>
         let lookup = (\<lambda>r. lineUnit us (refLine r));
             items = List.map_filter (\<lambda>u. if id_Type (u_Identity u) \<noteq> ''tkt'' then None
               else (case ticketMembership u lookup of (container, workItem) \<Rightarrow>
                 if container \<noteq> refLine ctrRef \<or> workItem = '''' then None else Some workItem)) us in
         sort_key u_CanonicalIdentityForm (List.map_filter (\<lambda>workItem. case parseReference workItem '''' '''' of
             Inl err \<Rightarrow> None | Inr r \<Rightarrow> lookup r) (rev (remdups (rev items)))))"

definition pendingItems :: "Unit list \<Rightarrow> string list" where
  "pendingItems items = sort (List.map_filter (\<lambda>u. let s = sv_ExecutionState (u_StateVector u) in
     if s \<noteq> ''done'' \<and> s \<noteq> ''canceled''
     then Some (id_Type (u_Identity u) @ '':'' @ id_ID (u_Identity u) @ '' ('' @ s @ '')'') else None) items)"

text \<open>The activation gate: the smallest other active container of the repository, else the
  first container of another repository whose closure meets the target's.\<close>

fun closureGate :: "callContext \<Rightarrow> db \<Rightarrow> string list \<Rightarrow> activeContainer list \<Rightarrow> refusal option" where
  "closureGate x d closure [] = None"
| "closureGate x d closure (ac # acs) = (case planClosure x d (ac_Unit ac) of
       Inl err \<Rightarrow> Some (ClosureUnreadable (ac_Line ac))
     | Inr other \<Rightarrow>
         (case sort (filter (\<lambda>l. List.member other l) closure) of
            [] \<Rightarrow> closureGate x d closure acs
          | shared # _ \<Rightarrow> Some (ClosureShared shared (ac_Line ac))))"

definition activationGate :: "callContext \<Rightarrow> db \<Rightarrow> string \<Rightarrow> string \<Rightarrow> reference \<Rightarrow> Unit \<Rightarrow> refusal option" where
  "activationGate x d project sourceRepo target current =
     (case otherActiveContainers x d project target of
        None \<Rightarrow> Some ContainersUnreadable
      | Some others \<Rightarrow>
          let sameRepo = filter (\<lambda>ac. ac_SourceRepo ac = sourceRepo) others;
              crossRepo = filter (\<lambda>ac. ac_SourceRepo ac \<noteq> sourceRepo) others in
          (case sameRepo of
             ac # _ \<Rightarrow> Some (AnotherActive (ac_Line ac))
           | [] \<Rightarrow>
               if crossRepo = [] then None
               else (case planClosure x d current of
                   Inl err \<Rightarrow> Some (ClosureUnreadable (refLine target))
                 | Inr closure \<Rightarrow> closureGate x d closure crossRepo)))"

definition transitionContainerState ::
  "callContext \<Rightarrow> db \<Rightarrow> string \<Rightarrow> string \<Rightarrow> reference \<Rightarrow> Unit \<Rightarrow> string \<Rightarrow> TransitionRequest \<Rightarrow> AuthorIdentity
     \<Rightarrow> transition_error + (db \<times> TransitionResult)" where
  "transitionContainerState x d project sourceRepo target current src rq by =
     (let step = rq_Forward rq \<or> rq_Backward rq;
          to = (if step \<and> src = ''planned'' then ''active'' else if step \<and> src = ''active'' then ''completed'' else rq_To rq);
          vals = domainValues DomainContainerState ''ctr'' in
      if step \<and> rq_Backward rq then Inl (Refused (ForwardOnly DomainContainerState))
      else if step \<and> src = ''completed'' then Inl (Refused (TerminalState src))
      else if \<not> (src = ''planned'' \<and> to = ''active'' \<or> src = ''active'' \<and> to = ''completed'') then
        (if indexOf vals to \<le> indexOf vals src then Inl (Refused (ForwardOnly DomainContainerState))
         else Inl (Refused (NotInTable DomainContainerState src to)))
      else if src = ''planned'' then
        (case activationGate x d project sourceRepo target current of
           Some err \<Rightarrow> Inl (Refused err)
         | None \<Rightarrow>
             (case lockPlanPuts x d project sourceRepo (transitioned (x_today x) by current DomainContainerState src ''active'') by of
                Inl err \<Rightarrow> Inl err
              | Inr (batch, plan, locked) \<Rightarrow>
                  (case PutUnits (x_hash x) (x_now x) d batch of
                     Inl err \<Rightarrow> Inl (PublishFailure err)
                   | Inr (d', hashes) \<Rightarrow> Inr (d', \<lparr>tr_Target = refLine target, tr_From = src, tr_To = to, tr_By = by,
                       tr_ObjectHash = (case hashes of [] \<Rightarrow> '''' | h # _ \<Rightarrow> h),
                       tr_LockedPlan = (if locked then plan else ''''),
                       tr_LockedPlanHash = (case hashes of _ # h # _ \<Rightarrow> if locked then h else '''' | _ \<Rightarrow> ''''),
                       tr_Warning = False\<rparr>))))
      else
        (let pending = pendingItems (containerWorkItems x d project target) in
         if pending \<noteq> [] then Inl (Refused (WorkPending pending))
         else publishStateTransition x d project sourceRepo current src to DomainContainerState by))"

text \<open>\<open>hasSuperseder\<close>: another published unit names the exact instance, or the line, in a
  \<open>supersedes\<close> relationship; an unreadable store confirms nothing.\<close>

definition supersedesInstance :: "reference \<Rightarrow> int \<Rightarrow> Unit \<Rightarrow> bool" where
  "supersedesInstance target version u =
     (\<not> (id_Namespace (u_Identity u) = ref_Namespace target \<and> id_Type (u_Identity u) = ref_Type target
         \<and> id_ID (u_Identity u) = ref_ID target \<and> id_InstanceVersion (u_Identity u) = version)
      \<and> list_ex (\<lambda>rel. rel_Type rel = ''supersedes''
          \<and> (case parseReference (rel_Target rel) (id_Namespace (u_Identity u)) (id_Type (u_Identity u)) of
               Inl err \<Rightarrow> False
             | Inr r \<Rightarrow> refLine r = refLine target \<and> (\<not> ref_HasVersion r \<or> ref_Version r = version)))
          (u_Relationships u))"

definition hasSuperseder :: "callContext \<Rightarrow> db \<Rightarrow> string \<Rightarrow> reference \<Rightarrow> int \<Rightarrow> bool" where
  "hasSuperseder x d project target version =
     (case UnitsByProject (x_decode x) d project of None \<Rightarrow> False | Some us \<Rightarrow> list_ex (supersedesInstance target version) us)"

definition transitionContentState ::
  "callContext \<Rightarrow> db \<Rightarrow> string \<Rightarrow> string \<Rightarrow> reference \<Rightarrow> Unit \<Rightarrow> string \<Rightarrow> TransitionRequest \<Rightarrow> AuthorIdentity
     \<Rightarrow> transition_error + (db \<times> TransitionResult)" where
  "transitionContentState x d project sourceRepo target current src rq by =
     (let vals = domainValues DomainContentState (ref_Type target);
          step = rq_Forward rq \<or> rq_Backward rq; i = indexOf vals src in
      if step \<and> rq_Backward rq then Inl (Refused (ForwardOnly DomainContentState))
      else if step \<and> (i < 0 \<or> i + 1 \<ge> int (length vals)) then Inl (Refused (NoStep DomainContentState True src))
      else
        (let to = (if step then vals ! nat (i + 1) else rq_To rq); j = indexOf vals to in
         if \<not> (i \<ge> 0 \<and> j = i + 1) then
           (if i \<ge> 0 \<and> i = int (length vals) - 1 then Inl (Refused (TerminalState src))
            else if j < 0 then Inl (Refused (NotInTable DomainContentState src to))
            else if j \<le> i then Inl (Refused (ForwardOnly DomainContentState))
            else Inl (Refused (NotInTable DomainContentState src to)))
         else if ref_Type target = ''adr'' \<and> to = ''superseded''
             \<and> \<not> hasSuperseder x d project target (id_InstanceVersion (u_Identity current))
           then Inl (Refused NotSuperseded)
         else publishStateTransition x d project sourceRepo current src to DomainContentState by))"

section \<open>Note gates and membership\<close>

record gateNote =
  gn_Role :: string
  gn_NoteState :: string
  gn_Identity :: string

definition sameLine :: "reference \<Rightarrow> reference \<Rightarrow> bool" where
  "sameLine r target = (ref_Namespace r = ref_Namespace target \<and> ref_Type r = ref_Type target \<and> ref_ID r = ref_ID target)"

definition namesTarget :: "string \<Rightarrow> string \<Rightarrow> reference \<Rightarrow> string \<Rightarrow> bool" where
  "namesTarget ns t target raw = (case parseReference raw ns t of Inl err \<Rightarrow> False | Inr r \<Rightarrow> sameLine r target)"

definition discussesTarget :: "Unit \<Rightarrow> reference \<Rightarrow> bool" where
  "discussesTarget u target = list_ex (\<lambda>rel. rel_Type rel = ''discusses''
     \<and> namesTarget (id_Namespace (u_Identity u)) (id_Type (u_Identity u)) target (rel_Target rel)) (u_Relationships u)"

definition discussesTargetArtifact :: "Artifact \<Rightarrow> reference \<Rightarrow> bool" where
  "discussesTargetArtifact a target =
     list_ex (namesTarget (Namespace a) (Type a) target) (get_or (Relations a) ''discusses'' [])"

definition roleField :: "gvalue gomap \<Rightarrow> string" where
  "roleField m = (case map_of m ''role'' of Some (GString s) \<Rightarrow> s | _ \<Rightarrow> '''')"

definition noteRoleOf :: "callContext \<Rightarrow> Unit \<Rightarrow> string" where
  "noteRoleOf x u =
     (if cr_Representation (u_Content u) \<noteq> StructuredJSON then ''''
      else (case x_fields x (u_ContentPayload u) of Some (GMap m) \<Rightarrow> roleField m | _ \<Rightarrow> ''''))"

definition publishedNotes :: "callContext \<Rightarrow> Unit list \<Rightarrow> reference \<Rightarrow> gateNote list" where
  "publishedNotes x us target =
     (let notes = filter (\<lambda>u. id_Type (u_Identity u) = ''cmt'' \<and> discussesTarget u target) us in
      List.map_filter (\<lambda>line. map_option (\<lambda>u. \<lparr>gn_Role = noteRoleOf x u, gn_NoteState = sv_NoteState (u_StateVector u),
          gn_Identity = id_Namespace (u_Identity u) @ ''/cmt:'' @ id_ID (u_Identity u)\<rparr>) (lineUnit notes line)) (lines notes))"

definition draftNotes :: "Artifact list \<Rightarrow> reference \<Rightarrow> gateNote list" where
  "draftNotes drafts target =
     map (\<lambda>a. \<lparr>gn_Role = (case ContentFields a of None \<Rightarrow> '''' | Some m \<Rightarrow> roleField m), gn_NoteState = get_or (States a) DomainNoteState '''',
         gn_Identity = Namespace a @ ''/cmt:'' @ ID a\<rparr>)
       (filter (\<lambda>a. Type a = ''cmt'' \<and> discussesTargetArtifact a target) drafts)"

definition collectGateNotes :: "callContext \<Rightarrow> db \<Rightarrow> string \<Rightarrow> reference \<Rightarrow> gateNote list option" where
  "collectGateNotes x d project target = (case UnitsByProject (x_decode x) d project of
       None \<Rightarrow> None
     | Some us \<Rightarrow> (case x_drafts x of
         None \<Rightarrow> None
       | Some drafts \<Rightarrow> Some (sort_key gn_Identity (publishedNotes x us target @ draftNotes drafts target))))"

definition gateViolations :: "gateNote list \<Rightarrow> string \<Rightarrow> string list" where
  "gateViolations notes to =
     (if to = ''in-review'' then
        (if list_ex (\<lambda>n. gn_Role n = ''implementation'' \<and> gn_NoteState n = ''resolved'') notes then []
         else [''in-review''])
      else if to = ''done'' then
        (let opens = map gn_Identity (filter (\<lambda>n. gn_NoteState n \<noteq> ''resolved'') notes) in
         if opens = [] then [] else [join_with '', '' (sort opens)])
      else [])"

definition registeredInActiveContainer :: "callContext \<Rightarrow> db \<Rightarrow> string \<Rightarrow> reference \<Rightarrow> bool" where
  "registeredInActiveContainer x d project target = (case UnitsByProject (x_decode x) d project of
       None \<Rightarrow> False
     | Some us \<Rightarrow>
         let lookup = (\<lambda>r. lineUnit us (refLine r));
             active = map unitLine (filter (\<lambda>u. id_Type (u_Identity u) = ''ctr''
               \<and> sv_ContainerState (u_StateVector u) = ''active'') us) in
         list_ex (\<lambda>u. id_Type (u_Identity u) = ''tkt'' \<and> (case ticketMembership u lookup of (container, workItem) \<Rightarrow>
           container \<noteq> '''' \<and> List.member active container \<and> workItem = refLine target)) us)"

section \<open>The service\<close>

definition transitionWorkItem ::
  "callContext \<Rightarrow> db \<Rightarrow> string \<Rightarrow> string \<Rightarrow> reference \<Rightarrow> Unit \<Rightarrow> string \<Rightarrow> TransitionRequest \<Rightarrow> AuthorIdentity
     \<Rightarrow> transition_error + (db \<times> TransitionResult)" where
  "transitionWorkItem x d project sourceRepo target current src rq by =
     (let step = rq_Forward rq \<or> rq_Backward rq;
          to = (if step then transitionStep src (rq_Forward rq) else rq_To rq) in
      if step \<and> to = '''' then Inl (Refused (NoStep DomainExecutionState (\<not> rq_Backward rq) src))
      else if \<not> isLegalExecutionTransition src to then Inl (Refused (NotInTable DomainExecutionState src to))
      else (case collectGateNotes x d project target of
          None \<Rightarrow> Inl ReadFailure
        | Some notes \<Rightarrow>
            if gateViolations notes to \<noteq> [] then Inl (Refused (NoteGate (gateViolations notes to)))
            else
              let registered = registeredInActiveContainer x d project target in
              if \<not> registered \<and> \<not> rq_Confirmed rq then Inl (Refused MembershipUnconfirmed)
              else (case publishStateTransition x d project sourceRepo current src to DomainExecutionState by of
                  Inl err \<Rightarrow> Inl err
                | Inr (d', res) \<Rightarrow> Inr (d', res\<lparr>tr_Target := refLine target, tr_Warning := \<not> registered\<rparr>))))"

definition byIdentity :: "TransitionRequest \<Rightarrow> AuthorIdentity" where
  "byIdentity rq = \<lparr>au_Kind = (if rq_ByKind rq = '''' then KindUser else rq_ByKind rq), au_Name = rq_By rq\<rparr>"

text \<open>The checks on the request, in the order of the source; the target is qualified with the
  namespace of the repository.\<close>

definition checkRequest :: "callContext \<Rightarrow> TransitionRequest \<Rightarrow> transition_error + reference" where
  "checkRequest x rq =
     (if trim_space (rq_By rq) = '''' then Inl (Refused AuthorityRequired)
      else if \<not> IsAuthorKind (au_Kind (byIdentity rq)) then Inl (Usage (UnknownKind (rq_ByKind rq)))
      else if rq_To rq \<noteq> '''' \<and> (rq_Forward rq \<or> rq_Backward rq) then Inl (Usage ToAndStep)
      else if rq_Forward rq \<and> rq_Backward rq then Inl (Usage BothSteps)
      else if \<not> x_isRepo x then Inl (Refused NotARepository)
      else (case parseReference (rq_Target rq) '''' '''' of
          Inl err \<Rightarrow> Inl (Usage (BadTarget err))
        | Inr r \<Rightarrow>
            if ref_HasVersion r then Inl (Usage VersionedTarget)
            else if \<not> IsWorkItemType (ref_Type r) \<and> ref_Type r \<noteq> ''plan'' \<and> ref_Type r \<noteq> ''ctr'' \<and> \<not> ownsContentState (ref_Type r)
              then Inl (Usage (NotTransitionable (ref_Type r)))
            else if ref_Namespace r \<noteq> '''' \<and> ref_Namespace r \<noteq> x_namespace x then Inl (Usage (ForeignNamespace (ref_Namespace r)))
            else Inr (r\<lparr>ref_Namespace := x_namespace x\<rparr>)))"

definition Transition :: "callContext \<Rightarrow> TransitionRequest \<Rightarrow> db \<Rightarrow> transition_error + (db \<times> TransitionResult)" where
  "Transition x rq d = (case checkRequest x rq of
       Inl err \<Rightarrow> Inl err
     | Inr target \<Rightarrow> (case x_project x of
         None \<Rightarrow> Inl (Refused Unregistered)
       | Some (project, sourceRepo) \<Rightarrow>
           (case UnitsByLine (x_decode x) d (ref_Namespace target) (ref_Type target) (ref_ID target) of
              None \<Rightarrow> Inl ReadFailure
            | Some line \<Rightarrow> (case highest line of
                None \<Rightarrow> Inl (Refused (NotInStore (refLine target)))
              | Some current \<Rightarrow>
                  let domain = transitionDomain (ref_Type target); src = StateVectorValue current domain; by = byIdentity rq in
                  if src = '''' then Inl (Refused (CarriesNoState (refLine target) domain))
                  else if ref_Type target = ''plan'' then transitionPlanState x d project sourceRepo target current src rq by
                  else if ref_Type target = ''ctr'' then transitionContainerState x d project sourceRepo target current src rq by
                  else if domain = DomainContentState then transitionContentState x d project sourceRepo target current src rq by
                  else transitionWorkItem x d project sourceRepo target current src rq by))))"

end
