(* ===== verification/Runtime_Gates.thy ===== *)
theory Runtime_Gates
  imports Runtime_Transition
begin

text \<open>
  What the transition service guarantees: the plan closure walk ends and computes exactly
  the reachable lines, every published move is legal for the validator, and a successful
  transition has passed the gates of its kind; with two places where a gate does less than
  its comment says.  The last section is the sample workspace of the witnesses.
\<close>

section \<open>The closure walk ends and is exact\<close>

definition relationTargets :: "callContext \<Rightarrow> db \<Rightarrow> string list" where
  "relationTargets x d = concat (map (\<lambda>p. case rowUnit (x_decode x) d p of None \<Rightarrow> [] | Some u \<Rightarrow> unitTargets u) (refs d))"

lemma length_map_filter: "length (List.map_filter f xs) \<le> length xs"
  by (induction xs) (auto split: option.splits)

lemma unitTargets_length: "length (unitTargets u) \<le> length (u_Relationships u)"
  unfolding unitTargets_def by (rule length_map_filter)

lemma relationTargets_length: "length (relationTargets x d) \<le> storedRelations x d"
proof -
  have "length (concat (map f ps)) \<le> sum_list (map g ps)" if "\<And>p. length (f p) \<le> g p"
    for f :: "string \<times> ref_row \<Rightarrow> string list" and g :: "_ \<Rightarrow> nat" and ps
    using that by (induction ps) (auto intro: add_mono)
  then show ?thesis unfolding relationTargets_def storedRelations_def
    by (auto simp: unitTargets_length split: option.splits)
qed

lemma lineTargets_in:
  assumes "lineTargets x d l = Some ts"
  shows "set ts \<subseteq> set (relationTargets x d) \<and> length ts \<le> storedRelations x d"
proof -
  obtain us where us: "UnitsByLine (x_decode x) d (identityNamespace l) (identityType l) (identityID l) = Some us"
    and ts: "ts = (case highest us of None \<Rightarrow> [] | Some u \<Rightarrow> unitTargets u)"
    using assms by (auto simp: lineTargets_def)
  show ?thesis
  proof (cases "highest us")
    case None with ts show ?thesis by simp
  next
    case (Some u)
    from highest_Some(1) [OF Some] us obtain p where p: "p \<in> set (refs d)" "rowUnit (x_decode x) d p = Some u"
      using unitsByQuery_mem [OF us [unfolded UnitsByLine_def]] by blast
    have "set (unitTargets u) \<subseteq> set (relationTargets x d)" unfolding relationTargets_def using p by force
    moreover have "length (u_Relationships u) \<le> storedRelations x d"
      unfolding storedRelations_def using p by (intro member_le_sum_list) (force simp: image_iff, simp)
    ultimately show ?thesis using ts Some unitTargets_length [of u] by simp
  qed
qed

interpretation plans: demand_walk "lineTargets x d" "insert start (set (relationTargets x d))" "storedRelations x d"
  for x d start
  by unfold_locales (use lineTargets_in in fastforce)+

text \<open>\<open>reaches x d plan l\<close>: the line is the plan or reachable from it along the depends-on and
  derives-from relationships of the latest units.\<close>

definition reaches :: "callContext \<Rightarrow> db \<Rightarrow> string \<Rightarrow> string \<Rightarrow> bool" where
  "reaches x d = (\<lambda>l l'. \<exists>ts. lineTargets x d l = Some ts \<and> l' \<in> set ts)\<^sup>*\<^sup>*"

lemma plans_link: "plans.link x d = (\<lambda>l l'. \<exists>ts. lineTargets x d l = Some ts \<and> l' \<in> set ts)"
  by (intro ext) (simp add: plans.link_def)

lemma closure_exact:
  "plans.closure_result x d start (closureWalk (closureFuel x d) (lineTargets x d) [] [start])"
proof (rule plans.closureWalk_exact)
  have "card (insert start (set (relationTargets x d))) \<le> 1 + storedRelations x d"
    using card_length [of "relationTargets x d"] relationTargets_length [of x d] by (simp add: card_insert_if)
  then show "1 + card (insert start (set (relationTargets x d))) * storedRelations x d \<le> closureFuel x d"
    using mult_le_mono1 [of _ _ "storedRelations x d"] unfolding closureFuel_def by (metis add_left_mono)
qed simp

definition planLineOf :: "Unit \<Rightarrow> refusal + string" where
  "planLineOf u = (case resolveDependsOnPlan u of Inl err \<Rightarrow> Inl err | Inr r \<Rightarrow> Inr (ref_Namespace r @ ''/plan:'' @ ref_ID r))"

lemma planClosure_cases:
  "(\<exists>err. planLineOf u = Inl err \<and> planClosure x d u = Inl (ClosurePlan err))
   \<or> (\<exists>plan closure. planLineOf u = Inr plan \<and> planClosure x d u = Inr closure \<and> set closure = {l. reaches x d plan l})
   \<or> (\<exists>plan l. planLineOf u = Inr plan \<and> planClosure x d u = Inl ClosureRead \<and> reaches x d plan l \<and> lineTargets x d l = None)"
proof (cases "resolveDependsOnPlan u")
  case (Inl err)
  then show ?thesis by (simp add: planLineOf_def planClosure_def)
next
  case (Inr r)
  let ?plan = "ref_Namespace r @ ''/plan:'' @ ref_ID r"
  let ?w = "closureWalk (closureFuel x d) (lineTargets x d) [] [?plan]"
  from closure_exact [of x d ?plan] obtain w where w: "?w = Some w"
    "w = None \<longrightarrow> (\<exists>l. reaches x d ?plan l \<and> lineTargets x d l = None)"
    "\<forall>c. w = Some c \<longrightarrow> set c = {l. reaches x d ?plan l}"
    unfolding plans.closure_result_def plans_link reaches_def by blast
  show ?thesis
  proof (cases w)
    case None
    with w Inr show ?thesis by (auto simp: planLineOf_def planClosure_def)
  next
    case (Some c)
    with w Inr show ?thesis by (simp add: planLineOf_def planClosure_def)
  qed
qed

section \<open>What a successful transition has passed\<close>

lemma publish_result:
  "publishStateTransition x d project sourceRepo current src to domain by = Inr (d', res) \<Longrightarrow>
     tr_From res = src \<and> tr_To res = to \<and> tr_Target res = unitLine current \<and> tr_By res = by"
  by (auto simp: publishStateTransition_def Let_def split: sum.splits)

text \<open>The dispatch of the service on the type of the target.\<close>

lemma Transition_cases:
  assumes "Transition x rq d = Inr (d', res)"
  obtains target project repo line current where
    "checkRequest x rq = Inr target" "x_project x = Some (project, repo)"
    "UnitsByLine (x_decode x) d (ref_Namespace target) (ref_Type target) (ref_ID target) = Some line"
    "highest line = Some current"
    "StateVectorValue current (transitionDomain (ref_Type target)) \<noteq> ''''"
    "(if ref_Type target = ''plan'' then transitionPlanState
      else if ref_Type target = ''ctr'' then transitionContainerState
      else if transitionDomain (ref_Type target) = DomainContentState then transitionContentState
      else transitionWorkItem) x d project repo target current
        (StateVectorValue current (transitionDomain (ref_Type target))) rq (byIdentity rq) = Inr (d', res)"
  using assms unfolding Transition_def
  by (auto simp: Let_def split: sum.splits option.splits prod.splits if_splits)

lemma plan_moves:
  assumes "transitionPlanState x d project repo target current src rq by = Inr (d', res)"
  shows "publishStateTransition x d project repo current src (tr_To res) DomainPlanningState by = Inr (d', res)"
    and "tr_From res = src" and "(src = ''draft'' \<and> tr_To res = ''approved'') \<or> (src = ''immutable'' \<and> tr_To res = ''superseded''
      \<and> activeContainersForPlan x d project (refLine target) = Some [])"
proof -
  from assms obtain to where p: "publishStateTransition x d project repo current src to DomainPlanningState by = Inr (d', res)"
    and to: "(src = ''draft'' \<and> to = ''approved'') \<or> (src = ''immutable'' \<and> to = ''superseded''
      \<and> activeContainersForPlan x d project (refLine target) = Some [])"
    unfolding transitionPlanState_def Let_def by (fastforce split: if_splits option.splits)
  from p to publish_result [OF p]
  show "publishStateTransition x d project repo current src (tr_To res) DomainPlanningState by = Inr (d', res)"
    "tr_From res = src" "(src = ''draft'' \<and> tr_To res = ''approved'') \<or> (src = ''immutable'' \<and> tr_To res = ''superseded''
      \<and> activeContainersForPlan x d project (refLine target) = Some [])" by simp_all
qed

lemma activation_moves:
  assumes "transitionContainerState x d project repo target current src rq by = Inr (d', res)" "src = ''planned''"
  shows "tr_From res = src" and "tr_To res = ''active''" and "activationGate x d project repo target current = None"
    and "\<exists>batch plan locked hashes. lockPlanPuts x d project repo (transitioned (x_today x) by current DomainContainerState src ''active'') by
        = Inr (batch, plan, locked) \<and> PutUnits (x_hash x) (x_now x) d batch = Inr (d', hashes)"
  using assms unfolding transitionContainerState_def Let_def
  by (auto split: if_splits option.splits sum.splits prod.splits)

lemma completion_moves:
  assumes "transitionContainerState x d project repo target current src rq by = Inr (d', res)" "src \<noteq> ''planned''"
  shows "src = ''active''" and "tr_From res = src" and "tr_To res = ''completed''"
    and "pendingItems (containerWorkItems x d project target) = []"
    and "publishStateTransition x d project repo current src ''completed'' DomainContainerState by = Inr (d', res)"
proof -
  from assms have p: "publishStateTransition x d project repo current src ''completed'' DomainContainerState by = Inr (d', res)"
    and rest: "src = ''active''" "pendingItems (containerWorkItems x d project target) = []"
    unfolding transitionContainerState_def Let_def by (auto split: if_splits)
  from p rest publish_result [OF p] show "src = ''active''" "tr_From res = src" "tr_To res = ''completed''"
    "pendingItems (containerWorkItems x d project target) = []"
    "publishStateTransition x d project repo current src ''completed'' DomainContainerState by = Inr (d', res)" by simp_all
qed

lemma content_moves:
  assumes "transitionContentState x d project repo target current src rq by = Inr (d', res)"
  shows "publishStateTransition x d project repo current src (tr_To res) DomainContentState by = Inr (d', res)"
    and "tr_From res = src" and "indexOf (domainValues DomainContentState (ref_Type target)) src \<ge> 0"
    and "indexOf (domainValues DomainContentState (ref_Type target)) (tr_To res)
        = indexOf (domainValues DomainContentState (ref_Type target)) src + 1"
    and "ref_Type target = ''adr'' \<and> tr_To res = ''superseded'' \<longrightarrow>
        hasSuperseder x d project target (id_InstanceVersion (u_Identity current))"
proof -
  let ?vals = "domainValues DomainContentState (ref_Type target)"
  from assms obtain to where p: "publishStateTransition x d project repo current src to DomainContentState by = Inr (d', res)"
    and to: "indexOf ?vals src \<ge> 0" "indexOf ?vals to = indexOf ?vals src + 1"
      "ref_Type target = ''adr'' \<and> to = ''superseded'' \<longrightarrow> hasSuperseder x d project target (id_InstanceVersion (u_Identity current))"
    unfolding transitionContentState_def Let_def by (fastforce split: if_splits)
  from publish_result [OF p] p to
  show "publishStateTransition x d project repo current src (tr_To res) DomainContentState by = Inr (d', res)"
    "tr_From res = src" "indexOf ?vals src \<ge> 0" "indexOf ?vals (tr_To res) = indexOf ?vals src + 1"
    "ref_Type target = ''adr'' \<and> tr_To res = ''superseded'' \<longrightarrow> hasSuperseder x d project target (id_InstanceVersion (u_Identity current))"
    by simp_all
qed

lemma work_moves:
  assumes "transitionWorkItem x d project repo target current src rq by = Inr (d', res)"
  shows "tr_From res = src" and "isLegalExecutionTransition src (tr_To res)"
    and "\<exists>notes. collectGateNotes x d project target = Some notes \<and> gateViolations notes (tr_To res) = []"
    and "registeredInActiveContainer x d project target \<or> rq_Confirmed rq"
    and "\<exists>res0. publishStateTransition x d project repo current src (tr_To res) DomainExecutionState by = Inr (d', res0)"
proof -
  from assms obtain to res0 where p: "publishStateTransition x d project repo current src to DomainExecutionState by = Inr (d', res0)"
    and res: "res = res0\<lparr>tr_Target := refLine target, tr_Warning := \<not> registeredInActiveContainer x d project target\<rparr>"
    and to: "isLegalExecutionTransition src to" "\<exists>notes. collectGateNotes x d project target = Some notes \<and> gateViolations notes to = []"
      "registeredInActiveContainer x d project target \<or> rq_Confirmed rq"
    unfolding transitionWorkItem_def Let_def by (auto split: if_splits option.splits sum.splits prod.splits)
  from publish_result [OF p] res have r: "tr_To res = to" "tr_From res = src" by simp_all
  show "tr_From res = src" "isLegalExecutionTransition src (tr_To res)"
    "\<exists>notes. collectGateNotes x d project target = Some notes \<and> gateViolations notes (tr_To res) = []"
    "registeredInActiveContainer x d project target \<or> rq_Confirmed rq"
    "\<exists>res0. publishStateTransition x d project repo current src (tr_To res) DomainExecutionState by = Inr (d', res0)"
    using p to r by auto
qed

lemma gates_pass:
  "gateViolations notes to = [] \<longleftrightarrow>
     (to = ''in-review'' \<longrightarrow> (\<exists>n\<in>set notes. gn_Role n = ''implementation'' \<and> gn_NoteState n = ''resolved''))
     \<and> (to = ''done'' \<longrightarrow> (\<forall>n\<in>set notes. gn_NoteState n = ''resolved''))"
  by (auto simp: gateViolations_def Let_def list_ex_iff filter_empty_conv)

lemma member_fun: "List.member xs = (\<lambda>l. l \<in> set xs)"
  by (rule ext) simp

lemma closureGate_pass:
  "closureGate x d closure acs = None \<Longrightarrow> ac \<in> set acs \<Longrightarrow>
     \<exists>other. planClosure x d (ac_Unit ac) = Inr other \<and> set closure \<inter> set other = {}"
proof (induction acs)
  case (Cons a acs)
  obtain other where other: "planClosure x d (ac_Unit a) = Inr other" "sort (filter (List.member other) closure) = []"
    and rest: "closureGate x d closure acs = None"
    using Cons.prems(1) by (auto simp del: sort_key_simps split: sum.splits list.splits)
  have "filter (List.member other) closure = []" using other(2) by (metis length_0_conv length_sort)
  then have "set closure \<inter> set other = {}" unfolding member_fun by (auto simp: filter_empty_conv)
  with other(1) Cons.IH [OF rest] Cons.prems(2) show ?case by auto
qed simp

text \<open>Two units whose plans have no line in common.\<close>

definition plansDisjoint :: "callContext \<Rightarrow> db \<Rightarrow> Unit \<Rightarrow> Unit \<Rightarrow> bool" where
  "plansDisjoint x d u v = (\<exists>p q. planLineOf u = Inr p \<and> planLineOf v = Inr q \<and> (\<nexists>l. reaches x d p l \<and> reaches x d q l))"

lemma closures_disjoint:
  assumes "planClosure x d u = Inr c" "planClosure x d v = Inr c'" "set c \<inter> set c' = {}"
  shows "plansDisjoint x d u v"
proof -
  have "\<exists>p. planLineOf w = Inr p \<and> set cl = {l. reaches x d p l}" if "planClosure x d w = Inr cl" for w cl
    using planClosure_cases [of w x d] that by auto
  from this [OF assms(1)] this [OF assms(2)] assms(3) show ?thesis unfolding plansDisjoint_def by blast
qed

lemma activationGate_pass:
  assumes "activationGate x d project repo target current = None"
  shows "\<exists>rows. containerRows x d project = Some rows \<and> (\<forall>ac\<in>set (activeRows rows). ac_Line ac \<noteq> refLine target \<longrightarrow>
      ac_SourceRepo ac \<noteq> repo \<and> plansDisjoint x d current (ac_Unit ac))"
proof -
  from assms obtain rows where rows: "containerRows x d project = Some rows"
    by (auto simp: activationGate_def otherActiveContainers_def split: option.splits)
  let ?others = "filter (\<lambda>ac. ac_Line ac \<noteq> refLine target) (activeRows rows)"
  have same: "filter (\<lambda>ac. ac_SourceRepo ac = repo) ?others = []"
    using assms rows by (auto simp: activationGate_def otherActiveContainers_def Let_def split: list.splits)
  have disjoint: "plansDisjoint x d current (ac_Unit ac)" if ac: "ac \<in> set (filter (\<lambda>ac. ac_SourceRepo ac \<noteq> repo) ?others)" for ac
  proof -
    have "filter (\<lambda>ac. ac_SourceRepo ac \<noteq> repo) ?others \<noteq> []" using ac by (metis empty_iff list.set(1))
    then obtain closure where "planClosure x d current = Inr closure"
      "closureGate x d closure (filter (\<lambda>ac. ac_SourceRepo ac \<noteq> repo) ?others) = None"
      using assms rows same by (auto simp: activationGate_def otherActiveContainers_def Let_def simp del: filter_filter split: list.splits sum.splits)
    with closureGate_pass [OF _ ac] closures_disjoint show ?thesis by blast
  qed
  have "ac_SourceRepo ac \<noteq> repo \<and> plansDisjoint x d current (ac_Unit ac)"
    if "ac \<in> set (activeRows rows)" "ac_Line ac \<noteq> refLine target" for ac
  proof -
    have "ac_SourceRepo ac \<noteq> repo" using same that by (auto simp: filter_empty_conv)
    with disjoint [of ac] that show ?thesis by auto
  qed
  with rows show ?thesis by blast
qed

lemma lockPlanPuts_ok:
  assumes "lockPlanPuts x d project repo ctr by = Inr (batch, plan, locked)"
  shows "\<exists>p us u. planLineOf ctr = Inr plan \<and> resolveDependsOnPlan ctr = Inr p \<and> ref_Type p = ''plan''
     \<and> UnitsByLine (x_decode x) d (ref_Namespace p) (ref_Type p) (ref_ID p) = Some us \<and> highest us = Some u
     \<and> (sv_PlanningState (u_StateVector u) = ''approved'' \<and> locked \<and> batch = [unitPut x project repo (x_now x) ctr,
           unitPut x project repo (x_today x) (transitioned (x_today x) by u DomainPlanningState ''approved'' ''immutable'')]
       \<or> sv_PlanningState (u_StateVector u) = ''immutable'' \<and> \<not> locked \<and> batch = [unitPut x project repo (x_now x) ctr])"
proof -
  have plan_type: "ref_Type p = ''plan''" if "resolveDependsOnPlan ctr = Inr p" for p
  proof -
    from that have "p \<in> set (dependsOnPlans ctr)" by (auto simp: resolveDependsOnPlan_def Let_def split: if_splits)
    then show ?thesis by (auto simp: dependsOnPlans_def List.map_filter_def split: if_splits sum.splits)
  qed
  from assms show ?thesis unfolding lockPlanPuts_def Let_def
    by (auto simp: planLineOf_def plan_type split: sum.splits option.splits if_splits)
qed

section \<open>Properties\<close>

text \<open>The target resolved for a request, and the unit the service works on.\<close>

definition targetUnit :: "callContext \<Rightarrow> db \<Rightarrow> reference \<Rightarrow> Unit option" where
  "targetUnit x d target = (case UnitsByLine (x_decode x) d (ref_Namespace target) (ref_Type target) (ref_ID target) of
       None \<Rightarrow> None | Some line \<Rightarrow> highest line)"

lemma legal_moves:
  "(src = ''draft'' \<and> to = ''approved'') \<or> (src = ''immutable'' \<and> to = ''superseded'') \<Longrightarrow>
     isLegalTransition DomainPlanningState ''plan'' src to"
  "(src = ''planned'' \<and> to = ''active'') \<or> (src = ''active'' \<and> to = ''completed'') \<Longrightarrow>
     isLegalTransition DomainContainerState ''ctr'' src to"
  "isLegalExecutionTransition src to \<Longrightarrow> isLegalTransition DomainExecutionState t src to"
  "indexOf (domainValues DomainContentState t) src \<ge> 0 \<Longrightarrow>
     indexOf (domainValues DomainContentState t) to = indexOf (domainValues DomainContentState t) src + 1 \<Longrightarrow>
     isLegalTransition DomainContentState t src to"
proof -
  show "(src = ''draft'' \<and> to = ''approved'') \<or> (src = ''immutable'' \<and> to = ''superseded'') \<Longrightarrow>
      isLegalTransition DomainPlanningState ''plan'' src to"
    by (elim disjE conjE) (simp_all add: isLegalTransition_def domainValues_def planningStateValues_def domain_names)
  show "(src = ''planned'' \<and> to = ''active'') \<or> (src = ''active'' \<and> to = ''completed'') \<Longrightarrow>
      isLegalTransition DomainContainerState ''ctr'' src to"
    by (elim disjE conjE) (simp_all add: isLegalTransition_def domainValues_def containerStateValues_def domain_names)
  assume "isLegalExecutionTransition src to"
  moreover from this have "src \<in> set executionStateValues" "to \<in> set executionStateValues"
    by (auto simp: isLegalExecutionTransition_def executionStateValues_def split: if_splits)
  ultimately show "isLegalTransition DomainExecutionState t src to"
    by (simp add: isLegalTransition_def domainValues_def domain_names Let_def)
next
  assume "indexOf (domainValues DomainContentState t) src \<ge> 0"
    "indexOf (domainValues DomainContentState t) to = indexOf (domainValues DomainContentState t) src + 1"
  then show "isLegalTransition DomainContentState t src to"
    by (simp add: isLegalTransition_def domain_names Let_def del: indexOf_nonneg_iff indexOf_neg_iff)
qed

lemma transitionDomain_cases:
  "transitionDomain ''plan'' = DomainPlanningState" "transitionDomain ''ctr'' = DomainContainerState"
  "t \<noteq> ''plan'' \<Longrightarrow> t \<noteq> ''ctr'' \<Longrightarrow> transitionDomain t \<noteq> DomainContentState \<Longrightarrow> transitionDomain t = DomainExecutionState"
  by (simp_all add: transitionDomain_def split: if_splits)

lemma Transition_branches:
  assumes "Transition x rq d = Inr (d', res)" "checkRequest x rq = Inr target"
  obtains (plan) project repo current where "ref_Type target = ''plan''" "x_project x = Some (project, repo)"
      "targetUnit x d target = Some current"
      "transitionPlanState x d project repo target current (StateVectorValue current DomainPlanningState) rq (byIdentity rq) = Inr (d', res)"
    | (container) project repo current where "ref_Type target = ''ctr''" "x_project x = Some (project, repo)"
      "targetUnit x d target = Some current"
      "transitionContainerState x d project repo target current (StateVectorValue current DomainContainerState) rq (byIdentity rq) = Inr (d', res)"
    | (content) project repo current where "ref_Type target \<noteq> ''plan''" "ref_Type target \<noteq> ''ctr''"
      "transitionDomain (ref_Type target) = DomainContentState" "x_project x = Some (project, repo)"
      "targetUnit x d target = Some current"
      "transitionContentState x d project repo target current (StateVectorValue current DomainContentState) rq (byIdentity rq) = Inr (d', res)"
    | (work) project repo current where "ref_Type target \<noteq> ''plan''" "ref_Type target \<noteq> ''ctr''"
      "transitionDomain (ref_Type target) = DomainExecutionState" "x_project x = Some (project, repo)"
      "targetUnit x d target = Some current"
      "transitionWorkItem x d project repo target current (StateVectorValue current DomainExecutionState) rq (byIdentity rq) = Inr (d', res)"
proof -
  from assms(1) obtain project repo line current where p: "x_project x = Some (project, repo)"
    "UnitsByLine (x_decode x) d (ref_Namespace target) (ref_Type target) (ref_ID target) = Some line" "highest line = Some current"
    and b: "(if ref_Type target = ''plan'' then transitionPlanState
      else if ref_Type target = ''ctr'' then transitionContainerState
      else if transitionDomain (ref_Type target) = DomainContentState then transitionContentState
      else transitionWorkItem) x d project repo target current
        (StateVectorValue current (transitionDomain (ref_Type target))) rq (byIdentity rq) = Inr (d', res)"
    using assms(2) by (elim Transition_cases) auto
  have t: "targetUnit x d target = Some current" using p(2,3) by (simp add: targetUnit_def)
  have ne: "''ctr'' \<noteq> ''plan''" by simp
  show thesis
  proof (cases "ref_Type target = ''plan''")
    case True
    from plan [OF True p(1) t] b show thesis unfolding True by (simp only: if_True transitionDomain_cases(1) simp_thms)
  next
    case np: False
    show thesis
    proof (cases "ref_Type target = ''ctr''")
      case True
      from container [OF True p(1) t] b show thesis unfolding True by (simp only: if_True if_False ne transitionDomain_cases(2) simp_thms)
    next
      case nc: False
      show thesis
      proof (cases "transitionDomain (ref_Type target) = DomainContentState")
        case True
        from content [OF np nc True p(1) t] b np nc show thesis unfolding True by (simp only: if_True if_False simp_thms)
      next
        case False
        have e: "transitionDomain (ref_Type target) = DomainExecutionState" by (rule transitionDomain_cases(3) [OF np nc False])
        from work [OF np nc e p(1) t] b np nc False show thesis unfolding e by (simp only: if_False)
      qed
    qed
  qed
qed

text \<open>C7: Every transition the service publishes is legal for the validator: the pair of states is
  a legal transition of Rule 7 in the domain of the target's type, for work items, plans,
  containers and knowledge artifacts alike.\<close>
theorem transitions_are_legal:
  assumes run: "Transition x rq d = Inr (d', res)" and target: "checkRequest x rq = Inr target"
  shows "isLegalTransition (transitionDomain (ref_Type target)) (ref_Type target) (tr_From res) (tr_To res)"
  using run target
proof (cases rule: Transition_branches)
  case (plan project repo current)
  show ?thesis unfolding plan(1) transitionDomain_cases
    by (rule legal_moves(1)) (use plan_moves(2,3) [OF plan(4)] in auto)
next
  case (container project repo current)
  show ?thesis unfolding container(1) transitionDomain_cases
  proof (rule legal_moves(2), cases "StateVectorValue current DomainContainerState = ''planned''")
    case True
    from activation_moves(1,2) [OF container(4) True] True
    show "tr_From res = ''planned'' \<and> tr_To res = ''active'' \<or> tr_From res = ''active'' \<and> tr_To res = ''completed''" by simp
  next
    case False
    from completion_moves(1-3) [OF container(4) False]
    show "tr_From res = ''planned'' \<and> tr_To res = ''active'' \<or> tr_From res = ''active'' \<and> tr_To res = ''completed''" by simp
  qed
next
  case (content project repo current)
  note c = content_moves(2-4) [OF content(6)]
  show ?thesis unfolding content(3) c(1) by (rule legal_moves(4) [OF c(2,3)])
next
  case (work project repo current)
  note w = work_moves(1,2) [OF work(6)]
  show ?thesis unfolding work(3) w(1) by (rule legal_moves(3) [OF w(2)])
qed

text \<open>C6: A work item enters in-review only with a resolved implementation note and done only
  with all its notes resolved (published notes at their latest instance, and drafts), and
  moves without confirmation only when a ticket of an active container registers it.\<close>
theorem work_item_gates_enforced:
  assumes run: "Transition x rq d = Inr (d', res)" and target: "checkRequest x rq = Inr target"
    and work: "transitionDomain (ref_Type target) = DomainExecutionState"
  shows "\<exists>project repo notes. x_project x = Some (project, repo) \<and> collectGateNotes x d project target = Some notes
    \<and> (tr_To res = ''in-review'' \<longrightarrow> (\<exists>n\<in>set notes. gn_Role n = ''implementation'' \<and> gn_NoteState n = ''resolved''))
    \<and> (tr_To res = ''done'' \<longrightarrow> (\<forall>n\<in>set notes. gn_NoteState n = ''resolved''))
    \<and> (rq_Confirmed rq \<or> registeredInActiveContainer x d project target)"
proof -
  have ne: "DomainPlanningState \<noteq> DomainExecutionState" "DomainContainerState \<noteq> DomainExecutionState"
    "DomainContentState \<noteq> DomainExecutionState" by (simp_all add: domain_names)
  from run target obtain project repo current where p: "x_project x = Some (project, repo)"
    and w: "transitionWorkItem x d project repo target current (StateVectorValue current DomainExecutionState) rq (byIdentity rq) = Inr (d', res)"
    by (cases rule: Transition_branches) (use work ne transitionDomain_cases(1,2) in auto)
  from work_moves(3,4) [OF w] p show ?thesis unfolding gates_pass by blast
qed

text \<open>C4: A container becomes active only when every container of its project can be read, no
  other container of the same source repository is active, the plan closure of every other
  active container shares no line with its own, and its single plan is approved or locked;
  both payloads of an activation are written by one batch.\<close>
theorem activation_gate_enforced:
  assumes run: "Transition x rq d = Inr (d', res)" and target: "checkRequest x rq = Inr target"
    and ctr: "ref_Type target = ''ctr''" and active: "tr_To res = ''active''"
  shows "\<exists>project repo current rows plan p. x_project x = Some (project, repo) \<and> targetUnit x d target = Some current
    \<and> containerRows x d project = Some rows
    \<and> (\<forall>ac\<in>set (activeRows rows). ac_Line ac \<noteq> refLine target \<longrightarrow> ac_SourceRepo ac \<noteq> repo \<and> plansDisjoint x d current (ac_Unit ac))
    \<and> resolveDependsOnPlan current = Inr plan \<and> targetUnit x d plan = Some p
    \<and> sv_PlanningState (u_StateVector p) \<in> {''approved'', ''immutable''}"
proof -
  have ne: "''ctr'' \<noteq> ''plan''" "DomainContainerState \<noteq> DomainContentState" "DomainContainerState \<noteq> DomainExecutionState"
    by (simp_all add: domain_names)
  from run target obtain project repo current where p: "x_project x = Some (project, repo)" "targetUnit x d target = Some current"
    and c: "transitionContainerState x d project repo target current (StateVectorValue current DomainContainerState) rq (byIdentity rq) = Inr (d', res)"
    by (cases rule: Transition_branches) (use ctr ne in auto)
  have src: "StateVectorValue current DomainContainerState = ''planned''"
    using completion_moves(3) [OF c] active by auto
  note act = activation_moves [OF c src]
  from act(4) obtain batch pl locked where lock: "lockPlanPuts x d project repo
      (transitioned (x_today x) (byIdentity rq) current DomainContainerState ''planned'' ''active'') (byIdentity rq) = Inr (batch, pl, locked)"
    unfolding src by blast
  have "resolveDependsOnPlan (transitioned t who current sd a z) = resolveDependsOnPlan current" for t who sd a z
    unfolding resolveDependsOnPlan_def dependsOnPlans_def transitioned_simps ..
  with lockPlanPuts_ok [OF lock] obtain plan u where "resolveDependsOnPlan current = Inr plan"
    "targetUnit x d plan = Some u" "sv_PlanningState (u_StateVector u) \<in> {''approved'', ''immutable''}"
    unfolding targetUnit_def by auto
  with p activationGate_pass [OF act(3)] show ?thesis by blast
qed

text \<open>What a request hands to the store: a batch of puts, one per move, a move being the unit as
  the store has it (the latest of its line) and the unit with one state moved.\<close>

definition writesMove :: "callContext \<Rightarrow> Put \<Rightarrow> Unit \<times> Unit \<Rightarrow> bool" where
  "writesMove x p m \<longleftrightarrow> put_UnitJSON p = x_marshal x (snd m) \<and> put_Content p = u_ContentPayload (snd m)
     \<and> r_Form (put_Ref p) = u_CanonicalIdentityForm (snd m)"

definition stateMove :: "callContext \<Rightarrow> db \<Rightarrow> TransitionRequest \<Rightarrow> Unit \<times> Unit \<Rightarrow> bool" where
  "stateMove x d rq m \<longleftrightarrow> (\<exists>r domain src to. targetUnit x d r = Some (fst m)
     \<and> snd m = transitioned (x_today x) (byIdentity rq) (fst m) domain src to)"

definition planState :: "Unit \<Rightarrow> string" where
  "planState u = sv_PlanningState (u_StateVector u)"

text \<open>The only three ways a planning state changes.\<close>

definition planApproved :: "callContext \<Rightarrow> db \<Rightarrow> reference \<Rightarrow> Unit \<times> Unit \<Rightarrow> bool" where
  "planApproved x d target m \<longleftrightarrow> ref_Type target = ''plan'' \<and> targetUnit x d target = Some (fst m)
     \<and> planState (fst m) = ''draft'' \<and> planState (snd m) = ''approved''"

definition planRetired :: "callContext \<Rightarrow> db \<Rightarrow> string \<Rightarrow> reference \<Rightarrow> Unit \<times> Unit \<Rightarrow> bool" where
  "planRetired x d project target m \<longleftrightarrow> ref_Type target = ''plan'' \<and> targetUnit x d target = Some (fst m)
     \<and> planState (fst m) = ''immutable'' \<and> planState (snd m) = ''superseded''
     \<and> activeContainersForPlan x d project (refLine target) = Some []"

definition planLocked :: "callContext \<Rightarrow> db \<Rightarrow> reference \<Rightarrow> (Unit \<times> Unit) list \<Rightarrow> Unit \<times> Unit \<Rightarrow> bool" where
  "planLocked x d target moves m \<longleftrightarrow> ref_Type target = ''ctr'' \<and> planState (fst m) = ''approved'' \<and> planState (snd m) = ''immutable''
     \<and> (\<exists>ctr active plan. targetUnit x d target = Some ctr \<and> resolveDependsOnPlan ctr = Inr plan \<and> targetUnit x d plan = Some (fst m)
         \<and> (ctr, active) \<in> set moves \<and> sv_ContainerState (u_StateVector ctr) = ''planned''
         \<and> sv_ContainerState (u_StateVector active) = ''active'')"

lemma writesMove_put: "writesMove x (unitPut x project repo upd u) (v, u)"
  by (simp add: writesMove_def unitPut_def)

lemma publish_puts:
  assumes "publishStateTransition x d project repo v src to domain by = Inr (d', res)"
  shows "\<exists>hashes. PutUnits (x_hash x) (x_now x) d
    [unitPut x project repo (x_today x) (transitioned (x_today x) by v domain src to)] = Inr (d', hashes)"
  using assms unfolding publishStateTransition_def Let_def PutUnit_def
  by (auto split: sum.splits prod.splits)

lemma planState_transitioned:
  "planState (transitioned t by v domain src to) = (if domain = DomainPlanningState then to else planState v)"
  by (simp add: planState_def withState_def domain_names)

lemma containerState_transitioned:
  "sv_ContainerState (u_StateVector (transitioned t by v DomainContainerState src to)) = to"
  by (simp add: withState_def domain_names)

text \<open>One published move, and the two an activation publishes.\<close>

lemma single_move:
  assumes "publishStateTransition x d project repo v src to domain (byIdentity rq) = Inr (d', res)" "targetUnit x d target = Some v"
  shows "\<exists>batch hashes u. PutUnits (x_hash x) (x_now x) d batch = Inr (d', hashes) \<and> list_all2 (writesMove x) batch [(v, u)]
     \<and> stateMove x d rq (v, u) \<and> u = transitioned (x_today x) (byIdentity rq) v domain src to"
proof -
  let ?u = "transitioned (x_today x) (byIdentity rq) v domain src to"
  from publish_puts [OF assms(1)] obtain hashes where
    "PutUnits (x_hash x) (x_now x) d [unitPut x project repo (x_today x) ?u] = Inr (d', hashes)" by blast
  moreover have "list_all2 (writesMove x) [unitPut x project repo (x_today x) ?u] [(v, ?u)]" by (simp add: writesMove_put)
  moreover have "stateMove x d rq (v, ?u)" using assms(2) by (auto simp: stateMove_def)
  ultimately show ?thesis by blast
qed

lemma other_move:
  assumes "publishStateTransition x d project repo v src to domain (byIdentity rq) = Inr (d', res)" "targetUnit x d target = Some v"
    and "domain \<noteq> DomainPlanningState"
  shows "\<exists>moves batch hashes. PutUnits (x_hash x) (x_now x) d batch = Inr (d', hashes) \<and> list_all2 (writesMove x) batch moves
     \<and> (\<forall>m\<in>set moves. stateMove x d rq m \<and> planState (snd m) = planState (fst m))"
proof -
  from single_move [OF assms(1,2)] obtain batch hashes u where m: "PutUnits (x_hash x) (x_now x) d batch = Inr (d', hashes)"
    "list_all2 (writesMove x) batch [(v, u)]" "stateMove x d rq (v, u)"
    and u: "u = transitioned (x_today x) (byIdentity rq) v domain src to" by blast
  have "\<forall>m\<in>set [(v, u)]. stateMove x d rq m \<and> planState (snd m) = planState (fst m)"
    using m(3) assms(3) by (simp add: u planState_transitioned)
  with m(1,2) show ?thesis by blast
qed

lemma lock_moves:
  assumes lock: "lockPlanPuts x d project repo (transitioned (x_today x) (byIdentity rq) ctr DomainContainerState ''planned'' ''active'')
       (byIdentity rq) = Inr (batch, pl, locked)"
    and target: "targetUnit x d target = Some ctr" "ref_Type target = ''ctr''" "sv_ContainerState (u_StateVector ctr) = ''planned''"
  shows "\<exists>moves. list_all2 (writesMove x) batch moves
     \<and> (\<forall>m\<in>set moves. stateMove x d rq m \<and> (planState (snd m) = planState (fst m) \<or> planLocked x d target moves m))"
proof -
  let ?c = "transitioned (x_today x) (byIdentity rq) ctr DomainContainerState ''planned'' ''active''"
  have rel: "resolveDependsOnPlan ?c = resolveDependsOnPlan ctr"
    unfolding resolveDependsOnPlan_def dependsOnPlans_def transitioned_simps ..
  have c: "stateMove x d rq (ctr, ?c)" "planState ?c = planState ctr" "sv_ContainerState (u_StateVector ?c) = ''active''"
  proof -
    show "stateMove x d rq (ctr, ?c)" using target(1) by (auto simp: stateMove_def)
    show "planState ?c = planState ctr" by (simp add: planState_transitioned) (simp add: domain_names)
    show "sv_ContainerState (u_StateVector ?c) = ''active''" by (rule containerState_transitioned)
  qed
  from lockPlanPuts_ok [OF lock] obtain p v where p: "resolveDependsOnPlan ctr = Inr p" "targetUnit x d p = Some v"
    and b: "planState v = ''approved'' \<and> batch = [unitPut x project repo (x_now x) ?c,
        unitPut x project repo (x_today x) (transitioned (x_today x) (byIdentity rq) v DomainPlanningState ''approved'' ''immutable'')]
      \<or> batch = [unitPut x project repo (x_now x) ?c]"
    unfolding rel targetUnit_def planState_def by auto
  from b show ?thesis
  proof (elim disjE conjE)
    assume batch: "batch = [unitPut x project repo (x_now x) ?c]"
    show ?thesis by (rule exI [of _ "[(ctr, ?c)]"]) (simp add: batch writesMove_put c(1,2))
  next
    let ?v = "transitioned (x_today x) (byIdentity rq) v DomainPlanningState ''approved'' ''immutable''"
    assume a: "planState v = ''approved''"
      and batch: "batch = [unitPut x project repo (x_now x) ?c, unitPut x project repo (x_today x) ?v]"
    have v: "stateMove x d rq (v, ?v)" using p(2) by (auto simp: stateMove_def)
    have "planLocked x d target [(ctr, ?c), (v, ?v)] (v, ?v)" unfolding planLocked_def fst_conv snd_conv
      by (intro conjI exI [of _ ctr] exI [of _ ?c] exI [of _ p] target p a c(3)) (simp_all add: planState_transitioned)
    then show ?thesis
      by (intro exI [of _ "[(ctr, ?c), (v, ?v)]"]) (simp add: batch writesMove_put c(1,2) v)
  qed
qed

text \<open>C5: A plan is locked only by the activation of its container. Every successful request writes
  one batch of moves, each the latest stored unit of a line with one state moved, and a
  planning state changes in a batch in three ways only: the plan addressed goes from draft to
  approved; it goes from immutable to superseded while no active container of the project
  derives from it; or the request activates a container, and the one plan that container
  depends on goes from approved to immutable in the batch that takes the container from
  planned to active.\<close>
theorem plan_lock_only_by_activation:
  assumes run: "Transition x rq d = Inr (d', res)" and target: "checkRequest x rq = Inr target"
  shows "\<exists>project repo moves batch hashes. x_project x = Some (project, repo)
     \<and> PutUnits (x_hash x) (x_now x) d batch = Inr (d', hashes) \<and> list_all2 (writesMove x) batch moves
     \<and> (\<forall>m\<in>set moves. stateMove x d rq m \<and> (planState (snd m) = planState (fst m) \<or> planApproved x d target m
          \<or> planRetired x d project target m \<or> planLocked x d target moves m))"
  using run target
proof (cases rule: Transition_branches)
  case (plan project repo v)
  note m = plan_moves [OF plan(4)]
  from single_move [OF m(1) plan(3)] obtain batch hashes u where w: "PutUnits (x_hash x) (x_now x) d batch = Inr (d', hashes)"
    "list_all2 (writesMove x) batch [(v, u)]" "stateMove x d rq (v, u)"
    and u: "u = transitioned (x_today x) (byIdentity rq) v DomainPlanningState (StateVectorValue v DomainPlanningState) (tr_To res)" by blast
  have s: "planState u = tr_To res" "StateVectorValue v DomainPlanningState = planState v"
    by (simp_all add: u planState_transitioned) (simp add: planState_def StateVectorValue_def domain_names)
  from m(3) have "planApproved x d target (v, u) \<or> planRetired x d project target (v, u)"
    unfolding planApproved_def planRetired_def fst_conv snd_conv s using plan(1,3) by auto
  with plan(2) w show ?thesis by (intro exI [of _ project] exI [of _ repo] exI [of _ "[(v, u)]"] exI [of _ batch] exI [of _ hashes]) auto
next
  case (container project repo v)
  show ?thesis
  proof (cases "StateVectorValue v DomainContainerState = ''planned''")
    case True
    from activation_moves(4) [OF container(4) True] obtain batch pl locked hashes where
      lock: "lockPlanPuts x d project repo (transitioned (x_today x) (byIdentity rq) v DomainContainerState ''planned'' ''active'') (byIdentity rq)
        = Inr (batch, pl, locked)" and put: "PutUnits (x_hash x) (x_now x) d batch = Inr (d', hashes)"
      unfolding True by blast
    from True have "sv_ContainerState (u_StateVector v) = ''planned''" by (simp add: StateVectorValue_def domain_names)
    from lock_moves [OF lock container(3,1) this] put container(2) show ?thesis by blast
  next
    case False
    from other_move [OF completion_moves(5) [OF container(4) False] container(3)] container(2)
    show ?thesis by (auto simp: domain_names)
  qed
next
  case (content project repo v)
  from other_move [OF content_moves(1) [OF content(6)] content(5)] content(4) show ?thesis by (auto simp: domain_names)
next
  case (work project repo v)
  from work_moves(5) [OF work(6)] obtain res0 where
    "publishStateTransition x d project repo v (StateVectorValue v DomainExecutionState) (tr_To res) DomainExecutionState (byIdentity rq) = Inr (d', res0)"
    by blast
  from other_move [OF this work(5)] work(4) show ?thesis by (auto simp: domain_names)
qed

section \<open>A sample workspace\<close>

definition blankVector :: StateVector where
  "blankVector = \<lparr>sv_ContentState = '''', sv_ExecutionState = '''', sv_PlanningState = '''', sv_ContainerState = '''',
     sv_ExistenceState = '''', sv_NoteState = ''''\<rparr>"

definition storedUnit :: "string \<Rightarrow> string \<Rightarrow> string \<Rightarrow> StateVector \<Rightarrow> (string \<times> string) list \<Rightarrow> Unit" where
  "storedUnit ns t i sv rels = \<lparr>u_Identity = \<lparr>id_Namespace = ns, id_Type = t, id_ID = i, id_InstanceVersion = 1\<rparr>,
     u_CanonicalIdentityForm = ns @ ''/'' @ t @ '':'' @ i @ '':1'', u_Revision = 1,
     u_Author = User ''a'', u_Created = '''', u_Updated = '''', u_StateVector = sv, u_ChangeLog = [],
     u_Relationships = map (\<lambda>(k, v). \<lparr>rel_Type = k, rel_Target = v\<rparr>) rels,
     u_Classification = \<lparr>cl_Dimension = '''', cl_DimensionsSecondary = [], cl_Domain = ''''\<rparr>,
     u_Phase = '''', u_Provenance = '''', u_SourcePromptHash = '''', u_Confidence = 0, u_SourceCommitSha = '''',
     u_CaptureMeta = \<lparr>Classifier = '''', DedupeKey = ''''\<rparr>,
     u_Content = \<lparr>cr_Representation = StructuredJSON, cr_File = ''content''\<rparr>,
     u_ContentPayload = '''', u_UnitDir = '''', u_Digest = ''''\<rparr>"

definition sampleUnits :: "Unit gomap" where
  "sampleUnits = [
     (''plan'', storedUnit ''core'' ''plan'' ''p'' (blankVector\<lparr>sv_PlanningState := ''approved''\<rparr>) []),
     (''ctr'', storedUnit ''core'' ''ctr'' ''c'' (blankVector\<lparr>sv_ContainerState := ''planned''\<rparr>) [(''depends-on'', ''core/plan:p'')]),
     (''open'', storedUnit ''core'' ''ctr'' ''o'' (blankVector\<lparr>sv_ContainerState := ''active''\<rparr>) [(''depends-on'', ''core/plan:p'')]),
     (''tkt'', storedUnit ''core'' ''tkt'' ''k'' blankVector [(''derives-from'', ''core/ctr:o''), (''derives-from'', ''core/sto:s'')]),
     (''sto'', storedUnit ''core'' ''sto'' ''s'' (blankVector\<lparr>sv_ExecutionState := ''todo''\<rparr>) []),
     (''far'', storedUnit ''far'' ''plan'' ''f'' (blankVector\<lparr>sv_PlanningState := ''approved''\<rparr>) []),
     (''reach'', storedUnit ''core'' ''ctr'' ''r'' (blankVector\<lparr>sv_ContainerState := ''planned''\<rparr>) [(''depends-on'', ''far/plan:f'')])]"

definition sampleContext :: callContext where
  "sampleContext = \<lparr>x_hash = (\<lambda>s. ''#'' @ s),
     x_marshal = (\<lambda>u. u_CanonicalIdentityForm u @ itoa (int (length (u_ChangeLog u)))),
     x_decode = map_of sampleUnits, x_fields = (\<lambda>s. None), x_today = ''2024-01-02'', x_now = ''now'',
     x_isRepo = True, x_namespace = ''core'', x_project = Some (''prj'', ''repo''), x_drafts = Some []\<rparr>"

definition sampleRequest :: "string \<Rightarrow> string \<Rightarrow> TransitionRequest" where
  "sampleRequest target to = \<lparr>rq_Target = target, rq_To = to, rq_Forward = False, rq_Backward = False, rq_By = ''a'',
     rq_ByKind = '''', rq_Confirmed = False\<rparr>"

text \<open>The store after the named sample units were put, each under its project.\<close>

definition sampleStore :: "(string \<times> string) list \<Rightarrow> db" where
  "sampleStore ns = (case PutUnits (x_hash sampleContext) ''now'' empty_db (map (\<lambda>(nm, prj).
       (unitPut sampleContext prj ''repo'' '''' (the (map_of sampleUnits nm)))\<lparr>put_UnitJSON := nm\<rparr>) ns) of
     Inl err \<Rightarrow> empty_db | Inr (d, hashes) \<Rightarrow> d)"

lemma sample_activation:
  "checkRequest sampleContext (sampleRequest ''ctr:c'' ''active'') =
     Inr \<lparr>ref_Namespace = ''core'', ref_Type = ''ctr'', ref_ID = ''c'', ref_Version = 0, ref_HasVersion = False\<rparr>"
  "map_option (\<lambda>r. (tr_From r, tr_To r)) (case Transition sampleContext (sampleRequest ''ctr:c'' ''active'')
       (sampleStore [(''plan'', ''prj''), (''ctr'', ''prj'')]) of Inl err \<Rightarrow> None | Inr p \<Rightarrow> Some (snd p)) = Some (''planned'', ''active'')"
  by code_simp+

lemma sample_run:
  assumes "map_option f (case T of Inl err \<Rightarrow> None | Inr p \<Rightarrow> Some (snd p)) = Some y"
  obtains d' r where "T = Inr (d', r)" "f r = y"
  using assms by (cases T) auto

theorem transitions_are_legal_witness: "isLegalTransition DomainContainerState ''ctr'' ''planned'' ''active''"
proof -
  obtain d' r where r: "Transition sampleContext (sampleRequest ''ctr:c'' ''active'')
      (sampleStore [(''plan'', ''prj''), (''ctr'', ''prj'')]) = Inr (d', r)" "(tr_From r, tr_To r) = (''planned'', ''active'')"
    by (rule sample_run [OF sample_activation(2)])
  from transitions_are_legal [OF r(1) sample_activation(1)] r(2) transitionDomain_cases(2) show ?thesis by simp
qed

theorem activation_gate_enforced_witness:
  "\<exists>rows. containerRows sampleContext (sampleStore [(''plan'', ''prj''), (''ctr'', ''prj'')]) ''prj'' = Some rows"
proof -
  obtain d' r where r: "Transition sampleContext (sampleRequest ''ctr:c'' ''active'')
      (sampleStore [(''plan'', ''prj''), (''ctr'', ''prj'')]) = Inr (d', r)" "(tr_From r, tr_To r) = (''planned'', ''active'')"
    by (rule sample_run [OF sample_activation(2)])
  have "x_project sampleContext = Some (''prj'', ''repo'')" by (simp add: sampleContext_def)
  with activation_gate_enforced [OF r(1) sample_activation(1)] r(2) show ?thesis by auto
qed

lemma sample_work:
  "checkRequest sampleContext (sampleRequest ''sto:s'' ''in-progress'') =
     Inr \<lparr>ref_Namespace = ''core'', ref_Type = ''sto'', ref_ID = ''s'', ref_Version = 0, ref_HasVersion = False\<rparr>"
  "map_option (\<lambda>r. (tr_From r, tr_To r)) (case Transition sampleContext (sampleRequest ''sto:s'' ''in-progress'')
       (sampleStore [(''open'', ''prj''), (''tkt'', ''prj''), (''sto'', ''prj'')]) of Inl err \<Rightarrow> None | Inr p \<Rightarrow> Some (snd p))
     = Some (''todo'', ''in-progress'')"
  "transitionDomain ''sto'' = DomainExecutionState"
  by code_simp+

theorem work_item_gates_enforced_witness:
  "registeredInActiveContainer sampleContext (sampleStore [(''open'', ''prj''), (''tkt'', ''prj''), (''sto'', ''prj'')]) ''prj''
     \<lparr>ref_Namespace = ''core'', ref_Type = ''sto'', ref_ID = ''s'', ref_Version = 0, ref_HasVersion = False\<rparr>"
proof -
  obtain d' r where r: "Transition sampleContext (sampleRequest ''sto:s'' ''in-progress'')
      (sampleStore [(''open'', ''prj''), (''tkt'', ''prj''), (''sto'', ''prj'')]) = Inr (d', r)" "(tr_From r, tr_To r) = (''todo'', ''in-progress'')"
    by (rule sample_run [OF sample_work(2)])
  have "x_project sampleContext = Some (''prj'', ''repo'')" "\<not> rq_Confirmed (sampleRequest ''sto:s'' ''in-progress'')"
    by (simp_all add: sampleContext_def sampleRequest_def)
  with work_item_gates_enforced [OF r(1) sample_work(1)] sample_work(3) show ?thesis by auto
qed

definition lockedContext :: callContext where
  "lockedContext = sampleContext\<lparr>x_decode :=
     map_of [(''plan'', storedUnit ''core'' ''plan'' ''p'' (blankVector\<lparr>sv_PlanningState := ''immutable''\<rparr>) [])]\<rparr>"

lemma sample_approval:
  "checkRequest lockedContext (sampleRequest ''plan:p'' ''superseded'') =
     Inr \<lparr>ref_Namespace = ''core'', ref_Type = ''plan'', ref_ID = ''p'', ref_Version = 0, ref_HasVersion = False\<rparr>"
  "map_option (\<lambda>r. (tr_From r, tr_To r)) (case Transition lockedContext
       (sampleRequest ''plan:p'' ''superseded'') (sampleStore [(''plan'', ''prj'')]) of Inl err \<Rightarrow> None | Inr p \<Rightarrow> Some (snd p))
     = Some (''immutable'', ''superseded'')"
  by code_simp+

text \<open>Applied to the activation that locks the sample plan: what it wrote is a batch of moves.\<close>

theorem plan_lock_only_by_activation_witness:
  "\<exists>moves batch d' hashes. PutUnits (x_hash sampleContext) (x_now sampleContext) (sampleStore [(''plan'', ''prj''), (''ctr'', ''prj'')]) batch
       = Inr (d', hashes) \<and> list_all2 (writesMove sampleContext) batch moves
     \<and> list_all (stateMove sampleContext (sampleStore [(''plan'', ''prj''), (''ctr'', ''prj'')]) (sampleRequest ''ctr:c'' ''active'')) moves"
proof -
  obtain d' r where r: "Transition sampleContext (sampleRequest ''ctr:c'' ''active'')
      (sampleStore [(''plan'', ''prj''), (''ctr'', ''prj'')]) = Inr (d', r)" "(tr_From r, tr_To r) = (''planned'', ''active'')"
    by (rule sample_run [OF sample_activation(2)])
  from plan_lock_only_by_activation [OF r(1) sample_activation(1)] show ?thesis unfolding list_all_iff by blast
qed

text \<open>C21: A container completes only when no work item its tickets register is pending: each of
  them is done or canceled at its latest instance.\<close>
theorem completion_gate_enforced:
  assumes run: "Transition x rq d = Inr (d', res)" and target: "checkRequest x rq = Inr target"
    and ctr: "ref_Type target = ''ctr''" and completed: "tr_To res = ''completed''"
  shows "\<exists>project repo. x_project x = Some (project, repo) \<and> tr_From res = ''active''
    \<and> (\<forall>w\<in>set (containerWorkItems x d project target). sv_ExecutionState (u_StateVector w) \<in> {''done'', ''canceled''})"
proof -
  have ne: "''ctr'' \<noteq> ''plan''" "DomainContainerState \<noteq> DomainContentState" "DomainContainerState \<noteq> DomainExecutionState"
    by (simp_all add: domain_names)
  from run target obtain project repo current where p: "x_project x = Some (project, repo)"
    and c: "transitionContainerState x d project repo target current (StateVectorValue current DomainContainerState) rq (byIdentity rq) = Inr (d', res)"
    by (cases rule: Transition_branches) (use ctr ne in auto)
  have src: "StateVectorValue current DomainContainerState \<noteq> ''planned''"
    using activation_moves(2) [OF c] completed by auto
  note m = completion_moves(1,2,4) [OF c src]
  have none: "pendingItems items = [] \<Longrightarrow> w \<in> set items \<Longrightarrow> sv_ExecutionState (u_StateVector w) \<in> {''done'', ''canceled''}" for items w
  proof (rule ccontr)
    assume w: "pendingItems items = []" "w \<in> set items" "sv_ExecutionState (u_StateVector w) \<notin> {''done'', ''canceled''}"
    let ?label = "\<lambda>u. let s = sv_ExecutionState (u_StateVector u) in if s \<noteq> ''done'' \<and> s \<noteq> ''canceled''
     then Some (id_Type (u_Identity u) @ '':'' @ id_ID (u_Identity u) @ '' ('' @ s @ '')'') else None"
    have "?label w \<in> Some ` set (List.map_filter ?label items)"
      using w(2,3) by (force simp: List.map_filter_def Let_def)
    then have "set (pendingItems items) \<noteq> {}" unfolding pendingItems_def by auto
    with w(1) show False by simp
  qed
  from m p none show ?thesis by auto
qed

definition doneContext :: callContext where
  "doneContext = sampleContext\<lparr>x_decode := (\<lambda>s. if s = ''sto''
     then Some (storedUnit ''core'' ''sto'' ''s'' (blankVector\<lparr>sv_ExecutionState := ''done''\<rparr>) []) else map_of sampleUnits s)\<rparr>"

lemma sample_completion:
  "checkRequest doneContext (sampleRequest ''ctr:o'' ''completed'') =
     Inr \<lparr>ref_Namespace = ''core'', ref_Type = ''ctr'', ref_ID = ''o'', ref_Version = 0, ref_HasVersion = False\<rparr>"
  "map_option (\<lambda>r. (tr_From r, tr_To r)) (case Transition doneContext (sampleRequest ''ctr:o'' ''completed'')
       (sampleStore [(''open'', ''prj''), (''tkt'', ''prj''), (''sto'', ''prj'')]) of Inl err \<Rightarrow> None | Inr p \<Rightarrow> Some (snd p))
     = Some (''active'', ''completed'')"
  "map unitLine (containerWorkItems doneContext (sampleStore [(''open'', ''prj''), (''tkt'', ''prj''), (''sto'', ''prj'')]) ''prj''
       \<lparr>ref_Namespace = ''core'', ref_Type = ''ctr'', ref_ID = ''o'', ref_Version = 0, ref_HasVersion = False\<rparr>) = [''core/sto:s'']"
  by code_simp+

theorem completion_gate_enforced_witness:
  "list_all (\<lambda>w. unitLine w = ''core/sto:s'' \<and> sv_ExecutionState (u_StateVector w) \<in> {''done'', ''canceled''})
     (containerWorkItems doneContext (sampleStore [(''open'', ''prj''), (''tkt'', ''prj''), (''sto'', ''prj'')]) ''prj''
       \<lparr>ref_Namespace = ''core'', ref_Type = ''ctr'', ref_ID = ''o'', ref_Version = 0, ref_HasVersion = False\<rparr>)"
proof -
  obtain d' r where r: "Transition doneContext (sampleRequest ''ctr:o'' ''completed'')
      (sampleStore [(''open'', ''prj''), (''tkt'', ''prj''), (''sto'', ''prj'')]) = Inr (d', r)"
    "(tr_From r, tr_To r) = (''active'', ''completed'')"
    by (rule sample_run [OF sample_completion(2)])
  have "x_project doneContext = Some (''prj'', ''repo'')" by (simp add: doneContext_def sampleContext_def)
  with completion_gate_enforced [OF r(1) sample_completion(1)] r(2) sample_completion(3) show ?thesis
    by (auto simp: list_all_iff map_eq_Cons_conv)
qed

text \<open>The completion gate opens when the project cannot be read: with one undecodable payload
  among the units of the project, the container completes although the work item its ticket
  registers is still todo, and the same request is refused when every payload decodes.\<close>
theorem unreadable_project_completes:
  "Transition sampleContext (sampleRequest ''ctr:o'' ''completed'')
       (sampleStore [(''open'', ''prj''), (''tkt'', ''prj''), (''sto'', ''prj''), (''plan'', ''prj'')])
     = Inl (Refused (WorkPending [''sto:s (todo)'']))
   \<and> map_option tr_To (case Transition (sampleContext\<lparr>x_decode := (\<lambda>s. if s = ''plan'' then None else map_of sampleUnits s)\<rparr>)
       (sampleRequest ''ctr:o'' ''completed'')
       (sampleStore [(''open'', ''prj''), (''tkt'', ''prj''), (''sto'', ''prj''), (''plan'', ''prj'')]) of
         Inl err \<Rightarrow> None | Inr p \<Rightarrow> Some (snd p)) = Some ''completed''"
  by (rule conjI) code_simp+

text \<open>Activating a container whose plan belongs to another namespace and project locks that
  plan and moves its reference into the project and repository of the container.\<close>
theorem activation_takes_foreign_plan:
  "map_option (\<lambda>r. (r_ProjectID r, r_SourceRepo r)) (Ref_of (sampleStore [(''far'', ''other''), (''reach'', ''prj'')]) ''far/plan:f:1'')
     = Some (''other'', ''repo'')
   \<and> (case Transition sampleContext (sampleRequest ''ctr:r'' ''active'') (sampleStore [(''far'', ''other''), (''reach'', ''prj'')]) of
        Inl err \<Rightarrow> None
      | Inr p \<Rightarrow> map_option (\<lambda>r. (r_ProjectID r, r_SourceRepo r)) (Ref_of (fst p) ''far/plan:f:1'')) = Some (''prj'', ''repo'')"
  by (rule conjI) code_simp+

end
