(* ===== verification/Runtime_Draft.thy ===== *)
theory Runtime_Draft
  imports Conformance Content_Object Runtime_Transition
begin

text \<open>
  The draft workflow of \<open>runtime/draft.go\<close>: scaffolding a draft file, locating it, publishing
  it as a new instance of its line, publishing structured input, validating, listing and
  discarding.  The drafts tree is a list of project directories with their files; plain files
  beside the project directories, and directories below them, are skipped by the code and not
  represented.  A project and a file name are single path elements.  The JSON and YAML
  decoders, the JSON encoder of a document, the text of a number, and what \<open>os.Remove\<close>
  answers are arguments.
\<close>

section \<open>Drafts on disk\<close>

record draftFile =
  fl_Name :: string
  fl_Contents :: string
  fl_Updated :: string

type_synonym draft_tree = "(string \<times> draftFile list) list"

record workspaceState =
  ws_db :: db
  ws_drafts :: draft_tree

datatype removal = FileRemoved | AlreadyGone | RemoveRefused

text \<open>The file system calls of a new draft: the project directory, then the exclusive creation
  with write and close (a partial file is removed again).\<close>

datatype creation = FileCreated | DirectoryRefused | FileRefused

record draftContext =
  dx_store :: callContext
  dx_decoding :: decoding
  dx_encode :: "gvalue gomap \<Rightarrow> string"
  dx_number :: "gvalue \<Rightarrow> string"
  dx_render :: "graph_msg \<Rightarrow> string"
  dx_readFile :: "string \<Rightarrow> string option"
  dx_root :: string
  dx_cwdProject :: string
  dx_removal :: removal
  dx_create :: "string \<Rightarrow> creation"
  dx_overwriteRefused :: "string \<Rightarrow> bool"
  dx_lineFault :: "string \<Rightarrow> string \<Rightarrow> bool"

record Draft =
  dr_Project :: string
  dr_Namespace :: string
  dr_Type :: string
  dr_ID :: string
  dr_Path :: string
  dr_Updated :: string
  dr_Provenance :: string
  dr_SourcePromptHash :: string
  dr_Confidence :: rat
  dr_HasConfidence :: bool
  dr_CaptureMeta :: CaptureMeta

record NewDraftRequest =
  nd_Project :: string
  nd_Namespace :: string
  nd_Type :: string
  nd_ID :: string
  nd_Dimension :: string
  nd_Phase :: string
  nd_Domain :: string
  nd_By :: AuthorIdentity
  nd_Relationships :: "Relationship list"
  nd_ContentFile :: string
  nd_Provenance :: string
  nd_SourcePromptHash :: string
  nd_Confidence :: rat
  nd_HasConfidence :: bool
  nd_SourceCommitSha :: string
  nd_CaptureMeta :: CaptureMeta

record PublishOptions =
  po_Project :: string
  po_InstanceVersion :: int

datatype draft_note = FromProject string | FromOtherProject string string string

record DraftRef =
  df_Path :: string
  df_File :: draftFile
  df_Project :: string
  df_Note :: "draft_note option"

record PublishResult =
  pr_Form :: string
  pr_InstanceVersion :: int
  pr_ObjectHash :: string
  pr_Note :: "draft_note option"
  pr_Converged :: bool

datatype publish_msg = RuleFinding finding | LineUnreadable string

datatype draft_error =
    UnknownDraftType string nat
  | EmptyDraftID
  | DraftNeedsProject
  | DraftNeedsNamespace
  | PhaseNotAllowed string
  | TicketNeedsContainer
  | ContainerNeedsPlan
  | ContentFileUnreadable string
  | ContentFileNotObject string
  | DraftAlreadyExists string string string
  | InvalidTarget string ref_error
  | PublishedTarget string
  | DraftNotFound string string
  | AmbiguousDraft string "string list"
  | DraftUnclassified scan_error
  | NotAnArtifact string
  | TargetNamespaceMismatch string string
  | FileIdentityMismatch string string string string string
  | VersionNotForward int int
  | InlineIdentityMissing
  | InlineVersionInvalid int
  | InlineUnreadable
  | PublishRefused string "publish_msg report"
  | PersistFailed string store_error
  | RemovalFailed string
  | UnknownProvenance string
  | DraftDirectory string
  | DraftUnwritable string

definition draftPathOf :: "draftContext \<Rightarrow> string \<Rightarrow> string \<Rightarrow> string" where
  "draftPathOf x project nm = dx_root x @ ''/drafts/'' @ project @ [slash] @ nm"

definition jsonName :: "string \<Rightarrow> string \<Rightarrow> string" where
  "jsonName t i = t @ ''-'' @ i @ ''.json''"

definition markdownName :: "string \<Rightarrow> string \<Rightarrow> string" where
  "markdownName t i = t @ ''-'' @ i @ ''.md''"

definition projectFiles :: "draft_tree \<Rightarrow> string \<Rightarrow> draftFile list" where
  "projectFiles tree project = get_or tree project []"

definition findDraft :: "draft_tree \<Rightarrow> string \<Rightarrow> string \<Rightarrow> draftFile option" where
  "findDraft tree project nm = find (\<lambda>f. fl_Name f = nm) (projectFiles tree project)"

definition addDraft :: "draft_tree \<Rightarrow> string \<Rightarrow> draftFile \<Rightarrow> draft_tree" where
  "addDraft tree project f = putKey tree project (projectFiles tree project @ [f])"

definition removeDraft :: "draft_tree \<Rightarrow> string \<Rightarrow> string \<Rightarrow> draft_tree" where
  "removeDraft tree project nm = map (\<lambda>(p, fs). (p, if p = project then filter (\<lambda>f. fl_Name f \<noteq> nm) fs else fs)) tree"

text \<open>A draft file rewritten in place, when the system grants the write.\<close>

definition writeDraft :: "draft_tree \<Rightarrow> string \<Rightarrow> string \<Rightarrow> string \<Rightarrow> string \<Rightarrow> draft_tree" where
  "writeDraft tree project nm body now = map (\<lambda>(p, fs). (p, if p = project
     then map (\<lambda>f. if fl_Name f = nm then f\<lparr>fl_Contents := body, fl_Updated := now\<rparr> else f) fs else fs)) tree"

definition projectsOf :: "draft_tree \<Rightarrow> string list" where
  "projectsOf tree = sort (map fst tree)"

definition scanDraft :: "draftContext \<Rightarrow> string \<Rightarrow> draftFile \<Rightarrow> scan_error + Artifact option" where
  "scanDraft x project f = ScanFile (dx_decoding x) (\<lambda>p. Some (fl_Contents f)) (draftPathOf x project (fl_Name f))"

section \<open>Finding a draft\<close>

definition parseDraftTarget :: "string \<Rightarrow> draft_error + reference" where
  "parseDraftTarget target = (case parseReference target '''' '''' of
       Inl e \<Rightarrow> Inl (InvalidTarget target e)
     | Inr r \<Rightarrow> if ref_HasVersion r then Inl (PublishedTarget target) else Inr r)"

definition draftExistsIn :: "draftContext \<Rightarrow> draft_tree \<Rightarrow> string \<Rightarrow> string \<Rightarrow> string \<Rightarrow> string \<Rightarrow> bool" where
  "draftExistsIn x tree project ns t i = list_ex (\<lambda>nm. case findDraft tree project nm of
       None \<Rightarrow> False
     | Some f \<Rightarrow> (case scanDraft x project f of Inr (Some a) \<Rightarrow> Namespace a = ns | _ \<Rightarrow> False))
     [jsonName t i, markdownName t i]"

definition draftExists :: "draftContext \<Rightarrow> draft_tree \<Rightarrow> string \<Rightarrow> string \<Rightarrow> string \<Rightarrow> string \<Rightarrow> bool" where
  "draftExists x tree project ns t i =
     (if project \<noteq> '''' then draftExistsIn x tree project ns t i
      else list_ex (\<lambda>p. draftExistsIn x tree p ns t i) (projectsOf tree))"

definition draftTargetOf :: "draftContext \<Rightarrow> draft_tree \<Rightarrow> string \<Rightarrow> reference \<Rightarrow> bool" where
  "draftTargetOf x tree project r =
     (ref_Namespace r \<noteq> '''' \<and> draftExists x tree project (ref_Namespace r) (ref_Type r) (ref_ID r))"

definition draftRefAt :: "draftContext \<Rightarrow> string \<Rightarrow> draftFile \<Rightarrow> draft_note option \<Rightarrow> DraftRef" where
  "draftRefAt x project f note = \<lparr>df_Path = draftPathOf x project (fl_Name f), df_File = f, df_Project = project, df_Note = note\<rparr>"

text \<open>The scan of every project: the JSON draft, else the legacy Markdown draft.\<close>

definition scanProject :: "draftContext \<Rightarrow> draft_tree \<Rightarrow> string \<Rightarrow> string \<Rightarrow> string \<Rightarrow> string \<Rightarrow> DraftRef option" where
  "scanProject x tree hint t i p =
     (let note = (if hint \<noteq> '''' then FromOtherProject (t @ '':'' @ i) hint p else FromProject p) in
      map_option (\<lambda>f. draftRefAt x p f (Some note))
        (case findDraft tree p (jsonName t i) of Some f \<Rightarrow> Some f | None \<Rightarrow> findDraft tree p (markdownName t i)))"

definition resolveDraftFile ::
  "draftContext \<Rightarrow> draft_tree \<Rightarrow> string \<Rightarrow> string \<Rightarrow> string \<Rightarrow> draft_error + DraftRef" where
  "resolveDraftFile x tree hint t i =
     (let project = (if hint = '''' then dx_cwdProject x else hint);
          direct = (if project \<noteq> '''' then findDraft tree project (jsonName t i) else None) in
      case direct of
        Some f \<Rightarrow> Inr (draftRefAt x project f None)
      | None \<Rightarrow>
          (case List.map_filter (scanProject x tree hint t i) (projectsOf tree) of
             [] \<Rightarrow> Inl (DraftNotFound (t @ '':'' @ i) project)
           | [r] \<Rightarrow> Inr r
           | rs \<Rightarrow> Inl (AmbiguousDraft (t @ '':'' @ i) (sort (map df_Project rs)))))"

section \<open>Scaffolding\<close>

definition draftDefaultState :: "string \<Rightarrow> string \<Rightarrow> string" where
  "draftDefaultState typeToken sd =
     (if sd = DomainContentState then (if typeToken = ''adr'' then ''proposed'' else ''draft'')
      else if sd = DomainPlanningState then ''draft''
      else if sd = DomainExecutionState then ''planned''
      else if sd = DomainNoteState then ''open''
      else if sd = DomainContainerState then ''planned''
      else ''active'')"

definition hasContainerReference :: "Relationship list \<Rightarrow> bool" where
  "hasContainerReference rels = list_ex (\<lambda>r. has_prefix ''ctr:'' (rel_Target r)
     \<or> list_ex (\<lambda>k. has_prefix ''/ctr:'' (drop k (rel_Target r))) [0..<length (rel_Target r)]) rels"

definition hasPlanReference :: "Relationship list \<Rightarrow> bool" where
  "hasPlanReference rels = list_ex (\<lambda>r. rel_Type r = ''depends-on''
     \<and> (case parseReference (rel_Target r) '''' ''ctr'' of Inl e \<Rightarrow> False | Inr ref \<Rightarrow> ref_Type ref = ''plan'')) rels"

text \<open>A field of the document with \<open>omitempty\<close>.\<close>

definition optional :: "string \<Rightarrow> string \<Rightarrow> gvalue gomap" where
  "optional k v = (if v = '''' then [] else [(k, GString v)])"

definition draftTargets :: "Relationship list \<Rightarrow> string \<Rightarrow> string list" where
  "draftTargets rels field =
     sort (remdups (map rel_Target (filter (\<lambda>r. rel_Type r = field \<and> rel_Target r \<noteq> '''') rels)))"

definition draftRelationships :: "Relationship list \<Rightarrow> gvalue gomap" where
  "draftRelationships rels = List.map_filter (\<lambda>field.
     if draftTargets rels field = [] then None
     else Some (StateKeyCamel field, GList (map GString (draftTargets rels field)))) relationshipFields"

definition logEntryDoc :: "string \<Rightarrow> AuthorIdentity \<Rightarrow> string \<Rightarrow> string \<Rightarrow> gvalue" where
  "logEntryDoc today by k to = GMap [(''date'', GString today), (''domain'', GString k), (''from'', GString ''-''),
     (''to'', GString to), (''by'', marshalIdentity by)]"

definition draftChangeLog :: "string \<Rightarrow> NewDraftRequest \<Rightarrow> gvalue list" where
  "draftChangeLog today req =
     (let by = (if au_Name (nd_By req) = '''' then User ''Engineering'' else nd_By req) in
      map (\<lambda>d. logEntryDoc today by (StateKeyCamel d) (draftDefaultState (nd_Type req) d)) (OwnedDomains (nd_Type req)) @
      (if nd_Phase req = '''' then [] else [logEntryDoc today by DomainPhase (nd_Phase req)]))"

definition mergeInto :: "gvalue gomap \<Rightarrow> gvalue gomap \<Rightarrow> gvalue gomap" where
  "mergeInto m extra = foldl (\<lambda>c (k, v). putKey c k v) m extra"

definition placeholders :: "string \<Rightarrow> gvalue gomap" where
  "placeholders t = mergeInto [] (map (\<lambda>section. let k = SectionKey section in
     (k, GString (if t = ''tkt'' \<and> k = ''commands'' then projectHeader @ [newline] else ''''))) (requiredFor t))"

text \<open>The document: what the JSON decoder reads back from the rendered bytes (a number is a
  float64 then).\<close>

definition draftDocument :: "string \<Rightarrow> NewDraftRequest \<Rightarrow> gvalue gomap \<Rightarrow> gvalue gomap" where
  "draftDocument today req content =
     (let owned = OwnedDomains (nd_Type req); rels = draftRelationships (nd_Relationships req);
          entries = draftChangeLog today req; cm = nd_CaptureMeta req in
      [(''namespace'', GString (nd_Namespace req)), (''type'', GString (nd_Type req)), (''id'', GString (nd_ID req)),
       (''revision'', GFloat 1)] @
      (if owned = [] then [] else
        [(''state'', GMap (map (\<lambda>d. (StateKeyCamel d, GString (draftDefaultState (nd_Type req) d))) owned))]) @
      (if au_Name (nd_By req) = '''' then [] else [(''author'', marshalIdentity (nd_By req))]) @
      optional ''dimension'' (nd_Dimension req) @ optional ''phase'' (nd_Phase req) @ optional ''domain'' (nd_Domain req) @
      (if rels = [] then [] else [(''relationships'', GMap rels)]) @
      (if entries = [] then [] else [(''changeLog'', GList entries)]) @
      [(''provenance'', GString (if nd_Provenance req = '''' then ProvenanceHuman else nd_Provenance req))] @
      optional ''sourcePromptHash'' (nd_SourcePromptHash req) @
      (if nd_HasConfidence req then [(''confidence'', GFloat (nd_Confidence req))] else []) @
      optional ''sourceCommitSha'' (nd_SourceCommitSha req) @
      (if Classifier cm = '''' \<and> DedupeKey cm = '''' then [] else
        [(''captureMeta'', GMap (optional ''classifier'' (Classifier cm) @ optional ''dedupeKey'' (DedupeKey cm)))]) @
      [(''content'', GMap content)])"

definition draftContent :: "draftContext \<Rightarrow> NewDraftRequest \<Rightarrow> gvalue gomap \<Rightarrow> draft_error + gvalue gomap" where
  "draftContent x req extraContent =
     (if nd_ContentFile req = '''' then Inr (mergeInto (placeholders (nd_Type req)) extraContent)
      else (case dx_readFile x (nd_ContentFile req) of
          None \<Rightarrow> Inl (ContentFileUnreadable (nd_ContentFile req))
        | Some bytes \<Rightarrow> (case dec_json (dx_decoding x) bytes of
            None \<Rightarrow> Inl (ContentFileNotObject (nd_ContentFile req))
          | Some m \<Rightarrow> Inr (mergeInto (mergeInto (placeholders (nd_Type req)) m) extraContent))))"

definition draftJSON :: "draftContext \<Rightarrow> NewDraftRequest \<Rightarrow> gvalue gomap \<Rightarrow> draft_error + string" where
  "draftJSON x req extraContent = (case draftContent x req extraContent of
       Inl e \<Rightarrow> Inl e
     | Inr content \<Rightarrow> Inr (dx_encode x (draftDocument (x_today (dx_store x)) req content)))"

definition scaffoldGuard :: "NewDraftRequest \<Rightarrow> draft_error option" where
  "scaffoldGuard req =
     (if DomainForToken (nd_Type req) = None then Some (UnknownDraftType (nd_Type req) TypeTokenCount)
      else if nd_ID req = '''' then Some EmptyDraftID
      else if nd_Project req = '''' then Some DraftNeedsProject
      else if nd_Namespace req = '''' then Some DraftNeedsNamespace
      else if nd_Phase req \<noteq> '''' \<and> \<not> IsVersionedType (nd_Type req) then Some (PhaseNotAllowed (nd_Type req))
      else if nd_Type req = ''tkt'' \<and> \<not> hasContainerReference (nd_Relationships req) then Some TicketNeedsContainer
      else if nd_Type req = ''ctr'' \<and> \<not> hasPlanReference (nd_Relationships req) then Some ContainerNeedsPlan
      else None)"

definition noCapture :: CaptureMeta where
  "noCapture = \<lparr>Classifier = '''', DedupeKey = ''''\<rparr>"

definition newDraftFile ::
  "draftContext \<Rightarrow> draft_tree \<Rightarrow> NewDraftRequest \<Rightarrow> gvalue gomap \<Rightarrow> draft_error + (draft_tree \<times> Draft)" where
  "newDraftFile x tree req extraContent = (case scaffoldGuard req of
       Some e \<Rightarrow> Inl e
     | None \<Rightarrow> (case draftJSON x req extraContent of
           Inl e \<Rightarrow> Inl e
         | Inr body \<Rightarrow>
             let nm = jsonName (nd_Type req) (nd_ID req); now = x_now (dx_store x) in
             if dx_create x (draftPathOf x (nd_Project req) nm) = DirectoryRefused then Inl (DraftDirectory (nd_Project req))
             else if findDraft tree (nd_Project req) nm \<noteq> None
             then Inl (DraftAlreadyExists (nd_Type req) (nd_ID req) (nd_Project req))
             else if dx_create x (draftPathOf x (nd_Project req) nm) = FileRefused
             then Inl (DraftUnwritable (draftPathOf x (nd_Project req) nm))
             else Inr (addDraft tree (nd_Project req) \<lparr>fl_Name = nm, fl_Contents = body, fl_Updated = now\<rparr>,
               \<lparr>dr_Project = nd_Project req, dr_Namespace = nd_Namespace req, dr_Type = nd_Type req, dr_ID = nd_ID req,
                dr_Path = draftPathOf x (nd_Project req) nm, dr_Updated = now, dr_Provenance = '''',
                dr_SourcePromptHash = '''', dr_Confidence = 0, dr_HasConfidence = False, dr_CaptureMeta = noCapture\<rparr>)))"

definition NewDraft :: "draftContext \<Rightarrow> draft_tree \<Rightarrow> NewDraftRequest \<Rightarrow> draft_error + (draft_tree \<times> Draft)" where
  "NewDraft x tree req = newDraftFile x tree req []"

section \<open>The unit of a draft\<close>

definition draftRelations :: "Artifact \<Rightarrow> Relationship list" where
  "draftRelations a = map (\<lambda>(t, target). \<lparr>rel_Type = t, rel_Target = target\<rparr>)
     (sort (concat (map (\<lambda>(field, raws). map (\<lambda>raw. (field, raw)) raws) (Relations a))))"

definition unitFromDraft :: "(gvalue \<Rightarrow> string) \<Rightarrow> Artifact \<Rightarrow> int \<Rightarrow> Unit" where
  "unitFromDraft num a version =
     (let i = \<lparr>id_Namespace = Namespace a, id_Type = Type a, id_ID = ID a, id_InstanceVersion = version\<rparr> in
      \<lparr>u_Identity = i, u_CanonicalIdentityForm = CanonicalForm i, u_Revision = Revision a,
       u_Author = \<lparr>au_Kind = AuthorKind a, au_Name = Author a\<rparr>, u_Created = Created a, u_Updated = Updated a,
       u_StateVector = stateVectorFrom (States a), u_ChangeLog = map unitLogOf (ChangeLog a),
       u_Relationships = draftRelations a,
       u_Classification = \<lparr>cl_Dimension = (if HasDimension a then Dimension a else ''''),
         cl_DimensionsSecondary = DimensionsSecondary a,
         cl_Domain = (if DeclaredDomain a \<noteq> '''' then DeclaredDomain a
           else case DomainForToken (Type a) of Some d \<Rightarrow> domain_string d | None \<Rightarrow> '''')\<rparr>,
       u_Phase = Phase a, u_Provenance = Provenance a, u_SourcePromptHash = SourcePromptHash a,
       u_Confidence = (if HasConfidence a then Confidence a else 0), u_SourceCommitSha = SourceCommitSha a,
       u_CaptureMeta = Capture a,
       u_Content = \<lparr>cr_Representation = StructuredJSON, cr_File = ''content''\<rparr>,
       u_ContentPayload = ContentJSON num (case CompileContentObject a of Some m \<Rightarrow> m | None \<Rightarrow> []) (requiredFor (Type a)),
       u_UnitDir = '''', u_Digest = ''''\<rparr>)"

section \<open>Resolution against the store\<close>

definition storeResolve :: "callContext \<Rightarrow> db \<Rightarrow> reference \<Rightarrow> bool" where
  "storeResolve x d r = (case UnitsByLine (x_decode x) d (ref_Namespace r) (ref_Type r) (ref_ID r) of
       None \<Rightarrow> False
     | Some us \<Rightarrow> if ref_HasVersion r then list_ex (\<lambda>u. id_InstanceVersion (u_Identity u) = ref_Version r) us
         else us \<noteq> [])"

text \<open>The references a validation asks the resolver about: those of Rule 5 that parse and are
  not the unit itself, the rows of a container's table, and the targets the graph pass reads
  for a note.  (A bare table cell is tried under the six work item types, which the code
  visits in no fixed order and leaves early once two resolve.)\<close>

definition parsedRefs :: "Artifact \<Rightarrow> string \<Rightarrow> reference list" where
  "parsedRefs a field = List.map_filter (\<lambda>raw. case parseReference raw (Namespace a) (Type a) of
       Inl e \<Rightarrow> None | Inr r \<Rightarrow> Some r) (relation_of a field)"

definition rowRefs :: "Artifact \<Rightarrow> workItemsTable \<Rightarrow> string list \<Rightarrow> reference list" where
  "rowRefs a tbl row =
     (if int (length row) \<le> tbl_stateCol tbl then []
      else let cell = trim_space (row ! 0); state = trim_space (row ! nat (tbl_stateCol tbl)) in
        if cell = '''' \<or> state = '''' then []
        else if contains_char cell colon then
          (case parseReference cell (Namespace a) '''' of
             Inl e \<Rightarrow> [] | Inr r \<Rightarrow> if IsWorkItemType (ref_Type r) then [r] else [])
        else map (\<lambda>t. bareReference (Namespace a) t cell) workItemTypes)"

definition tableRefs :: "Artifact \<Rightarrow> reference list" where
  "tableRefs a = (if Type a \<noteq> ''ctr'' then [] else case workItemsTableOf a of
       None \<Rightarrow> []
     | Some tbl \<Rightarrow> if tbl_parseWarn tbl \<noteq> None then [] else concat (map (rowRefs a tbl) (tbl_rows tbl)))"

definition consulted :: "Artifact \<Rightarrow> reference list" where
  "consulted a =
     concat (map (\<lambda>field. filter (\<lambda>r. \<not> isSelfIdentity r a) (parsedRefs a field)) relationshipFields) @
     (if Type a = ''tkt'' then filter (\<lambda>r. ref_Type r = ''ctr'') (parsedRefs a ''derives-from'') else []) @
     tableRefs a @
     (if Type a = ''cmt'' then parsedRefs a ''discusses'' @ filter (\<lambda>r. ref_Type r = ''cmt'') (parsedRefs a ''replies-to'')
      else [])"

definition unreadableLines :: "callContext \<Rightarrow> db \<Rightarrow> reference list \<Rightarrow> string list" where
  "unreadableLines x d rs = sort (remdups (map refLine
     (filter (\<lambda>r. UnitsByLine (x_decode x) d (ref_Namespace r) (ref_Type r) (ref_ID r) = None) rs)))"

definition resolverFindings :: "callContext \<Rightarrow> db \<Rightarrow> reference list \<Rightarrow> string \<Rightarrow> string \<Rightarrow> publish_msg result list" where
  "resolverFindings x d rs file contentState = map (\<lambda>k. \<lparr>res_File = file, res_Rule = Rule5,
     res_Severity = (if contentState = ''draft'' then SeverityWarning else SeverityError), res_Message = LineUnreadable k\<rparr>)
     (unreadableLines x d rs)"

text \<open>The validation publish and the draft checks share.\<close>

definition draftReport ::
  "draftContext \<Rightarrow> workspaceState \<Rightarrow> string \<Rightarrow> Unit \<Rightarrow> string \<Rightarrow> string \<Rightarrow> publish_msg report" where
  "draftReport x ws project u file contentState =
     (let a = ToArtifact (x_fields (dx_store x)) u;
          r = ValidateCKO (dx_render x) a (Some (storeResolve (dx_store x) (ws_db ws)))
                (Some (draftTargetOf x (ws_drafts ws) project)) in
      \<lparr>rep_FilesScanned = rep_FilesScanned r, rep_Artifacts = rep_Artifacts r, rep_Skipped = rep_Skipped r,
       rep_Results = map (retag RuleFinding) (rep_Results r)
         @ resolverFindings (dx_store x) (ws_db ws) (consulted a) file contentState\<rparr>)"

section \<open>Publishing\<close>

definition draftSourceRepo :: string where "draftSourceRepo = ''runtime''"

definition persistPublishedUnit ::
  "callContext \<Rightarrow> db \<Rightarrow> string \<Rightarrow> Unit \<Rightarrow> draft_error + (db \<times> PublishResult)" where
  "persistPublishedUnit x d project u =
     (let p = unitPut x project draftSourceRepo (x_now x) u in
      case PutUnit (x_hash x) (x_now x) d (put_UnitJSON p) (put_Content p) (put_Ref p) of
        Inl e \<Rightarrow> Inl (PersistFailed (u_CanonicalIdentityForm u) e)
      | Inr (d', hash, kept) \<Rightarrow> Inr (d', \<lparr>pr_Form = u_CanonicalIdentityForm u,
          pr_InstanceVersion = id_InstanceVersion (u_Identity u), pr_ObjectHash = hash, pr_Note = None, pr_Converged = False\<rparr>))"

text \<open>The version precedence with the forward-only check.\<close>

definition assignVersion :: "db \<Rightarrow> string \<Rightarrow> string \<Rightarrow> string \<Rightarrow> int \<Rightarrow> draft_error + int" where
  "assignVersion d ns t i version =
     (let highestVersion = MaxInstanceVersion d ns t i in
      if version = 0 then Inr (highestVersion + 1)
      else if version \<le> highestVersion then Inl (VersionNotForward version highestVersion)
      else Inr version)"

text \<open>A located and classified draft whose identity is the one addressed.\<close>

definition readDraft ::
  "draftContext \<Rightarrow> draft_tree \<Rightarrow> string \<Rightarrow> string \<Rightarrow> draft_error + (reference \<times> DraftRef \<times> Artifact)" where
  "readDraft x tree target hint = (case parseDraftTarget target of
       Inl e \<Rightarrow> Inl e
     | Inr r \<Rightarrow> (case resolveDraftFile x tree hint (ref_Type r) (ref_ID r) of
           Inl e \<Rightarrow> Inl e
         | Inr df \<Rightarrow> (case scanDraft x (df_Project df) (df_File df) of
               Inl e \<Rightarrow> Inl (DraftUnclassified e)
             | Inr None \<Rightarrow> Inl (NotAnArtifact target)
             | Inr (Some a) \<Rightarrow> Inr (r, df, a))))"

definition checkIdentity :: "reference \<Rightarrow> DraftRef \<Rightarrow> Artifact \<Rightarrow> draft_error option" where
  "checkIdentity r df a =
     (if Type a \<noteq> ref_Type r \<or> ID a \<noteq> ref_ID r
      then Some (FileIdentityMismatch (df_Path df) (Type a) (ID a) (ref_Type r) (ref_ID r)) else None)"

definition checkTarget :: "reference \<Rightarrow> DraftRef \<Rightarrow> Artifact \<Rightarrow> draft_error option" where
  "checkTarget r df a =
     (if ref_Namespace r \<noteq> '''' \<and> ref_Namespace r \<noteq> Namespace a
      then Some (TargetNamespaceMismatch (ref_Namespace r) (Namespace a))
      else checkIdentity r df a)"

text \<open>The outcome of a publish carries the state: when the file cannot be removed the object
  stays persisted.\<close>

definition finishPublish ::
  "draftContext \<Rightarrow> workspaceState \<Rightarrow> DraftRef \<Rightarrow> db \<Rightarrow> PublishResult \<Rightarrow> (draft_error + PublishResult) \<times> workspaceState" where
  "finishPublish x ws df d res =
     (let gone = removeDraft (ws_drafts ws) (df_Project df) (fl_Name (df_File df)) in
      case dx_removal x of
        RemoveRefused \<Rightarrow> (Inl (RemovalFailed (pr_Form res)), ws\<lparr>ws_db := d\<rparr>)
      | FileRemoved \<Rightarrow> (Inr (res\<lparr>pr_Note := df_Note df\<rparr>), ws\<lparr>ws_db := d, ws_drafts := gone\<rparr>)
      | AlreadyGone \<Rightarrow> (Inr (res\<lparr>pr_Note := df_Note df, pr_Converged := True\<rparr>), ws\<lparr>ws_db := d, ws_drafts := gone\<rparr>))"

definition Publish ::
  "draftContext \<Rightarrow> workspaceState \<Rightarrow> string \<Rightarrow> PublishOptions \<Rightarrow> (draft_error + PublishResult) \<times> workspaceState" where
  "Publish x ws target opts = (case readDraft x (ws_drafts ws) target (po_Project opts) of
       Inl e \<Rightarrow> (Inl e, ws)
     | Inr (r, df, a) \<Rightarrow> (case checkTarget r df a of
         Some e \<Rightarrow> (Inl e, ws)
       | None \<Rightarrow>
           let wanted = (if po_InstanceVersion opts = 0 \<and> InstanceVersion a > 0 then InstanceVersion a
             else po_InstanceVersion opts) in
           (case assignVersion (ws_db ws) (Namespace a) (Type a) (ID a) wanted of
              Inl e \<Rightarrow> (Inl e, ws)
            | Inr version \<Rightarrow>
                let u = unitFromDraft (dx_number x) a version;
                    report = draftReport x ws (df_Project df) u (RelPath a) (state_of a DomainContentState) in
                if \<not> Pass report then (Inl (PublishRefused target report), ws)
                else (case persistPublishedUnit (dx_store x) (ws_db ws) (df_Project df) u of
                    Inl e \<Rightarrow> (Inl e, ws)
                  | Inr (d, res) \<Rightarrow> finishPublish x ws df d res))))"

section \<open>Structured input\<close>

text \<open>The input as the YAML decoder delivers it; None stands for an absent field.\<close>

record inlineCKO =
  in_Namespace :: string
  in_Type :: string
  in_ID :: string
  in_InstanceVersion :: "int option"
  in_Revision :: int
  in_Author :: AuthorIdentity
  in_Created :: string
  in_Updated :: string
  in_State :: "string gomap"
  in_Phase :: string
  in_Classification :: Classification
  in_Relationships :: "Relationship list"
  in_ChangeLog :: "UnitLogEntry list"
  in_Fields :: "gvalue gomap option"
  in_Text :: string

definition inlineUnit :: "(gvalue \<Rightarrow> string) \<Rightarrow> inlineCKO \<Rightarrow> int \<Rightarrow> Unit" where
  "inlineUnit num doc version =
     (let i = \<lparr>id_Namespace = in_Namespace doc, id_Type = in_Type doc, id_ID = in_ID doc, id_InstanceVersion = version\<rparr>;
          state = (\<lambda>k. get_or (in_State doc) k '''') in
      \<lparr>u_Identity = i, u_CanonicalIdentityForm = CanonicalForm i, u_Revision = in_Revision doc,
       u_Author = in_Author doc, u_Created = in_Created doc, u_Updated = in_Updated doc,
       u_StateVector = \<lparr>sv_ContentState = state ''contentState'', sv_ExecutionState = state ''executionState'',
         sv_PlanningState = state ''planningState'', sv_ContainerState = state ''containerState'',
         sv_ExistenceState = state ''existenceState'', sv_NoteState = state ''noteState''\<rparr>,
       u_ChangeLog = map (\<lambda>e. e\<lparr>le_Domain := stateKeyToKebab (le_Domain e)\<rparr>) (in_ChangeLog doc),
       u_Relationships = in_Relationships doc, u_Classification = in_Classification doc, u_Phase = in_Phase doc,
       u_Provenance = '''', u_SourcePromptHash = '''', u_Confidence = 0, u_SourceCommitSha = '''',
       u_CaptureMeta = noCapture,
       u_Content = \<lparr>cr_Representation = (if in_Fields doc = None then ContentRepresentation else StructuredJSON),
         cr_File = ''content''\<rparr>,
       u_ContentPayload = (case in_Fields doc of
           None \<Rightarrow> in_Text doc | Some m \<Rightarrow> ContentJSON num m (requiredFor (in_Type doc))),
       u_UnitDir = '''', u_Digest = ''''\<rparr>)"

definition publishInlineAt ::
  "draftContext \<Rightarrow> workspaceState \<Rightarrow> inlineCKO \<Rightarrow> int \<Rightarrow> (draft_error + PublishResult) \<times> workspaceState" where
  "publishInlineAt x ws doc wanted = (case assignVersion (ws_db ws) (in_Namespace doc) (in_Type doc) (in_ID doc) wanted of
       Inl e \<Rightarrow> (Inl e, ws)
     | Inr version \<Rightarrow>
         let u = inlineUnit (dx_number x) doc version; form = u_CanonicalIdentityForm u;
             report = draftReport x ws '''' u form (sv_ContentState (u_StateVector u)) in
         if \<not> Pass report then (Inl (PublishRefused form report), ws)
         else (case persistPublishedUnit (dx_store x) (ws_db ws) '''' u of
             Inl e \<Rightarrow> (Inl e, ws)
           | Inr (d, res) \<Rightarrow> (Inr res, ws\<lparr>ws_db := d\<rparr>)))"

definition PublishInline ::
  "draftContext \<Rightarrow> workspaceState \<Rightarrow> inlineCKO option \<Rightarrow> PublishOptions \<Rightarrow> (draft_error + PublishResult) \<times> workspaceState" where
  "PublishInline x ws input opts = (case input of
       None \<Rightarrow> (Inl InlineUnreadable, ws)
     | Some doc \<Rightarrow>
         if in_Namespace doc = '''' \<or> in_Type doc = '''' \<or> in_ID doc = '''' then (Inl InlineIdentityMissing, ws)
         else (case in_InstanceVersion doc of
             Some v \<Rightarrow> if v < 1 then (Inl (InlineVersionInvalid v), ws) else publishInlineAt x ws doc v
           | None \<Rightarrow> publishInlineAt x ws doc (po_InstanceVersion opts)))"

section \<open>The backlog\<close>

definition draftBase :: "string \<Rightarrow> string option" where
  "draftBase nm = (if has_suffix ''.json'' nm then Some (trim_suffix ''.json'' nm)
     else if has_suffix ''.md'' nm then Some (trim_suffix ''.md'' nm) else None)"

definition draftEntry :: "draftContext \<Rightarrow> string \<Rightarrow> draftFile \<Rightarrow> Draft option" where
  "draftEntry x project f = (case draftBase (fl_Name f) of
       None \<Rightarrow> None
     | Some base \<Rightarrow> (case cut_first dash base of
           None \<Rightarrow> None
         | Some (t, i) \<Rightarrow>
             if DomainForToken t = None then None
             else
               let d = \<lparr>dr_Project = project, dr_Namespace = '''', dr_Type = t, dr_ID = i,
                 dr_Path = draftPathOf x project (fl_Name f), dr_Updated = fl_Updated f, dr_Provenance = ProvenanceHuman,
                 dr_SourcePromptHash = '''', dr_Confidence = 0, dr_HasConfidence = False, dr_CaptureMeta = noCapture\<rparr> in
               (case scanDraft x project f of
                  Inr (Some a) \<Rightarrow> Some (d\<lparr>dr_Namespace := Namespace a,
                    dr_Provenance := (if Provenance a = '''' then ProvenanceHuman else Provenance a),
                    dr_SourcePromptHash := SourcePromptHash a, dr_Confidence := Confidence a,
                    dr_HasConfidence := HasConfidence a, dr_CaptureMeta := Capture a\<rparr>)
                | _ \<Rightarrow> Some d)))"

definition draftsInProject :: "draftContext \<Rightarrow> draft_tree \<Rightarrow> string \<Rightarrow> Draft list" where
  "draftsInProject x tree project =
     List.map_filter (draftEntry x project) (sort_key fl_Name (projectFiles tree project))"

definition Drafts :: "draftContext \<Rightarrow> draft_tree \<Rightarrow> string \<Rightarrow> Draft list" where
  "Drafts x tree project = (if project \<noteq> '''' then draftsInProject x tree project
     else concat (map (draftsInProject x tree) (projectsOf tree)))"

definition DraftsByProvenance :: "draftContext \<Rightarrow> draft_tree \<Rightarrow> string \<Rightarrow> string \<Rightarrow> draft_error + Draft list" where
  "DraftsByProvenance x tree project provenance =
     (if provenance = '''' \<or> provenance = ''all'' then Inr (Drafts x tree project)
      else if \<not> ValidProvenance provenance then Inl (UnknownProvenance provenance)
      else Inr (filter (\<lambda>d. (if dr_Provenance d = '''' then ProvenanceHuman else dr_Provenance d) = provenance)
        (Drafts x tree project)))"

text \<open>A listed draft scanned by its path.\<close>

definition scanAt :: "draftContext \<Rightarrow> draft_tree \<Rightarrow> string \<Rightarrow> string \<Rightarrow> scan_error + Artifact option" where
  "scanAt x tree project path = (case find (\<lambda>f. draftPathOf x project (fl_Name f) = path) (projectFiles tree project) of
       None \<Rightarrow> Inl (Unreadable path) | Some f \<Rightarrow> scanDraft x project f)"

section \<open>Validating and discarding\<close>

definition ValidateDraft ::
  "draftContext \<Rightarrow> workspaceState \<Rightarrow> string \<Rightarrow> string \<Rightarrow> draft_error + (DraftRef \<times> publish_msg report)" where
  "ValidateDraft x ws target hint = (case readDraft x (ws_drafts ws) target hint of
       Inl e \<Rightarrow> Inl e
     | Inr (r, df, a) \<Rightarrow> (case checkIdentity r df a of
         Some e \<Rightarrow> Inl e
       | None \<Rightarrow>
           let version = (if InstanceVersion a = 0 then MaxInstanceVersion (ws_db ws) (Namespace a) (Type a) (ID a) + 1
             else InstanceVersion a);
               u = unitFromDraft (dx_number x) a version in
           Inr (df, draftReport x ws (df_Project df) u (RelPath a) (state_of a DomainContentState))))"

definition ResolveDraft :: "draftContext \<Rightarrow> draft_tree \<Rightarrow> string \<Rightarrow> string \<Rightarrow> draft_error + DraftRef" where
  "ResolveDraft x tree target hint = (case parseDraftTarget target of
       Inl e \<Rightarrow> Inl e | Inr r \<Rightarrow> resolveDraftFile x tree hint (ref_Type r) (ref_ID r))"

text \<open>A refused removal leaves the tree; a file gone in the meantime is an error here.\<close>

definition DiscardDraft ::
  "draftContext \<Rightarrow> draft_tree \<Rightarrow> string \<Rightarrow> string \<Rightarrow> (draft_error + draft_note option) \<times> draft_tree" where
  "DiscardDraft x tree target hint = (case ResolveDraft x tree target hint of
       Inl e \<Rightarrow> (Inl e, tree)
     | Inr df \<Rightarrow> (case dx_removal x of
           FileRemoved \<Rightarrow> (Inr (df_Note df), removeDraft tree (df_Project df) (fl_Name (df_File df)))
         | AlreadyGone \<Rightarrow> (Inl (RemovalFailed (df_Path df)), removeDraft tree (df_Project df) (fl_Name (df_File df)))
         | RemoveRefused \<Rightarrow> (Inl (RemovalFailed (df_Path df)), tree)))"

end
