(* ===== verification/Runtime_Publish.thy ===== *)
theory Runtime_Publish
  imports Runtime_Draft
begin

text \<open>
  What the draft workflow guarantees: a publish appends one reference with a version above
  every instance of its line and touches nothing else, a refused publish changes nothing,
  and every state the services reach keeps the store and the drafts tree well formed.
\<close>

section \<open>Canonical forms of well-formed identities\<close>

text \<open>What the forms need to be told apart: a namespace without a slash, an id without a colon.\<close>

definition plainIdentity :: "Identity \<Rightarrow> bool" where
  "plainIdentity i = (slash \<notin> set (id_Namespace i) \<and> IsKnownType (id_Type i) \<and> colon \<notin> set (id_ID i))"

lemma canonical_form_inj:
  assumes "plainIdentity i" "plainIdentity j" "CanonicalForm i = CanonicalForm j"
  shows "i = j"
proof -
  have cut: "cut_first slash (CanonicalForm k) = Some (id_Namespace k, id_Type k @ colon # id_ID k @ colon # itoa (id_InstanceVersion k))"
    "cut_first colon (id_Type k @ colon # id_ID k @ colon # itoa (id_InstanceVersion k)) = Some (id_Type k, id_ID k @ colon # itoa (id_InstanceVersion k))"
    "cut_first colon (id_ID k @ colon # itoa (id_InstanceVersion k)) = Some (id_ID k, itoa (id_InstanceVersion k))"
    if "plainIdentity k" for k
    using that known_type_chars by (auto simp: plainIdentity_def CanonicalForm_def)
  have 1: "id_Namespace i = id_Namespace j \<and> id_Type i @ colon # id_ID i @ colon # itoa (id_InstanceVersion i)
      = id_Type j @ colon # id_ID j @ colon # itoa (id_InstanceVersion j)"
    using trans [OF sym [OF cut(1) [OF assms(1), unfolded assms(3)]] cut(1) [OF assms(2)]] by blast
  have 2: "id_Type i = id_Type j \<and> id_ID i @ colon # itoa (id_InstanceVersion i) = id_ID j @ colon # itoa (id_InstanceVersion j)"
    using trans [OF sym [OF cut(2) [OF assms(1), unfolded conjunct2 [OF 1]]] cut(2) [OF assms(2)]] by blast
  have 3: "id_ID i = id_ID j \<and> itoa (id_InstanceVersion i) = itoa (id_InstanceVersion j)"
    using trans [OF sym [OF cut(3) [OF assms(1), unfolded conjunct2 [OF 2]]] cut(3) [OF assms(2)]] by blast
  then have "id_InstanceVersion i = id_InstanceVersion j" using itoa_inj by blast
  with 1 2 3 show ?thesis by (intro Identity.equality) simp_all
qed

definition refIdentity :: "Ref \<Rightarrow> Identity" where
  "refIdentity r = \<lparr>id_Namespace = r_Namespace r, id_Type = r_Type r, id_ID = r_ID r, id_InstanceVersion = r_InstanceVersion r\<rparr>"

text \<open>Every reference is stored under the canonical form of its own identity columns.\<close>

definition canonicalRefs :: "db \<Rightarrow> bool" where
  "canonicalRefs d \<longleftrightarrow> (\<forall>(f, row) \<in> set (refs d). f = CanonicalForm (refIdentity (row_ref row)) \<and> plainIdentity (refIdentity (row_ref row)))"

text \<open>The instance versions of a line, in the order the table grew.\<close>

definition lineVersions :: "db \<Rightarrow> string \<Rightarrow> string \<Rightarrow> string \<Rightarrow> int list" where
  "lineVersions d ns t i = map (r_InstanceVersion \<circ> row_ref \<circ> snd) (filter (\<lambda>(f, row). onLine ns t i (row_ref row)) (refs d))"

lemma MaxInstanceVersion_spec:
  "v \<in> set (lineVersions d ns t i) \<Longrightarrow> v \<le> MaxInstanceVersion d ns t i"
proof -
  have "v \<in> set (y # ys) \<Longrightarrow> v \<le> foldr max ys y" for ys :: "int list" and y
    by (induction ys) (auto simp: max_def)
  then show "v \<in> set (lineVersions d ns t i) \<Longrightarrow> v \<le> MaxInstanceVersion d ns t i"
    unfolding lineVersions_def MaxInstanceVersion_def by (auto simp only: split: list.split) auto
qed

lemma MaxInstanceVersion_Max:
  "MaxInstanceVersion d ns t i = (if lineVersions d ns t i = [] then 0 else Max (set (lineVersions d ns t i)))"
proof -
  have m: "foldr max ys y = Max (set (y # ys))" for ys :: "int list" and y
  proof (induction ys)
    case (Cons a ys)
    have "Max (set (y # a # ys)) = max a (Max (set (y # ys)))"
      by (simp add: insert_commute [of y a])
    with Cons.IH show ?case by simp
  qed simp
  show ?thesis unfolding lineVersions_def MaxInstanceVersion_def using m by (simp only: split: list.split) simp
qed

lemma new_form_absent:
  assumes "canonicalRefs d" "plainIdentity i"
    and "id_InstanceVersion i \<notin> set (lineVersions d (id_Namespace i) (id_Type i) (id_ID i))"
  shows "map_of (refs d) (CanonicalForm i) = None"
proof (rule ccontr)
  assume "map_of (refs d) (CanonicalForm i) \<noteq> None"
  then obtain row where m: "(CanonicalForm i, row) \<in> set (refs d)" by (auto dest: map_of_SomeD)
  then have "refIdentity (row_ref row) = i"
    using assms(1,2) canonical_form_inj by (fastforce simp: canonicalRefs_def)
  then have "id_InstanceVersion i \<in> set (lineVersions d (id_Namespace i) (id_Type i) (id_ID i))"
    using m by (force simp: lineVersions_def onLine_def refIdentity_def)
  with assms(3) show False by simp
qed

section \<open>What a persisted unit changes\<close>

definition unitRef :: "callContext \<Rightarrow> string \<Rightarrow> Unit \<Rightarrow> Ref" where
  "unitRef x project u = (put_Ref (unitPut x project draftSourceRepo (x_now x) u))
     \<lparr>r_ObjectHash := hashUnit (x_hash x) (x_marshal x u) (u_ContentPayload u)\<rparr>"

lemma unitRef_fields [simp]:
  "r_Form (unitRef x p u) = u_CanonicalIdentityForm u" "r_ProjectID (unitRef x p u) = p"
  "r_SourceRepo (unitRef x p u) = draftSourceRepo" "refIdentity (unitRef x p u) = u_Identity u"
  "r_Revision (unitRef x p u) = u_Revision u"
  by (simp_all add: unitRef_def unitPut_def refIdentity_def)

definition appended :: "db \<Rightarrow> db \<Rightarrow> Ref \<Rightarrow> bool" where
  "appended d d' r \<longleftrightarrow> (\<exists>row. refs d' = refs d @ [(r_Form r, row)] \<and> row_ref row = r)
     \<and> list_all (\<lambda>(h, p). map_of (payloads d') h = map_of (payloads d) h) (payloads d)
     \<and> has_key (payloads d') (r_ObjectHash r)"

lemma persist_appends:
  assumes "persistPublishedUnit x d project u = Inr (d', res)"
    and "map_of (refs d) (u_CanonicalIdentityForm u) = None"
  shows "appended d d' (unitRef x project u)"
    and "res = \<lparr>pr_Form = u_CanonicalIdentityForm u, pr_InstanceVersion = id_InstanceVersion (u_Identity u),
           pr_ObjectHash = r_ObjectHash (unitRef x project u), pr_Note = None, pr_Converged = False\<rparr>"
proof -
  let ?r = "put_Ref (unitPut x project draftSourceRepo (x_now x) u)"
  let ?d1 = "archived (x_hash x) (x_now x) d (x_marshal x u) (u_ContentPayload u) ''''"
  obtain h kept where put: "putUnitTx (x_hash x) (x_now x) d (x_marshal x u) (u_ContentPayload u) ?r False = Inr (d', h, kept)"
    and res: "res = \<lparr>pr_Form = u_CanonicalIdentityForm u, pr_InstanceVersion = id_InstanceVersion (u_Identity u),
           pr_ObjectHash = h, pr_Note = None, pr_Converged = False\<rparr>"
    using assms(1) by (auto simp: persistPublishedUnit_def unitPut_def PutUnit_def Let_def split: sum.splits)
  have form: "r_Form ?r = u_CanonicalIdentityForm u" by (simp add: unitPut_def)
  have h: "h = hashUnit (x_hash x) (x_marshal x u) (u_ContentPayload u)" using putUnitTx_cases(1) [OF put] .
  have cur: "currentHash d (r_Form ?r) = ''''" using assms(2) form by (simp add: currentHash_def Ref_of_def)
  have "\<exists>n. upsert_ref ?r h n (NumberGroup (r_Type ?r)) ?d1 = Inr d'"
    using put cur unfolding putUnitTx_alt Let_def by (auto simp: h split: sum.splits)
  then obtain n where up: "upsert_ref ?r h n (NumberGroup (r_Type ?r)) ?d1 = Inr d'" by blast
  have none: "map_of (refs ?d1) (r_Form ?r) = None" using assms(2) form by simp
  have rr: "unitRef x project u = ?r\<lparr>r_ObjectHash := h\<rparr>" by (simp add: unitRef_def h)
  have "refs d' = refs d @ [(r_Form ?r, \<lparr>row_ref = ?r\<lparr>r_ObjectHash := h\<rparr>, row_number = n, row_group = NumberGroup (r_Type ?r)\<rparr>)]"
    using upsert_new(1) [OF up none] by simp
  moreover have "map_of (payloads d') k = map_of (payloads d) k" if "(k, p) \<in> set (payloads d)" for k p
    using put_keeps_payload [OF put, of k] that by (metis weak_map_of_SomeI)
  moreover have "has_key (payloads d') h" using put_archives [OF put] unfolding has_key_iff by blast
  ultimately show "appended d d' (unitRef x project u)"
    by (auto simp: appended_def rr list_all_iff)
  show "res = \<lparr>pr_Form = u_CanonicalIdentityForm u, pr_InstanceVersion = id_InstanceVersion (u_Identity u),
           pr_ObjectHash = r_ObjectHash (unitRef x project u), pr_Note = None, pr_Converged = False\<rparr>"
    using res by (simp add: rr)
qed

lemma persist_put: "persistPublishedUnit x d project u = Inr (d', res) \<Longrightarrow> put_step (x_hash x) d d'"
  by (auto simp: persistPublishedUnit_def PutUnit_def Let_def split: sum.splits intro: put_step)

lemma assigned_above:
  assumes "assignVersion d ns t i w = Inr v" "n \<in> set (lineVersions d ns t i)"
  shows "n < v"
  using assms MaxInstanceVersion_spec [OF assms(2)] by (auto simp: assignVersion_def Let_def split: if_splits)

section \<open>Locating a draft\<close>

lemma findDraft_Some: "findDraft tree p nm = Some f \<Longrightarrow> f \<in> set (projectFiles tree p) \<and> fl_Name f = nm"
  by (auto simp: findDraft_def find_Some_iff)

lemma findDraft_self: "findDraft tree p nm = Some f \<Longrightarrow> findDraft tree p (fl_Name f) = Some f"
  using findDraft_Some by metis

lemma scanProject_Some:
  assumes "scanProject x tree hint t i p = Some df"
  shows "df_Project df = p \<and> findDraft tree p (fl_Name (df_File df)) = Some (df_File df)
    \<and> fl_Name (df_File df) \<in> {jsonName t i, markdownName t i}"
  using assms findDraft_self findDraft_Some by (auto simp: scanProject_def draftRefAt_def Let_def split: option.splits)

lemma resolveDraftFile_sound:
  assumes "resolveDraftFile x tree hint t i = Inr df"
  shows "findDraft tree (df_Project df) (fl_Name (df_File df)) = Some (df_File df)
    \<and> fl_Name (df_File df) \<in> {jsonName t i, markdownName t i}"
proof -
  let ?p = "if hint = '''' then dx_cwdProject x else hint"
  consider f where "findDraft tree ?p (jsonName t i) = Some f" "df = draftRefAt x ?p f None"
    | "df \<in> set (List.map_filter (scanProject x tree hint t i) (projectsOf tree))"
    using assms by (auto simp: resolveDraftFile_def Let_def split: option.splits list.splits if_splits)
  then show ?thesis
  proof cases
    case 1 then show ?thesis using findDraft_self findDraft_Some by (auto simp: draftRefAt_def split: if_splits)
  next
    case 2
    then obtain p where "scanProject x tree hint t i p = Some df" by (auto simp: set_map_filter_iff)
    then show ?thesis using scanProject_Some by metis
  qed
qed

lemma parse_target_id:
  assumes "parseDraftTarget target = Inr r"
  shows "colon \<notin> set (ref_ID r)"
  using assms by (auto simp: parseDraftTarget_def parseReference_def Let_def split: sum.splits if_splits prod.splits)

lemma readDraft_sound:
  assumes "readDraft x tree target hint = Inr (r, df, a)"
  shows "parseDraftTarget target = Inr r" "resolveDraftFile x tree hint (ref_Type r) (ref_ID r) = Inr df"
    "scanDraft x (df_Project df) (df_File df) = Inr (Some a)"
  using assms by (auto simp: readDraft_def split: sum.splits option.splits)

section \<open>The steps of a publish\<close>

text \<open>The gate a unit passes before it is persisted.\<close>

definition gatePassed :: "draftContext \<Rightarrow> workspaceState \<Rightarrow> string \<Rightarrow> Unit \<Rightarrow> bool" where
  "gatePassed x ws project u \<longleftrightarrow> Pass (ValidateCKO (dx_render x) (ToArtifact (x_fields (dx_store x)) u)
     (Some (storeResolve (dx_store x) (ws_db ws))) (Some (draftTargetOf x (ws_drafts ws) project)))"

lemma draftReport_pass: "Pass (draftReport x ws project u file cs) \<Longrightarrow> gatePassed x ws project u"
  by (simp add: gatePassed_def Pass_noErrors draftReport_def Let_def)

lemma publish_gate_wellformed:
  assumes "Pass (ValidateCKO render (ToArtifact fs u) res draft)"
  shows "IsKnownType (id_Type (u_Identity u))" "id_ID (u_Identity u) \<noteq> ''''" "id_Namespace (u_Identity u) \<noteq> ''''"
    "1 \<le> id_InstanceVersion (u_Identity u)" "1 \<le> u_Revision u"
  using cko_noErrors(1) [OF assms] unfolding ckoStructural_Nil by (simp_all add: ToArtifact_def)

text \<open>Both publish operations persist one unit whose version is above its line, after the gate.\<close>

definition publishes :: "draftContext \<Rightarrow> workspaceState \<Rightarrow> string \<Rightarrow> Unit \<Rightarrow> db \<Rightarrow> PublishResult \<Rightarrow> bool" where
  "publishes x ws project u d res \<longleftrightarrow> gatePassed x ws project u
     \<and> (\<forall>v \<in> set (lineVersions (ws_db ws) (id_Namespace (u_Identity u)) (id_Type (u_Identity u)) (id_ID (u_Identity u))).
          v < id_InstanceVersion (u_Identity u))
     \<and> u_CanonicalIdentityForm u = CanonicalForm (u_Identity u)
     \<and> persistPublishedUnit (dx_store x) (ws_db ws) project u = Inr (d, res)"

lemma Publish_ok:
  assumes "Publish x ws target opts = (Inr res, ws')"
  obtains r df a d res0 where "readDraft x (ws_drafts ws) target (po_Project opts) = Inr (r, df, a)" "checkTarget r df a = None"
    "publishes x ws (df_Project df) (unitFromDraft (dx_number x) a (pr_InstanceVersion res)) d res0"
    "ws' = ws\<lparr>ws_db := d, ws_drafts := removeDraft (ws_drafts ws) (df_Project df) (fl_Name (df_File df))\<rparr>"
    "pr_Form res = pr_Form res0" "pr_InstanceVersion res = pr_InstanceVersion res0" "pr_ObjectHash res = pr_ObjectHash res0"
proof -
  let ?u = "\<lambda>a v. unitFromDraft (dx_number x) a v"
  have i: "u_Identity (?u a v) = \<lparr>id_Namespace = Namespace a, id_Type = Type a, id_ID = ID a, id_InstanceVersion = v\<rparr>"
    "u_CanonicalIdentityForm (?u a v) = CanonicalForm (u_Identity (?u a v))" for a v
    by (simp_all add: unitFromDraft_def Let_def)
  from assms obtain r df a where rd: "readDraft x (ws_drafts ws) target (po_Project opts) = Inr (r, df, a)" "checkTarget r df a = None"
    by (auto simp: Publish_def split: sum.splits option.splits)
  with assms obtain w v d res0 where v: "assignVersion (ws_db ws) (Namespace a) (Type a) (ID a) w = Inr v"
    and p: "Pass (draftReport x ws (df_Project df) (?u a v) (RelPath a) (state_of a DomainContentState))"
    and s: "persistPublishedUnit (dx_store x) (ws_db ws) (df_Project df) (?u a v) = Inr (d, res0)"
    and f: "finishPublish x ws df d res0 = (Inr res, ws')"
    by (auto simp: Publish_def Let_def split: sum.splits if_splits)
  have same: "pr_Form res = pr_Form res0" "pr_InstanceVersion res = pr_InstanceVersion res0" "pr_ObjectHash res = pr_ObjectHash res0"
    "ws' = ws\<lparr>ws_db := d, ws_drafts := removeDraft (ws_drafts ws) (df_Project df) (fl_Name (df_File df))\<rparr>"
    using f by (auto simp: finishPublish_def Let_def split: removal.splits)
  have "pr_InstanceVersion res0 = v"
    using s by (auto simp: persistPublishedUnit_def Let_def i(1) split: sum.splits)
  moreover have "publishes x ws (df_Project df) (?u a v) d res0"
    using draftReport_pass [OF p] s assigned_above [OF v] i by (simp add: publishes_def)
  ultimately show ?thesis using that [OF rd, of d res0] same by simp
qed

lemma Publish_failed:
  assumes "Publish x ws target opts = (Inl e, ws')"
  shows "ws' = ws \<or> (\<exists>r df a v d res. readDraft x (ws_drafts ws) target (po_Project opts) = Inr (r, df, a) \<and> checkTarget r df a = None
     \<and> publishes x ws (df_Project df) (unitFromDraft (dx_number x) a v) d res \<and> e = RemovalFailed (pr_Form res)
     \<and> dx_removal x = RemoveRefused \<and> ws' = ws\<lparr>ws_db := d\<rparr>)"
proof (cases "ws' = ws")
  case False
  let ?u = "\<lambda>a v. unitFromDraft (dx_number x) a v"
  have i: "u_Identity (?u a v) = \<lparr>id_Namespace = Namespace a, id_Type = Type a, id_ID = ID a, id_InstanceVersion = v\<rparr>"
    "u_CanonicalIdentityForm (?u a v) = CanonicalForm (u_Identity (?u a v))" for a v
    by (simp_all add: unitFromDraft_def Let_def)
  from assms False obtain r df a where rd: "readDraft x (ws_drafts ws) target (po_Project opts) = Inr (r, df, a)" "checkTarget r df a = None"
    by (auto simp: Publish_def split: sum.splits option.splits)
  with assms False obtain w v d res0 where
      v: "assignVersion (ws_db ws) (Namespace a) (Type a) (ID a) w = Inr v"
    and p: "Pass (draftReport x ws (df_Project df) (?u a v) (RelPath a) (state_of a DomainContentState))"
    and s: "persistPublishedUnit (dx_store x) (ws_db ws) (df_Project df) (?u a v) = Inr (d, res0)"
    and f: "finishPublish x ws df d res0 = (Inl e, ws')"
    by (auto simp: Publish_def Let_def split: sum.splits if_splits option.splits)
  have "publishes x ws (df_Project df) (?u a v) d res0"
    using draftReport_pass [OF p] s assigned_above [OF v] i by (simp add: publishes_def)
  moreover have "e = RemovalFailed (pr_Form res0)" "dx_removal x = RemoveRefused" "ws' = ws\<lparr>ws_db := d\<rparr>"
    using f by (auto simp: finishPublish_def Let_def split: removal.splits)
  ultimately show ?thesis using rd by blast
qed simp

lemma PublishInline_cases:
  assumes "PublishInline x ws input opts = (out, ws')"
  shows "(\<exists>e. out = Inl e \<and> ws' = ws)
    \<or> (\<exists>doc res d. input = Some doc \<and> out = Inr res \<and> ws' = ws\<lparr>ws_db := d\<rparr>
        \<and> publishes x ws '''' (inlineUnit (dx_number x) doc (pr_InstanceVersion res)) d res)"
proof -
  let ?u = "\<lambda>doc v. inlineUnit (dx_number x) doc v"
  have i: "u_Identity (?u doc v) = \<lparr>id_Namespace = in_Namespace doc, id_Type = in_Type doc, id_ID = in_ID doc, id_InstanceVersion = v\<rparr>"
    "u_CanonicalIdentityForm (?u doc v) = CanonicalForm (u_Identity (?u doc v))" for doc v
    by (simp_all add: inlineUnit_def Let_def)
  have at: "(\<exists>e. out = Inl e \<and> ws' = ws) \<or> (\<exists>res d. out = Inr res \<and> ws' = ws\<lparr>ws_db := d\<rparr>
      \<and> publishes x ws '''' (?u doc (pr_InstanceVersion res)) d res)"
    if "publishInlineAt x ws doc w = (out, ws')" for doc w
  proof (cases out)
    case (Inl e)
    then show ?thesis using that by (auto simp: publishInlineAt_def Let_def split: sum.splits if_splits)
  next
    case (Inr res)
    with that obtain v d where v: "assignVersion (ws_db ws) (in_Namespace doc) (in_Type doc) (in_ID doc) w = Inr v"
      and p: "Pass (draftReport x ws '''' (?u doc v) (u_CanonicalIdentityForm (?u doc v)) (sv_ContentState (u_StateVector (?u doc v))))"
      and s: "persistPublishedUnit (dx_store x) (ws_db ws) '''' (?u doc v) = Inr (d, res)" "ws' = ws\<lparr>ws_db := d\<rparr>"
      by (auto simp: publishInlineAt_def Let_def split: sum.splits if_splits)
    have "pr_InstanceVersion res = v" using s(1) by (auto simp: persistPublishedUnit_def Let_def i(1) split: sum.splits)
    moreover have "publishes x ws '''' (?u doc v) d res"
      using draftReport_pass [OF p] s(1) assigned_above [OF v] i by (simp add: publishes_def)
    ultimately show ?thesis using Inr s(2) by auto
  qed
  show ?thesis using assms at by (auto simp: PublishInline_def split: option.splits if_splits)
qed

section \<open>The guarantees\<close>

lemma publishes_appends:
  assumes p: "publishes x ws project u d res" and c: "canonicalRefs (ws_db ws)" and w: "plainIdentity (u_Identity u)"
  shows "appended (ws_db ws) d (unitRef (dx_store x) project u)" "canonicalRefs d"
    "map_of (refs (ws_db ws)) (pr_Form res) = None" "pr_Form res = CanonicalForm (u_Identity u)"
    "pr_InstanceVersion res = id_InstanceVersion (u_Identity u)"
    "pr_ObjectHash res = hashUnit (x_hash (dx_store x)) (x_marshal (dx_store x) u) (u_ContentPayload u)"
proof -
  have form: "u_CanonicalIdentityForm u = CanonicalForm (u_Identity u)"
    and s: "persistPublishedUnit (dx_store x) (ws_db ws) project u = Inr (d, res)"
    using p by (simp_all add: publishes_def)
  have "id_InstanceVersion (u_Identity u) \<notin> set (lineVersions (ws_db ws) (id_Namespace (u_Identity u)) (id_Type (u_Identity u)) (id_ID (u_Identity u)))"
    using p by (auto simp: publishes_def)
  then have none: "map_of (refs (ws_db ws)) (u_CanonicalIdentityForm u) = None"
    using new_form_absent [OF c w] form by simp
  note a = persist_appends [OF s none]
  show app: "appended (ws_db ws) d (unitRef (dx_store x) project u)" by (rule a(1))
  show "map_of (refs (ws_db ws)) (pr_Form res) = None" "pr_Form res = CanonicalForm (u_Identity u)"
    "pr_InstanceVersion res = id_InstanceVersion (u_Identity u)"
    "pr_ObjectHash res = hashUnit (x_hash (dx_store x)) (x_marshal (dx_store x) u) (u_ContentPayload u)"
    using none by (simp_all add: a(2) form unitRef_def)
  from app obtain row where "refs d = refs (ws_db ws) @ [(u_CanonicalIdentityForm u, row)]" "row_ref row = unitRef (dx_store x) project u"
    by (auto simp: appended_def)
  then show "canonicalRefs d" using c w form by (auto simp: canonicalRefs_def)
qed

lemma draft_plainIdentity:
  assumes "readDraft x tree target hint = Inr (r, df, a)" "checkTarget r df a = None" "slash \<notin> set (Namespace a)"
    and g: "gatePassed x ws project (unitFromDraft num a v)"
  shows "plainIdentity (u_Identity (unitFromDraft num a v))"
proof -
  have i: "u_Identity (unitFromDraft num a v) = \<lparr>id_Namespace = Namespace a, id_Type = Type a, id_ID = ID a, id_InstanceVersion = v\<rparr>"
    by (simp add: unitFromDraft_def Let_def)
  have "ID a = ref_ID r" using assms(2) by (simp add: checkTarget_def checkIdentity_def split: if_splits)
  then have "colon \<notin> set (ID a)" using parse_target_id [OF readDraft_sound(1) [OF assms(1)]] by simp
  then show ?thesis
    using publish_gate_wellformed(1) [OF g [unfolded gatePassed_def]] assms(3) by (simp add: plainIdentity_def i)
qed

text \<open>The version a publish gives: the one asked for, by the options or else by the draft, or the
  one after the highest of the line.\<close>

definition nextVersion :: "db \<Rightarrow> Artifact \<Rightarrow> PublishOptions \<Rightarrow> int" where
  "nextVersion d a opts =
     (if po_InstanceVersion opts \<noteq> 0 then po_InstanceVersion opts
      else if InstanceVersion a > 0 then InstanceVersion a
      else let vs = lineVersions d (Namespace a) (Type a) (ID a) in if vs = [] then 1 else Max (set vs) + 1)"

lemma Publish_version:
  assumes "Publish x ws target opts = (Inr res, ws')" "readDraft x (ws_drafts ws) target (po_Project opts) = Inr (r, df, a)"
  shows "pr_InstanceVersion res = nextVersion (ws_db ws) a opts"
proof -
  let ?w = "if po_InstanceVersion opts = 0 \<and> InstanceVersion a > 0 then InstanceVersion a else po_InstanceVersion opts"
  have "checkTarget r df a = None" using assms by (simp add: Publish_def split: option.splits)
  with assms obtain v d res0 where v: "assignVersion (ws_db ws) (Namespace a) (Type a) (ID a) ?w = Inr v"
    and s: "persistPublishedUnit (dx_store x) (ws_db ws) (df_Project df) (unitFromDraft (dx_number x) a v) = Inr (d, res0)"
    and f: "finishPublish x ws df d res0 = (Inr res, ws')"
    by (auto simp: Publish_def Let_def split: sum.splits if_splits)
  have "pr_InstanceVersion res = pr_InstanceVersion res0"
    using f by (auto simp: finishPublish_def Let_def split: removal.splits)
  also have "\<dots> = v"
    using s by (auto simp: persistPublishedUnit_def Let_def unitFromDraft_def split: sum.splits)
  also have "\<dots> = nextVersion (ws_db ws) a opts"
    using v by (auto simp: assignVersion_def nextVersion_def Let_def MaxInstanceVersion_Max split: if_splits)
  finally show ?thesis .
qed

text \<open>C22: Publishing a draft appends the next instance of its line.  In a store whose references are
  filed under the canonical form of their own plain identity, a successful publish of a draft
  with a slash-free namespace passed the gate; it gives the unit the version asked for by the
  options or else by the draft, and otherwise the one after the highest stored version of the
  line (1 for a new line), above every stored version in each case; it adds exactly one
  reference at the end of the table, whose form was absent, with the columns of the unit and
  the hash of its bytes, keeps every archived payload, and removes the draft file it
  resolved.\<close>
theorem publish_appends:
  assumes "Publish x ws target opts = (Inr res, ws')" and "canonicalRefs (ws_db ws)"
    and "readDraft x (ws_drafts ws) target (po_Project opts) = Inr (r, df, a)"
    and "slash \<notin> set (Namespace a)"
  shows "let u = unitFromDraft (dx_number x) a (nextVersion (ws_db ws) a opts) in
         Type a = ref_Type r \<and> ID a = ref_ID r \<and> gatePassed x ws (df_Project df) u
         \<and> pr_InstanceVersion res = nextVersion (ws_db ws) a opts
         \<and> list_all (\<lambda>v. v < pr_InstanceVersion res) (lineVersions (ws_db ws) (Namespace a) (Type a) (ID a))
         \<and> pr_Form res = CanonicalForm (u_Identity u) \<and> Ref_of (ws_db ws) (pr_Form res) = None
         \<and> appended (ws_db ws) (ws_db ws') (unitRef (dx_store x) (df_Project df) u)
         \<and> pr_ObjectHash res = r_ObjectHash (unitRef (dx_store x) (df_Project df) u)
         \<and> ws_drafts ws' = removeDraft (ws_drafts ws) (df_Project df) (fl_Name (df_File df))"
proof -
  from assms(1) obtain r' df' a' d res0 where rd: "readDraft x (ws_drafts ws) target (po_Project opts) = Inr (r', df', a')"
    and facts: "checkTarget r' df' a' = None"
      "publishes x ws (df_Project df') (unitFromDraft (dx_number x) a' (pr_InstanceVersion res)) d res0"
      "ws' = ws\<lparr>ws_db := d, ws_drafts := removeDraft (ws_drafts ws) (df_Project df') (fl_Name (df_File df'))\<rparr>"
    and same: "pr_Form res = pr_Form res0" "pr_InstanceVersion res = pr_InstanceVersion res0" "pr_ObjectHash res = pr_ObjectHash res0"
    by (rule Publish_ok)
  have "r' = r" "df' = df" "a' = a" using rd assms(3) by simp_all
  note t = facts(1) [unfolded this] and p = facts(2) [unfolded this] and ws' = facts(3) [unfolded this]
  note v = Publish_version [OF assms(1,3)]
  let ?u = "unitFromDraft (dx_number x) a (pr_InstanceVersion res)"
  have i: "u_Identity ?u = \<lparr>id_Namespace = Namespace a, id_Type = Type a, id_ID = ID a, id_InstanceVersion = pr_InstanceVersion res\<rparr>"
    by (simp add: unitFromDraft_def Let_def)
  have own: "Type a = ref_Type r" "ID a = ref_ID r" using t by (simp_all add: checkTarget_def checkIdentity_def split: if_splits)
  have g: "gatePassed x ws (df_Project df) ?u" using p by (simp add: publishes_def)
  note wf = draft_plainIdentity [OF assms(3) t assms(4) g]
  note ap = publishes_appends [OF p assms(2) wf]
  have above: "list_all (\<lambda>v. v < pr_InstanceVersion res) (lineVersions (ws_db ws) (Namespace a) (Type a) (ID a))"
    using p i by (simp add: publishes_def list_all_iff)
  show ?thesis
    using own g ap(1,3,4,6) same(1,3) above ws' unfolding Let_def v [symmetric] by (simp add: Ref_of_def unitRef_def)
qed

section \<open>Every reachable workspace\<close>

text \<open>The draft a publish resolves, if it resolves one, has a slash-free namespace.\<close>

definition plainTarget :: "draftContext \<Rightarrow> workspaceState \<Rightarrow> string \<Rightarrow> PublishOptions \<Rightarrow> bool" where
  "plainTarget x ws target opts = (case readDraft x (ws_drafts ws) target (po_Project opts) of
       Inl e \<Rightarrow> True | Inr (r, df, a) \<Rightarrow> slash \<notin> set (Namespace a))"

inductive draft_step :: "(string \<Rightarrow> string) \<Rightarrow> workspaceState \<Rightarrow> workspaceState \<Rightarrow> bool" for H where
  new_step: "NewDraft x (ws_drafts ws) req = Inr (tree, draft) \<Longrightarrow> draft_step H ws (ws\<lparr>ws_drafts := tree\<rparr>)"
| publish_step: "Publish x ws target opts = (out, ws') \<Longrightarrow> x_hash (dx_store x) = H \<Longrightarrow>
    plainTarget x ws target opts \<Longrightarrow> draft_step H ws ws'"
| inline_step: "PublishInline x ws (Some doc) opts = (out, ws') \<Longrightarrow> x_hash (dx_store x) = H \<Longrightarrow>
    slash \<notin> set (in_Namespace doc) \<Longrightarrow> colon \<notin> set (in_ID doc) \<Longrightarrow> draft_step H ws ws'"
| discard_step: "DiscardDraft x (ws_drafts ws) target hint = (out, tree) \<Longrightarrow> draft_step H ws (ws\<lparr>ws_drafts := tree\<rparr>)"

inductive_cases draft_stepE: "draft_step H ws ws'"

definition treeOk :: "draft_tree \<Rightarrow> bool" where
  "treeOk tree \<longleftrightarrow> distinct (map fst tree) \<and> (\<forall>(p, fs) \<in> set tree. distinct (map fl_Name fs))"

definition workspaceRow :: "Ref \<Rightarrow> bool" where
  "workspaceRow r = (r_SourceRepo r = draftSourceRepo \<and> r_Namespace r \<noteq> '''' \<and> r_ID r \<noteq> ''''
     \<and> 1 \<le> r_InstanceVersion r \<and> 1 \<le> r_Revision r)"

definition workspaceOk :: "(string \<Rightarrow> string) \<Rightarrow> workspaceState \<Rightarrow> bool" where
  "workspaceOk H ws \<longleftrightarrow> wf_db H (ws_db ws) \<and> canonicalRefs (ws_db ws)
     \<and> (\<forall>ns t i. sorted_wrt (<) (lineVersions (ws_db ws) ns t i))
     \<and> (\<forall>(f, row) \<in> set (refs (ws_db ws)). workspaceRow (row_ref row)) \<and> treeOk (ws_drafts ws)"

lemma treeOk_remove:
  assumes "treeOk tree"
  shows "treeOk (removeDraft tree p nm)"
proof -
  have "map fst (removeDraft tree p nm) = map fst tree" by (auto simp: removeDraft_def)
  moreover have "distinct (map fl_Name gs)" if "(q, gs) \<in> set (removeDraft tree p nm)" for q gs
    using that assms by (fastforce simp: removeDraft_def treeOk_def intro: distinct_map_filter split: if_splits)
  ultimately show ?thesis using assms unfolding treeOk_def by auto
qed

lemma projectFiles_distinct: "treeOk tree \<Longrightarrow> distinct (map fl_Name (projectFiles tree p))"
  by (auto simp: treeOk_def projectFiles_def get_or_def dest!: map_of_SomeD split: option.splits)

lemma treeOk_add: "treeOk tree \<Longrightarrow> findDraft tree p (fl_Name f) = None \<Longrightarrow> treeOk (addDraft tree p f)"
  using projectFiles_distinct [of tree p]
  by (auto simp: treeOk_def addDraft_def putKey_def findDraft_def find_None_iff distinct_map_filter)

lemma NewDraft_tree:
  assumes "NewDraft x tree req = Inr (tree', d)" "treeOk tree"
  shows "treeOk tree'"
  using assms treeOk_add by (auto simp: NewDraft_def newDraftFile_def Let_def split: option.splits sum.splits if_splits)

lemma Discard_tree: "DiscardDraft x tree target hint = (out, tree') \<Longrightarrow> treeOk tree \<Longrightarrow> treeOk tree'"
  using treeOk_remove by (auto simp: DiscardDraft_def split: sum.splits removal.splits)

lemma lineVersions_append:
  "refs d' = refs d @ [(f, row)] \<Longrightarrow> lineVersions d' ns t i = lineVersions d ns t i @
     (if onLine ns t i (row_ref row) then [r_InstanceVersion (row_ref row)] else [])"
  by (simp add: lineVersions_def)

text \<open>One persisted unit keeps the store part and extends every line at its end.\<close>

lemma publishes_step:
  assumes p: "publishes x ws project u d res" and ok: "workspaceOk (x_hash (dx_store x)) ws" and w: "plainIdentity (u_Identity u)"
    and tree: "treeOk tree"
  shows "workspaceOk (x_hash (dx_store x)) (ws\<lparr>ws_db := d, ws_drafts := tree\<rparr>)"
    and "prefix (lineVersions (ws_db ws) ns t i) (lineVersions d ns t i)"
proof -
  let ?r = "unitRef (dx_store x) project u"
  have c: "canonicalRefs (ws_db ws)" and wf: "wf_db (x_hash (dx_store x)) (ws_db ws)" using ok by (simp_all add: workspaceOk_def)
  note a = publishes_appends [OF p c w]
  obtain row where row: "refs d = refs (ws_db ws) @ [(r_Form ?r, row)]" "row_ref row = ?r"
    using a(1) by (auto simp: appended_def)
  have "put_step (x_hash (dx_store x)) (ws_db ws) d" using p persist_put by (auto simp: publishes_def)
  then have "wf_db (x_hash (dx_store x)) d" using wf puts_wf by blast
  moreover have "sorted_wrt (<) (lineVersions d ns t i)" for ns t i
  proof -
    have "sorted_wrt (<) (lineVersions (ws_db ws) ns t i)" using ok by (simp add: workspaceOk_def)
    moreover have "v < r_InstanceVersion ?r" if "onLine ns t i ?r" "v \<in> set (lineVersions (ws_db ws) ns t i)" for v
      using p that by (auto simp: publishes_def onLine_def unitRef_def unitPut_def)
    ultimately show ?thesis by (simp add: lineVersions_append [OF row(1)] row(2) sorted_wrt_append)
  qed
  moreover have "workspaceRow ?r"
    using p publish_gate_wellformed by (auto simp: publishes_def gatePassed_def workspaceRow_def unitRef_def unitPut_def)
  ultimately show "workspaceOk (x_hash (dx_store x)) (ws\<lparr>ws_db := d, ws_drafts := tree\<rparr>)"
    using ok a(2) row tree by (auto simp: workspaceOk_def)
  show "prefix (lineVersions (ws_db ws) ns t i) (lineVersions d ns t i)"
    by (simp add: lineVersions_append [OF row(1)])
qed

lemma workspaceOk_tree: "workspaceOk H ws \<Longrightarrow> treeOk tree \<Longrightarrow> workspaceOk H (ws\<lparr>ws_drafts := tree\<rparr>)"
  by (simp add: workspaceOk_def)

lemma same_tree: "ws\<lparr>ws_db := d\<rparr> = ws\<lparr>ws_db := d, ws_drafts := ws_drafts ws\<rparr>" for ws :: workspaceState
  by simp

lemma draft_step_ok:
  assumes "draft_step H ws ws'" and ok: "workspaceOk H ws"
  shows "workspaceOk H ws' \<and> prefix (lineVersions (ws_db ws) ns t i) (lineVersions (ws_db ws') ns t i)"
proof -
  have tree: "treeOk (ws_drafts ws)" using ok by (simp add: workspaceOk_def)
  from assms(1) show ?thesis
  proof cases
    case (new_step x req tree draft)
    then show ?thesis using ok tree NewDraft_tree workspaceOk_tree by auto
  next
    case (discard_step x target hint out tree')
    then show ?thesis using ok tree Discard_tree workspaceOk_tree by auto
  next
    case (inline_step x doc opts out)
    from PublishInline_cases [OF inline_step(1)] consider "ws' = ws"
      | res d where "ws' = ws\<lparr>ws_db := d\<rparr>" "publishes x ws '''' (inlineUnit (dx_number x) doc (pr_InstanceVersion res)) d res"
      by auto
    then show ?thesis
    proof cases
      case 2
      have i: "u_Identity (inlineUnit (dx_number x) doc v) = \<lparr>id_Namespace = in_Namespace doc, id_Type = in_Type doc, id_ID = in_ID doc, id_InstanceVersion = v\<rparr>" for v
        by (simp add: inlineUnit_def Let_def)
      have "plainIdentity (u_Identity (inlineUnit (dx_number x) doc (pr_InstanceVersion res)))"
        using 2(2) publish_gate_wellformed(1) inline_step(3,4) i by (fastforce simp: plainIdentity_def publishes_def gatePassed_def)
      from publishes_step [OF 2(2) _ this tree] show ?thesis using ok inline_step(2) 2(1) same_tree by auto
    qed (use ok in simp)
  next
    case (publish_step x target opts out)
    show ?thesis
    proof (cases out)
      case (Inr res)
      with publish_step(1) obtain r' df' a' d res0 where rd: "readDraft x (ws_drafts ws) target (po_Project opts) = Inr (r', df', a')"
        "checkTarget r' df' a' = None"
        and p: "publishes x ws (df_Project df') (unitFromDraft (dx_number x) a' (pr_InstanceVersion res)) d res0"
        and ws': "ws' = ws\<lparr>ws_db := d, ws_drafts := removeDraft (ws_drafts ws) (df_Project df') (fl_Name (df_File df'))\<rparr>"
        by (metis Publish_ok)
      have "slash \<notin> set (Namespace a')" using rd(1) publish_step(3) by (simp add: plainTarget_def)
      then have "plainIdentity (u_Identity (unitFromDraft (dx_number x) a' (pr_InstanceVersion res)))"
        using draft_plainIdentity [OF rd] p by (auto simp: publishes_def)
      from publishes_step [OF p _ this treeOk_remove [OF tree]] show ?thesis using ok publish_step(2) ws' by simp
    next
      case (Inl e)
      from Publish_failed [OF publish_step(1) [unfolded Inl]] consider "ws' = ws"
        | r df a v d res where "readDraft x (ws_drafts ws) target (po_Project opts) = Inr (r, df, a)" "checkTarget r df a = None"
          "publishes x ws (df_Project df) (unitFromDraft (dx_number x) a v) d res" "ws' = ws\<lparr>ws_db := d\<rparr>"
        by auto
      then show ?thesis
      proof cases
        case 2
        have "slash \<notin> set (Namespace a)" using 2(1) publish_step(3) by (simp add: plainTarget_def)
        then have "plainIdentity (u_Identity (unitFromDraft (dx_number x) a v))"
          using draft_plainIdentity [OF 2(1,2)] 2(3) by (auto simp: publishes_def)
        from publishes_step [OF 2(3) _ this tree] show ?thesis using ok publish_step(2) 2(4) same_tree by auto
      qed (use ok in simp)
    qed
  qed
qed

definition emptyWorkspace :: workspaceState where
  "emptyWorkspace = \<lparr>ws_db = empty_db, ws_drafts = []\<rparr>"

lemma emptyWorkspace_ok: "workspaceOk H emptyWorkspace"
  by (simp add: workspaceOk_def emptyWorkspace_def canonicalRefs_def lineVersions_def empty_db_def treeOk_def
      wf_empty [unfolded empty_db_def])

text \<open>C23: The workspace the draft services reach is well formed, and history only grows.  From the
  empty workspace, or any workspace in which this holds, after any sequence of scaffolds,
  publishes of drafts with a slash-free namespace, inline publishes with a slash-free
  namespace and a colon-free id, and discards, refused or not: the store satisfies its
  invariant, every reference is stored under the canonical form of its own columns with the
  workspace provenance and positive versions, the versions of each line ascend strictly in
  the order they were stored, no project has two files of one name, and the versions a line
  had are a prefix of those it has.\<close>
theorem workspace_invariant:
  assumes "(draft_step H)\<^sup>*\<^sup>* ws ws'" and "workspaceOk H ws"
  shows "workspaceOk H ws' \<and> prefix (lineVersions (ws_db ws) ns t i) (lineVersions (ws_db ws') ns t i)"
  using assms
proof (induction rule: rtranclp_induct)
  case (step y z)
  then show ?case using draft_step_ok [of H y z ns t i] prefix_order.trans by blast
qed simp

section \<open>A sample workspace\<close>

definition sampleContent :: "gvalue gomap" where
  "sampleContent = [(''purpose'', GString ''p''), (''content'', GString ''c'')]"

definition sampleRequest :: "string \<Rightarrow> string \<Rightarrow> NewDraftRequest" where
  "sampleRequest t i = \<lparr>nd_Project = ''p'', nd_Namespace = ''core'', nd_Type = t, nd_ID = i, nd_Dimension = '''',
     nd_Phase = '''', nd_Domain = '''', nd_By = User '''', nd_Relationships = [], nd_ContentFile = '''', nd_Provenance = '''',
     nd_SourcePromptHash = '''', nd_Confidence = 0, nd_HasConfidence = False, nd_SourceCommitSha = '''',
     nd_CaptureMeta = noCapture\<rparr>"

definition sampleDraftContext :: draftContext where
  "sampleDraftContext = \<lparr>dx_store = \<lparr>x_hash = tagHash, x_marshal = u_CanonicalIdentityForm, x_decode = (\<lambda>s. None),
       x_fields = (\<lambda>s. Some (GMap sampleContent)), x_today = ''2024-01-02'', x_now = ''2024-01-02T00:00:00Z'',
       x_isRepo = True, x_namespace = ''core'', x_project = None, x_drafts = None\<rparr>,
     dx_decoding = \<lparr>dec_json = (\<lambda>s. Some (draftDocument ''2024-01-02'' (sampleRequest ''mbr'' ''ann'') sampleContent)), dec_yaml = (\<lambda>s. None)\<rparr>,
     dx_encode = (\<lambda>m. ''{}''), dx_number = (\<lambda>v. ''0''), dx_render = (\<lambda>m. ''''), dx_readFile = (\<lambda>p. None),
     dx_root = ''/w'', dx_cwdProject = ''p'', dx_removal = FileRemoved, dx_create = (\<lambda>p. FileCreated),
     dx_overwriteRefused = (\<lambda>p. False), dx_lineFault = (\<lambda>ns i. False)\<rparr>"

definition sampleOptions :: PublishOptions where
  "sampleOptions = \<lparr>po_Project = '''', po_InstanceVersion = 0\<rparr>"

definition scaffolded :: workspaceState where
  "scaffolded = (case NewDraft sampleDraftContext [] (sampleRequest ''mbr'' ''ann'') of
     Inl e \<Rightarrow> emptyWorkspace | Inr (tree, d) \<Rightarrow> emptyWorkspace\<lparr>ws_drafts := tree\<rparr>)"

definition published :: workspaceState where
  "published = snd (Publish sampleDraftContext scaffolded ''core/mbr:ann'' sampleOptions)"

lemma scaffolded_tree:
  "ws_drafts scaffolded = [(''p'', [\<lparr>fl_Name = ''mbr-ann.json'', fl_Contents = ''{}'', fl_Updated = ''2024-01-02T00:00:00Z''\<rparr>])]"
  by code_simp

lemma sample_read:
  "(case readDraft sampleDraftContext (ws_drafts scaffolded) ''core/mbr:ann'' '''' of
      Inl e \<Rightarrow> False
    | Inr (r, df, a) \<Rightarrow> Namespace a = ''core'' \<and> df_Project df = ''p'' \<and> fl_Name (df_File df) = ''mbr-ann.json'')"
  by code_simp

lemma sample_publish:
  "(case Publish sampleDraftContext scaffolded ''core/mbr:ann'' sampleOptions of
      (Inl e, ws) \<Rightarrow> False | (Inr res, ws) \<Rightarrow> pr_InstanceVersion res = 1 \<and> pr_Form res = ''core/mbr:ann:1'')"
  by code_simp

lemma empty_store_canonical: "canonicalRefs (ws_db scaffolded)"
  by code_simp

theorem publish_appends_witness:
  "Ref_of (ws_db scaffolded) ''core/mbr:ann:1'' = None \<and> ws_drafts published = removeDraft (ws_drafts scaffolded) ''p'' ''mbr-ann.json''"
proof -
  obtain r df a where rd: "readDraft sampleDraftContext (ws_drafts scaffolded) ''core/mbr:ann'' '''' = Inr (r, df, a)"
      "Namespace a = ''core''" "df_Project df = ''p''" "fl_Name (df_File df) = ''mbr-ann.json''"
    using sample_read by (auto split: sum.splits)
  obtain res where p: "Publish sampleDraftContext scaffolded ''core/mbr:ann'' sampleOptions = (Inr res, published)"
      "pr_Form res = ''core/mbr:ann:1''"
    using sample_publish by (auto simp: published_def split: prod.splits sum.splits)
  have "po_Project sampleOptions = ''''" by (simp add: sampleOptions_def)
  moreover have "slash \<notin> set (Namespace a)" using rd(2) by simp
  ultimately have "Ref_of (ws_db scaffolded) (pr_Form res) = None
      \<and> ws_drafts published = removeDraft (ws_drafts scaffolded) (df_Project df) (fl_Name (df_File df))"
    using publish_appends [OF p(1) empty_store_canonical, of r df a] rd(1) by (simp only: Let_def) blast
  then show ?thesis unfolding p(2) rd(3,4) .
qed

theorem workspace_invariant_witness:
  "treeOk (ws_drafts published) \<and> wf_db tagHash (ws_db published) \<and> lineVersions (ws_db published) ''core'' ''mbr'' ''ann'' = [1]"
proof -
  obtain tree d where new: "NewDraft sampleDraftContext (ws_drafts emptyWorkspace) (sampleRequest ''mbr'' ''ann'') = Inr (tree, d)"
      "scaffolded = emptyWorkspace\<lparr>ws_drafts := tree\<rparr>"
    using scaffolded_tree unfolding scaffolded_def by (auto simp: emptyWorkspace_def split: sum.splits)
  obtain r df a where rd: "readDraft sampleDraftContext (ws_drafts scaffolded) ''core/mbr:ann'' '''' = Inr (r, df, a)" "Namespace a = ''core''"
    using sample_read by (auto split: sum.splits)
  obtain out where p: "Publish sampleDraftContext scaffolded ''core/mbr:ann'' sampleOptions = (out, published)"
    by (cases "Publish sampleDraftContext scaffolded ''core/mbr:ann'' sampleOptions") (simp add: published_def)
  have "draft_step tagHash emptyWorkspace scaffolded"
    unfolding new(2) by (rule new_step [OF new(1)])
  moreover have "x_hash (dx_store sampleDraftContext) = tagHash" by (simp add: sampleDraftContext_def)
  then have "draft_step tagHash scaffolded published"
    using publish_step [OF p, of tagHash] rd by (simp add: sampleOptions_def plainTarget_def)
  ultimately have "(draft_step tagHash)\<^sup>*\<^sup>* emptyWorkspace published" by (meson rtranclp.rtrancl_into_rtrancl rtranclp.rtrancl_refl)
  from workspace_invariant [OF this emptyWorkspace_ok] have "workspaceOk tagHash published" by blast
  moreover have "lineVersions (ws_db published) ''core'' ''mbr'' ''ann'' = [1]" by code_simp
  ultimately show ?thesis by (simp add: workspaceOk_def)
qed

section \<open>Gaps\<close>

definition memberDoc :: "string \<Rightarrow> string \<Rightarrow> string \<Rightarrow> inlineCKO" where
  "memberDoc ns i txt = \<lparr>in_Namespace = ns, in_Type = ''mbr'', in_ID = i, in_InstanceVersion = None, in_Revision = 1,
     in_Author = User ''a'', in_Created = '''', in_Updated = '''', in_State = [(''contentState'', ''draft''), (''existenceState'', ''active'')], in_Phase = '''',
     in_Classification = \<lparr>cl_Dimension = '''', cl_DimensionsSecondary = [], cl_Domain = ''''\<rparr>, in_Relationships = [],
     in_ChangeLog = map (\<lambda>(d, v). \<lparr>le_Date = ''2024-01-02'', le_Domain = d, le_From = ''-'', le_To = v, le_By = User ''a''\<rparr>)
       [(''contentState'', ''draft''), (''existenceState'', ''active'')],
     in_Fields = Some [(''purpose'', GString txt), (''content'', GString txt)], in_Text = ''''\<rparr>"

definition inlineSeq :: "inlineCKO list \<Rightarrow> workspaceState" where
  "inlineSeq docs = foldl (\<lambda>ws doc. snd (PublishInline sampleDraftContext ws (Some doc) sampleOptions)) emptyWorkspace docs"

text \<open>Publish does not check the characters of an identity, so two lines can share a canonical
  form: the member x/mbr:y of core and the member y of the namespace core/mbr:x are both
  accepted as their first instance, and publishing the second takes the first one's
  reference away, its line is empty afterwards.\<close>
theorem inline_form_collision:
  "let a = memberDoc ''core'' ''x/mbr:y'' ''one''; b = memberDoc ''core/mbr:x'' ''y'' ''two'' in
     lineVersions (ws_db (inlineSeq [a])) ''core'' ''mbr'' ''x/mbr:y'' = [1]
     \<and> lineVersions (ws_db (inlineSeq [a, b])) ''core/mbr:x'' ''mbr'' ''y'' = [1]
     \<and> lineVersions (ws_db (inlineSeq [a, b])) ''core'' ''mbr'' ''x/mbr:y'' = []"
  unfolding Let_def by (intro conjI) code_simp+

text \<open>A legacy Markdown draft is not found by the explicit project step: with a draft of that
  identity in another project, naming the project does not disambiguate, and with no draft
  in the named project the operation falls through to the other project.\<close>

definition legacyTree :: "string list \<Rightarrow> draft_tree" where
  "legacyTree ps = map (\<lambda>p. (p, [\<lparr>fl_Name = ''sto-x.md'', fl_Contents = '''', fl_Updated = ''''\<rparr>])) ps"

lemma explicit_project_ambiguous:
  "(case resolveDraftFile sampleDraftContext (legacyTree [''p'', ''q'']) ''p'' ''sto'' ''x'' of
      Inl e \<Rightarrow> Some e | Inr df \<Rightarrow> None) = Some (AmbiguousDraft ''sto:x'' [''p'', ''q''])"
  by code_simp

lemma discard_crosses_projects:
  "snd (DiscardDraft sampleDraftContext (legacyTree [''q'']) ''sto:x'' ''p'') = [(''q'', [])]"
  by code_simp

end
