(* ===== verification/Runtime_Scaffold.thy ===== *)
theory Runtime_Scaffold
  imports Runtime_Publish
begin

text \<open>
  The scaffold reads back: the document \<open>NewDraft\<close> renders is classified without findings and
  denotes the artifact the request describes.
\<close>

section \<open>Looking up the fields of a document\<close>

lemma map_of_optional: "map_of (optional k v @ xs) q = (if v \<noteq> '''' \<and> q = k then Some (GString v) else map_of xs q)"
  by (simp add: optional_def)

lemma map_of_unless: "map_of ((if c then [] else [(k, v)]) @ xs) q = (if \<not> c \<and> q = k then Some v else map_of xs q)"
  by simp

lemma map_of_unless_last: "map_of (if c then [] else [(k, v)]) q = (if \<not> c \<and> q = k then Some v else None)"
  by simp

lemma map_of_when: "map_of ((if c then [(k, v)] else []) @ xs) q = (if c \<and> q = k then Some v else map_of xs q)"
  by simp

lemma map_of_renamed: "map_of (renamed doc k k' @ xs) q = (if q = k' \<and> map_of doc k \<noteq> None then map_of doc k else map_of xs q)"
  by (simp add: renamed_def split: option.split)

lemma document_lookup:
  fixes today :: string and req :: NewDraftRequest and content :: "gvalue gomap"
  defines "doc \<equiv> draftDocument today req content"
  shows "map_of doc ''namespace'' = Some (GString (nd_Namespace req))" "map_of doc ''type'' = Some (GString (nd_Type req))"
    "map_of doc ''id'' = Some (GString (nd_ID req))" "map_of doc ''revision'' = Some (GFloat 1)"
    "map_of doc ''state'' = (if OwnedDomains (nd_Type req) = [] then None else
       Some (GMap (map (\<lambda>d. (StateKeyCamel d, GString (draftDefaultState (nd_Type req) d))) (OwnedDomains (nd_Type req)))))"
    "map_of doc ''author'' = (if au_Name (nd_By req) = '''' then None else Some (marshalIdentity (nd_By req)))"
    "map_of doc ''dimension'' = (if nd_Dimension req = '''' then None else Some (GString (nd_Dimension req)))"
    "map_of doc ''phase'' = (if nd_Phase req = '''' then None else Some (GString (nd_Phase req)))"
    "map_of doc ''domain'' = (if nd_Domain req = '''' then None else Some (GString (nd_Domain req)))"
    "map_of doc ''relationships'' = (if draftRelationships (nd_Relationships req) = [] then None else
       Some (GMap (draftRelationships (nd_Relationships req))))"
    "map_of doc ''changeLog'' = (if draftChangeLog today req = [] then None else Some (GList (draftChangeLog today req)))"
    "map_of doc ''provenance'' = Some (GString (if nd_Provenance req = '''' then ProvenanceHuman else nd_Provenance req))"
    "map_of doc ''sourcePromptHash'' = (if nd_SourcePromptHash req = '''' then None else Some (GString (nd_SourcePromptHash req)))"
    "map_of doc ''confidence'' = (if nd_HasConfidence req then Some (GFloat (nd_Confidence req)) else None)"
    "map_of doc ''sourceCommitSha'' = (if nd_SourceCommitSha req = '''' then None else Some (GString (nd_SourceCommitSha req)))"
    "map_of doc ''captureMeta'' = (if Classifier (nd_CaptureMeta req) = '''' \<and> DedupeKey (nd_CaptureMeta req) = '''' then None else
       Some (GMap (optional ''classifier'' (Classifier (nd_CaptureMeta req)) @ optional ''dedupeKey'' (DedupeKey (nd_CaptureMeta req)))))"
    "map_of doc ''content'' = Some (GMap content)"
    "map_of doc ''created'' = None" "map_of doc ''updated'' = None" "map_of doc ''instanceVersion'' = None"
    "map_of doc ''dimensionsSecondary'' = None"
  by (simp_all add: doc_def draftDocument_def Let_def map_of_optional map_of_unless map_of_when del: map_of_append)

lemma document_keys: "fst ` set (draftDocument today req content) \<subseteq> set allowedJSONTopLevel"
  by (auto simp: draftDocument_def Let_def optional_def allowedJSONTopLevel_def split: if_splits)

section \<open>The normalized map\<close>

lemma camel_kebab: "d \<in> set stateFields \<Longrightarrow> stateKeyToKebab (StateKeyCamel d) = d"
  "f \<in> set relationshipFields \<Longrightarrow> relationshipKeyToKebab (StateKeyCamel f) = f"
proof -
  have "list_all (\<lambda>d. stateKeyToKebab (StateKeyCamel d) = d) stateFields"
    "list_all (\<lambda>f. relationshipKeyToKebab (StateKeyCamel f) = f) relationshipFields" by code_simp+
  then show "d \<in> set stateFields \<Longrightarrow> stateKeyToKebab (StateKeyCamel d) = d"
    "f \<in> set relationshipFields \<Longrightarrow> relationshipKeyToKebab (StateKeyCamel f) = f" by (auto simp: list_all_iff)
qed

lemma owned_fields: "set (OwnedDomains t) \<subseteq> set stateFields"
  by (auto simp: OwnedDomains_def typeTokens_def type_row_def stateFields_def split: if_splits)

lemma map_filter_if: "List.map_filter (\<lambda>x. if P x then None else Some (h x)) xs = map h (filter (\<lambda>x. \<not> P x) xs)"
  by (induction xs) auto

lemma map_filter_if': "List.map_filter (\<lambda>x. if P x then Some (h x) else None) xs = map h (filter P xs)"
  by (induction xs) auto

lemma map_of_table: "map_of (map (\<lambda>d. (d, f d)) ds @ xs) q = (if q \<in> set ds then Some (f q) else map_of xs q)"
  by (induction ds) auto

definition fieldTable :: "NewDraftRequest \<Rightarrow> gvalue gomap" where
  "fieldTable req = map (\<lambda>f. (f, GList (map GString (draftTargets (nd_Relationships req) f))))
     (rev (filter (\<lambda>f. draftTargets (nd_Relationships req) f \<noteq> []) relationshipFields))"

lemma state_block:
  "convertKeys stateKeyToKebab isStateField (blockOf (draftDocument today req content) ''state'')
     = map (\<lambda>d. (d, GString (draftDefaultState (nd_Type req) d))) (rev (OwnedDomains (nd_Type req)))"
proof -
  have "List.map_filter (\<lambda>(k, v). if isStateField (stateKeyToKebab k) then Some (stateKeyToKebab k, v) else None)
      (map (\<lambda>d. (StateKeyCamel d, g d)) ds) = map (\<lambda>d. (d, g d)) ds" if "set ds \<subseteq> set stateFields" for g :: "string \<Rightarrow> gvalue" and ds
    using that by (induction ds) (auto simp: camel_kebab)
  then show ?thesis using owned_fields by (simp add: convertKeys_def blockOf_def document_lookup rev_map)
qed

lemma relation_block:
  "convertKeys relationshipKeyToKebab isRelationshipField (blockOf (draftDocument today req content) ''relationships'')
     = fieldTable req"
proof -
  have "List.map_filter (\<lambda>(k, v). if isRelationshipField (relationshipKeyToKebab k) then Some (relationshipKeyToKebab k, v) else None)
      (map (\<lambda>f. (StateKeyCamel f, g f)) fs) = map (\<lambda>f. (f, g f)) fs" if "set fs \<subseteq> set relationshipFields" for g :: "string \<Rightarrow> gvalue" and fs
    using that by (induction fs) (auto simp: camel_kebab)
  note c = this [of "filter (\<lambda>f. draftTargets (nd_Relationships req) f \<noteq> []) relationshipFields"]
  have d: "draftRelationships (nd_Relationships req) = map (\<lambda>f. (StateKeyCamel f, GList (map GString (draftTargets (nd_Relationships req) f))))
      (filter (\<lambda>f. draftTargets (nd_Relationships req) f \<noteq> []) relationshipFields)"
    by (simp add: draftRelationships_def map_filter_if)
  have e: "blockOf (draftDocument today req content) ''relationships'' = draftRelationships (nd_Relationships req)"
    by (simp add: blockOf_def document_lookup)
  show ?thesis unfolding convertKeys_def e d by (subst c) (auto simp: fieldTable_def rev_map)
qed

definition normalized :: "string \<Rightarrow> NewDraftRequest \<Rightarrow> gvalue gomap \<Rightarrow> gvalue gomap" where
  "normalized today req content = normalizeJSON (draftDocument today req content)"

lemma normalized_list:
  "normalized today req content =
     [(''namespace'', GString (nd_Namespace req)), (''type'', GString (nd_Type req)), (''id'', GString (nd_ID req)), (''revision'', GFloat 1)] @
     (if au_Name (nd_By req) = '''' then [] else [(''author'', marshalIdentity (nd_By req))]) @
     optional ''phase'' (nd_Phase req) @ optional ''dimension'' (nd_Dimension req) @ optional ''domain'' (nd_Domain req) @
     map (\<lambda>d. (d, GString (draftDefaultState (nd_Type req) d))) (rev (OwnedDomains (nd_Type req))) @
     fieldTable req @
     (if draftChangeLog today req = [] then [] else [(''change-log'', GList (map convertEntry (draftChangeLog today req)))]) @ []"
  unfolding normalized_def normalizeJSON_def passthrough_def state_block relation_block
  by (simp add: renamed_def document_lookup logBlock_def optional_def)

lemma normalized_lookup:
  "map_of (normalized today req content) q =
     (if q = ''namespace'' then Some (GString (nd_Namespace req)) else if q = ''type'' then Some (GString (nd_Type req))
      else if q = ''id'' then Some (GString (nd_ID req)) else if q = ''revision'' then Some (GFloat 1)
      else if q = ''author'' \<and> au_Name (nd_By req) \<noteq> '''' then Some (marshalIdentity (nd_By req))
      else if q = ''phase'' \<and> nd_Phase req \<noteq> '''' then Some (GString (nd_Phase req))
      else if q = ''dimension'' \<and> nd_Dimension req \<noteq> '''' then Some (GString (nd_Dimension req))
      else if q = ''domain'' \<and> nd_Domain req \<noteq> '''' then Some (GString (nd_Domain req))
      else if q \<in> set (OwnedDomains (nd_Type req)) then Some (GString (draftDefaultState (nd_Type req) q))
      else if q \<in> set relationshipFields \<and> draftTargets (nd_Relationships req) q \<noteq> []
        then Some (GList (map GString (draftTargets (nd_Relationships req) q)))
      else if q = ''change-log'' \<and> draftChangeLog today req \<noteq> [] then Some (GList (map convertEntry (draftChangeLog today req)))
      else None)"
  unfolding normalized_list fieldTable_def
  by (simp add: map_of_optional map_of_unless map_of_unless_last map_of_table conj_commute cong: if_cong del: map_of_append split del: if_split)

lemma not_owned: "q \<notin> set stateFields \<Longrightarrow> q \<notin> set (OwnedDomains t)"
  using owned_fields by blast

lemma normalized_fields:
  "map_of (normalized today req content) ''namespace'' = Some (GString (nd_Namespace req))"
  "map_of (normalized today req content) ''type'' = Some (GString (nd_Type req))"
  "map_of (normalized today req content) ''id'' = Some (GString (nd_ID req))"
  "map_of (normalized today req content) ''revision'' = Some (GFloat 1)"
  "map_of (normalized today req content) ''author'' = (if au_Name (nd_By req) = '''' then None else Some (marshalIdentity (nd_By req)))"
  "map_of (normalized today req content) ''phase'' = (if nd_Phase req = '''' then None else Some (GString (nd_Phase req)))"
  "map_of (normalized today req content) ''dimension'' = (if nd_Dimension req = '''' then None else Some (GString (nd_Dimension req)))"
  "map_of (normalized today req content) ''domain'' = (if nd_Domain req = '''' then None else Some (GString (nd_Domain req)))"
  "map_of (normalized today req content) ''instance-version'' = None" "map_of (normalized today req content) ''created'' = None"
  "map_of (normalized today req content) ''updated'' = None" "map_of (normalized today req content) ''dimensions-secondary'' = None"
  "map_of (normalized today req content) ''change-log'' = (if draftChangeLog today req = [] then None
     else Some (GList (map convertEntry (draftChangeLog today req))))"
  unfolding normalized_lookup
  by (simp_all add: not_owned stateFields_def relationshipFields_def domain_names cong: if_cong)

lemma normalized_state:
  assumes "d \<in> set stateFields"
  shows "map_of (normalized today req content) d =
    (if d \<in> set (OwnedDomains (nd_Type req)) then Some (GString (draftDefaultState (nd_Type req) d)) else None)"
proof -
  have "d \<notin> set relationshipFields" "d \<noteq> ''namespace''" "d \<noteq> ''type''" "d \<noteq> ''id''" "d \<noteq> ''revision''" "d \<noteq> ''author''"
    "d \<noteq> ''phase''" "d \<noteq> ''dimension''" "d \<noteq> ''domain''" "d \<noteq> ''change-log''"
    using assms by (auto simp: stateFields_def relationshipFields_def domain_names)
  then show ?thesis by (simp add: normalized_lookup)
qed

lemma normalized_relation:
  assumes "f \<in> set relationshipFields"
  shows "map_of (normalized today req content) f =
    (if draftTargets (nd_Relationships req) f = [] then None else Some (GList (map GString (draftTargets (nd_Relationships req) f))))"
proof -
  have "f \<notin> set stateFields" "f \<noteq> ''namespace''" "f \<noteq> ''type''" "f \<noteq> ''id''" "f \<noteq> ''revision''" "f \<noteq> ''author''"
    "f \<noteq> ''phase''" "f \<noteq> ''dimension''" "f \<noteq> ''domain''" "f \<noteq> ''change-log''"
    using assms by (auto simp: stateFields_def relationshipFields_def domain_names)
  then show ?thesis using assms by (simp add: normalized_lookup not_owned)
qed

section \<open>The findings\<close>

definition validBy :: "AuthorIdentity \<Rightarrow> bool" where
  "validBy by = (au_Name by = '''' \<or> IsUser by \<or> IsAuthorKind (au_Kind by))"

definition validCapture :: "NewDraftRequest \<Rightarrow> bool" where
  "validCapture req = ((nd_Provenance req = '''' \<or> ValidProvenance (nd_Provenance req))
     \<and> (nd_SourcePromptHash req = '''' \<or> isHexString (nd_SourcePromptHash req) (Some 64))
     \<and> (\<not> nd_HasConfidence req \<or> 0 \<le> nd_Confidence req \<and> nd_Confidence req \<le> 1)
     \<and> (nd_SourceCommitSha req = '''' \<or> isHexString (nd_SourceCommitSha req) None \<and> 7 \<le> length (nd_SourceCommitSha req)
          \<and> length (nd_SourceCommitSha req) \<le> 40)
     \<and> (DedupeKey (nd_CaptureMeta req) = '''' \<or> isHexString (DedupeKey (nd_CaptureMeta req)) (Some 64)))"

definition authority :: "NewDraftRequest \<Rightarrow> AuthorIdentity" where
  "authority req = (let by = (if au_Name (nd_By req) = '''' then User ''Engineering'' else nd_By req) in
     if IsUser by then User (au_Name by) else by)"

definition scaffoldLog :: "string \<Rightarrow> NewDraftRequest \<Rightarrow> ChangeLogEntry list" where
  "scaffoldLog today req = map (\<lambda>(d, v). \<lparr>Date = today, LogDomain = d, From = ''-'', To = v,
       By = au_Name (authority req), ByKind = au_Kind (authority req)\<rparr>)
     (map (\<lambda>d. (d, draftDefaultState (nd_Type req) d)) (OwnedDomains (nd_Type req)) @
      (if nd_Phase req = '''' then [] else [(DomainPhase, nd_Phase req)]))"

lemma decode_authority:
  assumes "validBy (nd_By req)"
  shows "decodeIdentity (marshalIdentity (if au_Name (nd_By req) = '''' then User ''Engineering'' else nd_By req)) = Some (authority req)"
proof -
  let ?by = "if au_Name (nd_By req) = '''' then User ''Engineering'' else nd_By req"
  have "IsUser ?by \<or> IsAuthorKind (au_Kind ?by) \<and> au_Name ?by \<noteq> ''''"
    using assms by (auto simp: validBy_def IsUser_def User_def)
  then show ?thesis using author_identity_roundtrip [of GNil undefined ?by] by (simp add: authority_def Let_def)
qed

lemma parse_scaffold_entry:
  assumes "validDate today" "decodeIdentity (marshalIdentity by) = Some who"
  shows "parseChangeLogEntry (convertEntry (logEntryDoc today by k to)) = Inr \<lparr>Date = today, LogDomain = stateKeyToKebab k,
    From = ''-'', To = to, By = au_Name who, ByKind = au_Kind who\<rparr>"
  using assms by (simp add: convertEntry_def logEntryDoc_def parseChangeLogEntry_def required_date_def required_string_def entry_authority_def
      del: decodeIdentity.simps)

lemma log_entries:
  assumes "validDate today" "validBy (nd_By req)"
  shows "map (\<lambda>e. parseChangeLogEntry (convertEntry e)) (draftChangeLog today req) = map Inr (scaffoldLog today req)"
proof -
  have "stateKeyToKebab DomainPhase = DomainPhase" by code_simp
  moreover have "stateKeyToKebab (StateKeyCamel d) = d" if "d \<in> set (OwnedDomains (nd_Type req))" for d
    using that owned_fields camel_kebab(1) by blast
  ultimately show ?thesis
    using parse_scaffold_entry [OF assms(1) decode_authority [OF assms(2)]]
    by (simp add: draftChangeLog_def scaffoldLog_def Let_def)
qed

lemma map_filter_Inr:
  "map g xs = map Inr ys \<Longrightarrow> List.map_filter (\<lambda>x. case g x of Inl e \<Rightarrow> None | Inr z \<Rightarrow> Some z) xs = ys"
  by (induction xs arbitrary: ys) auto

lemma scaffold_log:
  assumes "validDate today" "validBy (nd_By req)"
  shows "logField (normalized today req content) = scaffoldLog today req" "logFindings rel (normalized today req content) = []"
proof -
  note l = log_entries [OF assms]
  have e: "(draftChangeLog today req = []) = (scaffoldLog today req = [])" using l by (metis map_is_Nil_conv)
  have "map (\<lambda>item. parseChangeLogEntry item) (map convertEntry (draftChangeLog today req)) = map Inr (scaffoldLog today req)"
    using l by (simp add: comp_def)
  note m = map_filter_Inr [OF this]
  show "logField (normalized today req content) = scaffoldLog today req"
    using m e by (simp add: logField_def normalized_fields)
  have "\<exists>x. parseChangeLogEntry (convertEntry v) = Inr x" if "v \<in> set (draftChangeLog today req)" for v
    using l that by (metis (mono_tags, lifting) imageE image_eqI list.set_map)
  then show "logFindings rel (normalized today req content) = []"
    by (fastforce simp: logFindings_def normalized_fields enumerate_eq_zip split: sum.splits dest: set_zip_rightD)
qed

lemma asStringList_strings: "asStringList (GList (map GString l)) = Some l"
  by (induction l) auto

lemma string_at_normalized:
  "string_at (normalized today req content) ''type'' = nd_Type req"
  "string_at (normalized today req content) ''id'' = nd_ID req"
  "string_at (normalized today req content) ''namespace'' = nd_Namespace req"
  "string_at (normalized today req content) ''phase'' = nd_Phase req"
  "string_at (normalized today req content) ''dimension'' = nd_Dimension req"
  "string_at (normalized today req content) ''domain'' = nd_Domain req"
  by (simp_all add: string_at_def normalized_fields)

lemma string_findings_absent: "map_of fm k = (if c then None else Some (GString v)) \<Longrightarrow> stringFindings rel fm k m = []"
  by (simp add: stringFindings_def string_field_def has_key_def)

lemma list_findings_relation:
  assumes "f \<in> set relationshipFields"
  shows "listFindings rel (normalized today req content) f r m = []"
    "listField (normalized today req content) f = (if draftTargets (nd_Relationships req) f = [] then None else Some (draftTargets (nd_Relationships req) f))"
  using normalized_relation [OF assms] asStringList_strings by (simp_all add: listFindings_def listField_def has_key_def)

lemma string_field_state:
  assumes "d \<in> set stateFields"
  shows "string_field (normalized today req content) d = (if d \<in> set (OwnedDomains (nd_Type req)) then Some (draftDefaultState (nd_Type req) d) else None)"
    "stringFindings rel (normalized today req content) d m = []"
  using normalized_state [OF assms] by (simp_all add: string_field_def stringFindings_def has_key_def)

lemma author_normalized:
  assumes "validBy (nd_By req)"
  shows "authorFindings rel (normalized today req content) = []"
    "authorField (normalized today req content) = (if au_Name (nd_By req) = '''' then \<lparr>au_Kind = '''', au_Name = ''''\<rparr> else authority req)"
  using decode_authority [OF assms]
  by (auto simp: authorFindings_def authorField_def normalized_fields simp del: decodeIdentity.simps split: if_splits)

lemma scaffold_classified:
  assumes "validDate today" "validBy (nd_By req)" "IsKnownType (nd_Type req)" "nd_ID req \<noteq> ''''" "nd_Namespace req \<noteq> ''''"
  shows "classifyFindings rel (normalized today req content) False = []"
proof -
  let ?fm = "normalized today req content"
  have v: "versionFindings rel ?fm False = []" "revisionFindings rel ?fm = []"
    by (simp_all add: versionFindings_def revisionFindings_def revisionField_def normalized_fields)
  have d: "dateFindings rel ?fm ''created'' = []" "dateFindings rel ?fm ''updated'' = []"
    by (simp_all add: dateFindings_def dateField_def normalized_fields)
  have s: "stringFindings rel ?fm DomainPhase m1 = []" "stringFindings rel ?fm ''dimension'' m2 = []" "stringFindings rel ?fm ''domain'' m3 = []" for m1 m2 m3
    unfolding DomainPhase_def using normalized_fields(6,7,8) by (blast intro: string_findings_absent)+
  have l: "listFindings rel ?fm ''dimensions-secondary'' r m = []" for r m
    by (simp add: listFindings_def normalized_fields has_key_def)
  show ?thesis
    using assms(3-5) v d s l author_normalized(1) [OF assms(2)] scaffold_log(2) [OF assms(1,2)]
      string_field_state(2) list_findings_relation(1)
    by (simp add: classifyFindings_def string_at_normalized)
qed

lemma scaffold_capture:
  fixes today :: string and req :: NewDraftRequest and content :: "gvalue gomap"
  assumes "validCapture req"
  defines "doc \<equiv> draftDocument today req content"
  shows "provenanceOf rel doc = (if nd_Provenance req = '''' then ProvenanceHuman else nd_Provenance req, [])"
    "promptHashOf rel doc = (nd_SourcePromptHash req, [])"
    "confidenceOf rel doc = (if nd_HasConfidence req then Some (nd_Confidence req) else None, [])"
    "commitOf rel doc = (nd_SourceCommitSha req, [])" "captureOf rel doc = (nd_CaptureMeta req, [])"
proof -
  have hex: "ValidProvenance ProvenanceHuman" by code_simp
  show "provenanceOf rel doc = (if nd_Provenance req = '''' then ProvenanceHuman else nd_Provenance req, [])"
    using assms(1) hex by (auto simp: provenanceOf_def doc_def document_lookup validCapture_def)
  show "promptHashOf rel doc = (nd_SourcePromptHash req, [])" "confidenceOf rel doc = (if nd_HasConfidence req then Some (nd_Confidence req) else None, [])"
    "commitOf rel doc = (nd_SourceCommitSha req, [])"
    using assms(1) by (auto simp: promptHashOf_def confidenceOf_def commitOf_def doc_def document_lookup validCapture_def)
  show "captureOf rel doc = (nd_CaptureMeta req, [])"
    using assms(1) by (auto simp: captureOf_def classifierOf_def dedupeOf_def optional_def doc_def document_lookup validCapture_def
        intro: CaptureMeta.equality split: if_splits)
qed

lemma mergeInto_values:
  "list_all (\<lambda>(k, v). P v) m \<Longrightarrow> list_all (\<lambda>(k, v). P v) extra \<Longrightarrow> list_all (\<lambda>(k, v). P v) (mergeInto m extra)"
proof (induction extra arbitrary: m)
  case (Cons p extra)
  obtain k v where p: "p = (k, v)" by (cases p)
  have "list_all (\<lambda>(k, v). P v) (putKey m k v)" using Cons.prems by (auto simp: p putKey_def list_all_iff)
  from Cons.IH [OF this] Cons.prems(2) show ?case by (simp add: p mergeInto_def)
qed (simp add: mergeInto_def)

lemma placeholders_strings: "list_all (\<lambda>(k, v). isStringOrObject v) (placeholders t)"
  unfolding placeholders_def by (rule mergeInto_values) (simp_all add: list_all_iff Let_def)

lemma concat_nothing: "list_all (\<lambda>(k, v). P k v) m \<Longrightarrow> concat (map (\<lambda>(k, v). if P k v then [] else [e k]) m) = []"
  by (induction m) auto

lemma block_clean:
  assumes "map_of doc k = (if c then None else Some (GMap m))" "list_all (\<lambda>(k, v). known (kebab k)) m"
  shows "blockFindings rel doc k kebab known a b = []"
  using assms(1) concat_nothing [OF assms(2), of "\<lambda>k. classify_error rel RuleStructural (b k)"]
  by (simp add: blockFindings_def)

lemma scaffold_clean:
  assumes "validDate today" "validBy (nd_By req)" "IsKnownType (nd_Type req)" "nd_ID req \<noteq> ''''" "nd_Namespace req \<noteq> ''''"
    and "validCapture req" and content: "list_all (\<lambda>(k, v). isStringOrObject v) content"
  shows "jsonFindings rel (draftDocument today req content) False = []"
proof -
  let ?doc = "draftDocument today req content"
  have "list_all (\<lambda>(k, v). List.member allowedJSONTopLevel k) ?doc"
    using document_keys [of today req content] by (fastforce simp: list_all_iff)
  then have t: "topLevelFindings rel ?doc = []" unfolding topLevelFindings_def by (rule concat_nothing)
  have c: "contentFindings rel ?doc = []"
    using concat_nothing [OF content] by (simp add: contentFindings_def document_lookup)
  have "list_all (\<lambda>(k, v). isStateField (stateKeyToKebab k))
      (map (\<lambda>d. (StateKeyCamel d, GString (draftDefaultState (nd_Type req) d))) (OwnedDomains (nd_Type req)))"
    using owned_fields [of "nd_Type req"] camel_kebab(1) by (auto simp: list_all_iff isStateField_def)
  then have s: "blockFindings rel ?doc ''state'' stateKeyToKebab isStateField a b = []" for a b
    by (rule block_clean [OF document_lookup(5)])
  have "list_all (\<lambda>(k, v). isRelationshipField (relationshipKeyToKebab k)) (draftRelationships (nd_Relationships req))"
    using camel_kebab(2) by (auto simp: list_all_iff draftRelationships_def map_filter_if isRelationshipField_def)
  then have r: "blockFindings rel ?doc ''relationships'' relationshipKeyToKebab isRelationshipField a b = []" for a b
    by (rule block_clean [OF document_lookup(10)])
  have l: "logBlockFindings rel ?doc = []" by (simp add: logBlockFindings_def document_lookup)
  show ?thesis
    using t c s r l scaffold_classified [OF assms(1-5)] scaffold_capture [OF assms(6)]
    by (simp add: jsonFindings_def normalized_def)
qed

section \<open>The artifact read back\<close>

text \<open>What the scanner reads from a fresh draft.\<close>

definition scaffoldArtifact :: "string \<Rightarrow> string \<Rightarrow> NewDraftRequest \<Rightarrow> gvalue gomap \<Rightarrow> Artifact" where
  "scaffoldArtifact path today req content =
     (let owned = OwnedDomains (nd_Type req); author = (if au_Name (nd_By req) = '''' then \<lparr>au_Kind = '''', au_Name = ''''\<rparr> else authority req) in
      \<lparr>RelPath = path, AbsPath = path, Namespace = nd_Namespace req, Type = nd_Type req, ID = nd_ID req,
       InstanceVersion = 0, Revision = 1, Author = au_Name author, AuthorKind = au_Kind author, Created = '''', Updated = '''',
       States = map (\<lambda>d. (d, draftDefaultState (nd_Type req) d)) (filter (\<lambda>d. d \<in> set owned) stateFields),
       Phase = nd_Phase req, HasPhase = (nd_Phase req \<noteq> ''''), HasPhaseKey = (nd_Phase req \<noteq> ''''),
       Dimension = nd_Dimension req, HasDimension = (nd_Dimension req \<noteq> ''''), DimensionsSecondary = [],
       DeclaredDomain = nd_Domain req,
       Relations = map (\<lambda>f. (f, draftTargets (nd_Relationships req) f))
         (filter (\<lambda>f. draftTargets (nd_Relationships req) f \<noteq> []) relationshipFields),
       ChangeLog = scaffoldLog today req, BodyLines = [], ContentFields = Some content,
       Provenance = (if nd_Provenance req = '''' then ProvenanceHuman else nd_Provenance req),
       SourcePromptHash = nd_SourcePromptHash req, Confidence = (if nd_HasConfidence req then nd_Confidence req else 0),
       HasConfidence = nd_HasConfidence req, SourceCommitSha = nd_SourceCommitSha req, Capture = nd_CaptureMeta req\<rparr>)"

lemma map_filter_on: "(\<And>x. x \<in> set xs \<Longrightarrow> f x = g x) \<Longrightarrow> List.map_filter f xs = List.map_filter g xs"
  by (induction xs) (auto split: option.splits)

lemma states_normalized:
  "statesField (normalized today req content) = map (\<lambda>d. (d, draftDefaultState (nd_Type req) d))
     (filter (\<lambda>d. d \<in> set (OwnedDomains (nd_Type req))) stateFields)"
proof -
  have "statesField (normalized today req content) = List.map_filter (\<lambda>d. if d \<in> set (OwnedDomains (nd_Type req))
      then Some (d, draftDefaultState (nd_Type req) d) else None) stateFields"
    unfolding statesField_def by (rule map_filter_on) (simp_all add: string_field_state)
  then show ?thesis by (simp add: map_filter_if')
qed

lemma relations_normalized:
  "relationsField (normalized today req content) = map (\<lambda>f. (f, draftTargets (nd_Relationships req) f))
     (filter (\<lambda>f. draftTargets (nd_Relationships req) f \<noteq> []) relationshipFields)"
proof -
  have "relationsField (normalized today req content) = List.map_filter (\<lambda>f. if draftTargets (nd_Relationships req) f = []
      then None else Some (f, draftTargets (nd_Relationships req) f)) relationshipFields"
    unfolding relationsField_def by (rule map_filter_on) (simp_all add: list_findings_relation(2))
  then show ?thesis by (simp add: map_filter_if)
qed

lemma scaffold_artifact:
  assumes "validDate today" "validBy (nd_By req)" "validCapture req"
  shows "jsonArtifact path path (draftDocument today req content) = scaffoldArtifact path today req content"
proof -
  let ?fm = "normalized today req content"
  have phase: "string_field ?fm DomainPhase = (if nd_Phase req = '''' then None else Some (nd_Phase req))"
    "string_at ?fm DomainPhase = nd_Phase req" "has_key ?fm DomainPhase \<longleftrightarrow> nd_Phase req \<noteq> ''''"
    by (simp_all add: DomainPhase_def string_field_def string_at_def has_key_def normalized_fields)
  have absent: "versionField ?fm = 0" "revisionField ?fm = 1" "dateField ?fm ''created'' = Some ''''" "dateField ?fm ''updated'' = Some ''''"
    "listField ?fm ''dimensions-secondary'' = None" "has_key ?fm ''dimension'' \<longleftrightarrow> nd_Dimension req \<noteq> ''''"
    by (simp_all add: versionField_def revisionField_def dateField_def listField_def has_key_def normalized_fields)
  have content: "contentField (draftDocument today req content) = Some content" by (simp add: contentField_def document_lookup)
  show ?thesis
    unfolding jsonArtifact_def normalized_def [symmetric] classifyArtifact_def scaffold_capture [OF assms(3)] content
      phase absent states_normalized relations_normalized author_normalized(2) [OF assms(2)] scaffold_log(1) [OF assms(1,2)]
      string_at_normalized
    by (simp add: scaffoldArtifact_def emptyArtifact_def Let_def)
qed

lemma json_path: "has_suffix ''.json'' (map to_lower (draftPathOf x project (jsonName t i)))"
proof -
  have "map to_lower ''.json'' = ''.json''" by code_simp
  then show ?thesis by (simp add: draftPathOf_def jsonName_def has_suffix_def)
qed

lemma NewDraft_ok:
  assumes "NewDraft x tree req = Inr (tree', d)" "draftContent x req [] = Inr content"
  shows "scaffoldGuard req = None" "findDraft tree (nd_Project req) (jsonName (nd_Type req) (nd_ID req)) = None"
    "tree' = addDraft tree (nd_Project req) \<lparr>fl_Name = jsonName (nd_Type req) (nd_ID req),
       fl_Contents = dx_encode x (draftDocument (x_today (dx_store x)) req content), fl_Updated = x_now (dx_store x)\<rparr>"
  using assms by (auto simp: NewDraft_def newDraftFile_def draftJSON_def Let_def split: option.splits if_splits)

lemma find_later: "find P xs = None \<Longrightarrow> find P (xs @ ys) = find P ys"
  by (induction xs) (auto split: if_splits)

lemma findDraft_added:
  "findDraft tree p (fl_Name f) = None \<Longrightarrow> findDraft (addDraft tree p f) p (fl_Name f) = Some f"
  by (simp add: findDraft_def addDraft_def projectFiles_def putKey_def find_later)

lemma NewDraft_scans:
  assumes new: "NewDraft x tree req = Inr (tree', d)" and content: "draftContent x req [] = Inr content"
    and decoded: "dec_json (dx_decoding x) (dx_encode x (draftDocument (x_today (dx_store x)) req content))
      = Some (draftDocument (x_today (dx_store x)) req content)"
    and plain: "list_all (\<lambda>(k, v). isStringOrObject v) content"
    and valid: "validDate (x_today (dx_store x))" "validBy (nd_By req)" "validCapture req"
  shows "map_option (scanDraft x (nd_Project req)) (findDraft tree' (nd_Project req) (jsonName (nd_Type req) (nd_ID req)))
    = Some (Inr (Some (scaffoldArtifact (dr_Path d) (x_today (dx_store x)) req content)))"
proof -
  let ?doc = "draftDocument (x_today (dx_store x)) req content"
  note ok = NewDraft_ok [OF new content]
  have path: "dr_Path d = draftPathOf x (nd_Project req) (jsonName (nd_Type req) (nd_ID req))"
    using new by (auto simp: NewDraft_def newDraftFile_def Let_def split: option.splits sum.splits if_splits)
  have known: "IsKnownType (nd_Type req)" "nd_ID req \<noteq> ''''" "nd_Namespace req \<noteq> ''''"
    using ok(1) known_type_has_domain by (auto simp: scaffoldGuard_def split: if_splits)
  have keys: "has_key ?doc ''type''" "has_key ?doc ''id''" by (simp_all add: has_key_def document_lookup)
  have "findDraft tree' (nd_Project req) (jsonName (nd_Type req) (nd_ID req)) =
      Some \<lparr>fl_Name = jsonName (nd_Type req) (nd_ID req), fl_Contents = dx_encode x ?doc, fl_Updated = x_now (dx_store x)\<rparr>"
    using findDraft_added [of tree "nd_Project req" "\<lparr>fl_Name = jsonName (nd_Type req) (nd_ID req),
       fl_Contents = dx_encode x ?doc, fl_Updated = x_now (dx_store x)\<rparr>"] ok(2) by (simp add: ok(3))
  then show ?thesis
    using scaffold_clean [OF valid(1,2) known valid(3) plain] scaffold_artifact [OF valid] keys
    by (simp add: scanDraft_def ScanFile_def analyze_def json_path analyzeJSON_def decoded path)
qed


definition adrRequest :: NewDraftRequest where
  "adrRequest = (sampleRequest ''adr'' ''db'')\<lparr>nd_Dimension := ''arc'', nd_By := \<lparr>au_Kind = ''agent'', au_Name = ''a''\<rparr>,
     nd_Relationships := [\<lparr>rel_Type = ''depends-on'', rel_Target = ''core/adr:x''\<rparr>], nd_Provenance := ''inferred'',
     nd_HasConfidence := True, nd_Confidence := 1 / 2, nd_CaptureMeta := \<lparr>Classifier = ''c'', DedupeKey = ''''\<rparr>\<rparr>"

definition adrContext :: draftContext where
  "adrContext = sampleDraftContext\<lparr>dx_decoding := \<lparr>dec_json =
     (\<lambda>s. Some (draftDocument ''2024-01-02'' adrRequest (placeholders ''adr''))), dec_yaml = (\<lambda>s. None)\<rparr>\<rparr>"


end
