(* ===== verification/Runtime_Batch.thy ===== *)
theory Runtime_Batch
  imports Runtime_Publish
begin

text \<open>
  The batch operations of \<open>runtime/batch.go\<close>: a set of drafts scaffolded together or not at
  all, and the drafts of one project published in the order of their references.  The
  outcome of removing a file and the order in which Go visits a map are arguments.
\<close>

section \<open>Requests and outcomes\<close>

record BatchDraft =
  bd_Type :: string
  bd_ID :: string
  bd_Dimension :: string
  bd_Phase :: string
  bd_Domain :: string
  bd_Relationships :: "Relationship list"
  bd_Content :: "gvalue gomap"
  bd_Provenance :: string
  bd_SourcePromptHash :: string
  bd_Confidence :: rat
  bd_HasConfidence :: bool
  bd_SourceCommitSha :: string
  bd_CaptureMeta :: CaptureMeta

record NewDraftBatchRequest =
  nb_Project :: string
  nb_Namespace :: string
  nb_By :: AuthorIdentity
  nb_Drafts :: "BatchDraft list"

datatype batch_error =
    NoTargets
  | BatchNeedsProject
  | BatchNeedsNamespace
  | SharedIdentity nat nat string
  | ScaffoldRefused nat nat string string draft_error nat "string list"
  | NoBatchProject
  | BatchUnreadable string string scan_error
  | BatchNotAnArtifact string string
  | SharedDraftIdentity string string
  | BatchUnresolved string string "ref_error option"
  | BatchLineUnreadable string string
  | BatchCycle "string list"
  | PublishStopped draft_error

definition batchName :: "string \<Rightarrow> string \<Rightarrow> string" where
  "batchName t i = t @ [colon] @ i"

section \<open>Scaffolding a batch\<close>

fun sharedIdentity :: "nat gomap \<Rightarrow> nat \<Rightarrow> BatchDraft list \<Rightarrow> batch_error option" where
  "sharedIdentity seen i [] = None"
| "sharedIdentity seen i (b # bs) =
     (let k = batchName (bd_Type b) (bd_ID b) in
      case map_of seen k of
        Some prev \<Rightarrow> Some (SharedIdentity prev (i + 1) k)
      | None \<Rightarrow> sharedIdentity ((k, i + 1) # seen) (i + 1) bs)"

definition batchRequest :: "NewDraftBatchRequest \<Rightarrow> BatchDraft \<Rightarrow> NewDraftRequest" where
  "batchRequest req b = \<lparr>nd_Project = nb_Project req, nd_Namespace = nb_Namespace req, nd_Type = bd_Type b, nd_ID = bd_ID b,
     nd_Dimension = bd_Dimension b, nd_Phase = bd_Phase b, nd_Domain = bd_Domain b, nd_By = nb_By req,
     nd_Relationships = bd_Relationships b, nd_ContentFile = '''', nd_Provenance = bd_Provenance b,
     nd_SourcePromptHash = bd_SourcePromptHash b, nd_Confidence = bd_Confidence b, nd_HasConfidence = bd_HasConfidence b,
     nd_SourceCommitSha = bd_SourceCommitSha b, nd_CaptureMeta = bd_CaptureMeta b\<rparr>"

text \<open>The rollback goes on after a removal that fails; a file that is already gone counts as
  removed.\<close>

definition rollbackCreated :: "(string \<Rightarrow> removal) \<Rightarrow> Draft list \<Rightarrow> nat \<times> string list" where
  "rollbackCreated rm created =
     (length (filter (\<lambda>d. rm (dr_Path d) \<noteq> RemoveRefused) created),
      map dr_Path (filter (\<lambda>d. rm (dr_Path d) = RemoveRefused) created))"

definition rollbackTree :: "(string \<Rightarrow> removal) \<Rightarrow> draft_tree \<Rightarrow> Draft list \<Rightarrow> draft_tree" where
  "rollbackTree rm tree created = foldl (\<lambda>t d. if rm (dr_Path d) = RemoveRefused then t
     else removeDraft t (dr_Project d) (jsonName (dr_Type d) (dr_ID d))) tree created"

fun scaffoldAll ::
  "draftContext \<Rightarrow> (string \<Rightarrow> removal) \<Rightarrow> NewDraftBatchRequest \<Rightarrow> draft_tree \<Rightarrow> Draft list \<Rightarrow> BatchDraft list
     \<Rightarrow> (batch_error + Draft list) \<times> draft_tree" where
  "scaffoldAll x rm req tree created [] = (Inr created, tree)"
| "scaffoldAll x rm req tree created (b # bs) =
     (case newDraftFile x tree (batchRequest req b) (bd_Content b) of
        Inl e \<Rightarrow>
          (Inl (ScaffoldRefused (length created + 1) (length (nb_Drafts req)) (bd_Type b) (bd_ID b) e
             (fst (rollbackCreated rm created)) (snd (rollbackCreated rm created))),
           rollbackTree rm tree created)
      | Inr (tree', d) \<Rightarrow> scaffoldAll x rm req tree' (created @ [d]) bs)"

definition NewDraftBatch ::
  "draftContext \<Rightarrow> (string \<Rightarrow> removal) \<Rightarrow> draft_tree \<Rightarrow> NewDraftBatchRequest \<Rightarrow> (batch_error + Draft list) \<times> draft_tree" where
  "NewDraftBatch x rm tree req =
     (if nb_Drafts req = [] then (Inl NoTargets, tree)
      else if nb_Project req = '''' then (Inl BatchNeedsProject, tree)
      else if nb_Namespace req = '''' then (Inl BatchNeedsNamespace, tree)
      else case sharedIdentity [] 0 (nb_Drafts req) of
        Some e \<Rightarrow> (Inl e, tree)
      | None \<Rightarrow> scaffoldAll x rm req tree [] (nb_Drafts req))"

section \<open>The graph of the pending drafts\<close>

record batchNode =
  bn_Draft :: Draft
  bn_Artifact :: Artifact
  bn_Deps :: "string list"

definition batchKey :: "string \<Rightarrow> string \<Rightarrow> string \<Rightarrow> string" where
  "batchKey ns t i = ns @ [slash] @ t @ [colon] @ i"

definition nodeKey :: "Artifact \<Rightarrow> string" where
  "nodeKey a = batchKey (Namespace a) (Type a) (ID a)"

definition nodeName :: "batchNode \<Rightarrow> string" where
  "nodeName n = batchName (Type (bn_Artifact n)) (ID (bn_Artifact n))"

fun batchNodes ::
  "draftContext \<Rightarrow> draft_tree \<Rightarrow> string \<Rightarrow> batchNode gomap \<Rightarrow> Draft list \<Rightarrow> batch_error + batchNode gomap" where
  "batchNodes x tree project nodes [] = Inr nodes"
| "batchNodes x tree project nodes (d # ds) = (case scanAt x tree project (dr_Path d) of
       Inl e \<Rightarrow> Inl (BatchUnreadable (dr_Type d) (dr_ID d) e)
     | Inr None \<Rightarrow> Inl (BatchNotAnArtifact (dr_Type d) (dr_ID d))
     | Inr (Some a) \<Rightarrow>
         if has_key nodes (nodeKey a) then Inl (SharedDraftIdentity project (nodeKey a))
         else batchNodes x tree project (nodes @ [(nodeKey a, \<lparr>bn_Draft = d, bn_Artifact = a, bn_Deps = []\<rparr>)]) ds)"

text \<open>One relationship target: the pending draft it addresses, or nothing when the line is
  already in the store.\<close>

definition edgeOf :: "callContext \<Rightarrow> db \<Rightarrow> batchNode gomap \<Rightarrow> Artifact \<Rightarrow> string \<Rightarrow> batch_error + string option" where
  "edgeOf x d nodes a raw = (case parseReference raw (Namespace a) (Type a) of
       Inl e \<Rightarrow> Inl (BatchUnresolved (batchName (Type a) (ID a)) raw (Some e))
     | Inr r \<Rightarrow>
         let k = batchKey (ref_Namespace r) (ref_Type r) (ref_ID r) in
         if ref_Namespace r = Namespace a \<and> ref_Type r = Type a \<and> ref_ID r = ID a then Inr (Some k)
         else if has_key nodes k then Inr (Some k)
         else (case UnitsByLine (x_decode x) d (ref_Namespace r) (ref_Type r) (ref_ID r) of
             None \<Rightarrow> Inl (BatchLineUnreadable raw (batchName (Type a) (ID a)))
           | Some us \<Rightarrow> if us = [] then Inl (BatchUnresolved (batchName (Type a) (ID a)) raw None) else Inr None))"

fun nodeDeps ::
  "callContext \<Rightarrow> db \<Rightarrow> batchNode gomap \<Rightarrow> Artifact \<Rightarrow> string list \<Rightarrow> string list \<Rightarrow> batch_error + string list" where
  "nodeDeps x d nodes a deps [] = Inr deps"
| "nodeDeps x d nodes a deps (raw # raws) = (case edgeOf x d nodes a raw of
       Inl e \<Rightarrow> Inl e
     | Inr None \<Rightarrow> nodeDeps x d nodes a deps raws
     | Inr (Some k) \<Rightarrow> nodeDeps x d nodes a (if List.member deps k then deps else deps @ [k]) raws)"

definition nodeTargets :: "Artifact \<Rightarrow> string list" where
  "nodeTargets a = concat (map (relation_of a) relationshipFields)"

text \<open>The nodes in the order they are visited; the first reference that resolves nowhere ends
  the run.\<close>

fun batchEdges :: "callContext \<Rightarrow> db \<Rightarrow> batchNode gomap \<Rightarrow> batchNode gomap \<Rightarrow> batch_error + batchNode gomap" where
  "batchEdges x d nodes [] = Inr []"
| "batchEdges x d nodes ((k, n) # rest) =
     (case nodeDeps x d nodes (bn_Artifact n) [] (nodeTargets (bn_Artifact n)) of
        Inl e \<Rightarrow> Inl e
      | Inr deps \<Rightarrow> (case batchEdges x d nodes rest of
            Inl e \<Rightarrow> Inl e
          | Inr others \<Rightarrow> Inr ((k, n\<lparr>bn_Deps := deps\<rparr>) # others)))"

section \<open>The order of publication\<close>

definition consumersOf :: "batchNode gomap \<Rightarrow> string \<Rightarrow> string list" where
  "consumersOf nodes k = sort (map fst (filter (\<lambda>(k', n). List.member (bn_Deps n) k) nodes))"

definition countDown :: "int gomap \<times> string list \<Rightarrow> string \<Rightarrow> int gomap \<times> string list" where
  "countDown s dep =
     (let n = get_or (fst s) dep 0 - 1 in
      (putKey (fst s) dep n, if n = 0 then sort (snd s @ [dep]) else snd s))"

definition waiting :: "int gomap \<Rightarrow> nat" where
  "waiting indegree = length (filter (\<lambda>(k, n). 0 < n) indegree)"

lemma countDown_measure:
  "2 * waiting (fst (countDown s k)) + length (snd (countDown s k)) \<le> 2 * waiting (fst s) + length (snd s)"
proof -
  let ?keep = "\<lambda>p :: string \<times> int. fst p \<noteq> k \<and> 0 < snd p"
  have kept: "waiting (filter (\<lambda>p. fst p \<noteq> k) m) \<le> waiting m" for m
    by (induction m) (auto simp: waiting_def)
  have dropped: "0 < get_or m k 0 \<Longrightarrow> Suc (waiting (filter (\<lambda>p. fst p \<noteq> k) m)) \<le> waiting m" for m
  proof (induction m)
    case (Cons p m)
    then show ?case using kept [of m] by (cases "fst p = k") (auto simp: waiting_def get_or_def split: prod.splits)
  qed (simp add: get_or_def)
  show ?thesis
    using kept [of "fst s"] dropped [of "fst s"]
    by (auto simp: countDown_def Let_def putKey_def waiting_def)
qed

lemma countDowns_measure:
  "2 * waiting (fst (foldl countDown s ks)) + length (snd (foldl countDown s ks)) \<le> 2 * waiting (fst s) + length (snd s)"
proof (induction ks arbitrary: s)
  case (Cons k ks)
  then show ?case using countDown_measure [of s k] le_trans [OF Cons.IH [of "countDown s k"]] by simp
qed simp

function orderReady :: "batchNode gomap \<Rightarrow> int gomap \<Rightarrow> string list \<Rightarrow> string list \<Rightarrow> string list \<times> int gomap" where
  "orderReady nodes indegree [] order = (order, indegree)"
| "orderReady nodes indegree (k # ready) order =
     (let s = foldl countDown (indegree, ready) (consumersOf nodes k) in
      orderReady nodes (fst s) (snd s) (order @ [k]))"
  by pat_completeness auto
termination
proof (relation "measure (\<lambda>(nodes, indegree, ready, order). 2 * waiting indegree + length ready)", goal_cases)
  case (2 nodes indegree k ready order s)
  then show ?case using countDowns_measure [of "(indegree, ready)" "consumersOf nodes k"] by simp
qed simp

definition batchTopoOrder :: "batchNode gomap \<Rightarrow> batch_error + string list" where
  "batchTopoOrder nodes =
     (let indegree = map (\<lambda>(k, n). (k, int (length (bn_Deps n)))) nodes;
          ready = sort (map fst (filter (\<lambda>(k, n). n = 0) indegree));
          run = orderReady nodes indegree ready [] in
      if length (fst run) \<noteq> length nodes
      then Inl (BatchCycle (sort (map (\<lambda>k. case map_of nodes k of None \<Rightarrow> '''' | Some n \<Rightarrow> nodeName n)
        (sort (map fst (filter (\<lambda>(k, n). 0 < get_or (snd run) k 0) nodes))))))
      else Inr (fst run))"

section \<open>Publishing the backlog\<close>

definition batchPlan ::
  "draftContext \<Rightarrow> (batchNode gomap \<Rightarrow> batchNode gomap) \<Rightarrow> workspaceState \<Rightarrow> string \<Rightarrow> Draft list
     \<Rightarrow> batch_error + (batchNode gomap \<times> string list)" where
  "batchPlan x visit ws project drafts = (case batchNodes x (ws_drafts ws) project [] drafts of
       Inl e \<Rightarrow> Inl e
     | Inr nodes \<Rightarrow> (case batchEdges (dx_store x) (ws_db ws) nodes (visit nodes) of
           Inl e \<Rightarrow> Inl e
         | Inr linked \<Rightarrow> (case batchTopoOrder linked of Inl e \<Rightarrow> Inl e | Inr order \<Rightarrow> Inr (linked, order))))"

fun publishAll ::
  "draftContext \<Rightarrow> string \<Rightarrow> batchNode gomap \<Rightarrow> workspaceState \<Rightarrow> PublishResult list \<Rightarrow> string list
     \<Rightarrow> (batch_error option \<times> PublishResult list) \<times> workspaceState" where
  "publishAll x project nodes ws results [] = ((None, results), ws)"
| "publishAll x project nodes ws results (k # ks) =
     (case Publish x ws (case map_of nodes k of None \<Rightarrow> '''' | Some n \<Rightarrow> nodeName n)
        \<lparr>po_Project = project, po_InstanceVersion = 0\<rparr> of
        (Inl e, ws') \<Rightarrow> ((Some (PublishStopped e), results), ws')
      | (Inr res, ws') \<Rightarrow> publishAll x project nodes ws' (results @ [res]) ks)"

definition PublishBatch ::
  "draftContext \<Rightarrow> (batchNode gomap \<Rightarrow> batchNode gomap) \<Rightarrow> workspaceState \<Rightarrow> string
     \<Rightarrow> (batch_error option \<times> PublishResult list) \<times> workspaceState" where
  "PublishBatch x visit ws hint =
     (let project = (if hint = '''' then dx_cwdProject x else hint) in
      if project = '''' then ((Some NoBatchProject, []), ws)
      else let drafts = Drafts x (ws_drafts ws) project in
        if drafts = [] then ((None, []), ws)
        else case batchPlan x visit ws project drafts of
            Inl e \<Rightarrow> ((Some e, []), ws)
          | Inr (nodes, order) \<Rightarrow> publishAll x project nodes ws [] order)"

section \<open>All or nothing\<close>

lemma projectFiles_add: "projectFiles (addDraft tree p f) q = (if q = p then projectFiles tree p @ [f] else projectFiles tree q)"
proof -
  have "map_of (filter (\<lambda>e. fst e \<noteq> p) m) q = (if q = p then None else map_of m q)" for m :: draft_tree
    by (induction m) auto
  then show ?thesis by (simp add: projectFiles_def addDraft_def putKey_def get_or_def)
qed

lemma projectFiles_remove:
  "projectFiles (removeDraft tree p nm) q = (if q = p then filter (\<lambda>f. fl_Name f \<noteq> nm) (projectFiles tree p) else projectFiles tree q)"
proof -
  have "map_of (map (\<lambda>(r, fs). (r, if r = p then filter (\<lambda>f. fl_Name f \<noteq> nm) fs else fs)) m) q
      = map_option (\<lambda>fs. if q = p then filter (\<lambda>f. fl_Name f \<noteq> nm) fs else fs) (map_of m q)" for m :: draft_tree
    by (induction m) auto
  then show ?thesis by (simp add: projectFiles_def removeDraft_def get_or_def split: option.splits)
qed

text \<open>The tree has the old files and one file per created draft, in order, under names that are
  all different.\<close>

definition holds :: "draftContext \<Rightarrow> string \<Rightarrow> draft_tree \<Rightarrow> Draft list \<Rightarrow> draft_tree \<Rightarrow> bool" where
  "holds x project tree created tree' \<longleftrightarrow> (\<exists>new. (\<forall>p. projectFiles tree' p = projectFiles tree p @ (if p = project then new else []))
     \<and> map fl_Name new = map (\<lambda>d. jsonName (dr_Type d) (dr_ID d)) created
     \<and> distinct (map fl_Name new) \<and> fl_Name ` set new \<inter> fl_Name ` set (projectFiles tree project) = {})
     \<and> (\<forall>d \<in> set created. dr_Project d = project \<and> dr_Path d = draftPathOf x project (jsonName (dr_Type d) (dr_ID d)))"

lemma holds_nil: "holds x project tree [] tree"
  by (simp add: holds_def)

lemma newDraftFile_ok:
  assumes "newDraftFile x tree req extra = Inr (tree', d)"
  obtains body where "tree' = addDraft tree (nd_Project req) \<lparr>fl_Name = jsonName (nd_Type req) (nd_ID req), fl_Contents = body,
      fl_Updated = x_now (dx_store x)\<rparr>"
    "findDraft tree (nd_Project req) (jsonName (nd_Type req) (nd_ID req)) = None"
    "dr_Project d = nd_Project req" "dr_Type d = nd_Type req" "dr_ID d = nd_ID req"
    "dr_Path d = draftPathOf x (nd_Project req) (jsonName (nd_Type req) (nd_ID req))"
  using assms by (auto simp: newDraftFile_def Let_def split: option.splits sum.splits if_splits)

lemma holds_add:
  assumes "holds x project tree created tree1" "newDraftFile x tree1 req extra = Inr (tree2, d)" "nd_Project req = project"
  shows "holds x project tree (created @ [d]) tree2"
proof -
  obtain new where new: "\<And>p. projectFiles tree1 p = projectFiles tree p @ (if p = project then new else [])"
    "map fl_Name new = map (\<lambda>d. jsonName (dr_Type d) (dr_ID d)) created" "distinct (map fl_Name new)"
    "fl_Name ` set new \<inter> fl_Name ` set (projectFiles tree project) = {}"
    and old: "\<forall>d \<in> set created. dr_Project d = project \<and> dr_Path d = draftPathOf x project (jsonName (dr_Type d) (dr_ID d))"
    using assms(1) by (auto simp: holds_def)
  obtain body where f: "tree2 = addDraft tree1 project \<lparr>fl_Name = jsonName (dr_Type d) (dr_ID d), fl_Contents = body, fl_Updated = x_now (dx_store x)\<rparr>"
    "findDraft tree1 project (jsonName (dr_Type d) (dr_ID d)) = None" "dr_Project d = project"
    "dr_Path d = draftPathOf x project (jsonName (dr_Type d) (dr_ID d))"
    using newDraftFile_ok [OF assms(2)] assms(3) by metis
  let ?f = "\<lparr>fl_Name = jsonName (dr_Type d) (dr_ID d), fl_Contents = body, fl_Updated = x_now (dx_store x)\<rparr>"
  have fresh: "fl_Name ?f \<notin> fl_Name ` set new" "fl_Name ?f \<notin> fl_Name ` set (projectFiles tree project)"
    using f(2) new(1) [of project] by (auto simp: findDraft_def find_None_iff)
  have "\<forall>p. projectFiles tree2 p = projectFiles tree p @ (if p = project then new @ [?f] else [])"
    using new(1) by (simp add: f(1) projectFiles_add)
  moreover have "map fl_Name (new @ [?f]) = map (\<lambda>d. jsonName (dr_Type d) (dr_ID d)) (created @ [d])" using new(2) by simp
  moreover have "distinct (map fl_Name (new @ [?f]))" using new(3) fresh by simp
  moreover have "fl_Name ` set (new @ [?f]) \<inter> fl_Name ` set (projectFiles tree project) = {}" using new(4) fresh by auto
  ultimately show ?thesis unfolding holds_def using old f(3,4) by fastforce
qed

lemma rollback_files:
  assumes "\<forall>d \<in> set created. dr_Project d = project"
  shows "projectFiles (rollbackTree rm tree created) p = (if p = project
    then filter (\<lambda>f. fl_Name f \<notin> (\<lambda>d. jsonName (dr_Type d) (dr_ID d)) ` {d \<in> set created. rm (dr_Path d) \<noteq> RemoveRefused})
      (projectFiles tree project)
    else projectFiles tree p)"
  using assms
proof (induction created arbitrary: tree)
  case (Cons d created)
  have "rollbackTree rm tree (d # created) = rollbackTree rm (if rm (dr_Path d) = RemoveRefused then tree
      else removeDraft tree (dr_Project d) (jsonName (dr_Type d) (dr_ID d))) created"
    by (simp add: rollbackTree_def)
  then show ?case using Cons by (auto simp: projectFiles_remove intro: filter_cong)
qed (simp add: rollbackTree_def)

definition batchFailures :: "batch_error \<Rightarrow> string list" where
  "batchFailures e = (case e of ScaffoldRefused i n t k err removed failures \<Rightarrow> failures | _ \<Rightarrow> [])"

lemma rollback_leaves:
  assumes "holds x project tree created tree1"
  obtains rest where "\<And>p. projectFiles (rollbackTree rm tree1 created) p = projectFiles tree p @ (if p = project then rest else [])"
    "map (\<lambda>f. draftPathOf x project (fl_Name f)) rest = snd (rollbackCreated rm created)"
proof -
  obtain new where new: "\<And>p. projectFiles tree1 p = projectFiles tree p @ (if p = project then new else [])"
    "map fl_Name new = map (\<lambda>d. jsonName (dr_Type d) (dr_ID d)) created"
    "fl_Name ` set new \<inter> fl_Name ` set (projectFiles tree project) = {}"
    and d: "\<forall>d \<in> set created. dr_Project d = project" "\<forall>d \<in> set created. dr_Path d = draftPathOf x project (jsonName (dr_Type d) (dr_ID d))"
    using assms by (auto simp: holds_def)
  let ?path = "\<lambda>f. draftPathOf x project (fl_Name f)"
  let ?gone = "(\<lambda>d. jsonName (dr_Type d) (dr_ID d)) ` {d \<in> set created. rm (dr_Path d) \<noteq> RemoveRefused}"
  have names: "fl_Name ` set new = (\<lambda>d. jsonName (dr_Type d) (dr_ID d)) ` set created"
    using new(2) by (metis (no_types, lifting) image_set)
  have old: "filter (\<lambda>f. fl_Name f \<notin> ?gone) (projectFiles tree project) = projectFiles tree project"
    using new(3) names by (fastforce intro: filter_True)
  have kept: "filter (\<lambda>f. fl_Name f \<notin> ?gone) new = filter (\<lambda>f. rm (?path f) = RemoveRefused) new"
  proof (rule filter_cong [OF refl])
    fix f assume "f \<in> set new"
    then obtain c where c: "c \<in> set created" "fl_Name f = jsonName (dr_Type c) (dr_ID c)" using names by (auto simp: image_iff set_eq_iff)
    have "fl_Name f \<in> ?gone \<longleftrightarrow> rm (?path f) \<noteq> RemoveRefused"
    proof
      assume "fl_Name f \<in> ?gone"
      then obtain d' where "d' \<in> set created" "rm (dr_Path d') \<noteq> RemoveRefused" "fl_Name f = jsonName (dr_Type d') (dr_ID d')" by auto
      then show "rm (?path f) \<noteq> RemoveRefused" using d(2) by simp
    next
      assume "rm (?path f) \<noteq> RemoveRefused"
      then have "rm (dr_Path c) \<noteq> RemoveRefused" using c d(2) by simp
      then show "fl_Name f \<in> ?gone" using c by auto
    qed
    then show "(fl_Name f \<notin> ?gone) = (rm (?path f) = RemoveRefused)" by simp
  qed
  have "map ?path new = map (draftPathOf x project) (map fl_Name new)" by simp
  also have "\<dots> = map dr_Path created" unfolding new(2) using d(2) by simp
  finally have paths: "map ?path new = map dr_Path created" .
  have "map ?path (filter (\<lambda>f. rm (?path f) = RemoveRefused) new) = filter (\<lambda>q. rm q = RemoveRefused) (map ?path new)"
    by (simp add: filter_map comp_def)
  also have "\<dots> = snd (rollbackCreated rm created)"
    unfolding paths by (simp add: rollbackCreated_def filter_map comp_def)
  finally have fails: "map ?path (filter (\<lambda>f. rm (?path f) = RemoveRefused) new) = snd (rollbackCreated rm created)" .
  have "projectFiles (rollbackTree rm tree1 created) p = projectFiles tree p @ (if p = project then filter (\<lambda>f. rm (?path f) = RemoveRefused) new else [])" for p
    using rollback_files [OF d(1)] old kept new(1) by simp
  then show ?thesis using fails that by blast
qed

definition batchOutcome ::
  "draftContext \<Rightarrow> (string \<Rightarrow> removal) \<Rightarrow> draft_tree \<Rightarrow> NewDraftBatchRequest \<Rightarrow> batch_error + Draft list \<Rightarrow> draft_tree \<Rightarrow> bool" where
  "batchOutcome x rm tree req out tree' \<longleftrightarrow> (\<exists>new.
      (\<forall>p. projectFiles tree' p = projectFiles tree p @ (if p = nb_Project req then new else []))
    \<and> map (\<lambda>f. draftPathOf x (nb_Project req) (fl_Name f)) new
        = (case out of Inl e \<Rightarrow> batchFailures e | Inr created \<Rightarrow> map dr_Path created)
    \<and> (case out of Inl e \<Rightarrow> list_all (\<lambda>q. rm q = RemoveRefused) (batchFailures e)
        | Inr created \<Rightarrow> map (\<lambda>d. (dr_Type d, dr_ID d)) created = map (\<lambda>b. (bd_Type b, bd_ID b)) (nb_Drafts req)))"

lemma scaffoldAll_outcome:
  assumes "holds x (nb_Project req) tree created tree1"
    and "map (\<lambda>d. (dr_Type d, dr_ID d)) created @ map (\<lambda>b. (bd_Type b, bd_ID b)) bs = map (\<lambda>b. (bd_Type b, bd_ID b)) (nb_Drafts req)"
  shows "case scaffoldAll x rm req tree1 created bs of (out, tree') \<Rightarrow> batchOutcome x rm tree req out tree'"
  using assms
proof (induction bs arbitrary: created tree1)
  case Nil
  then obtain new where new: "\<forall>p. projectFiles tree1 p = projectFiles tree p @ (if p = nb_Project req then new else [])"
    "map fl_Name new = map (\<lambda>d. jsonName (dr_Type d) (dr_ID d)) created"
    "\<forall>d \<in> set created. dr_Path d = draftPathOf x (nb_Project req) (jsonName (dr_Type d) (dr_ID d))"
    by (auto simp: holds_def)
  have "map (\<lambda>f. draftPathOf x (nb_Project req) (fl_Name f)) new = map (draftPathOf x (nb_Project req)) (map fl_Name new)" by simp
  also have "\<dots> = map dr_Path created" unfolding new(2) using new(3) by simp
  finally show ?case using new(1) Nil.prems(2) by (auto simp: batchOutcome_def)
next
  case (Cons b bs)
  show ?case
  proof (cases "newDraftFile x tree1 (batchRequest req b) (bd_Content b)")
    case (Inl e)
    obtain rest where "\<And>p. projectFiles (rollbackTree rm tree1 created) p = projectFiles tree p @ (if p = nb_Project req then rest else [])"
      "map (\<lambda>f. draftPathOf x (nb_Project req) (fl_Name f)) rest = snd (rollbackCreated rm created)"
      using rollback_leaves [OF Cons.prems(1)] by metis
    then show ?thesis using Inl by (auto simp: batchOutcome_def batchFailures_def rollbackCreated_def list_all_iff)
  next
    case (Inr res)
    obtain tree2 d where res: "res = (tree2, d)" by (cases res)
    have "holds x (nb_Project req) tree (created @ [d]) tree2"
      using holds_add [OF Cons.prems(1) Inr [unfolded res]] by (simp add: batchRequest_def)
    moreover have "dr_Type d = bd_Type b" "dr_ID d = bd_ID b"
      using newDraftFile_ok [OF Inr [unfolded res]] by (auto simp: batchRequest_def)
    ultimately show ?thesis using Cons.IH [of "created @ [d]" tree2] Cons.prems(2) Inr res by simp
  qed
qed


section \<open>The order is topological\<close>

definition batchGraph :: "batchNode gomap \<Rightarrow> (string \<times> string) set" where
  "batchGraph nodes = {(dep, k). \<exists>n. (k, n) \<in> set nodes \<and> dep \<in> set (bn_Deps n)}"

definition graphOk :: "batchNode gomap \<Rightarrow> bool" where
  "graphOk nodes \<longleftrightarrow> distinct (map fst nodes)
     \<and> list_all (\<lambda>(k, n). distinct (bn_Deps n) \<and> list_all (\<lambda>d. List.member (map fst nodes) d) (bn_Deps n)) nodes"

definition depsOf :: "batchNode gomap \<Rightarrow> string \<Rightarrow> string set" where
  "depsOf nodes k = {d. (d, k) \<in> batchGraph nodes}"

definition dependenciesFirst :: "batchNode gomap \<Rightarrow> string list \<Rightarrow> bool" where
  "dependenciesFirst nodes order \<longleftrightarrow> (\<forall>i<length order. depsOf nodes (order ! i) \<subseteq> set (take i order))"

definition orderInvariant :: "batchNode gomap \<Rightarrow> int gomap \<Rightarrow> string list \<Rightarrow> string list \<Rightarrow> bool" where
  "orderInvariant nodes indegree ready order \<longleftrightarrow> distinct (order @ ready) \<and> set (order @ ready) \<subseteq> fst ` set nodes
     \<and> (\<forall>k \<in> fst ` set nodes. get_or indegree k 0 = int (card (depsOf nodes k - set order)))
     \<and> (\<forall>k \<in> fst ` set nodes. get_or indegree k 0 = 0 \<longleftrightarrow> k \<in> set (order @ ready))
     \<and> dependenciesFirst nodes order"

lemma get_or_putKey: "get_or (putKey m k v) k' z = (if k' = k then v else get_or m k' z)"
proof -
  have "map_of (filter (\<lambda>p. fst p \<noteq> k) m) k' = (if k' = k then None else map_of m k')" by (induction m) auto
  then show ?thesis by (simp add: putKey_def get_or_def)
qed

lemma countDowns:
  "distinct ks \<Longrightarrow> get_or (fst (foldl countDown s ks)) k 0 = get_or (fst s) k 0 - (if k \<in> set ks then 1 else 0)
     \<and> mset (snd (foldl countDown s ks)) = mset (snd s) + mset (filter (\<lambda>k. get_or (fst s) k 0 = 1) ks)"
proof (induction ks arbitrary: s)
  case (Cons j ks)
  have j: "get_or (fst (countDown s j)) k' 0 = get_or (fst s) k' 0 - (if k' = j then 1 else 0)" for k'
    by (simp add: countDown_def Let_def get_or_putKey)
  have m: "mset (snd (countDown s j)) = mset (snd s) + (if get_or (fst s) j 0 = 1 then {#j#} else {#})"
    by (simp add: countDown_def Let_def)
  have "filter (\<lambda>k. get_or (fst (countDown s j)) k 0 = 1) ks = filter (\<lambda>k. get_or (fst s) k 0 = 1) ks"
    using Cons.prems by (intro filter_cong) (auto simp: j)
  then show ?case using Cons.IH [of "countDown s j"] Cons.prems j [of k] m by auto
qed simp

lemma consumersOf_set: "set (consumersOf nodes d) = {k. (d, k) \<in> batchGraph nodes}"
  by (force simp: consumersOf_def batchGraph_def)

lemma consumersOf_distinct: "graphOk nodes \<Longrightarrow> distinct (consumersOf nodes d)"
  by (simp add: consumersOf_def graphOk_def distinct_map_filter)

lemma depsOf_finite: "finite (depsOf nodes k)"
proof -
  have "depsOf nodes k \<subseteq> (\<Union>(k, n) \<in> set nodes. set (bn_Deps n))" by (auto simp: depsOf_def batchGraph_def)
  then show ?thesis by (rule finite_subset) auto
qed

lemma orderInvariant_step:
  assumes ok: "graphOk nodes" and inv: "orderInvariant nodes indegree (k # ready) order"
    and s: "s = foldl countDown (indegree, ready) (consumersOf nodes k)"
  shows "orderInvariant nodes (fst s) (snd s) (order @ [k])"
proof -
  note d = consumersOf_distinct [OF ok, of k]
  have k: "k \<in> fst ` set nodes" "k \<notin> set order" "k \<notin> set ready" and dist: "distinct order" "distinct ready" "set order \<inter> set ready = {}"
    and sub: "set order \<subseteq> fst ` set nodes" "set ready \<subseteq> fst ` set nodes"
    and card: "\<And>j. j \<in> fst ` set nodes \<Longrightarrow> get_or indegree j 0 = int (card (depsOf nodes j - set order))"
    and zero: "\<And>j. j \<in> fst ` set nodes \<Longrightarrow> get_or indegree j 0 = 0 \<longleftrightarrow> j \<in> set (order @ k # ready)"
    and first: "dependenciesFirst nodes order"
    using inv by (auto simp: orderInvariant_def)
  have ind: "get_or (fst s) j 0 = get_or indegree j 0 - (if (k, j) \<in> batchGraph nodes then 1 else 0)" for j
    unfolding s using countDowns [OF d, of "(indegree, ready)" j] by (simp add: consumersOf_set)
  let ?new = "filter (\<lambda>j. get_or indegree j 0 = 1) (consumersOf nodes k)"
  have ms: "mset (snd s) = mset (ready @ ?new)"
    unfolding s using countDowns [OF d, of "(indegree, ready)"] by simp
  have new: "j \<in> set ?new \<longleftrightarrow> (k, j) \<in> batchGraph nodes \<and> get_or indegree j 0 = 1" for j by (auto simp: consumersOf_set)
  have graph: "(k, j) \<in> batchGraph nodes \<Longrightarrow> j \<in> fst ` set nodes" for j by (force simp: batchGraph_def)
  have fresh: "set ?new \<inter> set (order @ k # ready) = {}" using new graph zero by force
  have "distinct (order @ [k] @ ready @ ?new)" using k dist d fresh by auto
  then have dist': "distinct ((order @ [k]) @ snd s)"
    using ms mset_eq_imp_distinct_iff [OF ms] mset_eq_setD [OF ms] by auto
  have sub': "set ((order @ [k]) @ snd s) \<subseteq> fst ` set nodes"
    using k sub graph new mset_eq_setD [OF ms] by auto
  have less: "card (depsOf nodes j - set (order @ [k])) = card (depsOf nodes j - set order) - (if (k, j) \<in> batchGraph nodes then 1 else 0)"
    and pos: "(k, j) \<in> batchGraph nodes \<Longrightarrow> 0 < card (depsOf nodes j - set order)" for j
  proof -
    have "depsOf nodes j - set (order @ [k]) = (depsOf nodes j - set order) - {k}" by auto
    then show "card (depsOf nodes j - set (order @ [k])) = card (depsOf nodes j - set order) - (if (k, j) \<in> batchGraph nodes then 1 else 0)"
      using k(2) depsOf_finite [of nodes j] by (auto simp: card_Diff_singleton_if depsOf_def)
    show "(k, j) \<in> batchGraph nodes \<Longrightarrow> 0 < card (depsOf nodes j - set order)"
      using k(2) depsOf_finite [of nodes j] by (auto simp: card_gt_0_iff depsOf_def)
  qed
  have card': "get_or (fst s) j 0 = int (card (depsOf nodes j - set (order @ [k])))" if "j \<in> fst ` set nodes" for j
    unfolding ind less using card [OF that] pos [of j] by auto
  have zero': "get_or (fst s) j 0 = 0 \<longleftrightarrow> j \<in> set ((order @ [k]) @ snd s)" if "j \<in> fst ` set nodes" for j
    unfolding ind using zero [OF that] card [OF that] pos [of j] mset_eq_setD [OF ms] new [of j] by auto
  have "depsOf nodes k - set order = {}"
    using zero [OF k(1)] card [OF k(1)] depsOf_finite [of nodes k] by simp
  then have "dependenciesFirst nodes (order @ [k])"
    using first by (auto simp: dependenciesFirst_def nth_append less_Suc_eq)
  then show ?thesis using dist' sub' card' zero' unfolding orderInvariant_def by blast
qed

lemma orderReady_invariant:
  assumes "graphOk nodes" "orderInvariant nodes indegree ready order" "orderReady nodes indegree ready order = (order', indegree')"
  shows "orderInvariant nodes indegree' [] order'"
  using assms
proof (induction nodes indegree ready order rule: orderReady.induct)
  case (2 nodes indegree k ready order)
  show ?case using 2 orderInvariant_step [OF 2(2,3) refl] by (simp add: Let_def)
qed simp

text \<open>A draft is blocked when it is on a cycle of references or refers to one, directly or not.\<close>

definition blocked :: "batchNode gomap \<Rightarrow> string \<Rightarrow> bool" where
  "blocked nodes k \<longleftrightarrow> (\<exists>c. (c, c) \<in> (batchGraph nodes)\<^sup>+ \<and> (c, k) \<in> (batchGraph nodes)\<^sup>*)"

lemma before:
  assumes "dependenciesFirst nodes order" "(c, k) \<in> (batchGraph nodes)\<^sup>+"
  shows "i < length order \<Longrightarrow> order ! i = k \<Longrightarrow> \<exists>j<i. order ! j = c"
  using assms(2)
proof (induction arbitrary: i rule: trancl_induct)
  case (base y)
  then have "c \<in> set (take i order)" using assms(1) by (auto simp: dependenciesFirst_def depsOf_def)
  then show ?case using base.prems by (auto simp: in_set_conv_nth)
next
  case (step y z)
  then have "y \<in> set (take i order)" using assms(1) by (auto simp: dependenciesFirst_def depsOf_def)
  then obtain m where m: "m < i" "order ! m = y" using step.prems by (auto simp: in_set_conv_nth)
  then obtain j where "j < m" "order ! j = c" using step.IH [of m] step.prems by auto
  then show ?case using m(1) less_trans by blast
qed

lemma ordered_not_blocked:
  assumes "dependenciesFirst nodes order" "distinct order" "k \<in> set order"
  shows "\<not> blocked nodes k"
proof
  assume "blocked nodes k"
  then obtain c where c: "(c, c) \<in> (batchGraph nodes)\<^sup>+" "(c, k) \<in> (batchGraph nodes)\<^sup>*" by (auto simp: blocked_def)
  obtain i where i: "i < length order" "order ! i = k" using assms(3) by (auto simp: in_set_conv_nth)
  have "\<exists>m<length order. order ! m = c"
    using c(2)
  proof (cases rule: rtranclE)
    case base
    then show ?thesis using i by blast
  next
    case (step y)
    then have "(c, k) \<in> (batchGraph nodes)\<^sup>+" by (simp add: rtrancl_into_trancl1)
    then show ?thesis using before [OF assms(1) _ i] i(1) by (meson less_trans)
  qed
  then obtain m where m: "m < length order" "order ! m = c" by blast
  then obtain j where "j < m" "order ! j = c" using before [OF assms(1) c(1)] by blast
  then show False using m assms(2) by (auto simp: nth_eq_iff_index_eq)
qed

lemma batchGraph_finite: "finite (batchGraph nodes)"
proof -
  have "batchGraph nodes \<subseteq> (\<Union>(k, n) \<in> set nodes. set (bn_Deps n) \<times> {k})" by (auto simp: batchGraph_def)
  then show ?thesis by (rule finite_subset) auto
qed

lemma batchGraph_keys:
  assumes "graphOk nodes" "(d, k) \<in> batchGraph nodes"
  shows "d \<in> fst ` set nodes" "k \<in> fst ` set nodes"
  using assms by (force simp: batchGraph_def graphOk_def list_all_iff)+

lemma left_over_blocked:
  assumes ok: "graphOk nodes" and inv: "orderInvariant nodes indegree [] order" and k: "k \<in> fst ` set nodes" "k \<notin> set order"
  shows "blocked nodes k"
proof (rule ccontr)
  assume free: "\<not> blocked nodes k"
  let ?R = "batchGraph nodes"
  let ?A = "{y. (y, k) \<in> ?R\<^sup>*}"
  let ?S = "?R \<inter> ?A \<times> ?A"
  have "acyclic ?S"
  proof (rule acyclicI, rule allI, rule notI)
    fix c assume c: "(c, c) \<in> ?S\<^sup>+"
    then have "c \<in> ?A" by (auto dest: tranclD)
    moreover have "?S\<^sup>+ \<subseteq> ?R\<^sup>+" by (rule trancl_mono_subset) auto
    ultimately show False using c free by (auto simp: blocked_def)
  qed
  moreover have "finite ?S" using batchGraph_finite [of nodes] by blast
  ultimately have "wf ?S" by (rule finite_acyclic_wf [rotated])
  moreover have "k \<in> {y \<in> ?A. y \<in> fst ` set nodes \<and> y \<notin> set order}" using k by simp
  ultimately obtain m where m: "m \<in> ?A" "m \<in> fst ` set nodes" "m \<notin> set order"
    and least: "\<And>y. (y, m) \<in> ?S \<Longrightarrow> y \<notin> {y \<in> ?A. y \<in> fst ` set nodes \<and> y \<notin> set order}"
    by (rule wfE_min) blast
  have "get_or indegree m 0 = 0 \<longleftrightarrow> m \<in> set (order @ [])" "get_or indegree m 0 = int (card (depsOf nodes m - set order))"
    using inv m(2) unfolding orderInvariant_def by blast+
  then have "card (depsOf nodes m - set order) \<noteq> 0" using m(3) by simp
  then obtain d where d: "(d, m) \<in> ?R" "d \<notin> set order" by (auto simp: depsOf_def card_eq_0_iff)
  have "(d, k) \<in> ?R\<^sup>*" using d(1) m(1) by (auto intro: converse_rtrancl_into_rtrancl)
  then have "(d, m) \<in> ?S" using d(1) m(1) by simp
  from least [OF this] show False using d batchGraph_keys(1) [OF ok d(1)] \<open>(d, k) \<in> ?R\<^sup>*\<close> by blast
qed

lemma zero_entries:
  assumes "distinct (map fst m)" "map_of m k = Some (v :: int)"
  shows "v = 0 \<longleftrightarrow> k \<in> fst ` set (filter (\<lambda>(k, n). n = 0) m)"
  using assms by (force dest: map_of_SomeD eq_key_imp_eq_value)

lemma orderInvariant_start:
  assumes "graphOk nodes"
  shows "orderInvariant nodes (map (\<lambda>(k, n). (k, int (length (bn_Deps n)))) nodes)
    (sort (map fst (filter (\<lambda>(k, n). n = 0) (map (\<lambda>(k, n). (k, int (length (bn_Deps n)))) nodes)))) []"
proof -
  let ?ind = "map (\<lambda>(k, n). (k, int (length (bn_Deps n)))) nodes"
  have d: "distinct (map fst nodes)" using assms by (simp add: graphOk_def)
  have fst_ind: "map fst ?ind = map fst nodes" by (induction nodes) auto
  have deps: "depsOf nodes k = set (bn_Deps n)" if "(k, n) \<in> set nodes" for k n
    using that d by (auto simp: depsOf_def batchGraph_def dest: eq_key_imp_eq_value)
  have ind: "get_or ?ind k 0 = int (card (depsOf nodes k))" if "(k, n) \<in> set nodes" for k n
  proof -
    have "map_of ?ind k = Some (int (length (bn_Deps n)))"
      using that d fst_ind by (intro map_of_is_SomeI) (force simp del: map_map)+
    moreover have "distinct (bn_Deps n)" using assms that by (auto simp: graphOk_def list_all_iff)
    ultimately show ?thesis using deps [OF that] by (simp add: get_or_def distinct_card)
  qed
  have zero: "get_or ?ind k 0 = 0 \<longleftrightarrow> k \<in> fst ` set (filter (\<lambda>(k, n). n = 0) ?ind)" if "(k, n) \<in> set nodes" for k n
  proof -
    have "map_of ?ind k = Some (get_or ?ind k 0)"
      using that d fst_ind by (auto simp: get_or_def map_of_eq_None_iff split: option.splits) (force simp: image_iff)
    from zero_entries [OF _ this] d show ?thesis unfolding fst_ind by blast
  qed
  let ?ready = "sort (map fst (filter (\<lambda>(k, n). n = 0) ?ind))"
  have "distinct (map fst (filter (\<lambda>(k, n). n = 0) ?ind))" using d fst_ind by (metis distinct_map_filter)
  then have dist: "distinct ([] @ ?ready)" by (simp only: append_Nil distinct_sort)
  have "fst ` set (filter (\<lambda>(k, n). n = 0) ?ind) \<subseteq> fst ` set nodes" by force
  then have sub: "set ([] @ ?ready) \<subseteq> fst ` set nodes" by (simp only: append_Nil set_sort set_map)
  have main: "get_or ?ind k 0 = int (card (depsOf nodes k - set []))" "get_or ?ind k 0 = 0 \<longleftrightarrow> k \<in> set ([] @ ?ready)"
    if k: "k \<in> fst ` set nodes" for k
  proof -
    obtain n where n: "(k, n) \<in> set nodes" using k by auto
    show "get_or ?ind k 0 = int (card (depsOf nodes k - set []))" "get_or ?ind k 0 = 0 \<longleftrightarrow> k \<in> set ([] @ ?ready)"
      using ind [OF n] zero [OF n] by (simp_all only: append_Nil set_sort set_map list.set Diff_empty)
  qed
  have "dependenciesFirst nodes []" by (simp add: dependenciesFirst_def)
  then show ?thesis unfolding orderInvariant_def using dist sub main by blast
qed

lemma batch_order:
  assumes "graphOk nodes"
  shows "case batchTopoOrder nodes of
      Inl e \<Rightarrow> \<not> acyclic (batchGraph nodes) \<and> e = BatchCycle (sort (map (nodeName \<circ> snd) (filter (\<lambda>(k, n). blocked nodes k) nodes)))
    | Inr order \<Rightarrow> acyclic (batchGraph nodes) \<and> mset order = mset (map fst nodes) \<and> dependenciesFirst nodes order"
proof -
  obtain order indegree where run: "orderReady nodes (map (\<lambda>(k, n). (k, int (length (bn_Deps n)))) nodes)
      (sort (map fst (filter (\<lambda>(k, n). n = 0) (map (\<lambda>(k, n). (k, int (length (bn_Deps n)))) nodes)))) [] = (order, indegree)"
    by fastforce
  have inv: "orderInvariant nodes indegree [] order"
    by (rule orderReady_invariant [OF assms orderInvariant_start [OF assms] run])
  have d: "distinct (map fst nodes)" using assms by (simp add: graphOk_def)
  have o: "distinct order" "set order \<subseteq> fst ` set nodes" "dependenciesFirst nodes order"
    and ind: "\<And>k. k \<in> fst ` set nodes \<Longrightarrow> 0 \<le> get_or indegree k 0 \<and> (get_or indegree k 0 = 0 \<longleftrightarrow> k \<in> set order)"
    using inv unfolding orderInvariant_def by auto
  have iff: "k \<in> set order \<longleftrightarrow> \<not> blocked nodes k" if "k \<in> fst ` set nodes" for k
    using left_over_blocked [OF assms inv that] ordered_not_blocked [OF o(3,1)] by blast
  have len: "length order = length nodes \<longleftrightarrow> set order = fst ` set nodes"
  proof -
    have "card (fst ` set nodes) = length nodes" using d by (metis distinct_card length_map list.set_map)
    then show ?thesis using distinct_card [OF o(1)] card_subset_eq [OF _ o(2)] by auto
  qed
  have cyc: "acyclic (batchGraph nodes) \<longleftrightarrow> set order = fst ` set nodes"
  proof
    assume "acyclic (batchGraph nodes)"
    then show "set order = fst ` set nodes" using iff o(2) by (auto simp: blocked_def acyclic_def)
  next
    assume all: "set order = fst ` set nodes"
    show "acyclic (batchGraph nodes)"
    proof (rule acyclicI, rule allI, rule notI)
      fix c assume c: "(c, c) \<in> (batchGraph nodes)\<^sup>+"
      then have "c \<in> fst ` set nodes" using batchGraph_keys [OF assms] by (meson tranclD)
      moreover have "blocked nodes c" using c by (auto simp: blocked_def)
      ultimately show False using iff all by blast
    qed
  qed
  have left: "filter (\<lambda>(k, n). 0 < get_or indegree k 0) nodes = filter (\<lambda>(k, n). blocked nodes k) nodes"
    using ind iff by (intro filter_cong [OF refl]) force
  have names: "sort (map (\<lambda>k. case map_of nodes k of None \<Rightarrow> '''' | Some n \<Rightarrow> nodeName n) (sort (map fst (filter P nodes))))
      = sort (map (nodeName \<circ> snd) (filter P nodes))" for P
  proof -
    have "map (\<lambda>k. case map_of nodes k of None \<Rightarrow> '''' | Some n \<Rightarrow> nodeName n) (map fst (filter P nodes)) = map (nodeName \<circ> snd) (filter P nodes)"
      using d by (auto intro: map_of_is_SomeI)
    then have "mset (map (\<lambda>k. case map_of nodes k of None \<Rightarrow> '''' | Some n \<Rightarrow> nodeName n) (sort (map fst (filter P nodes))))
        = mset (map (nodeName \<circ> snd) (filter P nodes))" by (metis mset_map mset_sort)
    then show ?thesis by (metis properties_for_sort sorted_sort mset_sort)
  qed
  have "mset order = mset (map fst nodes)" if "set order = fst ` set nodes"
    using that o(1) d by (metis list.set_map set_eq_iff_mset_eq_distinct)
  then show ?thesis
    using cyc len o(3) names [of "\<lambda>(k, n). blocked nodes k"] by (auto simp: batchTopoOrder_def Let_def run left)
qed

text \<open>C26: The batch order is exact.  When the pending drafts can be ordered, the order is a
  permutation of them with every draft after all the drafts it references, and the graph has
  no cycle; when they cannot, the graph has a cycle and the error names exactly the drafts on a
  cycle and those that refer to one, sorted.\<close>
theorem batch_order_exact:
  assumes "graphOk nodes"
  shows "case batchTopoOrder nodes of
      Inl e \<Rightarrow> \<not> acyclic (batchGraph nodes) \<and> e = BatchCycle (sort (map (nodeName \<circ> snd) (filter (\<lambda>(k, n). blocked nodes k) nodes)))
    | Inr order \<Rightarrow> acyclic (batchGraph nodes) \<and> mset order = mset (map fst nodes) \<and> dependenciesFirst nodes order"
  using assms by (rule batch_order)

definition graphNode :: "string \<Rightarrow> string list \<Rightarrow> string \<times> batchNode" where
  "graphNode i deps = (batchKey ''n'' ''adr'' i, \<lparr>bn_Draft = \<lparr>dr_Project = ''p'', dr_Namespace = ''n'', dr_Type = ''adr'',
     dr_ID = i, dr_Path = '''', dr_Updated = '''', dr_Provenance = '''', dr_SourcePromptHash = '''', dr_Confidence = 0,
     dr_HasConfidence = False, dr_CaptureMeta = noCapture\<rparr>,
     bn_Artifact = emptyArtifact\<lparr>Namespace := ''n'', Type := ''adr'', ID := i\<rparr>, bn_Deps = map (batchKey ''n'' ''adr'') deps\<rparr>)"

theorem batch_order_exact_witness:
  "dependenciesFirst [graphNode ''a'' [''b'', ''c''], graphNode ''b'' [], graphNode ''c'' [''b'']] [''n/adr:b'', ''n/adr:c'', ''n/adr:a'']
   \<and> BatchCycle [''adr:a'', ''adr:c''] = BatchCycle (sort (map (nodeName \<circ> snd)
       (filter (\<lambda>(k, n). blocked [graphNode ''a'' [''c''], graphNode ''b'' [], graphNode ''c'' [''c'']] k)
         [graphNode ''a'' [''c''], graphNode ''b'' [], graphNode ''c'' [''c'']])))"
proof
  have "graphOk [graphNode ''a'' [''b'', ''c''], graphNode ''b'' [], graphNode ''c'' [''b'']]" by code_simp
  moreover have "batchTopoOrder [graphNode ''a'' [''b'', ''c''], graphNode ''b'' [], graphNode ''c'' [''b'']]
      = Inr [''n/adr:b'', ''n/adr:c'', ''n/adr:a'']" by code_simp
  ultimately show "dependenciesFirst [graphNode ''a'' [''b'', ''c''], graphNode ''b'' [], graphNode ''c'' [''b'']] [''n/adr:b'', ''n/adr:c'', ''n/adr:a'']"
    using batch_order_exact [of "[graphNode ''a'' [''b'', ''c''], graphNode ''b'' [], graphNode ''c'' [''b'']]"] by simp
  have "graphOk [graphNode ''a'' [''c''], graphNode ''b'' [], graphNode ''c'' [''c'']]" by code_simp
  moreover have "batchTopoOrder [graphNode ''a'' [''c''], graphNode ''b'' [], graphNode ''c'' [''c'']] = Inl (BatchCycle [''adr:a'', ''adr:c''])"
    by code_simp
  ultimately show "BatchCycle [''adr:a'', ''adr:c''] = BatchCycle (sort (map (nodeName \<circ> snd)
       (filter (\<lambda>(k, n). blocked [graphNode ''a'' [''c''], graphNode ''b'' [], graphNode ''c'' [''c'']] k)
         [graphNode ''a'' [''c''], graphNode ''b'' [], graphNode ''c'' [''c'']])))"
    using batch_order_exact [of "[graphNode ''a'' [''c''], graphNode ''b'' [], graphNode ''c'' [''c'']]"] by simp
qed

section \<open>What a batch publish changes\<close>

lemma batchNodes_ok:
  assumes "batchNodes x tree project nodes drafts = Inr nodes'" "distinct (map fst nodes)" "list_all (\<lambda>(k, n). k = nodeKey (bn_Artifact n)) nodes"
  shows "distinct (map fst nodes') \<and> list_all (\<lambda>(k, n). k = nodeKey (bn_Artifact n)) nodes' \<and> length nodes' = length nodes + length drafts"
  using assms
proof (induction x tree project nodes drafts rule: batchNodes.induct)
  case (2 x tree project nodes d ds)
  obtain a where a: "scanAt x tree project (dr_Path d) = Inr (Some a)" "\<not> has_key nodes (nodeKey a)"
    using 2(2) by (auto split: sum.splits option.splits if_splits)
  show ?case using 2(1) [OF a(1) refl a(2)] 2(2-4) a by (auto simp: has_key_set list_all_iff)
qed simp

lemma edgeOf_key:
  assumes "edgeOf x d nodes a raw = Inr (Some k)" "has_key nodes (nodeKey a)"
  shows "has_key nodes k"
  using assms by (auto simp: edgeOf_def nodeKey_def Let_def split: sum.splits option.splits if_splits)

lemma nodeDeps_ok:
  assumes "nodeDeps x d nodes a deps raws = Inr deps'" "has_key nodes (nodeKey a)" "distinct deps" "set deps \<subseteq> fst ` set nodes"
  shows "distinct deps' \<and> set deps' \<subseteq> fst ` set nodes"
  using assms
proof (induction x d nodes a deps raws rule: nodeDeps.induct)
  case (2 x d nodes a deps raw raws)
  show ?case
  proof (cases "edgeOf x d nodes a raw")
    case (Inr o')
    then show ?thesis using 2 edgeOf_key [of x d nodes a raw] by (cases o') (auto simp: has_key_set split: if_splits)
  qed (use 2 in simp)
qed simp

lemma batchEdges_ok:
  assumes "batchEdges x d nodes visited = Inr linked" "list_all (\<lambda>(k, n). has_key nodes (nodeKey (bn_Artifact n))) visited"
  shows "map fst linked = map fst visited
    \<and> list_all (\<lambda>(k, n). distinct (bn_Deps n) \<and> set (bn_Deps n) \<subseteq> fst ` set nodes) linked"
  using assms
proof (induction visited arbitrary: linked)
  case (Cons p visited)
  obtain k n where p: "p = (k, n)" by (cases p)
  obtain deps rest where e: "nodeDeps x d nodes (bn_Artifact n) [] (nodeTargets (bn_Artifact n)) = Inr deps"
    "batchEdges x d nodes visited = Inr rest" "linked = (k, n\<lparr>bn_Deps := deps\<rparr>) # rest"
    using Cons.prems(1) by (auto simp: p split: sum.splits)
  then show ?case using Cons.IH [OF e(2)] Cons.prems(2) nodeDeps_ok [OF e(1)] by (auto simp: p)
qed simp

lemma nodeDeps_refuses: "nodeDeps x d nodes a deps raws = Inl e \<Longrightarrow> e \<noteq> PublishStopped e'"
  by (induction x d nodes a deps raws rule: nodeDeps.induct)
    (auto simp: edgeOf_def Let_def split: sum.splits option.splits if_splits)

lemma batchPlan_refuses:
  assumes "batchPlan x visit ws project ds = Inl e"
  shows "e \<noteq> PublishStopped e'"
proof -
  have n: "batchNodes x tree p nodes ds = Inl e \<Longrightarrow> e \<noteq> PublishStopped e'" for tree p nodes ds
    by (induction x tree p nodes ds rule: batchNodes.induct) (auto split: sum.splits option.splits if_splits)
  have g: "batchEdges c d nodes visited = Inl e \<Longrightarrow> e \<noteq> PublishStopped e'" for c d nodes visited
    using nodeDeps_refuses by (induction c d nodes visited rule: batchEdges.induct) (auto split: sum.splits)
  show ?thesis using assms n g by (auto simp: batchPlan_def batchTopoOrder_def Let_def split: sum.splits if_splits)
qed

lemma batchPlan_ok:
  assumes "batchPlan x visit ws project drafts = Inr (nodes, order)" "\<And>m. mset (visit m) = mset m"
  shows "graphOk nodes \<and> dependenciesFirst nodes order \<and> length order = length drafts"
proof -
  obtain start where s: "batchNodes x (ws_drafts ws) project [] drafts = Inr start"
    "batchEdges (dx_store x) (ws_db ws) start (visit start) = Inr nodes" "batchTopoOrder nodes = Inr order"
    using assms(1) by (auto simp: batchPlan_def split: sum.splits)
  have n: "distinct (map fst start)" "list_all (\<lambda>(k, n). k = nodeKey (bn_Artifact n)) start" "length start = length drafts"
    using batchNodes_ok [OF s(1)] by simp_all
  have v: "set (visit start) = set start" by (rule mset_eq_setD [OF assms(2)])
  have "has_key start (nodeKey (bn_Artifact nd))" if "(k, nd) \<in> set start" for k nd
  proof -
    have "k = nodeKey (bn_Artifact nd)" using n(2) that by (auto simp: list_all_iff)
    then show ?thesis using that unfolding has_key_set by (metis fst_conv rev_image_eqI)
  qed
  then have "list_all (\<lambda>(k, n). has_key start (nodeKey (bn_Artifact n))) (visit start)"
    unfolding list_all_iff v by blast
  from batchEdges_ok [OF s(2) this]
  have e: "map fst nodes = map fst (visit start)" "list_all (\<lambda>(k, n). distinct (bn_Deps n) \<and> set (bn_Deps n) \<subseteq> fst ` set start) nodes"
    by simp_all
  have "mset (map fst (visit start)) = mset (map fst start)" using assms(2) [of start] by (simp only: mset_map)
  then have m: "mset (map fst nodes) = mset (map fst start)" by (simp only: e(1))
  have keys: "set (map fst nodes) = fst ` set start" using mset_eq_setD [OF m] by simp
  have "distinct (map fst nodes)" using mset_eq_imp_distinct_iff [OF m] n(1) by simp
  moreover have "distinct (bn_Deps nd) \<and> list_all (List.member (map fst nodes)) (bn_Deps nd)" if "(k, nd) \<in> set nodes" for k nd
  proof -
    have "distinct (bn_Deps nd) \<and> set (bn_Deps nd) \<subseteq> fst ` set start" using e(2) that unfolding list_all_iff by blast
    then show ?thesis unfolding keys [symmetric] list_all_iff by auto
  qed
  ultimately have ok: "graphOk nodes" unfolding graphOk_def list_all_iff [of _ nodes] by blast
  have len: "length nodes = length drafts" using n(3) mset_eq_length [OF m] by simp
  have o: "mset order = mset (map fst nodes)" "dependenciesFirst nodes order" using batch_order [OF ok] by (simp_all add: s(3))
  have "length order = length nodes" using mset_eq_length [OF o(1)] by simp
  then show ?thesis using ok o(2) len by simp
qed

text \<open>The nodes are the drafts, and the order is one of their keys.\<close>

lemma batchNodes_drafts:
  "batchNodes x tree project nodes drafts = Inr nodes' \<Longrightarrow>
     map (\<lambda>(k, n). bn_Draft n) nodes' = map (\<lambda>(k, n). bn_Draft n) nodes @ drafts"
  by (induction x tree project nodes drafts rule: batchNodes.induct) (auto split: sum.splits option.splits if_splits)

lemma batchEdges_drafts:
  "batchEdges x d nodes rest = Inr linked \<Longrightarrow> map (\<lambda>(k, n). bn_Draft n) linked = map (\<lambda>(k, n). bn_Draft n) rest"
  by (induction x d nodes rest arbitrary: linked rule: batchEdges.induct) (auto split: sum.splits)

lemma batchPlan_drafts:
  assumes "batchPlan x visit ws project drafts = Inr (nodes, order)" "\<And>m. mset (visit m) = mset m"
  shows "mset (map (\<lambda>(k, n). bn_Draft n) nodes) = mset drafts \<and> mset order = mset (map fst nodes)"
proof -
  obtain start where s: "batchNodes x (ws_drafts ws) project [] drafts = Inr start"
    "batchEdges (dx_store x) (ws_db ws) start (visit start) = Inr nodes" "batchTopoOrder nodes = Inr order"
    using assms(1) by (auto simp: batchPlan_def split: sum.splits)
  have "mset (map (\<lambda>(k, n). bn_Draft n) (visit start)) = mset (map (\<lambda>(k, n). bn_Draft n) start)"
    using assms(2) [of start] by (simp only: mset_map)
  then have "mset (map (\<lambda>(k, n). bn_Draft n) nodes) = mset drafts"
    using batchNodes_drafts [OF s(1)] batchEdges_drafts [OF s(2)] by (simp only: list.map append_Nil)
  moreover have "mset order = mset (map fst nodes)"
    using batch_order [of nodes] batchPlan_ok [OF assms] by (simp add: s(3))
  ultimately show ?thesis ..
qed

definition plainDrafts :: "draftContext \<Rightarrow> draft_tree \<Rightarrow> bool" where
  "plainDrafts x tree = list_all (\<lambda>(p, fs). list_all (\<lambda>f. case scanDraft x p f of
     Inr (Some a) \<Rightarrow> slash \<notin> set (Namespace a) | _ \<Rightarrow> True) fs) tree"

lemma plain_found:
  assumes "plainDrafts x tree" "findDraft tree p nm = Some f" "scanDraft x p f = Inr (Some a)"
  shows "slash \<notin> set (Namespace a)"
proof -
  have "f \<in> set (projectFiles tree p)" using findDraft_Some [OF assms(2)] by blast
  then obtain fs where "(p, fs) \<in> set tree" "f \<in> set fs"
    by (cases "map_of tree p") (auto simp: projectFiles_def get_or_def dest: map_of_SomeD)
  then have "case scanDraft x p f of Inr (Some a) \<Rightarrow> slash \<notin> set (Namespace a) | _ \<Rightarrow> True"
    using assms(1) unfolding plainDrafts_def list_all_iff by fastforce
  then show ?thesis by (simp add: assms(3))
qed

lemma plain_removed: "plainDrafts x tree \<Longrightarrow> plainDrafts x (removeDraft tree p nm)"
  unfolding plainDrafts_def removeDraft_def by (induction tree) (auto simp: list_all_iff)

lemma plain_read:
  assumes "plainDrafts x tree" "readDraft x tree target hint = Inr (r, df, a)"
  shows "slash \<notin> set (Namespace a)"
  using plain_found [OF assms(1)] readDraft_sound [OF assms(2)] resolveDraftFile_sound by metis

text \<open>The forms a publish leaves behind: that of its result, and that of an object whose draft could
  not be removed.\<close>

definition leftForms :: "draft_error option \<Rightarrow> string list \<Rightarrow> bool" where
  "leftForms err forms \<longleftrightarrow> forms = [] \<or> (\<exists>f. forms = [f] \<and> err = Some (RemovalFailed f))"

lemma publishes_form:
  assumes "readDraft x (ws_drafts ws) target hint = Inr (r, df, a)" "checkTarget r df a = None"
    "publishes x ws p (unitFromDraft (dx_number x) a v) d res" "canonicalRefs (ws_db ws)" "plainDrafts x (ws_drafts ws)"
  shows "map fst (refs d) = map fst (refs (ws_db ws)) @ [pr_Form res]"
proof -
  have g: "gatePassed x ws p (unitFromDraft (dx_number x) a v)" using assms(3) by (simp add: publishes_def)
  note w = draft_plainIdentity [OF assms(1,2) plain_read [OF assms(5,1)] g]
  note ap = publishes_appends [OF assms(3,4) w]
  have "u_CanonicalIdentityForm (unitFromDraft (dx_number x) a v) = CanonicalForm (u_Identity (unitFromDraft (dx_number x) a v))"
    by (simp add: unitFromDraft_def Let_def)
  then show ?thesis using ap(1,4) by (auto simp: appended_def)
qed

lemma Publish_effect:
  assumes "Publish x ws target opts = (out, ws')" "workspaceOk (x_hash (dx_store x)) ws" "plainDrafts x (ws_drafts ws)"
  shows "workspaceOk (x_hash (dx_store x)) ws' \<and> prefix (lineVersions (ws_db ws) ns t i) (lineVersions (ws_db ws') ns t i)
    \<and> plainDrafts x (ws_drafts ws')
    \<and> (case out of Inr res \<Rightarrow> map fst (refs (ws_db ws')) = map fst (refs (ws_db ws)) @ [pr_Form res]
        | Inl e \<Rightarrow> \<exists>forms. map fst (refs (ws_db ws')) = map fst (refs (ws_db ws)) @ forms \<and> leftForms (Some e) forms)"
proof (cases "readDraft x (ws_drafts ws) target (po_Project opts)")
  case (Inl e)
  then have "out = Inl e" "ws' = ws" using assms(1) by (simp_all add: Publish_def)
  then show ?thesis using assms(2,3) by (simp add: leftForms_def)
next
  case (Inr rda)
  obtain r df a where rda: "rda = (r, df, a)" by (cases rda)
  note rd = Inr [unfolded rda]
  have "draft_step (x_hash (dx_store x)) ws ws'"
    using plain_read [OF assms(3) rd] by (intro publish_step [OF assms(1) refl]) (simp add: plainTarget_def rd)
  note ok = draft_step_ok [OF this assms(2), of ns t i]
  have c: "canonicalRefs (ws_db ws)" using assms(2) by (simp add: workspaceOk_def)
  show ?thesis
  proof (cases out)
    case (Inl e)
    from Publish_failed [OF assms(1) [unfolded Inl]] consider "ws' = ws"
      | r df a v d res where "readDraft x (ws_drafts ws) target (po_Project opts) = Inr (r, df, a)" "checkTarget r df a = None"
        "publishes x ws (df_Project df) (unitFromDraft (dx_number x) a v) d res" "e = RemovalFailed (pr_Form res)" "ws' = ws\<lparr>ws_db := d\<rparr>"
      by auto
    then show ?thesis
    proof cases
      case 2
      then show ?thesis using publishes_form [OF 2(1-3) c assms(3)] ok assms(3) Inl by (auto simp: leftForms_def)
    qed (use ok assms(3) Inl in \<open>simp add: leftForms_def\<close>)
  next
    case (Inr res)
    from Publish_ok [OF assms(1) [unfolded Inr]] obtain r df a d res0 where p: "readDraft x (ws_drafts ws) target (po_Project opts) = Inr (r, df, a)"
      "checkTarget r df a = None" "publishes x ws (df_Project df) (unitFromDraft (dx_number x) a (pr_InstanceVersion res)) d res0"
      "ws' = ws\<lparr>ws_db := d, ws_drafts := removeDraft (ws_drafts ws) (df_Project df) (fl_Name (df_File df))\<rparr>" "pr_Form res = pr_Form res0"
      by metis
    show ?thesis using publishes_form [OF p(1-3) c assms(3)] p(4,5) ok plain_removed [OF assms(3)] Inr by simp
  qed
qed

text \<open>A result is the publication of the draft a name addresses: its form is that of an identity
  with the type and the id of the name.\<close>

definition publishedAs :: "string \<Rightarrow> PublishResult \<Rightarrow> bool" where
  "publishedAs nm res \<longleftrightarrow> (\<exists>r i. parseDraftTarget nm = Inr r \<and> id_Type i = ref_Type r \<and> id_ID i = ref_ID r
     \<and> pr_Form res = CanonicalForm i \<and> pr_InstanceVersion res = id_InstanceVersion i)"

lemma Publish_named:
  assumes "Publish x ws nm opts = (Inr res, ws')"
  shows "publishedAs nm res"
proof -
  from Publish_ok [OF assms] obtain r df a d res0 where p: "readDraft x (ws_drafts ws) nm (po_Project opts) = Inr (r, df, a)"
    "checkTarget r df a = None" "publishes x ws (df_Project df) (unitFromDraft (dx_number x) a (pr_InstanceVersion res)) d res0"
    and same: "pr_Form res = pr_Form res0" "pr_InstanceVersion res = pr_InstanceVersion res0"
    by metis
  let ?u = "unitFromDraft (dx_number x) a (pr_InstanceVersion res)"
  have u: "u_CanonicalIdentityForm ?u = CanonicalForm (u_Identity ?u)" "id_Type (u_Identity ?u) = Type a" "id_ID (u_Identity ?u) = ID a"
    "id_InstanceVersion (u_Identity ?u) = pr_InstanceVersion res"
    by (simp_all add: unitFromDraft_def Let_def)
  have "pr_Form res0 = u_CanonicalIdentityForm ?u"
    using p(3) by (auto simp: publishes_def persistPublishedUnit_def Let_def split: sum.splits)
  moreover have "Type a = ref_Type r" "ID a = ref_ID r" using p(2) by (simp_all add: checkTarget_def checkIdentity_def split: if_splits)
  ultimately show ?thesis unfolding publishedAs_def
    using readDraft_sound(1) [OF p(1)] same u by (intro exI [of _ r] exI [of _ "u_Identity ?u"]) simp
qed

definition nodeNames :: "batchNode gomap \<Rightarrow> string list \<Rightarrow> string list" where
  "nodeNames nodes ks = map (\<lambda>k. case map_of nodes k of None \<Rightarrow> '''' | Some n \<Rightarrow> nodeName n) ks"

lemma publishAll_named:
  assumes "publishAll x project nodes ws results ks = ((err, results'), ws')"
  shows "\<exists>new. results' = results @ new \<and> list_all2 publishedAs (nodeNames nodes (take (length new) ks)) new"
  using assms
proof (induction ks arbitrary: ws results)
  case Nil
  then show ?case by (simp add: nodeNames_def)
next
  case (Cons k ks)
  let ?target = "case map_of nodes k of None \<Rightarrow> '''' | Some n \<Rightarrow> nodeName n"
  obtain out ws1 where p: "Publish x ws ?target \<lparr>po_Project = project, po_InstanceVersion = 0\<rparr> = (out, ws1)"
    by (cases "Publish x ws ?target \<lparr>po_Project = project, po_InstanceVersion = 0\<rparr>")
  show ?case
  proof (cases out)
    case (Inl e)
    then have "results' = results" using Cons.prems p by simp
    then show ?thesis by (simp add: nodeNames_def)
  next
    case (Inr res)
    then have "publishAll x project nodes ws1 (results @ [res]) ks = ((err, results'), ws')" using Cons.prems p by simp
    from Cons.IH [OF this] obtain new where n: "results' = (results @ [res]) @ new"
      "list_all2 publishedAs (nodeNames nodes (take (length new) ks)) new" by blast
    have "list_all2 publishedAs (nodeNames nodes (take (length (res # new)) (k # ks))) (res # new)"
      using n(2) Publish_named [OF p [unfolded Inr]] by (simp add: nodeNames_def)
    then show ?thesis using n(1) by (intro exI [of _ "res # new"]) simp
  qed
qed

definition stopOf :: "batch_error option \<Rightarrow> draft_error option" where
  "stopOf err = (case err of Some (PublishStopped e) \<Rightarrow> Some e | _ \<Rightarrow> None)"

lemma publishAll_effect:
  assumes "publishAll x project nodes ws results ks = ((err, results'), ws')" "workspaceOk (x_hash (dx_store x)) ws" "plainDrafts x (ws_drafts ws)"
  shows "workspaceOk (x_hash (dx_store x)) ws' \<and> prefix (lineVersions (ws_db ws) ns t i) (lineVersions (ws_db ws') ns t i)
    \<and> (\<exists>new forms. results' = results @ new \<and> map fst (refs (ws_db ws')) = map fst (refs (ws_db ws)) @ map pr_Form new @ forms
        \<and> leftForms (stopOf err) forms \<and> (err = None \<and> length new = length ks \<or> (\<exists>e. err = Some (PublishStopped e)) \<and> length new < length ks))"
  using assms
proof (induction ks arbitrary: ws results)
  case Nil
  then show ?case by (simp add: leftForms_def)
next
  case (Cons k ks)
  let ?target = "case map_of nodes k of None \<Rightarrow> '''' | Some n \<Rightarrow> nodeName n"
  obtain out ws1 where p: "Publish x ws ?target \<lparr>po_Project = project, po_InstanceVersion = 0\<rparr> = (out, ws1)" by (cases "Publish x ws ?target \<lparr>po_Project = project, po_InstanceVersion = 0\<rparr>")
  note eff = Publish_effect [OF p Cons.prems(2,3), of ns t i]
  show ?case
  proof (cases out)
    case (Inl e)
    then have "err = Some (PublishStopped e)" "results' = results" "ws' = ws1" using Cons.prems(1) p by simp_all
    then show ?thesis using eff Inl by (auto simp: stopOf_def)
  next
    case (Inr res)
    then have run: "publishAll x project nodes ws1 (results @ [res]) ks = ((err, results'), ws')" using Cons.prems(1) p by simp
    from Cons.IH [OF run] eff obtain new forms where n: "results' = (results @ [res]) @ new"
      "map fst (refs (ws_db ws')) = map fst (refs (ws_db ws1)) @ map pr_Form new @ forms" "leftForms (stopOf err) forms"
      "err = None \<and> length new = length ks \<or> (\<exists>e. err = Some (PublishStopped e)) \<and> length new < length ks"
      and w: "workspaceOk (x_hash (dx_store x)) ws'" "prefix (lineVersions (ws_db ws1) ns t i) (lineVersions (ws_db ws') ns t i)"
      by blast
    have "results' = results @ (res # new)" using n(1) by simp
    moreover have "map fst (refs (ws_db ws')) = map fst (refs (ws_db ws)) @ map pr_Form (res # new) @ forms" using n(2) eff Inr by simp
    moreover have "err = None \<and> length (res # new) = length (k # ks) \<or> (\<exists>e. err = Some (PublishStopped e)) \<and> length (res # new) < length (k # ks)"
      using n(4) by auto
    moreover have "prefix (lineVersions (ws_db ws) ns t i) (lineVersions (ws_db ws') ns t i)" using w(2) eff prefix_order.trans by blast
    ultimately show ?thesis using n(3) w(1) by blast
  qed
qed

lemma PublishBatch_cases:
  assumes run: "PublishBatch x visit ws hint = ((err, results), ws')" and p: "project = (if hint = '''' then dx_cwdProject x else hint)"
  obtains (idle) "err = None" "results = []" "ws' = ws" "project \<noteq> ''''" "Drafts x (ws_drafts ws) project = []"
    | (refused) e where "err = Some e" "\<And>e'. e \<noteq> PublishStopped e'" "results = []" "ws' = ws"
    | (ran) nodes order where "batchPlan x visit ws project (Drafts x (ws_drafts ws) project) = Inr (nodes, order)" "project \<noteq> ''''"
        "publishAll x project nodes ws [] order = ((err, results), ws')"
proof (cases "project = ''''")
  case True
  then have "err = Some NoBatchProject" "results = []" "ws' = ws" using run p by (simp_all add: PublishBatch_def)
  then show ?thesis using refused by blast
next
  case named: False
  show ?thesis
  proof (cases "Drafts x (ws_drafts ws) project = []")
    case True
    then have "err = None" "results = []" "ws' = ws" using run named unfolding p by (simp_all add: PublishBatch_def Let_def)
    then show ?thesis using named True by (intro idle)
  next
    case False
    then have r: "(case batchPlan x visit ws project (Drafts x (ws_drafts ws) project) of
        Inl e \<Rightarrow> ((Some e, []), ws) | Inr (nodes, order) \<Rightarrow> publishAll x project nodes ws [] order) = ((err, results), ws')"
      using run named unfolding p PublishBatch_def Let_def by (simp only: if_False)
    show ?thesis
    proof (cases "batchPlan x visit ws project (Drafts x (ws_drafts ws) project)")
      case (Inl e)
      then have "err = Some e" "results = []" "ws' = ws" using r by simp_all
      then show ?thesis using batchPlan_refuses [OF Inl] by (intro refused)
    next
      case (Inr no)
      then show ?thesis using r ran named by (cases no) simp
    qed
  qed
qed


lemma scaffolded_ok: "workspaceOk tagHash scaffolded"
proof -
  obtain tree d where new: "NewDraft sampleDraftContext (ws_drafts emptyWorkspace) (sampleRequest ''mbr'' ''ann'') = Inr (tree, d)"
      "scaffolded = emptyWorkspace\<lparr>ws_drafts := tree\<rparr>"
    using scaffolded_tree unfolding scaffolded_def by (auto simp: emptyWorkspace_def split: sum.splits)
  show ?thesis unfolding new(2) using draft_step_ok [OF new_step [OF new(1)] emptyWorkspace_ok] by blast
qed


text \<open>Which dangling reference a refusal names depends on the order in which the map of the pending
  drafts is visited.\<close>

definition dangling :: "string \<Rightarrow> string \<times> batchNode" where
  "dangling i = (case graphNode i [] of (k, n) \<Rightarrow>
     (k, n\<lparr>bn_Artifact := (bn_Artifact n)\<lparr>Relations := [(''depends-on'', [''n/adr:gone''])]\<rparr>\<rparr>))"

definition refusalOf :: "(string \<times> batchNode) list \<Rightarrow> batch_error option" where
  "refusalOf visited = (case batchEdges (dx_store sampleDraftContext) empty_db [dangling ''a'', dangling ''b''] visited of
     Inl e \<Rightarrow> Some e | Inr linked \<Rightarrow> None)"

lemma refusal_depends_on_visit:
  "refusalOf [dangling ''a'', dangling ''b''] = Some (BatchUnresolved ''adr:a'' ''n/adr:gone'' None)"
  "refusalOf [dangling ''b'', dangling ''a''] = Some (BatchUnresolved ''adr:b'' ''n/adr:gone'' None)"
  by code_simp+

end
