(* ===== verification/Runtime_Capture.thy ===== *)
theory Runtime_Capture
  imports Runtime_Draft
begin

text \<open>
  The capture gateway of \<open>runtime/capture.go\<close>: the keyword classifier, title normalization and
  similarity, and the duplicate checks over the drafts of a project.  A float64 is a
  rational (the constants are short decimals), a duration an integer of nanoseconds, the
  digest an argument.  Time stamps are read in the form the draft listing writes them,
  \<open>2006-01-02T15:04:05Z\<close>.
\<close>

section \<open>Words and verbs\<close>

definition flushWord :: "string \<Rightarrow> string list" where
  "flushWord cur = (if cur = [] then [] else [rev cur])"

text \<open>\<open>strings.Fields\<close> over UTF-8 bytes.\<close>

fun goFields :: "string \<Rightarrow> string \<Rightarrow> string list" where
  "goFields cur [] = flushWord cur"
| "goFields cur (a # s) =
     (if space1 a then flushWord cur @ goFields [] s
      else if s \<noteq> [] \<and> space2 a (s ! 0) then flushWord cur @ goFields [] (drop 1 s)
      else if 2 \<le> length s \<and> space3 a (s ! 0) (s ! 1) then flushWord cur @ goFields [] (drop 2 s)
      else goFields (a # cur) s)"

definition Fields :: "string \<Rightarrow> string list" where
  "Fields s = goFields [] s"

definition verbs :: "string list" where
  "verbs = [''fix'', ''add'', ''change'', ''decide'', ''update'', ''remove'']"

definition word_char :: "char \<Rightarrow> bool" where
  "word_char c = (is_digit c \<or> is_upper c \<or> (97 \<le> (of_char c :: nat) \<and> of_char c \<le> (122 :: nat)) \<or> c = CHR ''_'')"

definition verbAt :: "string \<Rightarrow> string \<Rightarrow> nat \<Rightarrow> bool" where
  "verbAt s v i = (map to_lower (take (length v) (drop i s)) = v
     \<and> (i = 0 \<or> \<not> word_char (s ! (i - 1)))
     \<and> (length s \<le> i + length v \<or> \<not> word_char (s ! (i + length v))))"

definition ContainsVerb :: "string \<Rightarrow> bool" where
  "ContainsVerb s = list_ex (\<lambda>i. list_ex (\<lambda>v. verbAt s v i) verbs) [0..<length s]"

definition WordCount :: "string \<Rightarrow> nat" where
  "WordCount s = length (Fields s)"

section \<open>The classifier\<close>

definition Classify :: "string \<Rightarrow> rat \<times> bool \<times> nat" where
  "Classify s =
     (let n = WordCount s; hasVerb = ContainsVerb s in
      (if hasVerb \<and> 10 \<le> n then 4 / 5 else if 10 \<le> n then 1 / 2 else 1 / 5, hasVerb, n))"

definition ShouldCapture :: "string \<Rightarrow> rat \<Rightarrow> bool" where
  "ShouldCapture s threshold = (case Classify s of (conf, hasVerb, n) \<Rightarrow> hasVerb \<and> 10 \<le> n \<and> threshold \<le> conf)"

definition DefaultThreshold :: rat where "DefaultThreshold = 3 / 5"

definition DefaultDedupeWindow :: int where "DefaultDedupeWindow = 24 * 60 * 60 * 1000000000"

text \<open>\<open>strings.ToLower\<close> followed by the replacement of every rune outside \<open>[a-z0-9 ]\<close>: two
  runes above ASCII have a lower case inside it, the Kelvin sign and the dotted capital I;
  each byte of any other becomes a space.\<close>

definition titleByte :: "char \<Rightarrow> char" where
  "titleByte a = (let c = to_lower a in
     if is_digit c \<or> (97 \<le> (of_char c :: nat) \<and> of_char c \<le> (122 :: nat)) then c else CHR '' '')"

fun titleBytes :: "string \<Rightarrow> string" where
  "titleBytes [] = []"
| "titleBytes (a # s) =
     (if a = CHR 0xE2 \<and> take 2 s = [CHR 0x84, CHR 0xAA] then CHR ''k'' # titleBytes (drop 2 s)
      else if a = CHR 0xC4 \<and> take 1 s = [CHR 0xB0] then CHR ''i'' # titleBytes (drop 1 s)
      else titleByte a # titleBytes s)"

definition re_space :: "char \<Rightarrow> bool" where
  "re_space c = (c = CHR '' '' \<or> c = CHR 0x09 \<or> c = CHR 0x0A \<or> c = CHR 0x0C \<or> c = CHR 0x0D)"

lemma dropWhile_shorter [termination_simp]: "length (dropWhile P s) < Suc (length s)"
  by (simp add: length_dropWhile_le le_imp_less_Suc)

fun collapseSpaces :: "string \<Rightarrow> string" where
  "collapseSpaces [] = []"
| "collapseSpaces (c # s) =
     (if re_space c then CHR '' '' # collapseSpaces (dropWhile re_space s) else c # collapseSpaces s)"

definition NormalizeTitle :: "string \<Rightarrow> string" where
  "NormalizeTitle title = trim_space (collapseSpaces (titleBytes title))"

definition titleKey :: "(string \<Rightarrow> string) \<Rightarrow> string \<Rightarrow> string" where
  "titleKey hash title = hash (NormalizeTitle title)"

text \<open>The difference of two times saturates at the range of a duration.\<close>

definition timeSub :: "int \<Rightarrow> int \<Rightarrow> int" where
  "timeSub now earlier = max (- (2 ^ 63)) (min (2 ^ 63 - 1) (now - earlier))"

definition windowOf :: "int \<Rightarrow> int" where
  "windowOf window = (if window \<le> 0 then DefaultDedupeWindow else window)"

definition IsDuplicate :: "int \<Rightarrow> int \<Rightarrow> int \<Rightarrow> bool" where
  "IsDuplicate earlier now window = (timeSub now earlier \<le> windowOf window)"

record CaptureDecision =
  cd_ShouldCapture :: bool
  cd_Confidence :: rat
  cd_Provenance :: string
  cd_SourcePromptHash :: string
  cd_DedupeKey :: string
  cd_Classifier :: string
  cd_Reason :: string

definition Evaluate :: "(string \<Rightarrow> string) \<Rightarrow> string \<Rightarrow> string \<Rightarrow> rat \<Rightarrow> CaptureDecision" where
  "Evaluate hash prompt title wanted =
     (let threshold = (if wanted = 0 then DefaultThreshold else wanted) in
      case Classify prompt of (conf, hasVerb, n) \<Rightarrow>
        let should = (hasVerb \<and> 10 \<le> n \<and> threshold \<le> conf) in
        \<lparr>cd_ShouldCapture = should, cd_Confidence = conf,
         cd_Provenance = (if should then ProvenanceInferred else ProvenanceHuman),
         cd_SourcePromptHash = hash prompt, cd_DedupeKey = (if title \<noteq> '''' then titleKey hash title else ''''),
         cd_Classifier = ''keyword-heuristic v1'',
         cd_Reason = (if \<not> hasVerb then ''no trigger verb (fix/add/change/decide/update/remove)''
           else if n < 10 then ''too short (<10 words)''
           else if conf < threshold then ''confidence below threshold''
           else ''verb + length + confidence'')\<rparr>)"

section \<open>Similarity\<close>

text \<open>The dynamic program with two rows: row \<open>i\<close> is computed from row \<open>i - 1\<close>, left to right, over
  whatever the other buffer holds.\<close>

definition levCell :: "string \<Rightarrow> string \<Rightarrow> nat list \<Rightarrow> nat \<Rightarrow> nat list \<Rightarrow> nat \<Rightarrow> nat" where
  "levCell a b prev i cur j =
     (let cost = (if a ! (i - 1) \<noteq> b ! (j - 1) then 1 else 0) in
      min (prev ! j + 1) (min (cur ! (j - 1) + 1) (prev ! (j - 1) + cost)))"

definition levRow :: "string \<Rightarrow> string \<Rightarrow> nat list \<Rightarrow> nat list \<Rightarrow> nat \<Rightarrow> nat list" where
  "levRow a b prev cur i = foldl (\<lambda>c j. c[j := levCell a b prev i c j]) (cur[0 := i]) [1..<length b + 1]"

definition levRows :: "string \<Rightarrow> string \<Rightarrow> nat list \<times> nat list" where
  "levRows a b = foldl (\<lambda>(prev, cur) i. (levRow a b prev cur i, prev))
     ([0..<length b + 1], replicate (length b + 1) 0) [1..<length a + 1]"

definition levDistance :: "string \<Rightarrow> string \<Rightarrow> nat" where
  "levDistance a b = fst (levRows a b) ! length b"

definition levenshteinRatio :: "string \<Rightarrow> string \<Rightarrow> rat" where
  "levenshteinRatio a b =
     (if a = b then 1 else if length a = 0 \<or> length b = 0 then 0
      else 1 - of_nat (levDistance a b) / of_nat (max (length a) (length b)))"

definition jaccard :: "string list \<Rightarrow> string list \<Rightarrow> rat" where
  "jaccard ta tb =
     (let setA = remdups ta; setB = remdups tb; inter = length (filter (List.member setB) setA);
          union = length setA + length setB - inter in
      if union = 0 then 0 else of_nat inter / of_nat union)"

definition Similarity :: "string \<Rightarrow> string \<Rightarrow> rat" where
  "Similarity a b =
     (let na = NormalizeTitle a; nb = NormalizeTitle b in
      if na = nb then 1
      else if na = '''' \<or> nb = '''' then 0
      else
        let ta = Fields na; tb = Fields nb; jac = jaccard ta tb; lev = levenshteinRatio na nb in
        if (length ta \<le> 2 \<or> length tb \<le> 2) \<and> jac < lev then lev else jac)"

definition IsSimilar :: "string \<Rightarrow> string \<Rightarrow> bool" where
  "IsSimilar a b = (4 / 5 \<le> Similarity a b)"

section \<open>Duplicate drafts\<close>

definition daysBefore :: "int \<Rightarrow> int \<Rightarrow> int" where
  "daysBefore y m = 365 * y + (y + 3) div 4 - (y + 99) div 100 + (y + 399) div 400
     + sum_list (map (days_in_month y) [1..m - 1]) - 719528"

definition stampTime :: "string \<Rightarrow> int option" where
  "stampTime s =
     (let hh = take 2 (drop 11 s); mm = take 2 (drop 14 s); ss = take 2 (drop 17 s) in
      if length s = 20 \<and> validDate (take 10 s) \<and> s ! 10 = CHR ''T'' \<and> s ! 13 = colon \<and> s ! 16 = colon \<and> s ! 19 = CHR ''Z''
        \<and> list_all is_digit (hh @ mm @ ss) \<and> decimal hh < 24 \<and> decimal mm < 60 \<and> decimal ss < 60
      then Some (1000000000 * (86400 * (daysBefore (decimal (take 4 s)) (decimal (take 2 (drop 5 s))) + decimal (take 2 (drop 8 s)) - 1)
        + 3600 * decimal hh + 60 * decimal mm + decimal ss))
      else None)"

definition recentDraft :: "int \<Rightarrow> int \<Rightarrow> Draft \<Rightarrow> bool" where
  "recentDraft window now d = (if dr_Updated d = '''' then True
     else case stampTime (dr_Updated d) of Some t \<Rightarrow> IsDuplicate t now window | None \<Rightarrow> True)"

definition DedupeCheck :: "draftContext \<Rightarrow> draft_tree \<Rightarrow> string \<Rightarrow> string \<Rightarrow> int \<Rightarrow> int \<Rightarrow> Draft option" where
  "DedupeCheck x tree project dedupeKey window now =
     (if dedupeKey = '''' then None
      else find (\<lambda>d. case scanAt x tree (dr_Project d) (dr_Path d) of
          Inr (Some a) \<Rightarrow> DedupeKey (Capture a) = dedupeKey \<and> recentDraft (windowOf window) now d
        | _ \<Rightarrow> False) (Drafts x tree project))"

definition DedupeCheckByTitle ::
  "draftContext \<Rightarrow> (string \<Rightarrow> string) \<Rightarrow> draft_tree \<Rightarrow> string \<Rightarrow> string \<Rightarrow> int \<Rightarrow> int \<Rightarrow> Draft option" where
  "DedupeCheckByTitle x hash tree project title window now =
     (if title = '''' then None
      else find (\<lambda>d. case scanAt x tree (dr_Project d) (dr_Path d) of
          Inr (Some a) \<Rightarrow>
            (if DedupeKey (Capture a) \<noteq> '''' \<and> DedupeKey (Capture a) = titleKey hash title then recentDraft (windowOf window) now d
             else IsSimilar (NormalizeTitle title) (NormalizeTitle (dr_ID d)) \<and> recentDraft (windowOf window) now d)
        | _ \<Rightarrow> False) (Drafts x tree project))"

section \<open>The dynamic program computes the edit distance\<close>

text \<open>An edit script of a given cost: keep, replace, delete and insert one byte at a time.\<close>

inductive edits :: "nat \<Rightarrow> 'a list \<Rightarrow> 'a list \<Rightarrow> bool" where
  edits_nil: "edits 0 [] []"
| edits_keep: "edits n xs ys \<Longrightarrow> edits n (x # xs) (x # ys)"
| edits_replace: "edits n xs ys \<Longrightarrow> edits (Suc n) (x # xs) (y # ys)"
| edits_delete: "edits n xs ys \<Longrightarrow> edits (Suc n) (x # xs) ys"
| edits_insert: "edits n xs ys \<Longrightarrow> edits (Suc n) xs (y # ys)"

lemma edits_append: "edits m xs ys \<Longrightarrow> edits n us vs \<Longrightarrow> edits (m + n) (xs @ us) (ys @ vs)"
  by (induction rule: edits.induct) (auto intro: edits.intros)

lemma edits_rev: "edits n xs ys \<Longrightarrow> edits n (rev xs) (rev ys)"
proof (induction rule: edits.induct)
  case (edits_keep n xs ys x)
  then show ?case using edits_append [OF edits_keep.IH edits.edits_keep [OF edits.edits_nil, of x]] by simp
next
  case (edits_replace n xs ys x y)
  then show ?case using edits_append [OF edits_replace.IH edits.edits_replace [OF edits.edits_nil, of x y]] by simp
next
  case (edits_delete n xs ys x)
  then show ?case using edits_append [OF edits_delete.IH edits.edits_delete [OF edits.edits_nil, of x]] by simp
next
  case (edits_insert n xs ys y)
  then show ?case using edits_append [OF edits_insert.IH edits.edits_insert [OF edits.edits_nil, of y]] by simp
qed (simp add: edits_nil)

lemma edits_sym: "edits n xs ys \<Longrightarrow> edits n ys xs"
  by (induction rule: edits.induct) (auto intro: edits.intros)

lemma edits_zero: "edits n xs ys \<Longrightarrow> n = 0 \<Longrightarrow> xs = ys"
  by (induction rule: edits.induct) auto

lemma edits_bound: "edits (max (length xs) (length ys)) xs ys"
proof (induction xs arbitrary: ys)
  case Nil
  show ?case by (induction ys) (auto intro: edits.intros)
next
  case (Cons x xs)
  show ?case
  proof (cases ys)
    case Nil
    have "edits (length zs) zs []" for zs :: "'a list" by (induction zs) (auto intro: edits.intros)
    from this [of "x # xs"] show ?thesis by (simp add: Nil)
  qed (use Cons in \<open>auto intro: edits_replace\<close>)
qed

text \<open>The distance by recursion from the front.\<close>

fun ed :: "'a list \<Rightarrow> 'a list \<Rightarrow> nat" where
  "ed [] ys = length ys"
| "ed (x # xs) [] = Suc (length xs)"
| "ed (x # xs) (y # ys) = min (ed xs (y # ys) + 1) (min (ed (x # xs) ys + 1) (ed xs ys + (if x \<noteq> y then 1 else 0)))"

lemma ed_edits: "edits (ed xs ys) xs ys"
proof (induction xs ys rule: ed.induct)
  case (1 ys)
  show ?case by (induction ys) (auto intro: edits.intros)
next
  case (2 x xs)
  have "edits (length xs) xs []" by (induction xs) (auto intro: edits.intros)
  then show ?case by (auto intro: edits_delete)
next
  case (3 x xs y ys)
  have "edits (ed xs ys + (if x \<noteq> y then 1 else 0)) (x # xs) (y # ys)"
    using 3(3) by (auto intro: edits_keep edits_replace)
  moreover have "edits (ed xs (y # ys) + 1) (x # xs) (y # ys)" "edits (ed (x # xs) ys + 1) (x # xs) (y # ys)"
    using 3(1,2) by (auto intro: edits_delete edits_insert)
  ultimately show ?case unfolding ed.simps min_def by (auto split: if_splits)
qed

lemma ed_least: "edits n xs ys \<Longrightarrow> ed xs ys \<le> n"
proof (induction rule: edits.induct)
  case (edits_delete n xs ys x)
  have "ed xs [] = length xs" for xs :: "'a list" by (cases xs) auto
  then show ?case using edits_delete by (cases ys) auto
next
  case (edits_insert n xs ys y)
  then show ?case by (cases xs) auto
qed auto

lemma ed_rev: "ed (rev xs) (rev ys) = ed xs ys"
  using ed_least [OF edits_rev [OF ed_edits [of xs ys]]] ed_least [OF edits_rev [OF ed_edits [of "rev xs" "rev ys"]]] by simp

lemma ed_Least: "ed xs ys = (LEAST n. edits n xs ys)"
  by (metis Least_equality ed_edits ed_least)

definition prefixDistance :: "string \<Rightarrow> string \<Rightarrow> nat \<Rightarrow> nat \<Rightarrow> nat" where
  "prefixDistance a b i j = ed (rev (take i a)) (rev (take j b))"

lemma prefixDistance_cell:
  assumes "1 \<le> i" "i \<le> length a" "1 \<le> j" "j \<le> length b"
  shows "prefixDistance a b i j = min (prefixDistance a b (i - 1) j + 1) (min (prefixDistance a b i (j - 1) + 1)
    (prefixDistance a b (i - 1) (j - 1) + (if a ! (i - 1) \<noteq> b ! (j - 1) then 1 else 0)))"
proof -
  have "rev (take i a) = a ! (i - 1) # rev (take (i - 1) a)" "rev (take j b) = b ! (j - 1) # rev (take (j - 1) b)"
    using assms take_Suc_conv_app_nth [of "i - 1" a] take_Suc_conv_app_nth [of "j - 1" b] by simp_all
  then show ?thesis unfolding prefixDistance_def by (simp only: ed.simps)
qed

definition isRow :: "string \<Rightarrow> string \<Rightarrow> nat \<Rightarrow> nat list \<Rightarrow> bool" where
  "isRow a b i row \<longleftrightarrow> length row = length b + 1 \<and> (\<forall>j \<le> length b. row ! j = prefixDistance a b i j)"

lemma levRow_correct:
  assumes prev: "isRow a b (i - 1) prev" and cur: "length cur = length b + 1" and i: "1 \<le> i" "i \<le> length a"
  shows "isRow a b i (levRow a b prev cur i)"
proof -
  have start: "prefixDistance a b i 0 = i"
    using i by (cases "rev (take i a)") (auto simp: prefixDistance_def dest: arg_cong [where f = length])
  have "length c = length b + 1 \<and> (\<forall>j < m. c ! j = prefixDistance a b i j)"
    if "c = foldl (\<lambda>c j. c[j := levCell a b prev i c j]) (cur[0 := i]) [1..<m]" "1 \<le> m" "m \<le> length b + 1" for m c
    using that
  proof (induction m arbitrary: c)
    case (Suc m)
    show ?case
    proof (cases "m = 0")
      case True
      then show ?thesis using Suc.prems start cur by simp
    next
      case False
      let ?c = "foldl (\<lambda>c j. c[j := levCell a b prev i c j]) (cur[0 := i]) [1..<m]"
      have c: "length ?c = length b + 1" "\<And>j. j < m \<Longrightarrow> ?c ! j = prefixDistance a b i j"
        using Suc.IH [OF refl] Suc.prems False by auto
      have "c = ?c[m := levCell a b prev i ?c m]" using Suc.prems(1) False by simp
      moreover have "levCell a b prev i ?c m = prefixDistance a b i m"
      proof -
        have p: "prev ! m = prefixDistance a b (i - 1) m" "prev ! (m - 1) = prefixDistance a b (i - 1) (m - 1)"
          using prev Suc.prems(3) by (simp_all add: isRow_def)
        have q: "?c ! (m - 1) = prefixDistance a b i (m - 1)" using c(2) [of "m - 1"] False by simp
        have m: "1 \<le> m" "m \<le> length b" using False Suc.prems(3) by simp_all
        have "levCell a b prev i row m = prefixDistance a b i m" if "row ! (m - 1) = prefixDistance a b i (m - 1)" for row
          unfolding levCell_def Let_def p that by (rule prefixDistance_cell [OF i m, symmetric])
        then show ?thesis using q .
      qed
      ultimately have row: "c = ?c[m := prefixDistance a b i m]" by simp
      have "length row = length b + 1 \<and> (\<forall>j<Suc m. row ! j = prefixDistance a b i j)"
        if "length old = length b + 1" "\<And>j. j < m \<Longrightarrow> old ! j = prefixDistance a b i j" "row = old[m := prefixDistance a b i m]" for old row
      proof -
        have "m < length old" using that(1) Suc.prems(3) by simp
        then show ?thesis using that by (auto elim!: less_SucE)
      qed
      from this [OF c row] show ?thesis .
    qed
  qed simp
  from this [OF refl, of "length b + 1"] show ?thesis unfolding isRow_def levRow_def by (auto simp: less_Suc_eq_le)
qed

lemma levRows_correct:
  assumes "m \<le> length a"
  shows "case foldl (\<lambda>(prev, cur) i. (levRow a b prev cur i, prev)) ([0..<length b + 1], replicate (length b + 1) 0) [1..<m + 1]
     of (prev, cur) \<Rightarrow> isRow a b m prev \<and> length cur = length b + 1"
  using assms
proof (induction m)
  case 0
  have "prefixDistance a b 0 j = j" if "j \<le> length b" for j using that by (simp add: prefixDistance_def)
  then have "isRow a b 0 [0..<length b + 1]" by (simp add: isRow_def less_Suc_eq_le del: upt_Suc)
  then show ?case by simp
next
  case (Suc m)
  let ?run = "foldl (\<lambda>(prev, cur) i. (levRow a b prev cur i, prev)) ([0..<length b + 1], replicate (length b + 1) 0) [1..<m + 1]"
  obtain prev cur where r: "?run = (prev, cur)" by fastforce
  have ok: "isRow a b m prev" "length cur = length b + 1" using Suc r by auto
  have "foldl (\<lambda>(prev, cur) i. (levRow a b prev cur i, prev)) ([0..<length b + 1], replicate (length b + 1) 0) [1..<Suc m + 1]
      = (levRow a b prev cur (Suc m), prev)"
    using r by simp
  moreover have "isRow a b (Suc m) (levRow a b prev cur (Suc m))" using levRow_correct [of a b "Suc m" prev cur] ok Suc.prems by simp
  moreover have "length prev = length b + 1" using ok(1) by (simp add: isRow_def)
  ultimately show ?case by simp
qed

lemma levDistance_ed: "levDistance a b = ed a b"
proof -
  obtain prev cur where r: "levRows a b = (prev, cur)" by fastforce
  then have "isRow a b (length a) prev" using levRows_correct [of "length a" a b] by (simp add: levRows_def)
  then show ?thesis using r ed_rev [of a b] by (simp add: levDistance_def isRow_def prefixDistance_def)
qed

text \<open>C28: The two-row program computes the edit distance: its result is the cost of a script of
  single-byte replacements, deletions and insertions from one title to the other, and the
  least such cost.\<close>
theorem levenshtein_exact:
  "levDistance a b = (LEAST n. edits n a b) \<and> edits (levDistance a b) a b"
  unfolding levDistance_ed by (rule conjI [OF ed_Least ed_edits])

section \<open>Similarity\<close>

lemma ed_sym: "ed a b = ed b a"
  using ed_least [OF edits_sym [OF ed_edits]] by (metis le_antisym)

lemma ed_zero: "ed a b = 0 \<longleftrightarrow> a = b"
proof
  assume "ed a b = 0"
  then show "a = b" using edits_zero [OF ed_edits [of a b]] by simp
next
  have "edits 0 b b" by (induction b) (auto intro: edits.intros)
  moreover assume "a = b"
  ultimately show "ed a b = 0" using ed_least by fastforce
qed

lemma levenshteinRatio_laws:
  "levenshteinRatio a b = levenshteinRatio b a" "0 \<le> levenshteinRatio a b" "levenshteinRatio a b \<le> 1"
  "levenshteinRatio a b = 1 \<longleftrightarrow> a = b"
proof -
  show "levenshteinRatio a b = levenshteinRatio b a"
    by (auto simp: levenshteinRatio_def levDistance_ed ed_sym [of a b] max.commute)
  have "ed a b \<le> max (length a) (length b)" by (rule ed_least [OF edits_bound])
  then have "(of_nat (ed a b) :: rat) \<le> of_nat (max (length a) (length b))" by (rule of_nat_mono)
  then show "0 \<le> levenshteinRatio a b" by (auto simp: levenshteinRatio_def levDistance_ed divide_simps)
  show "levenshteinRatio a b \<le> 1" by (auto simp: levenshteinRatio_def)
  show "levenshteinRatio a b = 1 \<longleftrightarrow> a = b"
    using ed_zero [of a b] by (auto simp: levenshteinRatio_def levDistance_ed)
qed

lemma inter_card: "length (filter (List.member (remdups tb)) (remdups ta)) = card (set ta \<inter> set tb)"
proof -
  have "length (filter (List.member (remdups tb)) (remdups ta)) = card (set (filter (List.member (remdups tb)) (remdups ta)))"
    by (rule distinct_card [symmetric]) simp
  also have "set (filter (List.member (remdups tb)) (remdups ta)) = set ta \<inter> set tb" by auto
  finally show ?thesis .
qed

lemma jaccard_card: "jaccard ta tb = (if set ta \<union> set tb = {} then 0
    else of_nat (card (set ta \<inter> set tb)) / of_nat (card (set ta \<union> set tb)))"
proof -
  have u: "card (set ta) + card (set tb) - card (set ta \<inter> set tb) = card (set ta \<union> set tb)"
    using card_Un_Int [of "set ta" "set tb"] by simp
  have "card (set ta \<union> set tb) = 0 \<longleftrightarrow> set ta \<union> set tb = {}" by (rule card_0_eq) simp
  then show ?thesis unfolding jaccard_def Let_def inter_card length_remdups_card_conv u by simp
qed

lemma jaccard_laws:
  "jaccard ta tb = jaccard tb ta" "0 \<le> jaccard ta tb" "jaccard ta tb \<le> 1"
  "ta \<noteq> [] \<Longrightarrow> jaccard ta tb = 1 \<longleftrightarrow> set ta = set tb"
proof -
  show "jaccard ta tb = jaccard tb ta" by (simp add: jaccard_card Int_commute Un_commute)
  show "0 \<le> jaccard ta tb" by (simp add: jaccard_card)
  have le: "card (set ta \<inter> set tb) \<le> card (set ta \<union> set tb)" by (rule card_mono) auto
  then show "jaccard ta tb \<le> 1" by (simp add: jaccard_card divide_simps)
  assume ne: "ta \<noteq> []"
  then have pos: "card (set ta \<union> set tb) \<noteq> 0" by simp
  have "card (set ta \<inter> set tb) = card (set ta \<union> set tb) \<longleftrightarrow> set ta \<inter> set tb = set ta \<union> set tb"
    using card_subset_eq [of "set ta \<union> set tb" "set ta \<inter> set tb"] by auto
  then show "jaccard ta tb = 1 \<longleftrightarrow> set ta = set tb" using pos ne by (auto simp: jaccard_card)
qed

definition title_char :: "char \<Rightarrow> bool" where
  "title_char c = (is_digit c \<or> (97 \<le> (of_char c :: nat) \<and> of_char c \<le> (122 :: nat)) \<or> c = CHR '' '')"

lemma titleBytes_chars: "list_all title_char (titleBytes s)"
  by (induction s rule: titleBytes.induct) (auto simp: title_char_def titleByte_def Let_def)

lemma collapse_chars: "list_all title_char s \<Longrightarrow> list_all title_char (collapseSpaces s)"
proof (induction s rule: collapseSpaces.induct)
  case (2 c s)
  have "list_all title_char (dropWhile re_space s)"
    using 2(3) set_dropWhileD [of _ re_space s] by (auto simp: list_all_iff)
  moreover have "title_char (CHR '' '')" by (simp add: title_char_def)
  ultimately show ?case using 2 by simp
qed simp

lemma normalized_chars: "list_all title_char (NormalizeTitle s)"
  using collapse_chars [OF titleBytes_chars [of s]] set_trim_space by (auto simp: NormalizeTitle_def list_all_iff)

lemma title_char_narrow: "title_char a \<Longrightarrow> \<not> space2 a b \<and> \<not> space3 a b c"
  by (auto simp: title_char_def space2_def space3_def is_digit_def)

lemma goFields_nothing: "list_all title_char s \<Longrightarrow> goFields cur s = [] \<Longrightarrow> cur = [] \<and> list_all space1 s"
  by (induction cur s rule: goFields.induct) (auto simp: title_char_narrow flushWord_def split: if_splits)

lemma trim_spaces: "list_all space1 s \<Longrightarrow> trim_space s = []"
proof -
  have "list_all space1 s \<Longrightarrow> trim_front s2 s3 s = []" for s2 s3
    by (induction s2 s3 s rule: trim_front.induct) auto
  then show "list_all space1 s \<Longrightarrow> trim_space s = []" by (simp add: trim_space_def trim_left_def trim_right_def)
qed

lemma normalized_words: "Fields (NormalizeTitle s) = [] \<longleftrightarrow> NormalizeTitle s = []"
proof
  assume "Fields (NormalizeTitle s) = []"
  then have "trim_space (NormalizeTitle s) = []"
    using goFields_nothing [OF normalized_chars] trim_spaces by (simp add: Fields_def)
  then show "NormalizeTitle s = []" by (simp add: NormalizeTitle_def)
qed (simp add: Fields_def flushWord_def)

text \<open>The similarity of titles is symmetric and lies between 0 and 1, and it is 1 exactly when
  the two normalized titles have the same set of words.\<close>
theorem similarity_laws:
  "Similarity a b = Similarity b a \<and> 0 \<le> Similarity a b \<and> Similarity a b \<le> 1
   \<and> (Similarity a b = 1 \<longleftrightarrow> set (Fields (NormalizeTitle a)) = set (Fields (NormalizeTitle b)))"
proof -
  let ?a = "NormalizeTitle a" and ?b = "NormalizeTitle b"
  note l = levenshteinRatio_laws [of ?a ?b] and j = jaccard_laws [of "Fields ?a" "Fields ?b"]
  have one: "Similarity a b = 1 \<longleftrightarrow> set (Fields ?a) = set (Fields ?b)"
  proof (cases "?a = ?b \<or> ?a = [] \<or> ?b = []")
    case True
    then show ?thesis using normalized_words [of a] normalized_words [of b] by (auto simp: Similarity_def Let_def)
  next
    case False
    then have "Fields ?a \<noteq> []" using normalized_words [of a] by simp
    note eq = j(4) [OF this]
    show ?thesis
    proof (cases "(length (Fields ?a) \<le> 2 \<or> length (Fields ?b) \<le> 2) \<and> jaccard (Fields ?a) (Fields ?b) < levenshteinRatio ?a ?b")
      case True
      then have "jaccard (Fields ?a) (Fields ?b) \<noteq> 1" "levenshteinRatio ?a ?b \<noteq> 1" using l(3,4) False by auto
      then show ?thesis using True False eq by (simp add: Similarity_def Let_def)
    qed (use False eq in \<open>auto simp: Similarity_def Let_def\<close>)
  qed
  have "Similarity a b = Similarity b a"
    using l(1) j(1) by (auto simp: Similarity_def Let_def)
  moreover have "0 \<le> Similarity a b \<and> Similarity a b \<le> 1"
    using l(2,3) j(2,3) by (simp add: Similarity_def Let_def)
  ultimately show ?thesis using one by blast
qed

section \<open>Verdicts and gaps\<close>

lemma evaluate_verdict:
  "cd_ShouldCapture (Evaluate hash prompt title wanted) \<longleftrightarrow>
     ContainsVerb prompt \<and> 10 \<le> WordCount prompt \<and> wanted \<le> 4 / 5"
  by (simp add: Evaluate_def Classify_def DefaultThreshold_def Let_def)

text \<open>A title without a letter or digit of ASCII normalizes to the empty string, so all such titles
  share one key.  The titles are the UTF-8 bytes of two Japanese words.\<close>

lemma foreign_titles_collide:
  "titleKey hash [CHR 0xE6, CHR 0x97, CHR 0xA5, CHR 0xE6, CHR 0x9C, CHR 0xAC] =
   titleKey hash [CHR 0xE8, CHR 0xAA, CHR 0x9E]"
proof -
  have "NormalizeTitle [CHR 0xE6, CHR 0x97, CHR 0xA5, CHR 0xE6, CHR 0x9C, CHR 0xAC] = NormalizeTitle [CHR 0xE8, CHR 0xAA, CHR 0x9E]"
    by code_simp
  then show ?thesis by (simp add: titleKey_def)
qed

lemma comment_example_not_similar: "Similarity ''fix login bug'' ''fix login bugs'' = 1 / 2"
proof -
  have "NormalizeTitle ''fix login bug'' = ''fix login bug''" "NormalizeTitle ''fix login bugs'' = ''fix login bugs''"
    "Fields ''fix login bug'' = [''fix'', ''login'', ''bug'']" "Fields ''fix login bugs'' = [''fix'', ''login'', ''bugs'']"
    by code_simp+
  then show ?thesis by (simp add: Similarity_def jaccard_def Let_def)
qed

end
