(* ===== verification/Runtime_Relate.thy ===== *)
theory Runtime_Relate
  imports Runtime_Publish Store_Integrity
begin

text \<open>
  Adding relationships to an artifact line (\<open>runtime/relate.go\<close>): a published line keeps its
  instance version and revision and has its reference moved to a new payload; a line with
  only a draft has the relationships of the draft file rewritten.  The namespace the
  workspace registers for the repository is an argument.
\<close>

datatype relate_error =
    RelateInvalidTarget string ref_error
  | RelateVersioned string
  | NoRelationships
  | RelateForeign string string
  | NoNamespaceHere
  | RelateReadFailure
  | UnknownRelationship string
  | EmptyRelationTarget
  | MalformedReference string string ref_error
  | SelfReference string string
  | RelateRefused string "publish_msg report"
  | ReferenceMissing string
  | RelatePersist string store_error
  | NothingToRelate string
  | RelateDraft draft_error
  | MarkdownDraft string string
  | RelateUnclassified scan_error
  | RelateNotArtifact string
  | RelateNamespace string string
  | RelateNotJSON string
  | RelateUnwritable string

record RelateResult =
  rr_Target :: string
  rr_State :: string
  rr_InstanceVersion :: int
  rr_ObjectHash :: string
  rr_Added :: "Relationship list"
  rr_Validation :: "(DraftRef \<times> publish_msg report) option"

section \<open>Edges\<close>

text \<open>The first violation of the structural checks.\<close>

fun checkRelateEdges :: "string \<Rightarrow> string \<Rightarrow> string \<Rightarrow> int \<Rightarrow> bool \<Rightarrow> Relationship list \<Rightarrow> relate_error option" where
  "checkRelateEdges ns t i version draft [] = None"
| "checkRelateEdges ns t i version draft (rel # rels) =
     (if \<not> List.member relationshipFields (rel_Type rel) then Some (UnknownRelationship (rel_Type rel))
      else if trim_space (rel_Target rel) = '''' then Some EmptyRelationTarget
      else case parseReference (rel_Target rel) ns t of
          Inl e \<Rightarrow> Some (MalformedReference (rel_Target rel) (rel_Type rel) e)
        | Inr r \<Rightarrow>
            if ref_Namespace r = ns \<and> ref_Type r = t \<and> ref_ID r = i
               \<and> (draft \<or> \<not> ref_HasVersion r \<or> ref_Version r = version)
            then Some (SelfReference (rel_Target rel) (rel_Type rel))
            else checkRelateEdges ns t i version draft rels)"

text \<open>The two loops of the merge over the edges seen so far; the second also collects what it
  adds.\<close>

fun keepEdges :: "Relationship list \<Rightarrow> Relationship list \<Rightarrow> Relationship list" where
  "keepEdges edges [] = edges"
| "keepEdges edges (rel # rels) = keepEdges (if List.member edges rel then edges else edges @ [rel]) rels"

fun addEdges :: "Relationship list \<Rightarrow> Relationship list \<Rightarrow> Relationship list \<Rightarrow> Relationship list \<times> Relationship list" where
  "addEdges edges added [] = (edges, added)"
| "addEdges edges added (rel # rels) =
     (let k = rel\<lparr>rel_Target := trim_space (rel_Target rel)\<rparr> in
      if rel_Target k = '''' \<or> List.member edges k then addEdges edges added rels
      else addEdges (edges @ [k]) (added @ [k]) rels)"

definition relKey :: "Relationship \<Rightarrow> string \<times> string" where
  "relKey rel = (rel_Type rel, rel_Target rel)"

definition mergeRelationships :: "Relationship list \<Rightarrow> Relationship list \<Rightarrow> Relationship list \<times> Relationship list" where
  "mergeRelationships existing adds =
     (case addEdges (keepEdges [] existing) [] adds of (edges, added) \<Rightarrow> (sort_key relKey edges, added))"

section \<open>A published line\<close>

definition relatedUnit :: "string \<Rightarrow> Unit \<Rightarrow> Relationship list \<Rightarrow> Unit" where
  "relatedUnit today u merged = u\<lparr>u_Relationships := merged, u_Updated := today\<rparr>"

definition relateReport :: "draftContext \<Rightarrow> db \<Rightarrow> Unit \<Rightarrow> publish_msg report" where
  "relateReport x d u =
     (let a = ToArtifact (x_fields (dx_store x)) u;
          r = ValidateCKO (dx_render x) a (Some (storeResolve (dx_store x) d)) None in
      \<lparr>rep_FilesScanned = rep_FilesScanned r, rep_Artifacts = rep_Artifacts r, rep_Skipped = rep_Skipped r,
       rep_Results = map (retag RuleFinding) (rep_Results r)
         @ resolverFindings (dx_store x) d (consulted a) (u_CanonicalIdentityForm u) (sv_ContentState (u_StateVector u))\<rparr>)"

definition relatedRef :: "Ref \<Rightarrow> Unit \<Rightarrow> Ref" where
  "relatedRef cur u = \<lparr>r_Form = u_CanonicalIdentityForm u, r_ObjectHash = '''', r_ProjectID = r_ProjectID cur,
     r_SourceRepo = r_SourceRepo cur, r_Namespace = id_Namespace (u_Identity u), r_Type = id_Type (u_Identity u),
     r_ID = id_ID (u_Identity u), r_InstanceVersion = id_InstanceVersion (u_Identity u), r_Revision = u_Revision u,
     r_Dimension = cl_Dimension (u_Classification u), r_Domain = cl_Domain (u_Classification u), r_Phase = u_Phase u,
     r_UpdatedAt = u_Updated u\<rparr>"

definition relatePublished ::
  "draftContext \<Rightarrow> workspaceState \<Rightarrow> reference \<Rightarrow> Unit \<Rightarrow> Relationship list \<Rightarrow> (relate_error + RelateResult) \<times> workspaceState" where
  "relatePublished x ws r current adds =
     (let i = u_Identity current; c = dx_store x in
      case checkRelateEdges (id_Namespace i) (id_Type i) (id_ID i) (id_InstanceVersion i) False adds of
        Some e \<Rightarrow> (Inl e, ws)
      | None \<Rightarrow> (case mergeRelationships (u_Relationships current) adds of (merged, added) \<Rightarrow>
          if added = [] then
            (Inr \<lparr>rr_Target = refLine r, rr_State = ''unchanged'', rr_InstanceVersion = id_InstanceVersion i,
               rr_ObjectHash = '''', rr_Added = [], rr_Validation = None\<rparr>, ws)
          else
            let u = relatedUnit (x_today c) current merged; report = relateReport x (ws_db ws) u in
            if \<not> Pass report then (Inl (RelateRefused (refLine r) report), ws)
            else (case Ref_of (ws_db ws) (u_CanonicalIdentityForm current) of
                None \<Rightarrow> (Inl (ReferenceMissing (u_CanonicalIdentityForm current)), ws)
              | Some cur \<Rightarrow>
                  (case RepointUnit (x_hash c) (x_now c) (ws_db ws) (x_marshal c u) (u_ContentPayload u) (relatedRef cur u) of
                     Inl e \<Rightarrow> (Inl (RelatePersist (u_CanonicalIdentityForm u) e), ws)
                   | Inr (d, hash, kept) \<Rightarrow>
                       (Inr \<lparr>rr_Target = refLine r, rr_State = ''published'', rr_InstanceVersion = id_InstanceVersion (u_Identity u),
                          rr_ObjectHash = hash, rr_Added = added, rr_Validation = None\<rparr>, ws\<lparr>ws_db := d\<rparr>)))))"

section \<open>A pending draft\<close>

definition rewrittenRelations :: "Relationship list \<Rightarrow> gvalue gomap" where
  "rewrittenRelations merged = List.map_filter (\<lambda>field.
     let targets = map rel_Target (filter (\<lambda>rel. rel_Type rel = field) merged) in
     if targets = [] then None else Some (StateKeyCamel field, GList (map GString targets))) relationshipFields"

definition rewrittenDocument :: "gvalue gomap \<Rightarrow> Relationship list \<Rightarrow> gvalue gomap" where
  "rewrittenDocument doc merged =
     (if rewrittenRelations merged \<noteq> [] then putKey doc ''relationships'' (GMap (rewrittenRelations merged))
      else filter (\<lambda>p. fst p \<noteq> ''relationships'') doc)"

definition rewriteDraftRelationships ::
  "draftContext \<Rightarrow> draft_tree \<Rightarrow> DraftRef \<Rightarrow> Relationship list \<Rightarrow> relate_error + draft_tree" where
  "rewriteDraftRelationships x tree df merged = (case dec_json (dx_decoding x) (fl_Contents (df_File df)) of
       None \<Rightarrow> Inl (RelateNotJSON (df_Path df))
     | Some doc \<Rightarrow>
         if dx_overwriteRefused x (df_Path df) then Inl (RelateUnwritable (df_Path df))
         else Inr (writeDraft tree (df_Project df) (fl_Name (df_File df)) (dx_encode x (rewrittenDocument doc merged))
           (x_now (dx_store x))))"

definition draftEdges :: "Artifact \<Rightarrow> Relationship list" where
  "draftEdges a = concat (map (\<lambda>field. map (\<lambda>raw. \<lparr>rel_Type = field, rel_Target = raw\<rparr>) (relation_of a field)) relationshipFields)"

definition relateDraft ::
  "draftContext \<Rightarrow> workspaceState \<Rightarrow> reference \<Rightarrow> Relationship list \<Rightarrow> (relate_error + RelateResult) \<times> workspaceState" where
  "relateDraft x ws r adds = (case resolveDraftFile x (ws_drafts ws) '''' (ref_Type r) (ref_ID r) of
       Inl e \<Rightarrow> (Inl (case e of DraftNotFound t p \<Rightarrow> NothingToRelate (refLine r) | _ \<Rightarrow> RelateDraft e), ws)
     | Inr df \<Rightarrow>
         if has_suffix ''.md'' (df_Path df) then (Inl (MarkdownDraft (ref_Type r) (ref_ID r)), ws)
         else (case scanDraft x (df_Project df) (df_File df) of
             Inl e \<Rightarrow> (Inl (RelateUnclassified e), ws)
           | Inr None \<Rightarrow> (Inl (RelateNotArtifact (df_Path df)), ws)
           | Inr (Some a) \<Rightarrow>
               if Namespace a \<noteq> ref_Namespace r then (Inl (RelateNamespace (ref_Namespace r) (Namespace a)), ws)
               else (case checkRelateEdges (Namespace a) (Type a) (ID a) (InstanceVersion a) True adds of
                   Some e \<Rightarrow> (Inl e, ws)
                 | None \<Rightarrow> (case mergeRelationships (draftEdges a) adds of (merged, added) \<Rightarrow>
                     if added = [] then
                       (Inr \<lparr>rr_Target = refLine r, rr_State = ''unchanged'', rr_InstanceVersion = 0,
                          rr_ObjectHash = '''', rr_Added = [], rr_Validation = None\<rparr>, ws)
                     else (case rewriteDraftRelationships x (ws_drafts ws) df merged of
                         Inl e \<Rightarrow> (Inl e, ws)
                       | Inr tree \<Rightarrow>
                           let ws' = ws\<lparr>ws_drafts := tree\<rparr> in
                           (case ValidateDraft x ws' (ref_Type r @ [colon] @ ref_ID r) (df_Project df) of
                              Inl e \<Rightarrow> (Inl (RelateDraft e), ws')
                            | Inr v \<Rightarrow> (Inr \<lparr>rr_Target = refLine r, rr_State = ''draft'', rr_InstanceVersion = 0,
                                rr_ObjectHash = '''', rr_Added = added, rr_Validation = Some v\<rparr>, ws')))))))"

section \<open>The operation\<close>

definition relateNamespace :: "callContext \<Rightarrow> string \<Rightarrow> string option" where
  "relateNamespace c registered =
     (if \<not> x_isRepo c \<or> x_project c = None \<or> x_namespace c = '''' \<and> registered = '''' then None
      else if x_namespace c \<noteq> '''' then Some (x_namespace c) else Some registered)"

definition Relate ::
  "draftContext \<Rightarrow> string \<Rightarrow> workspaceState \<Rightarrow> string \<Rightarrow> Relationship list \<Rightarrow> (relate_error + RelateResult) \<times> workspaceState" where
  "Relate x registered ws target adds = (case parseReference target '''' '''' of
       Inl e \<Rightarrow> (Inl (RelateInvalidTarget target e), ws)
     | Inr r \<Rightarrow>
         let c = dx_store x in
         if ref_HasVersion r then (Inl (RelateVersioned target), ws)
         else if adds = [] then (Inl NoRelationships, ws)
         else if x_isRepo c \<and> ref_Namespace r \<noteq> '''' \<and> ref_Namespace r \<noteq> x_namespace c
           then (Inl (RelateForeign (ref_Namespace r) (x_namespace c)), ws)
         else (case (if ref_Namespace r = '''' then relateNamespace c registered else Some (ref_Namespace r)) of
             None \<Rightarrow> (Inl NoNamespaceHere, ws)
           | Some ns \<Rightarrow>
               let r' = r\<lparr>ref_Namespace := ns\<rparr> in
               (case UnitsByLine (x_decode c) (ws_db ws) ns (ref_Type r) (ref_ID r) of
                  None \<Rightarrow> (Inl RelateReadFailure, ws)
                | Some us \<Rightarrow> (case highest us of
                      Some current \<Rightarrow> relatePublished x ws r' current adds
                    | None \<Rightarrow> relateDraft x ws r' adds))))"

section \<open>The merge\<close>

lemma relKey_inj: "inj relKey"
  by (rule injI) (simp add: relKey_def)

lemma keepEdges_spec: "distinct edges \<Longrightarrow> distinct (keepEdges edges rels) \<and> set (keepEdges edges rels) = set edges \<union> set rels"
  by (induction edges rels rule: keepEdges.induct) auto

text \<open>The requested edges as the merge reads them.\<close>

definition requested :: "Relationship list \<Rightarrow> Relationship list" where
  "requested adds = filter (\<lambda>rel. rel_Target rel \<noteq> '''') (map (\<lambda>rel. rel\<lparr>rel_Target := trim_space (rel_Target rel)\<rparr>) adds)"

lemma requested_simps [simp]:
  "requested [] = []"
  "requested (rel # rels) = (let k = rel\<lparr>rel_Target := trim_space (rel_Target rel)\<rparr> in
     if rel_Target k = '''' then requested rels else k # requested rels)"
  by (simp_all add: requested_def Let_def)

lemma addEdges_spec:
  assumes "addEdges edges added rels = (e, a)" "distinct edges"
  shows "distinct e \<and> set e = set edges \<union> set (requested rels) \<and>
    (\<exists>new. a = added @ new \<and> distinct new \<and> set new = set (requested rels) - set edges)"
  using assms
proof (induction edges added rels arbitrary: e a rule: addEdges.induct)
  case (2 edges added rel rels)
  let ?k = "rel\<lparr>rel_Target := trim_space (rel_Target rel)\<rparr>"
  show ?case
  proof (cases "rel_Target ?k = '''' \<or> List.member edges ?k")
    case True
    then have "addEdges edges added rels = (e, a)" using "2.prems"(1) by (simp add: Let_def)
    from "2.IH"(1) [OF refl True this "2.prems"(2)] True show ?thesis by (auto simp: Let_def)
  next
    case False
    then have r: "addEdges (edges @ [?k]) (added @ [?k]) rels = (e, a)" using "2.prems"(1) by (simp add: Let_def)
    have "distinct (edges @ [?k])" using False "2.prems"(2) by simp
    from "2.IH"(2) [OF refl False r this] obtain new where n: "distinct e" "set e = set (edges @ [?k]) \<union> set (requested rels)"
      "a = (added @ [?k]) @ new" "distinct new" "set new = set (requested rels) - set (edges @ [?k])" by blast
    then have "a = added @ (?k # new) \<and> distinct (?k # new)" by auto
    moreover have "set (?k # new) = set (requested (rel # rels)) - set edges" "set e = set edges \<union> set (requested (rel # rels))"
      using n(2,5) False by (auto simp: Let_def)
    ultimately show ?thesis using n(1) by blast
  qed
qed simp

lemma merge_spec:
  assumes "mergeRelationships es adds = (merged, added)"
  shows "sorted (map relKey merged)" "distinct merged" "set merged = set es \<union> set (requested adds)"
    "distinct added" "set added = set (requested adds) - set es"
proof -
  obtain e where e: "addEdges (keepEdges [] es) [] adds = (e, added)" "merged = sort_key relKey e"
    using assms by (auto simp: mergeRelationships_def split: prod.splits)
  have k: "distinct (keepEdges [] es)" "set (keepEdges [] es) = set es" using keepEdges_spec [of "[]" es] by auto
  note s = addEdges_spec [OF e(1) k(1)]
  show "sorted (map relKey merged)" "distinct merged" using s e(2) by simp_all
  show "set merged = set es \<union> set (requested adds)" "distinct added" "set added = set (requested adds) - set es"
    using s e(2) k(2) by auto
qed

lemma sorted_distinct_unique:
  assumes "sorted (map relKey xs)" "sorted (map relKey ys)" "distinct xs" "distinct ys" "set xs = set ys"
  shows "xs = ys"
proof -
  have i: "inj_on relKey A" for A by (rule inj_on_subset [OF relKey_inj]) simp
  have "map relKey xs = map relKey ys"
    using sorted_distinct_set_unique [of "map relKey xs" "map relKey ys"] assms i by (simp add: distinct_map)
  then show ?thesis using map_injective relKey_inj by blast
qed

text \<open>C9: The relationship merge is set union in canonical form: the result is sorted by type then
  target and free of duplicates, holds exactly the existing edges and the requested ones with
  trimmed non-empty targets, the reported additions are exactly the requested edges that were
  missing, and merging again adds nothing and changes nothing.\<close>
theorem merge_relationships_exact:
  "case mergeRelationships es adds of (merged, added) \<Rightarrow>
     sorted (map relKey merged) \<and> distinct merged \<and> set merged = set es \<union> set (requested adds)
     \<and> distinct added \<and> set added = set (requested adds) - set es
     \<and> mergeRelationships merged adds = (merged, [])"
proof -
  obtain m a where m: "mergeRelationships es adds = (m, a)" by (rule prod.exhaust)
  obtain m' a' where m': "mergeRelationships m adds = (m', a')" by (rule prod.exhaust)
  note s = merge_spec [OF m] and s' = merge_spec [OF m']
  have "set a' = {}" unfolding s'(5) s(3) by blast
  then have "a' = []" by simp
  have "set m' = set m" unfolding s'(3) s(3) by blast
  then have "m' = m" by (rule sorted_distinct_unique [OF s'(1) s(1) s'(2) s(2)])
  with m' \<open>a' = []\<close> have again: "mergeRelationships m adds = (m, [])" by metis
  show ?thesis unfolding m prod.case using s again by metis
qed

text \<open>The additions come in the order of the request, not in canonical order.\<close>

lemma added_in_request_order:
  "(let add = (\<lambda>t. \<lparr>rel_Type = ''depends-on'', rel_Target = t\<rparr>) in
     map rel_Target (snd (mergeRelationships [] [add ''sto:b'', add ''sto:a'']))) = [''sto:b'', ''sto:a'']"
  by code_simp

section \<open>A published edge-add does not churn\<close>

text \<open>Every readable unit carries the canonical form it is stored under.\<close>

definition namedUnits :: "(string \<Rightarrow> Unit option) \<Rightarrow> db \<Rightarrow> bool" where
  "namedUnits dec d = list_all (\<lambda>p. case rowUnit dec d p of None \<Rightarrow> True | Some u \<Rightarrow> u_CanonicalIdentityForm u = fst p) (refs d)"

lemma derivedRef_unit [simp]:
  "derivedRef r (u\<lparr>u_ContentPayload := c\<rparr>) = derivedRef r u" "derivedRef r (u\<lparr>u_Digest := h\<rparr>) = derivedRef r u"
  by (simp_all add: derivedRef_def)

lemma stored_unit:
  assumes "UnitsByLine dec d ns t i = Some us" "u \<in> set us" "clean_store H dec d" "namedUnits dec d"
  obtains row where "map_of (refs d) (u_CanonicalIdentityForm u) = Some row" "derivedRef (row_ref row) u"
    "onLine ns t i (row_ref row)" "r_Form (row_ref row) = u_CanonicalIdentityForm u"
proof -
  obtain form row where row: "(form, row) \<in> set (refs d)" "onLine ns t i (row_ref row)" "rowUnit dec d (form, row) = Some u"
    using assms(1,2) unitsByQuery_mem unfolding UnitsByLine_def by blast
  then obtain p v where p: "map_of (payloads d) (r_ObjectHash (row_ref row)) = Some p" "dec (p_unit p) = Some v"
    "u = v\<lparr>u_ContentPayload := p_content p, u_Digest := r_ObjectHash (row_ref row)\<rparr>" "CanonicalForm (u_Identity u) = form"
    by (auto simp: rowUnit_def decodeUnit_def DecodeUnit_def Payload_def split: option.splits if_splits)
  have "\<exists>p u. map_of (payloads d) (r_ObjectHash (row_ref row)) = Some p \<and> dec (p_unit p) = Some u \<and> derivedRef (row_ref row) u"
    using row(1) assms(3) unfolding clean_store_def refsDerived_def by fastforce
  then have dr: "derivedRef (row_ref row) u" using p by simp
  have f: "u_CanonicalIdentityForm u = form"
    using assms(4) row(1,3) unfolding namedUnits_def list_all_iff by fastforce
  have "map_of (refs d) form = Some row" using row(1) assms(3) by (simp add: clean_store_def wf_db_def)
  moreover have "r_Form (row_ref row) = form" using dr p(4) by (simp add: derivedRef_def)
  ultimately show ?thesis using that [of row] f dr row(2) by simp
qed

text \<open>A row with its reference replaced.\<close>

definition rowMoved :: "string \<Rightarrow> Ref \<Rightarrow> string \<times> ref_row \<Rightarrow> string \<times> ref_row" where
  "rowMoved form r p = (if fst p = form then (form, (snd p)\<lparr>row_ref := r\<rparr>) else p)"

lemma repoint_in_place:
  assumes "RepointUnit H now d u c r = Inr (d', h, kept)" and row: "map_of (refs d) (r_Form r) = Some row"
    and v: "r_InstanceVersion r = r_InstanceVersion (row_ref row)" and wf: "wf_db H d"
    and r: "r = (row_ref row)\<lparr>r_ObjectHash := '''', r_UpdatedAt := today\<rparr>"
  shows "h = hashUnit H u c \<and> has_key (payloads d') h \<and> list_all (\<lambda>(k, p). map_of (payloads d') k = Some p) (payloads d)
    \<and> (\<exists>up. refs d' = map (rowMoved (r_Form r) ((row_ref row)\<lparr>r_ObjectHash := h, r_UpdatedAt := up\<rparr>)) (refs d))"
proof -
  have put: "putUnitTx H now d u c r True = Inr (d', h, kept)" using assms(1) by (simp add: RepointUnit_def)
  have cur: "Ref_of d (r_Form r) = Some (row_ref row)" using row by (simp add: Ref_of_def)
  have "\<not> kept" using put_outcome(1) [OF put] v cur by (simp add: currentVersion_def)
  then have now: "currentHash d' (r_Form r) = h" using put_outcome(2) [OF put] by simp
  have "\<exists>up. refs d' = map (rowMoved (r_Form r) ((row_ref row)\<lparr>r_ObjectHash := h, r_UpdatedAt := up\<rparr>)) (refs d)"
  proof -
    consider (same) "d' = archived H now d u c (currentHash d (r_Form r))"
      | (moved) n where "upsert_ref r h n (NumberGroup (r_Type r)) (archived H now d u c (currentHash d (r_Form r))) = Inr d'"
      using putUnitTx_cases(3) [OF put] by blast
    then show ?thesis
  proof cases
    case d': same
    then have "r_ObjectHash (row_ref row) = h" using now row by (simp add: currentHash_def Ref_of_def)
    then have same: "(row_ref row)\<lparr>r_ObjectHash := h, r_UpdatedAt := r_UpdatedAt (row_ref row)\<rparr> = row_ref row" by simp
    have "rowMoved (r_Form r) (row_ref row) p = p" if "p \<in> set (refs d)" for p
      using map_of_is_SomeI [of "refs d" "fst p" "snd p"] that row wf by (cases p) (auto simp: rowMoved_def wf_db_def simp del: map_of_eq_Some_iff)
    then have "map (rowMoved (r_Form r) (row_ref row)) (refs d) = refs d" by (simp add: map_idI)
    then have "refs d' = map (rowMoved (r_Form r) ((row_ref row)\<lparr>r_ObjectHash := h, r_UpdatedAt := r_UpdatedAt (row_ref row)\<rparr>)) (refs d)"
      unfolding same d' by simp
    then show ?thesis by (rule exI)
  next
    case up: (moved n)
    have "refs d' = map (\<lambda>(f, rw). if f = r_Form r then (f, rw\<lparr>row_ref := r\<lparr>r_ObjectHash := h\<rparr>\<rparr>) else (f, rw)) (refs d)"
      using upsert_old(1) [OF up, of row] row by simp
    also have "\<dots> = map (rowMoved (r_Form r) ((row_ref row)\<lparr>r_ObjectHash := h, r_UpdatedAt := today\<rparr>)) (refs d)"
      by (subst (2) r, rule map_cong) (auto simp: rowMoved_def)
    finally show ?thesis by (rule exI)
  qed
  qed
  moreover have "map_of (payloads d') k = Some p" if "(k, p) \<in> set (payloads d)" for k p
    using put_keeps_payload [OF put, of k p] that wf by (simp add: wf_db_def)
  ultimately show ?thesis using put_archives [OF put] by (auto simp: list_all_iff has_key_iff)
qed

lemma relatePublished_ok:
  assumes "relatePublished x ws r current adds = (Inr res, ws')" "rr_State res = ''published''"
  obtains merged added cur d hash kept where "mergeRelationships (u_Relationships current) adds = (merged, added)" "added \<noteq> []"
    "Pass (relateReport x (ws_db ws) (relatedUnit (x_today (dx_store x)) current merged))"
    "Ref_of (ws_db ws) (u_CanonicalIdentityForm current) = Some cur"
    "RepointUnit (x_hash (dx_store x)) (x_now (dx_store x)) (ws_db ws) (x_marshal (dx_store x) (relatedUnit (x_today (dx_store x)) current merged))
       (u_ContentPayload current) (relatedRef cur (relatedUnit (x_today (dx_store x)) current merged)) = Inr (d, hash, kept)"
    "ws' = ws\<lparr>ws_db := d\<rparr>" "rr_ObjectHash res = hash" "rr_Added res = added" "rr_Target res = refLine r"
    "rr_InstanceVersion res = id_InstanceVersion (u_Identity current)"
proof -
  have "u_ContentPayload (relatedUnit t current m) = u_ContentPayload current" "u_Identity (relatedUnit t current m) = u_Identity current" for t m
    by (simp_all add: relatedUnit_def)
  with assms that show ?thesis
    by (fastforce simp: relatePublished_def Let_def split: option.splits sum.splits prod.splits if_splits)
qed

lemma Relate_published:
  assumes "Relate x reg ws target adds = (Inr res, ws')" "rr_State res = ''published''"
  obtains r us current where "ref_HasVersion r = False" "UnitsByLine (x_decode (dx_store x)) (ws_db ws) (ref_Namespace r) (ref_Type r) (ref_ID r) = Some us"
    "highest us = Some current" "relatePublished x ws r current adds = (Inr res, ws')"
proof -
  have d: "relateDraft x ws r adds \<noteq> (Inr res, ws')" for r
    using assms(2) by (auto simp: relateDraft_def Let_def split: sum.splits option.splits prod.splits if_splits draft_error.splits)
  obtain r0 where p: "parseReference target '''' '''' = Inr r0" using assms(1) by (auto simp: Relate_def split: sum.splits)
  define q where "q = (if ref_Namespace r0 = '''' then relateNamespace (dx_store x) reg else Some (ref_Namespace r0))"
  have "Relate x reg ws target adds = (if ref_HasVersion r0 then (Inl (RelateVersioned target), ws)
      else if adds = [] then (Inl NoRelationships, ws)
      else if x_isRepo (dx_store x) \<and> ref_Namespace r0 \<noteq> '''' \<and> ref_Namespace r0 \<noteq> x_namespace (dx_store x)
        then (Inl (RelateForeign (ref_Namespace r0) (x_namespace (dx_store x))), ws)
      else (case q of None \<Rightarrow> (Inl NoNamespaceHere, ws)
        | Some ns \<Rightarrow> (case UnitsByLine (x_decode (dx_store x)) (ws_db ws) ns (ref_Type r0) (ref_ID r0) of
            None \<Rightarrow> (Inl RelateReadFailure, ws)
          | Some us \<Rightarrow> (case highest us of
                Some current \<Rightarrow> relatePublished x ws (r0\<lparr>ref_Namespace := ns\<rparr>) current adds
              | None \<Rightarrow> relateDraft x ws (r0\<lparr>ref_Namespace := ns\<rparr>) adds))))"
    unfolding Relate_def p q_def Let_def sum.case ..
  with assms(1) obtain ns us where n: "ref_HasVersion r0 = False"
    "UnitsByLine (x_decode (dx_store x)) (ws_db ws) ns (ref_Type r0) (ref_ID r0) = Some us"
    "(case highest us of Some current \<Rightarrow> relatePublished x ws (r0\<lparr>ref_Namespace := ns\<rparr>) current adds
       | None \<Rightarrow> relateDraft x ws (r0\<lparr>ref_Namespace := ns\<rparr>) adds) = (Inr res, ws')"
    by (auto simp del: highest_None split: if_splits option.splits)
  then obtain current where "highest us = Some current" "relatePublished x ws (r0\<lparr>ref_Namespace := ns\<rparr>) current adds = (Inr res, ws')"
    using d by (cases "highest us") auto
  with n(1,2) show ?thesis using that [of "r0\<lparr>ref_Namespace := ns\<rparr>" us current] by simp
qed

text \<open>C8: An edge-add to a published line does not churn.  In a store whose references are derived from
  their payloads, a relate that reports a published result moved one reference, that of the
  highest instance of the line, to a payload archived under the reported hash, whose unit is
  the old one with the merged relationships and the date of the day and passed the gate; the
  instance version, the revision, the provenance and the number stay, only the hash and the
  date of that row change, every other row and every archived payload is as before, and no
  draft is touched.\<close>
theorem relate_no_churn:
  assumes "Relate x reg ws target adds = (Inr res, ws')" and "rr_State res = ''published''"
    and "clean_store (x_hash (dx_store x)) (x_decode (dx_store x)) (ws_db ws)"
    and "namedUnits (x_decode (dx_store x)) (ws_db ws)"
  shows "\<exists>current cur up. let form = rr_Target res @ colon # itoa (rr_InstanceVersion res);
           u = relatedUnit (x_today (dx_store x)) current (fst (mergeRelationships (u_Relationships current) adds)) in
         Ref_of (ws_db ws) form = Some cur \<and> derivedRef cur current \<and> r_InstanceVersion cur = rr_InstanceVersion res
         \<and> list_all (\<lambda>(f, row). onLine (r_Namespace cur) (r_Type cur) (r_ID cur) (row_ref row) \<longrightarrow> r_InstanceVersion (row_ref row) \<le> rr_InstanceVersion res) (refs (ws_db ws))
         \<and> rr_Added res = snd (mergeRelationships (u_Relationships current) adds) \<and> rr_Added res \<noteq> []
         \<and> Pass (relateReport x (ws_db ws) u)
         \<and> rr_ObjectHash res = hashUnit (x_hash (dx_store x)) (x_marshal (dx_store x) u) (u_ContentPayload u)
         \<and> has_key (payloads (ws_db ws')) (rr_ObjectHash res)
         \<and> refs (ws_db ws') = map (rowMoved form (cur\<lparr>r_ObjectHash := rr_ObjectHash res, r_UpdatedAt := up\<rparr>)) (refs (ws_db ws))
         \<and> list_all (\<lambda>(k, p). map_of (payloads (ws_db ws')) k = Some p) (payloads (ws_db ws))
         \<and> ws_drafts ws' = ws_drafts ws"
proof -
  obtain r us current where rel: "UnitsByLine (x_decode (dx_store x)) (ws_db ws) (ref_Namespace r) (ref_Type r) (ref_ID r) = Some us"
    "highest us = Some current" "relatePublished x ws r current adds = (Inr res, ws')"
    by (rule Relate_published [OF assms(1,2)])
  let ?u = "\<lambda>m. relatedUnit (x_today (dx_store x)) current m"
  obtain merged added cur d hash kept where m: "mergeRelationships (u_Relationships current) adds = (merged, added)" "added \<noteq> []"
    and pass: "Pass (relateReport x (ws_db ws) (?u merged))"
    and cur: "Ref_of (ws_db ws) (u_CanonicalIdentityForm current) = Some cur"
    and rp: "RepointUnit (x_hash (dx_store x)) (x_now (dx_store x)) (ws_db ws) (x_marshal (dx_store x) (?u merged))
       (u_ContentPayload current) (relatedRef cur (?u merged)) = Inr (d, hash, kept)"
    and out: "ws' = ws\<lparr>ws_db := d\<rparr>" "rr_ObjectHash res = hash" "rr_Added res = added" "rr_Target res = refLine r"
      "rr_InstanceVersion res = id_InstanceVersion (u_Identity current)"
    by (rule relatePublished_ok [OF rel(3) assms(2)])
  obtain row where row: "map_of (refs (ws_db ws)) (u_CanonicalIdentityForm current) = Some row" "derivedRef (row_ref row) current"
    "onLine (ref_Namespace r) (ref_Type r) (ref_ID r) (row_ref row)" "r_Form (row_ref row) = u_CanonicalIdentityForm current"
    by (rule stored_unit [OF rel(1) highest_Some(1) [OF rel(2)] assms(3,4)])
  have c: "cur = row_ref row" using cur row(1) by (simp add: Ref_of_def)
  have form: "u_CanonicalIdentityForm current = rr_Target res @ colon # itoa (rr_InstanceVersion res)"
    using row out(4,5) by (simp add: derivedRef_def onLine_def refLine_def CanonicalForm_def)
  have ref: "relatedRef cur (?u merged) = cur\<lparr>r_ObjectHash := '''', r_UpdatedAt := x_today (dx_store x)\<rparr>"
    using row(2,4) by (intro Ref.equality) (simp_all add: c relatedRef_def relatedUnit_def derivedRef_def)
  have rf: "r_Form (relatedRef cur (?u merged)) = u_CanonicalIdentityForm current" using row(4) by (simp add: relatedRef_def relatedUnit_def)
  have wf: "wf_db (x_hash (dx_store x)) (ws_db ws)" using assms(3) by (simp add: clean_store_def)
  have ref': "relatedRef cur (?u merged) = (row_ref row)\<lparr>r_ObjectHash := '''', r_UpdatedAt := x_today (dx_store x)\<rparr>"
    using ref by (simp add: c)
  then have mv: "r_InstanceVersion (relatedRef cur (?u merged)) = r_InstanceVersion (row_ref row)" by simp
  note moved = repoint_in_place [OF rp row(1) [folded rf] mv wf ref']
  have high: "r_InstanceVersion (row_ref rw) \<le> rr_InstanceVersion res"
    if "(f, rw) \<in> set (refs (ws_db ws))" "onLine (r_Namespace cur) (r_Type cur) (r_ID cur) (row_ref rw)" for f rw
  proof -
    have line: "onLine (ref_Namespace r) (ref_Type r) (ref_ID r) (row_ref rw)" using that(2) row(3) by (simp add: c onLine_def)
    have "rowUnit (x_decode (dx_store x)) (ws_db ws) (f, rw) \<in> set (map (rowUnit (x_decode (dx_store x)) (ws_db ws))
        (sort_key fst (filter (\<lambda>(form, row). onLine (ref_Namespace r) (ref_Type r) (ref_ID r) (row_ref row)) (refs (ws_db ws)))))"
      using that(1) line by (simp add: image_iff) force
    then have "rowUnit (x_decode (dx_store x)) (ws_db ws) (f, rw) \<noteq> None"
      using rel(1) unfolding UnitsByLine_def unitsByQuery_def those_Some by auto
    then obtain w where w: "rowUnit (x_decode (dx_store x)) (ws_db ws) (f, rw) = Some w" by blast
    then have "w \<in> set us" using unitsByQuery_mem rel(1) that(1) line unfolding UnitsByLine_def by blast
    then have le: "id_InstanceVersion (u_Identity w) \<le> rr_InstanceVersion res" using highest_Some(2) [OF rel(2)] out(5) by simp
    have "derivedRef (row_ref rw) w"
    proof -
      have "\<exists>p u. map_of (payloads (ws_db ws)) (r_ObjectHash (row_ref rw)) = Some p \<and> x_decode (dx_store x) (p_unit p) = Some u \<and> derivedRef (row_ref rw) u"
        using that(1) assms(3) unfolding clean_store_def refsDerived_def by fastforce
      then show ?thesis using w by (auto simp: rowUnit_def decodeUnit_def DecodeUnit_def Payload_def split: if_splits)
    qed
    then show ?thesis using le by (simp add: derivedRef_def)
  qed
  have "list_all (\<lambda>(f, row). onLine (r_Namespace cur) (r_Type cur) (r_ID cur) (row_ref row) \<longrightarrow>
      r_InstanceVersion (row_ref row) \<le> rr_InstanceVersion res) (refs (ws_db ws))"
    unfolding list_all_iff using high by blast
  moreover have "derivedRef cur current" "r_InstanceVersion cur = rr_InstanceVersion res"
    using row(2) out(5) by (simp_all add: c derivedRef_def)
  moreover have "u_ContentPayload (?u merged) = u_ContentPayload current" by (simp add: relatedUnit_def)
  moreover obtain up where "refs d = map (rowMoved (u_CanonicalIdentityForm current) (cur\<lparr>r_ObjectHash := hash, r_UpdatedAt := up\<rparr>)) (refs (ws_db ws))"
    using moved unfolding rf unfolding c by blast
  moreover have "hash = hashUnit (x_hash (dx_store x)) (x_marshal (dx_store x) (?u merged)) (u_ContentPayload current)"
    "has_key (payloads d) hash" "list_all (\<lambda>(k, p). map_of (payloads d) k = Some p) (payloads (ws_db ws))"
    using moved by blast+
  ultimately show ?thesis
    unfolding Let_def form [symmetric]
    by (intro exI [of _ current] exI [of _ cur] exI [of _ up]) (simp add: m cur pass out)
qed

section \<open>Drafts and refusals\<close>

lemma writeDraft_names: "map (\<lambda>(p, fs). (p, map fl_Name fs)) (writeDraft tree project nm body now) = map (\<lambda>(p, fs). (p, map fl_Name fs)) tree"
  by (auto simp: writeDraft_def)

lemma relateDraft_ok:
  assumes "relateDraft x ws r adds = (Inr res, ws')"
  shows "rr_State res = ''unchanged'' \<and> ws' = ws \<or> (\<exists>df a body v. resolveDraftFile x (ws_drafts ws) '''' (ref_Type r) (ref_ID r) = Inr df
     \<and> scanDraft x (df_Project df) (df_File df) = Inr (Some a) \<and> \<not> has_suffix ''.md'' (df_Path df) \<and> Namespace a = ref_Namespace r
     \<and> rr_Added res = snd (mergeRelationships (draftEdges a) adds) \<and> rr_Added res \<noteq> [] \<and> rr_Validation res = Some v \<and> rr_State res = ''draft''
     \<and> rewriteDraftRelationships x (ws_drafts ws) df (fst (mergeRelationships (draftEdges a) adds)) = Inr body
     \<and> ws' = ws\<lparr>ws_drafts := body\<rparr>)"
  using assms by (auto simp: relateDraft_def Let_def split: sum.splits option.splits prod.splits if_splits draft_error.splits)

lemma relateDraft_failed:
  assumes "relateDraft x ws r adds = (Inl e, ws')"
  shows "ws' = ws \<or> (\<exists>e' project nm body now. e = RelateDraft e' \<and> ws' = ws\<lparr>ws_drafts := writeDraft (ws_drafts ws) project nm body now\<rparr>)"
  using assms by (auto simp: relateDraft_def rewriteDraftRelationships_def Let_def
    split: sum.splits option.splits prod.splits if_splits draft_error.splits)

lemma relatePublished_failed: "relatePublished x ws r current adds = (Inl e, ws') \<Longrightarrow> ws' = ws"
  by (auto simp: relatePublished_def Let_def split: sum.splits option.splits prod.splits if_splits)

text \<open>C10: A refused relate writes nothing, with one exception: when the re-validation of a draft whose
  edges were just rewritten cannot run, the error comes after the write; even then the store
  is untouched and the drafts tree has the same projects and files.\<close>
theorem relate_refusal:
  assumes "Relate x reg ws target adds = (Inl e, ws')"
  shows "ws_db ws' = ws_db ws
    \<and> (ws' = ws \<or> (\<exists>e' project nm body now. e = RelateDraft e' \<and> ws_drafts ws' = writeDraft (ws_drafts ws) project nm body now))
    \<and> map (\<lambda>(p, fs). (p, map fl_Name fs)) (ws_drafts ws') = map (\<lambda>(p, fs). (p, map fl_Name fs)) (ws_drafts ws)"
proof -
  consider "ws' = ws" | r current where "relatePublished x ws r current adds = (Inl e, ws')" | r where "relateDraft x ws r adds = (Inl e, ws')"
    using assms by (auto simp: Relate_def Let_def simp del: highest_None split: sum.splits if_splits option.splits)
  then have "ws' = ws \<or> (\<exists>e' project nm body now. e = RelateDraft e' \<and> ws' = ws\<lparr>ws_drafts := writeDraft (ws_drafts ws) project nm body now\<rparr>)"
    by cases (use relatePublished_failed relateDraft_failed in blast)+
  then show ?thesis
  proof (elim disjE exE conjE)
    fix e' project nm body now
    assume "e = RelateDraft e'" "ws' = ws\<lparr>ws_drafts := writeDraft (ws_drafts ws) project nm body now\<rparr>"
    then show ?thesis by (simp add: writeDraft_names) blast
  qed simp
qed

section \<open>Samples\<close>

definition edgeTo :: "string \<Rightarrow> Relationship" where
  "edgeTo t = \<lparr>rel_Type = ''depends-on'', rel_Target = t\<rparr>"

definition relateContext :: draftContext where
  "relateContext = sampleDraftContext\<lparr>dx_store := (dx_store sampleDraftContext)\<lparr>
     x_marshal := (\<lambda>u. u_CanonicalIdentityForm u @ concat (map rel_Target (u_Relationships u))),
     x_decode := (\<lambda>s. if s = ''core/mbr:ann:1'' then Some (inlineUnit (\<lambda>v. ''0'') (memberDoc ''core'' ''ann'' ''one'') 1) else None)\<rparr>\<rparr>"

definition memberStore :: workspaceState where
  "memberStore = snd (PublishInline relateContext emptyWorkspace (Some (memberDoc ''core'' ''ann'' ''one'')) sampleOptions)"

lemma memberStore_clean: "clean_store (x_hash (dx_store relateContext)) (x_decode (dx_store relateContext)) (ws_db memberStore)"
proof -
  let ?u = "inlineUnit (\<lambda>v. ''0'') (memberDoc ''core'' ''ann'' ''one'') 1"
  let ?p = "unitPut (dx_store relateContext) '''' draftSourceRepo (x_now (dx_store relateContext)) ?u"
  let ?dec = "x_decode (dx_store relateContext)"
  have h: "x_hash (dx_store relateContext) = tagHash" by (simp add: relateContext_def sampleDraftContext_def)
  have put: "putUnitTx tagHash (x_now (dx_store relateContext)) empty_db (put_UnitJSON ?p) (put_Content ?p) (put_Ref ?p) False
      = Inr (ws_db memberStore, tagHash (put_UnitJSON ?p @ put_Content ?p), False)"
    by code_simp
  have "derivedPut ?dec (put_UnitJSON ?p) (put_Ref ?p)" by code_simp
  from history_put [OF history_empty put this]
  have "derived_history tagHash ?dec [(put_UnitJSON ?p, put_Content ?p)] (ws_db memberStore)" .
  moreover have "digestTrusted tagHash [(put_UnitJSON ?p, put_Content ?p)]" by (simp add: digestTrusted_def)
  ultimately show ?thesis using clean_history by (simp add: h)
qed

lemma memberStore_named: "namedUnits (x_decode (dx_store relateContext)) (ws_db memberStore)"
  by code_simp

lemma sample_relate:
  "(case Relate relateContext '''' memberStore ''core/mbr:ann'' [edgeTo '' mbr:bob '', edgeTo ''mbr:bob''] of
      (Inl e, ws) \<Rightarrow> False
    | (Inr res, ws) \<Rightarrow> rr_State res = ''published'' \<and> rr_Target res = ''core/mbr:ann'' \<and> rr_InstanceVersion res = 1
        \<and> rr_Added res = [edgeTo ''mbr:bob''])"
  by code_simp

lemma relate_rewrites_then_refuses:
  "(case Relate sampleDraftContext '''' (emptyWorkspace\<lparr>ws_drafts := [(''p'', [\<lparr>fl_Name = ''mbr-zoe.json'', fl_Contents = ''old'', fl_Updated = ''''\<rparr>])]\<rparr>)
      ''core/mbr:zoe'' [edgeTo ''mbr:bob''] of
      (Inr res, ws) \<Rightarrow> None | (Inl e, ws) \<Rightarrow> Some (e, map (\<lambda>(p, fs). map fl_Contents fs) (ws_drafts ws)))
   = Some (RelateDraft (FileIdentityMismatch ''/w/drafts/p/mbr-zoe.json'' ''mbr'' ''ann'' ''mbr'' ''zoe''), [[''{}'']])"
  by code_simp

theorem relate_refusal_witness:
  "ws_db (snd (Relate relateContext '''' memberStore ''core/mbr:ann'' [edgeTo ''core/mbr:ann''])) = ws_db memberStore"
proof -
  have "case Relate relateContext '''' memberStore ''core/mbr:ann'' [edgeTo ''core/mbr:ann''] of (Inl e, ws) \<Rightarrow> True | (Inr r, ws) \<Rightarrow> False"
    by code_simp
  then obtain e ws' where r: "Relate relateContext '''' memberStore ''core/mbr:ann'' [edgeTo ''core/mbr:ann''] = (Inl e, ws')"
    by (auto split: prod.splits sum.splits)
  from conjunct1 [OF relate_refusal [OF this]] show ?thesis unfolding r snd_conv .
qed

theorem relate_no_churn_witness:
  "map (\<lambda>(f, row). (f, r_InstanceVersion (row_ref row), row_number row))
     (refs (ws_db (snd (Relate relateContext '''' memberStore ''core/mbr:ann'' [edgeTo '' mbr:bob '', edgeTo ''mbr:bob'']))))
   = [(''core/mbr:ann:1'', 1, 0)]"
proof -
  obtain res ws' where r: "Relate relateContext '''' memberStore ''core/mbr:ann'' [edgeTo '' mbr:bob '', edgeTo ''mbr:bob''] = (Inr res, ws')"
    "rr_State res = ''published''" "rr_Target res = ''core/mbr:ann''" "rr_InstanceVersion res = 1"
    using sample_relate by (auto split: prod.splits sum.splits)
  have one: "map (\<lambda>(f, row). (f, row_number row)) (refs (ws_db memberStore)) = [(''core/mbr:ann:1'', 0)]" by code_simp
  have form: "''core/mbr:ann'' @ colon # itoa 1 = ''core/mbr:ann:1''" by code_simp
  obtain cur up where "r_InstanceVersion cur = 1"
    "refs (ws_db ws') = map (rowMoved ''core/mbr:ann:1'' (cur\<lparr>r_ObjectHash := rr_ObjectHash res, r_UpdatedAt := up\<rparr>)) (refs (ws_db memberStore))"
    using relate_no_churn [OF r(1,2) memberStore_clean memberStore_named] unfolding r(3,4) form Let_def by blast
  with one show ?thesis unfolding r(1) snd_conv by (auto simp: rowMoved_def)
qed

end
