(* ===== verification/Runtime_Notes.thy ===== *)
theory Runtime_Notes
  imports Runtime_Scaffold Runtime_Batch Runtime_Gates
begin

text \<open>
  Notes: creating a note draft (\<open>runtime/note.go\<close>), replying to a note and resolving one or
  all notes of a subject (\<open>runtime/note_resolve.go\<close>).  The temporary file that carries the
  staged content to \<open>NewDraft\<close> is represented by a reserved path; resolving a draft rewrites
  its file through the document struct, whose fields are modelled one by one.  The integers
  of a document are not range checked.
\<close>

datatype note_error =
    AuthorityNeeded
  | UnknownRole string
  | UnknownNoteDomain string
  | NotInRepository
  | RepositoryUnregistered
  | NoteTarget string ref_error
  | NoteVersioned string
  | NoteForeign string string
  | NotANote string
  | NoteReadFailure
  | SubjectMissing string
  | NoteContentUnreadable string
  | NoteContentNotObject string
  | EmptyReply
  | ParentMissing string
  | NoteMissing string
  | NoteDraftFailed draft_error
  | NoteFileUnreadable string
  | NoteFileNotJSON string
  | NoteFileUnwritable string
  | NotePublishFailed draft_error
  | NoteBatch string note_error

record NoteDraftRequest =
  nq_Target :: string
  nq_Role :: string
  nq_Domain :: string
  nq_By :: AuthorIdentity
  nq_ContentFile :: string

record NoteDraftResult =
  no_ID :: string
  no_Target :: string
  no_SubjectState :: string
  no_Path :: string
  no_By :: AuthorIdentity

section \<open>Identities\<close>

text \<open>A candidate is taken when its draft exists, when its line has a unit, or when the line cannot
  be read.\<close>

definition noteTaken :: "draftContext \<Rightarrow> workspaceState \<Rightarrow> string \<Rightarrow> string \<Rightarrow> string \<Rightarrow> bool" where
  "noteTaken x ws project ns i =
     (findDraft (ws_drafts ws) project (jsonName ''cmt'' i) \<noteq> None
      \<or> dx_lineFault x ns i
      \<or> (case UnitsByLine (x_decode (dx_store x)) (ws_db ws) ns ''cmt'' i of None \<Rightarrow> True | Some us \<Rightarrow> us \<noteq> []))"

definition numbered :: "string \<Rightarrow> nat \<Rightarrow> string" where
  "numbered base n = base @ dash # itoa (int n)"

text \<open>The loop over the numbered candidates has no bound.\<close>

partial_function (option) firstFree :: "(string \<Rightarrow> bool) \<Rightarrow> string \<Rightarrow> nat \<Rightarrow> string option" where
  "firstFree taken base n = (if taken (numbered base n) then firstFree taken base (n + 1) else Some (numbered base n))"

declare firstFree.simps [code]

definition lowestFree :: "(string \<Rightarrow> bool) \<Rightarrow> string \<Rightarrow> string option" where
  "lowestFree taken base = (if taken base then firstFree taken base 2 else Some base)"

definition deriveNoteID :: "draftContext \<Rightarrow> workspaceState \<Rightarrow> string \<Rightarrow> string \<Rightarrow> string \<Rightarrow> string \<Rightarrow> string option" where
  "deriveNoteID x ws project ns subjectID role = lowestFree (noteTaken x ws project ns) (subjectID @ dash # role)"

definition deriveReplyID :: "draftContext \<Rightarrow> workspaceState \<Rightarrow> string \<Rightarrow> string \<Rightarrow> string \<Rightarrow> string option" where
  "deriveReplyID x ws project ns parentID = lowestFree (noteTaken x ws project ns) (parentID @ ''-reply'')"

section \<open>Requests\<close>

definition noteDomain :: "string \<Rightarrow> note_error + string" where
  "noteDomain s = (if trim_space s = '''' then Inr ''''
     else case ParseDomain (trim_space s) of None \<Rightarrow> Inl (UnknownNoteDomain s) | Some d \<Rightarrow> Inr (domain_string d))"

text \<open>A line in the namespace of the repository; replies and single resolutions also ask for a
  note line, and a resolution of a whole subject does not look at the version.\<close>

definition ownLine :: "callContext \<Rightarrow> bool \<Rightarrow> bool \<Rightarrow> string \<Rightarrow> note_error + reference" where
  "ownLine c noteOnly lineOnly target = (case parseReference target '''' '''' of
       Inl e \<Rightarrow> Inl (NoteTarget target e)
     | Inr r \<Rightarrow>
         if noteOnly \<and> ref_Type r \<noteq> ''cmt'' then Inl (NotANote target)
         else if lineOnly \<and> ref_HasVersion r then Inl (NoteVersioned target)
         else if ref_Namespace r \<noteq> '''' \<and> ref_Namespace r \<noteq> x_namespace c then Inl (NoteForeign (ref_Namespace r) (x_namespace c))
         else Inr (if ref_Namespace r = '''' then r\<lparr>ref_Namespace := x_namespace c\<rparr> else r))"

definition stagedPath :: string where "stagedPath = ''eka-note.json''"

definition staged :: "draftContext \<Rightarrow> string \<Rightarrow> draftContext" where
  "staged x bytes = x\<lparr>dx_readFile := (\<lambda>p. if p = stagedPath then Some bytes else dx_readFile x p)\<rparr>"

definition noteRequest :: "string \<Rightarrow> string \<Rightarrow> string \<Rightarrow> string \<Rightarrow> AuthorIdentity \<Rightarrow> Relationship list \<Rightarrow> NewDraftRequest" where
  "noteRequest project ns i domain by rels = \<lparr>nd_Project = project, nd_Namespace = ns, nd_Type = ''cmt'', nd_ID = i,
     nd_Dimension = '''', nd_Phase = '''', nd_Domain = domain, nd_By = by, nd_Relationships = rels,
     nd_ContentFile = stagedPath, nd_Provenance = '''', nd_SourcePromptHash = '''', nd_Confidence = 0,
     nd_HasConfidence = False, nd_SourceCommitSha = '''', nd_CaptureMeta = noCapture\<rparr>"

section \<open>Creating a note\<close>

definition noteRoleTemplates :: "gvalue gomap gomap" where
  "noteRoleTemplates = [
     (NoteRoleImplementation, [(''role'', GString NoteRoleImplementation), (''summary'', GString ''''), (''changes'', GList []), (''tests'', GList [])]),
     (NoteRoleReview, [(''role'', GString NoteRoleReview), (''verdict'', GString ''''), (''notes'', GList [])]),
     (NoteRoleFix, [(''role'', GString NoteRoleFix), (''addresses'', GList []), (''detail'', GString '''')])]"

definition noteContent :: "draftContext \<Rightarrow> string \<Rightarrow> gvalue gomap \<Rightarrow> string \<Rightarrow> note_error + gvalue gomap" where
  "noteContent x role template file =
     map_sum id (\<lambda>m. putKey m ''role'' (GString role))
       (if file = '''' then Inr template
        else case dx_readFile x file of
            None \<Rightarrow> Inl (NoteContentUnreadable file)
          | Some bytes \<Rightarrow> (case dec_json (dx_decoding x) bytes of
              None \<Rightarrow> Inl (NoteContentNotObject file)
            | Some m \<Rightarrow> Inr (mergeInto template m)))"

text \<open>The state the subject is in: published, a draft of the project, or nowhere.\<close>

definition subjectState :: "draftContext \<Rightarrow> workspaceState \<Rightarrow> string \<Rightarrow> reference \<Rightarrow> note_error + string" where
  "subjectState x ws project r = (case UnitsByLine (x_decode (dx_store x)) (ws_db ws) (ref_Namespace r) (ref_Type r) (ref_ID r) of
       None \<Rightarrow> Inl NoteReadFailure
     | Some us \<Rightarrow> if us \<noteq> [] then Inr ''''
         else if findDraft (ws_drafts ws) project (jsonName (ref_Type r) (ref_ID r)) = None then Inl (SubjectMissing (refLine r))
         else Inr ''draft'')"

text \<open>The scaffold of a note under a derived id; None when the search for the id does not end.\<close>

definition scaffoldNote ::
  "draftContext \<Rightarrow> workspaceState \<Rightarrow> string \<Rightarrow> string \<Rightarrow> string \<Rightarrow> AuthorIdentity \<Rightarrow> Relationship list \<Rightarrow> string \<Rightarrow>
     note_error + (workspaceState \<times> Draft)" where
  "scaffoldNote x ws project i domain by rels bytes =
     (case NewDraft (staged x bytes) (ws_drafts ws) (noteRequest project (x_namespace (dx_store x)) i domain by rels) of
        Inl e \<Rightarrow> Inl (NoteDraftFailed e)
      | Inr (tree, d) \<Rightarrow> Inr (ws\<lparr>ws_drafts := tree\<rparr>, d))"

definition NoteDraft ::
  "draftContext \<Rightarrow> workspaceState \<Rightarrow> NoteDraftRequest \<Rightarrow> (note_error + (workspaceState \<times> NoteDraftResult)) option" where
  "NoteDraft x ws req =
     (let c = dx_store x; role = trim_space (nq_Role req) in
      if trim_space (au_Name (nq_By req)) = '''' then Some (Inl AuthorityNeeded)
      else case map_of noteRoleTemplates role of
        None \<Rightarrow> Some (Inl (UnknownRole role))
      | Some template \<Rightarrow> (case noteDomain (nq_Domain req) of
          Inl e \<Rightarrow> Some (Inl e)
        | Inr domain \<Rightarrow>
            if \<not> x_isRepo c then Some (Inl NotInRepository)
            else (case ownLine c False True (nq_Target req) of
              Inl e \<Rightarrow> Some (Inl e)
            | Inr r \<Rightarrow> (case x_project c of
                None \<Rightarrow> Some (Inl RepositoryUnregistered)
              | Some (project, ns) \<Rightarrow> (case subjectState x ws project r of
                  Inl e \<Rightarrow> Some (Inl e)
                | Inr state \<Rightarrow> (case noteContent x role template (nq_ContentFile req) of
                    Inl e \<Rightarrow> Some (Inl e)
                  | Inr content \<Rightarrow> map_option (\<lambda>i.
                      map_sum id (\<lambda>(ws', d). (ws', \<lparr>no_ID = i, no_Target = refLine r, no_SubjectState = state,
                          no_Path = dr_Path d, no_By = nq_By req\<rparr>))
                        (scaffoldNote x ws project i domain (nq_By req)
                          [\<lparr>rel_Type = ''discusses'', rel_Target = refLine r\<rparr>] (dx_encode x content)))
                      (deriveNoteID x ws project (x_namespace c) (ref_ID r) role)))))))"

section \<open>Replying\<close>

record NoteReplyRequest =
  rp_Parent :: string
  rp_By :: AuthorIdentity
  rp_Body :: string
  rp_Domain :: string

record NoteReplyResult =
  ry_ID :: string
  ry_Parent :: string
  ry_Path :: string

definition parentExists :: "draftContext \<Rightarrow> workspaceState \<Rightarrow> string \<Rightarrow> reference \<Rightarrow> note_error option" where
  "parentExists x ws project r =
     (if findDraft (ws_drafts ws) project (jsonName ''cmt'' (ref_ID r)) \<noteq> None then None
      else case UnitsByLine (x_decode (dx_store x)) (ws_db ws) (ref_Namespace r) ''cmt'' (ref_ID r) of
          None \<Rightarrow> Some NoteReadFailure
        | Some us \<Rightarrow> if us = [] then Some (ParentMissing (refLine r)) else None)"

definition replyContent :: "string \<Rightarrow> gvalue gomap" where
  "replyContent body = [(''role'', GString NoteRoleReply), (''body'', GString body)]"

definition NoteReply ::
  "draftContext \<Rightarrow> workspaceState \<Rightarrow> NoteReplyRequest \<Rightarrow> (note_error + (workspaceState \<times> NoteReplyResult)) option" where
  "NoteReply x ws req =
     (let c = dx_store x; body = trim_space (rp_Body req) in
      if trim_space (au_Name (rp_By req)) = '''' then Some (Inl AuthorityNeeded)
      else if body = '''' then Some (Inl EmptyReply)
      else if \<not> x_isRepo c then Some (Inl NotInRepository)
      else case ownLine c True True (rp_Parent req) of
        Inl e \<Rightarrow> Some (Inl e)
      | Inr r \<Rightarrow> (case x_project c of
          None \<Rightarrow> Some (Inl RepositoryUnregistered)
        | Some (project, ns) \<Rightarrow> (case parentExists x ws project r of
            Some e \<Rightarrow> Some (Inl e)
          | None \<Rightarrow> (case noteDomain (rp_Domain req) of
              Inl e \<Rightarrow> Some (Inl e)
            | Inr domain \<Rightarrow> map_option (\<lambda>i.
                map_sum id (\<lambda>(ws', d). (ws', \<lparr>ry_ID = i, ry_Parent = refLine r, ry_Path = dr_Path d\<rparr>))
                  (scaffoldNote x ws project i domain (rp_By req)
                    [\<lparr>rel_Type = ''replies-to'', rel_Target = refLine r\<rparr>] (dx_encode x (replyContent body))))
                (deriveReplyID x ws project (x_namespace c) (ref_ID r))))))"

section \<open>The document struct\<close>

record draftLog =
  dl_Date :: string
  dl_Domain :: string
  dl_From :: string
  dl_To :: string
  dl_By :: AuthorIdentity

text \<open>A nil slice of targets is None, a nil content map too.\<close>

record draftDoc =
  dd_Namespace :: string
  dd_Type :: string
  dd_ID :: string
  dd_Revision :: int
  dd_State :: "string gomap"
  dd_Author :: "AuthorIdentity option"
  dd_Dimension :: string
  dd_Phase :: string
  dd_Domain :: string
  dd_Relationships :: "string list option gomap"
  dd_ChangeLog :: "draftLog list"
  dd_Provenance :: string
  dd_SourcePromptHash :: string
  dd_Confidence :: "rat option"
  dd_SourceCommitSha :: string
  dd_CaptureMeta :: "CaptureMeta option"
  dd_Content :: "gvalue gomap option"

text \<open>The value of a field: keys match up to case, the last match wins; a missing key is read
  like null, which leaves the zero value.\<close>

definition fieldOf :: "gvalue gomap \<Rightarrow> string \<Rightarrow> gvalue" where
  "fieldOf doc k = (case find (\<lambda>(q, v). equal_fold q k) (rev doc) of None \<Rightarrow> GNil | Some (q, v) \<Rightarrow> v)"

fun asText :: "gvalue \<Rightarrow> string option" where
  "asText GNil = Some ''''"
| "asText (GString s) = Some s"
| "asText v = None"

fun asWhole :: "gvalue \<Rightarrow> int option" where
  "asWhole GNil = Some 0"
| "asWhole (GInt i) = Some i"
| "asWhole (GFloat r) = (if of_int \<lfloor>r\<rfloor> = r then Some \<lfloor>r\<rfloor> else None)"
| "asWhole v = None"

fun asRat :: "gvalue \<Rightarrow> rat option option" where
  "asRat GNil = Some None"
| "asRat (GInt i) = Some (Some (of_int i))"
| "asRat (GFloat r) = Some (Some r)"
| "asRat v = None"

fun asTexts :: "gvalue \<Rightarrow> string list option option" where
  "asTexts GNil = Some None"
| "asTexts (GList vs) = map_option Some (those (map asText vs))"
| "asTexts v = None"

definition asTable :: "(gvalue \<Rightarrow> 'a option) \<Rightarrow> gvalue \<Rightarrow> 'a gomap option" where
  "asTable f v = (case v of GNil \<Rightarrow> Some []
     | GMap m \<Rightarrow> those (map (\<lambda>(k, w). map_option (Pair k) (f w)) m) | _ \<Rightarrow> None)"

definition asAuthor :: "gvalue \<Rightarrow> AuthorIdentity option option" where
  "asAuthor v = (if v = GNil then Some None else map_option Some (decodeIdentity v))"

definition asMeta :: "gvalue \<Rightarrow> CaptureMeta option option" where
  "asMeta v = (case v of GNil \<Rightarrow> Some None
     | GMap m \<Rightarrow> (case (asText (fieldOf m ''classifier''), asText (fieldOf m ''dedupeKey'')) of
         (Some c, Some k) \<Rightarrow> Some (Some \<lparr>Classifier = c, DedupeKey = k\<rparr>) | _ \<Rightarrow> None)
     | _ \<Rightarrow> None)"

text \<open>The author of an entry is not a pointer: a null in its place is refused, a missing key
  leaves the empty identity.\<close>

definition asBy :: "gvalue gomap \<Rightarrow> AuthorIdentity option" where
  "asBy m = (case find (\<lambda>(q, v). equal_fold q ''by'') (rev m) of
       None \<Rightarrow> Some (\<lparr>au_Kind = '''', au_Name = ''''\<rparr>) | Some (q, v) \<Rightarrow> decodeIdentity v)"

definition asLog :: "gvalue \<Rightarrow> draftLog option" where
  "asLog v = (case v of
       GNil \<Rightarrow> Some \<lparr>dl_Date = '''', dl_Domain = '''', dl_From = '''', dl_To = '''', dl_By = \<lparr>au_Kind = '''', au_Name = ''''\<rparr>\<rparr>
     | GMap m \<Rightarrow>
         (case (asText (fieldOf m ''date''), asText (fieldOf m ''domain''), asText (fieldOf m ''from''), asText (fieldOf m ''to''), asBy m) of
            (Some a, Some b, Some c, Some d, Some e) \<Rightarrow> Some \<lparr>dl_Date = a, dl_Domain = b, dl_From = c, dl_To = d, dl_By = e\<rparr>
          | _ \<Rightarrow> None)
     | _ \<Rightarrow> None)"

definition asLogs :: "gvalue \<Rightarrow> draftLog list option" where
  "asLogs v = (case v of GNil \<Rightarrow> Some [] | GList vs \<Rightarrow> those (map asLog vs) | _ \<Rightarrow> None)"

definition asContent :: "gvalue \<Rightarrow> gvalue gomap option option" where
  "asContent v = (case v of GNil \<Rightarrow> Some None | GMap m \<Rightarrow> Some (Some m) | _ \<Rightarrow> None)"

definition readDoc :: "gvalue gomap \<Rightarrow> draftDoc option" where
  "readDoc doc =
     (case (those (map (\<lambda>k. asText (fieldOf doc k)) [''namespace'', ''type'', ''id'', ''dimension'', ''phase'', ''domain'',
              ''provenance'', ''sourcePromptHash'', ''sourceCommitSha'']),
            asWhole (fieldOf doc ''revision''), asTable asText (fieldOf doc ''state''), asAuthor (fieldOf doc ''author''),
            asTable asTexts (fieldOf doc ''relationships''), asLogs (fieldOf doc ''changeLog''),
            asRat (fieldOf doc ''confidence''), asMeta (fieldOf doc ''captureMeta''), asContent (fieldOf doc ''content'')) of
        (Some [ns, t, i, dimension, phase, domain, prov, prompt, commit], Some revision, Some state, Some author, Some rels, Some entries,
         Some conf, Some meta, Some content) \<Rightarrow>
          Some \<lparr>dd_Namespace = ns, dd_Type = t, dd_ID = i, dd_Revision = revision, dd_State = state, dd_Author = author,
            dd_Dimension = dimension, dd_Phase = phase, dd_Domain = domain, dd_Relationships = rels, dd_ChangeLog = entries,
            dd_Provenance = prov, dd_SourcePromptHash = prompt, dd_Confidence = conf, dd_SourceCommitSha = commit,
            dd_CaptureMeta = meta, dd_Content = content\<rparr>
      | _ \<Rightarrow> None)"

definition logDoc :: "draftLog \<Rightarrow> gvalue" where
  "logDoc e = GMap [(''date'', GString (dl_Date e)), (''domain'', GString (dl_Domain e)), (''from'', GString (dl_From e)),
     (''to'', GString (dl_To e)), (''by'', marshalIdentity (dl_By e))]"

definition targetsDoc :: "string list option \<Rightarrow> gvalue" where
  "targetsDoc ts = (case ts of None \<Rightarrow> GNil | Some l \<Rightarrow> GList (map GString l))"

definition metaDoc :: "CaptureMeta \<Rightarrow> gvalue" where
  "metaDoc m = GMap (optional ''classifier'' (Classifier m) @ optional ''dedupeKey'' (DedupeKey m))"

definition writtenDoc :: "draftDoc \<Rightarrow> gvalue gomap" where
  "writtenDoc d =
     [(''namespace'', GString (dd_Namespace d)), (''type'', GString (dd_Type d)), (''id'', GString (dd_ID d)),
      (''revision'', GFloat (of_int (dd_Revision d)))] @
     (if dd_State d = [] then [] else [(''state'', GMap (map (\<lambda>(k, v). (k, GString v)) (dd_State d)))]) @
     (case dd_Author d of None \<Rightarrow> [] | Some a \<Rightarrow> [(''author'', marshalIdentity a)]) @
     optional ''dimension'' (dd_Dimension d) @ optional ''phase'' (dd_Phase d) @ optional ''domain'' (dd_Domain d) @
     (if dd_Relationships d = [] then [] else [(''relationships'', GMap (map (\<lambda>(k, v). (k, targetsDoc v)) (dd_Relationships d)))]) @
     (if dd_ChangeLog d = [] then [] else [(''changeLog'', GList (map logDoc (dd_ChangeLog d)))]) @
     optional ''provenance'' (dd_Provenance d) @ optional ''sourcePromptHash'' (dd_SourcePromptHash d) @
     (case dd_Confidence d of None \<Rightarrow> [] | Some r \<Rightarrow> [(''confidence'', GFloat r)]) @
     optional ''sourceCommitSha'' (dd_SourceCommitSha d) @
     (case dd_CaptureMeta d of None \<Rightarrow> [] | Some m \<Rightarrow> [(''captureMeta'', metaDoc m)]) @
     [(''content'', case dd_Content d of None \<Rightarrow> GNil | Some m \<Rightarrow> GMap m)]"

section \<open>Resolving\<close>

definition resolvedDoc :: "string \<Rightarrow> AuthorIdentity \<Rightarrow> draftDoc \<Rightarrow> draftDoc" where
  "resolvedDoc today by d = d\<lparr>dd_State := putKey (dd_State d) ''noteState'' ''resolved'',
     dd_ChangeLog := dd_ChangeLog d @ [\<lparr>dl_Date = today, dl_Domain = StateKeyCamel DomainNoteState, dl_From = ''open'',
       dl_To = ''resolved'', dl_By = by\<rparr>]\<rparr>"

text \<open>True when the note was resolved before.\<close>

definition resolveDraftNote ::
  "draftContext \<Rightarrow> draft_tree \<Rightarrow> string \<Rightarrow> string \<Rightarrow> AuthorIdentity \<Rightarrow> note_error + (draft_tree \<times> bool)" where
  "resolveDraftNote x tree project nm by = (case findDraft tree project nm of
       None \<Rightarrow> Inl (NoteFileUnreadable nm)
     | Some f \<Rightarrow> (case dec_json (dx_decoding x) (fl_Contents f) of
         None \<Rightarrow> Inl (NoteFileNotJSON nm)
       | Some m \<Rightarrow> (case readDoc m of
           None \<Rightarrow> Inl (NoteFileNotJSON nm)
         | Some d \<Rightarrow> if get_or (dd_State d) ''noteState'' '''' = ''resolved'' then Inr (tree, True)
             else if dx_overwriteRefused x (draftPathOf x project nm) then Inl (NoteFileUnwritable nm)
             else Inr (writeDraft tree project nm
                 (dx_encode x (writtenDoc (resolvedDoc (x_today (dx_store x)) by d))) (x_now (dx_store x)), False))))"

record ResolveNoteResult =
  rn_Target :: string
  rn_Path :: string
  rn_Published :: bool
  rn_AlreadyResolved :: bool
  rn_ReplyID :: string

text \<open>Every outcome carries the state: the scaffold stays when a later step fails.\<close>

definition resolvePublishedNote ::
  "draftContext \<Rightarrow> workspaceState \<Rightarrow> string \<Rightarrow> string \<Rightarrow> string \<Rightarrow> AuthorIdentity \<Rightarrow>
     (note_error + ResolveNoteResult) \<times> workspaceState" where
  "resolvePublishedNote x ws project ns i by = (case UnitsByLine (x_decode (dx_store x)) (ws_db ws) ns ''cmt'' i of
       None \<Rightarrow> (Inl NoteReadFailure, ws)
     | Some [] \<Rightarrow> (Inl (NoteMissing (ns @ ''/cmt:'' @ i)), ws)
     | Some (u # us) \<Rightarrow>
         if sv_NoteState (u_StateVector u) = ''resolved'' then
           (Inr \<lparr>rn_Target = '''', rn_Path = '''', rn_Published = False, rn_AlreadyResolved = True, rn_ReplyID = ''''\<rparr>, ws)
         else (case NewDraft (staged x (u_ContentPayload u)) (ws_drafts ws) (noteRequest project ns i '''' by (u_Relationships u)) of
             Inl e \<Rightarrow> (Inl (NoteDraftFailed e), ws)
           | Inr (tree, d) \<Rightarrow> (case resolveDraftNote x tree project (jsonName ''cmt'' i) by of
               Inl e \<Rightarrow> (Inl e, ws\<lparr>ws_drafts := tree\<rparr>)
             | Inr (tree', already) \<Rightarrow>
                 (case Publish x (ws\<lparr>ws_drafts := tree'\<rparr>) (''cmt:'' @ i) \<lparr>po_Project = '''', po_InstanceVersion = 0\<rparr> of
                    (Inl e, ws') \<Rightarrow> (Inl (NotePublishFailed e), ws')
                  | (Inr res, ws') \<Rightarrow> (Inr \<lparr>rn_Target = ns @ ''/cmt:'' @ i, rn_Path = dr_Path d, rn_Published = True,
                      rn_AlreadyResolved = False, rn_ReplyID = ''''\<rparr>, ws')))))"

record ResolveNoteRequest =
  rv_Target :: string
  rv_By :: AuthorIdentity
  rv_ReplyBody :: string

text \<open>The optional reply: its id and the state with the reply draft.\<close>

definition attachReply ::
  "draftContext \<Rightarrow> workspaceState \<Rightarrow> ResolveNoteRequest \<Rightarrow> (note_error + (workspaceState \<times> string)) option" where
  "attachReply x ws req =
     (if trim_space (rv_ReplyBody req) = '''' then Some (Inr (ws, ''''))
      else map_option (map_sum id (\<lambda>(ws', res). (ws', ry_ID res)))
        (NoteReply x ws \<lparr>rp_Parent = rv_Target req, rp_By = rv_By req, rp_Body = rv_ReplyBody req, rp_Domain = ''''\<rparr>))"

text \<open>The line after the reply: the draft, then the published units.\<close>

definition resolveLine ::
  "draftContext \<Rightarrow> workspaceState \<Rightarrow> string \<Rightarrow> reference \<Rightarrow> AuthorIdentity \<Rightarrow> string \<Rightarrow>
     (note_error + ResolveNoteResult) \<times> workspaceState" where
  "resolveLine x ws project r by replyID =
     (let c = dx_store x; nm = jsonName ''cmt'' (ref_ID r); exists = findDraft (ws_drafts ws) project nm \<noteq> None;
          target = ref_Namespace r @ ''/cmt:'' @ ref_ID r; path = (if exists then draftPathOf x project nm else '''') in
      case (if exists then resolveDraftNote x (ws_drafts ws) project nm by else Inr (ws_drafts ws, False)) of
        Inl e \<Rightarrow> (Inl e, ws)
      | Inr (tree, already) \<Rightarrow>
          let ws1 = ws\<lparr>ws_drafts := tree\<rparr> in
          (case UnitsByLine (x_decode c) (ws_db ws) (ref_Namespace r) ''cmt'' (ref_ID r) of
             None \<Rightarrow> (Inl NoteReadFailure, ws1)
           | Some us \<Rightarrow>
               if list_ex (\<lambda>u. sv_NoteState (u_StateVector u) \<noteq> ''resolved'') us then
                 (case resolvePublishedNote x ws1 project (x_namespace c) (ref_ID r) by of
                    (Inl e, ws2) \<Rightarrow> (Inl e, ws2)
                  | (Inr res, ws2) \<Rightarrow> (Inr \<lparr>rn_Target = target, rn_Path = (if path = '''' then rn_Path res else path),
                      rn_Published = True, rn_AlreadyResolved = False, rn_ReplyID = replyID\<rparr>, ws2))
               else if \<not> exists \<and> us = [] then (Inl (NoteMissing target), ws1)
               else (Inr \<lparr>rn_Target = target, rn_Path = path, rn_Published = False, rn_AlreadyResolved = already,
                   rn_ReplyID = replyID\<rparr>, ws1)))"

definition ResolveNote ::
  "draftContext \<Rightarrow> workspaceState \<Rightarrow> ResolveNoteRequest \<Rightarrow> ((note_error + ResolveNoteResult) \<times> workspaceState) option" where
  "ResolveNote x ws req =
     (let c = dx_store x in
      if trim_space (au_Name (rv_By req)) = '''' then Some (Inl AuthorityNeeded, ws)
      else if \<not> x_isRepo c then Some (Inl NotInRepository, ws)
      else case ownLine c True True (rv_Target req) of
        Inl e \<Rightarrow> Some (Inl e, ws)
      | Inr r \<Rightarrow> (case x_project c of
          None \<Rightarrow> Some (Inl RepositoryUnregistered, ws)
        | Some (project, ns) \<Rightarrow> map_option (\<lambda>reply. case reply of
              Inl e \<Rightarrow> (Inl e, ws)
            | Inr (ws', i) \<Rightarrow> resolveLine x ws' project r (rv_By req) i) (attachReply x ws req)))"

section \<open>Resolving the notes of a subject\<close>

definition isNoteFile :: "draftFile \<Rightarrow> bool" where
  "isNoteFile f = (has_suffix ''.json'' (fl_Name f) \<and> has_prefix ''cmt-'' (fl_Name f))"

definition collectNotesForSubject ::
  "draftContext \<Rightarrow> workspaceState \<Rightarrow> string \<Rightarrow> reference \<Rightarrow> note_error + string list" where
  "collectNotesForSubject x ws project subject = (case UnitsByProject (x_decode (dx_store x)) (ws_db ws) project of
       None \<Rightarrow> Inl NoteReadFailure
     | Some us \<Rightarrow> Inr (sort (remdups
         (map (\<lambda>u. id_Namespace (u_Identity u) @ ''/cmt:'' @ id_ID (u_Identity u))
            (filter (\<lambda>u. id_Type (u_Identity u) = ''cmt'' \<and> discussesTarget u subject) us) @
          List.map_filter (\<lambda>f. case scanDraft x project f of
              Inr (Some a) \<Rightarrow> if Type a = ''cmt'' \<and> discussesTargetArtifact a subject
                then Some (Namespace a @ ''/cmt:'' @ ID a) else None
            | _ \<Rightarrow> None) (filter isNoteFile (projectFiles (ws_drafts ws) project))))))"

record ResolveAllNotesResult =
  ra_Resolved :: "string list"
  ra_AlreadyResolved :: "string list"
  ra_Replies :: "string list"

definition countNote :: "ResolveAllNotesResult \<Rightarrow> string \<Rightarrow> ResolveNoteResult \<Rightarrow> ResolveAllNotesResult" where
  "countNote out n res =
     (let out1 = (if rn_AlreadyResolved res then out\<lparr>ra_AlreadyResolved := ra_AlreadyResolved out @ [n]\<rparr>
         else out\<lparr>ra_Resolved := ra_Resolved out @ [n]\<rparr>) in
      if rn_ReplyID res = '''' then out1 else out1\<lparr>ra_Replies := ra_Replies out1 @ [rn_ReplyID res]\<rparr>)"

fun resolveEach ::
  "draftContext \<Rightarrow> AuthorIdentity \<Rightarrow> string \<Rightarrow> workspaceState \<Rightarrow> ResolveAllNotesResult \<Rightarrow> string list \<Rightarrow>
     ((note_error + ResolveAllNotesResult) \<times> workspaceState) option" where
  "resolveEach x by body ws out [] = Some (Inr out, ws)"
| "resolveEach x by body ws out (n # ns) =
     (case ResolveNote x ws \<lparr>rv_Target = n, rv_By = by, rv_ReplyBody = body\<rparr> of
        None \<Rightarrow> None
      | Some (Inl e, ws') \<Rightarrow> Some (Inl (NoteBatch n e), ws')
      | Some (Inr res, ws') \<Rightarrow> resolveEach x by body ws' (countNote out n res) ns)"

definition ResolveAllNotes ::
  "draftContext \<Rightarrow> workspaceState \<Rightarrow> string \<Rightarrow> AuthorIdentity \<Rightarrow> string \<Rightarrow>
     ((note_error + ResolveAllNotesResult) \<times> workspaceState) option" where
  "ResolveAllNotes x ws subject by body =
     (let c = dx_store x in
      if trim_space (au_Name by) = '''' then Some (Inl AuthorityNeeded, ws)
      else if \<not> x_isRepo c then Some (Inl NotInRepository, ws)
      else case ownLine c False False subject of
        Inl e \<Rightarrow> Some (Inl e, ws)
      | Inr r \<Rightarrow> (case x_project c of
          None \<Rightarrow> Some (Inl RepositoryUnregistered, ws)
        | Some (project, ns) \<Rightarrow> (case collectNotesForSubject x ws project r of
            Inl e \<Rightarrow> Some (Inl e, ws)
          | Inr notes \<Rightarrow> resolveEach x by body ws \<lparr>ra_Resolved = [], ra_AlreadyResolved = [], ra_Replies = []\<rparr> notes)))"

section \<open>Note identities\<close>

lemma numbered_inj: "inj (numbered base)"
  by (rule injI) (simp add: numbered_def)

lemma taken_finite:
  assumes "finite {n. dx_lineFault x ns (numbered base n)}"
  shows "finite {n. noteTaken x ws project ns (numbered base n)}"
proof -
  let ?files = "set (map fl_Name (projectFiles (ws_drafts ws) project))"
  let ?ids = "set (map (\<lambda>(f, row). r_ID (row_ref row)) (refs (ws_db ws)))"
  have "dx_lineFault x ns (numbered base n) \<or> jsonName ''cmt'' (numbered base n) \<in> ?files \<or> numbered base n \<in> ?ids"
    if "noteTaken x ws project ns (numbered base n)" for n
  proof (rule ccontr)
    assume no: "\<not> ?thesis"
    have "filter (\<lambda>(form, row). onLine ns ''cmt'' (numbered base n) (row_ref row)) (refs (ws_db ws)) = []"
      using no by (force simp: filter_empty_conv onLine_def)
    then have "UnitsByLine (x_decode (dx_store x)) (ws_db ws) ns ''cmt'' (numbered base n) = Some []"
      unfolding UnitsByLine_def unitsByQuery_def by simp
    moreover have "findDraft (ws_drafts ws) project (jsonName ''cmt'' (numbered base n)) = None"
      using no by (simp add: findDraft_def find_None_iff) (metis image_eqI)
    ultimately show False using that no by (simp add: noteTaken_def)
  qed
  then have "{n. noteTaken x ws project ns (numbered base n)} \<subseteq> {n. dx_lineFault x ns (numbered base n)}
      \<union> ((\<lambda>n. jsonName ''cmt'' (numbered base n)) -` ?files \<union> numbered base -` ?ids)" by blast
  moreover have "inj (\<lambda>n. jsonName ''cmt'' (numbered base n))"
    using numbered_inj by (auto simp: inj_def jsonName_def)
  ultimately show ?thesis using numbered_inj assms by (meson finite_Un finite_set finite_subset finite_vimageI)
qed

lemma firstFree_least:
  assumes "\<not> taken (numbered base (n + k))"
  shows "\<exists>j \<le> k. firstFree taken base n = Some (numbered base (n + j)) \<and> \<not> taken (numbered base (n + j))
    \<and> (\<forall>i < j. taken (numbered base (n + i)))"
  using assms
proof (induction k arbitrary: n)
  case 0
  then show ?case by (subst firstFree.simps) simp
next
  case (Suc k)
  show ?case
  proof (cases "taken (numbered base n)")
    case True
    from Suc.IH [of "n + 1"] Suc.prems obtain j where j: "j \<le> k" "firstFree taken base (n + 1) = Some (numbered base (n + 1 + j))"
      "\<not> taken (numbered base (n + 1 + j))" "\<forall>i < j. taken (numbered base (n + 1 + i))" by auto
    have "taken (numbered base (n + i))" if "i < Suc j" for i using that True j(4) by (cases i) auto
    moreover have "firstFree taken base n = Some (numbered base (n + Suc j))" using True j(2) by (subst firstFree.simps) simp
    ultimately show ?thesis using j(1,3) by (intro exI [of _ "Suc j"]) auto
  next
    case False
    then show ?thesis by (intro exI [of _ 0]) (subst firstFree.simps, simp)
  qed
qed

lemma firstFree_sound:
  assumes "firstFree taken base n = Some i"
  shows "\<exists>k \<ge> n. i = numbered base k \<and> \<not> taken i \<and> (\<forall>m. n \<le> m \<and> m < k \<longrightarrow> taken (numbered base m))"
proof (rule firstFree.raw_induct [OF _ assms])
  fix search :: "(string \<Rightarrow> bool) \<Rightarrow> string \<Rightarrow> nat \<Rightarrow> string option" and taken base n i
  assume ih: "\<And>t b m y. search t b m = Some y \<Longrightarrow>
      \<exists>k \<ge> m. y = numbered b k \<and> \<not> t y \<and> (\<forall>j. m \<le> j \<and> j < k \<longrightarrow> t (numbered b j))"
    and run: "(if taken (numbered base n) then search taken base (n + 1) else Some (numbered base n)) = Some i"
  show "\<exists>k \<ge> n. i = numbered base k \<and> \<not> taken i \<and> (\<forall>m. n \<le> m \<and> m < k \<longrightarrow> taken (numbered base m))"
  proof (cases "taken (numbered base n)")
    case True
    with run have "search taken base (n + 1) = Some i" by simp
    from ih [OF this] obtain k where k: "k \<ge> n + 1" "i = numbered base k" "\<not> taken i"
      "\<forall>m. n + 1 \<le> m \<and> m < k \<longrightarrow> taken (numbered base m)" by (elim exE conjE)
    have "taken (numbered base m)" if m: "n \<le> m \<and> m < k" for m
    proof (cases "m = n")
      case False
      with m have "n + 1 \<le> m \<and> m < k" by simp
      then show ?thesis by (rule mp [OF spec [OF k(4)]])
    qed (use True in simp)
    moreover have "n \<le> k" using k(1) by simp
    ultimately show ?thesis using k(2,3) by (intro exI [of _ k] conjI allI impI)
  next
    case False
    with run show ?thesis by (intro exI [of _ n]) auto
  qed
qed

text \<open>The first candidate that is not taken: the base itself, or its number k when the base and every
  lower number from 2 on are taken.\<close>

definition firstCandidate :: "(string \<Rightarrow> bool) \<Rightarrow> string \<Rightarrow> string \<Rightarrow> bool" where
  "firstCandidate taken base i \<longleftrightarrow> \<not> taken i
     \<and> (i = base \<or> taken base \<and> (\<exists>k \<ge> 2. i = numbered base k \<and> (\<forall>n. 2 \<le> n \<and> n < k \<longrightarrow> taken (numbered base n))))"

definition allTaken :: "(string \<Rightarrow> bool) \<Rightarrow> string \<Rightarrow> bool" where
  "allTaken taken base \<longleftrightarrow> taken base \<and> (\<forall>n \<ge> 2. taken (numbered base n))"

lemma lowestFree_exact:
  "case lowestFree taken base of None \<Rightarrow> allTaken taken base | Some i \<Rightarrow> firstCandidate taken base i"
proof (cases "lowestFree taken base")
  case (Some i)
  show ?thesis
  proof (cases "taken base")
    case True
    with Some have "firstFree taken base 2 = Some i" by (simp add: lowestFree_def)
    from firstFree_sound [OF this] True Some show ?thesis by (auto simp: firstCandidate_def)
  next
    case False
    with Some show ?thesis by (simp add: lowestFree_def firstCandidate_def)
  qed
next
  case None
  then have base: "taken base" and search: "firstFree taken base 2 = None" by (auto simp: lowestFree_def split: if_splits)
  have "taken (numbered base n)" if "2 \<le> n" for n
  proof (rule ccontr)
    assume free: "\<not> taken (numbered base n)"
    have "2 + (n - 2) = n" using that by simp
    with free have "\<not> taken (numbered base (2 + (n - 2)))" by metis
    from firstFree_least [of taken base 2 "n - 2", OF this] search show False by auto
  qed
  with base None show ?thesis by (simp add: allTaken_def)
qed

lemma search_ends:
  assumes "finite {n. dx_lineFault x ns (numbered base n)}"
  shows "\<not> allTaken (noteTaken x ws project ns) base"
proof
  assume "allTaken (noteTaken x ws project ns) base"
  then have "{2..} \<subseteq> {n. noteTaken x ws project ns (numbered base n)}" by (auto simp: allTaken_def)
  then show False using taken_finite [OF assms] by (meson finite_subset infinite_Ici)
qed

text \<open>C18: The unbounded search for the id of a note or a reply is exact: when it returns, it returns
  the first candidate (the base, then its numbers from 2 on) that no draft has, whose line has
  no unit and whose line can be read; and it fails to return exactly when every candidate is
  taken or unreadable.  When the reads of only finitely many candidates fail it returns; on a
  store all of whose reads fail it never does.\<close>
theorem note_id_found:
  fixes x :: draftContext and ws :: workspaceState and project ns subject role :: string
  defines "taken \<equiv> noteTaken x ws project ns"
  shows "(case deriveNoteID x ws project ns subject role of
         None \<Rightarrow> allTaken taken (subject @ dash # role) | Some i \<Rightarrow> firstCandidate taken (subject @ dash # role) i)
    \<and> (case deriveReplyID x ws project ns subject of
         None \<Rightarrow> allTaken taken (subject @ ''-reply'') | Some i \<Rightarrow> firstCandidate taken (subject @ ''-reply'') i)
    \<and> (finite {i. dx_lineFault x ns i} \<longrightarrow> deriveNoteID x ws project ns subject role \<noteq> None \<and> deriveReplyID x ws project ns subject \<noteq> None)
    \<and> ((\<forall>i. dx_lineFault x ns i) \<longrightarrow> deriveNoteID x ws project ns subject role = None \<and> deriveReplyID x ws project ns subject = None)"
proof -
  have ends: "lowestFree taken base \<noteq> None" if "finite {i. dx_lineFault x ns i}" for base
  proof -
    have "finite (numbered base -` {i. dx_lineFault x ns i})" by (rule finite_vimageI [OF that numbered_inj])
    then have "finite {n. dx_lineFault x ns (numbered base n)}" by (simp add: vimage_def)
    from search_ends [OF this, of ws project, folded taken_def] lowestFree_exact [of taken base]
    show ?thesis by (auto split: option.splits)
  qed
  have never: "lowestFree taken base = None" if "\<forall>i. dx_lineFault x ns i" for base
  proof -
    have "taken i" for i using that by (simp add: taken_def noteTaken_def)
    then show ?thesis using lowestFree_exact [of taken base] by (auto simp: firstCandidate_def split: option.splits)
  qed
  show ?thesis using ends never lowestFree_exact unfolding deriveNoteID_def deriveReplyID_def taken_def by blast
qed

text \<open>In a workspace with the draft of the first candidate, and with a store that answers reads of
  every line but one.\<close>

theorem note_id_found_witness:
  "deriveNoteID (sampleDraftContext\<lparr>dx_lineFault := (\<lambda>ns i. i = ''s-risk-2'')\<rparr>)
     (emptyWorkspace\<lparr>ws_drafts := [(''p'', [\<lparr>fl_Name = ''cmt-s-risk.json'', fl_Contents = '''', fl_Updated = ''''\<rparr>])]\<rparr>)
     ''p'' ''core'' ''s'' ''risk'' = Some ''s-risk-3''"
proof -
  let ?x = "sampleDraftContext\<lparr>dx_lineFault := (\<lambda>ns i. i = ''s-risk-2'')\<rparr>"
  let ?ws = "emptyWorkspace\<lparr>ws_drafts := [(''p'', [\<lparr>fl_Name = ''cmt-s-risk.json'', fl_Contents = '''', fl_Updated = ''''\<rparr>])]\<rparr>"
  have "finite {i. dx_lineFault ?x ''core'' i}" by simp
  then obtain i where i: "deriveNoteID ?x ?ws ''p'' ''core'' ''s'' ''risk'' = Some i"
    "firstCandidate (noteTaken ?x ?ws ''p'' ''core'') (''s'' @ dash # ''risk'') i"
    using note_id_found [where x = ?x and ws = ?ws and project = "''p''" and ns = "''core''" and subject = "''s''" and role = "''risk''"]
    by (auto split: option.splits)
  have t: "noteTaken ?x ?ws ''p'' ''core'' (''s'' @ dash # ''risk'')" "noteTaken ?x ?ws ''p'' ''core'' (numbered (''s'' @ dash # ''risk'') 2)"
    "\<not> noteTaken ?x ?ws ''p'' ''core'' (numbered (''s'' @ dash # ''risk'') 3)" "numbered (''s'' @ dash # ''risk'') 3 = ''s-risk-3''" by code_simp+
  from i(2) t(1) obtain k where k: "k \<ge> 2" "i = numbered (''s'' @ dash # ''risk'') k" "\<not> noteTaken ?x ?ws ''p'' ''core'' i"
    "\<forall>n. 2 \<le> n \<and> n < k \<longrightarrow> noteTaken ?x ?ws ''p'' ''core'' (numbered (''s'' @ dash # ''risk'') n)" unfolding firstCandidate_def by blast
  have "k \<noteq> 2" using k(2,3) t(2) by blast
  moreover have "\<not> 3 < k" using k(4) t(3) by auto
  ultimately have "k = 3" using k(1) by linarith
  then show ?thesis using i(1) k(2) t(4) by simp
qed

section \<open>The struct round trip\<close>

lemma find_append: "find P (xs @ ys) = (case find P xs of None \<Rightarrow> find P ys | Some z \<Rightarrow> Some z)"
  by (induction xs) auto

lemma fieldOf_cases:
  "fieldOf [] k = GNil"
  "fieldOf (doc @ [(q, v)]) k = (if equal_fold q k then v else fieldOf doc k)"
  by (simp_all add: fieldOf_def)

lemma fieldOf_map_of:
  assumes "list_all (\<lambda>(q, v). equal_fold q k \<longleftrightarrow> q = k) doc" "distinct (map fst doc)"
  shows "fieldOf doc k = (case map_of doc k of None \<Rightarrow> GNil | Some v \<Rightarrow> v)"
  using assms
proof (induction doc)
  case (Cons p doc)
  obtain q v where p: "p = (q, v)" by (cases p)
  have IH: "fieldOf doc k = (case map_of doc k of None \<Rightarrow> GNil | Some v \<Rightarrow> v)" using Cons by simp
  have none: "find (\<lambda>(q, v). equal_fold q k) (rev doc) = None \<longleftrightarrow> map_of doc k = None"
    using Cons.prems(1) by (fastforce simp: find_None_iff list_all_iff map_of_eq_None_iff image_iff)
  have split: "fieldOf (p # doc) k = (if find (\<lambda>(q, v). equal_fold q k) (rev doc) = None
      then (if equal_fold q k then v else GNil) else fieldOf doc k)"
    by (auto simp: fieldOf_def p find_append split: option.splits)
  show ?case
  proof (cases "map_of doc k")
    case None
    then show ?thesis using IH none split Cons.prems(1) by (simp add: p)
  next
    case (Some w)
    then have "q \<noteq> k" using Cons.prems(2) by (force simp: p image_iff dest!: map_of_SomeD)
    then show ?thesis using Some IH none split by (auto simp: p)
  qed
qed (simp add: fieldOf_def)

definition docKeys :: "string list" where
  "docKeys = [''namespace'', ''type'', ''id'', ''revision'', ''state'', ''author'', ''dimension'', ''phase'', ''domain'', ''relationships'',
     ''changeLog'', ''provenance'', ''sourcePromptHash'', ''confidence'', ''sourceCommitSha'', ''captureMeta'', ''content'']"

lemma docKeys_fold: "list_all (\<lambda>k. list_all (\<lambda>q. equal_fold q k \<longleftrightarrow> q = k) docKeys) docKeys"
  by code_simp

lemma map_of_present: "map_of ((case v of None \<Rightarrow> [] | Some a \<Rightarrow> [(k, f a)]) @ xs) q =
    (if q = k \<and> v \<noteq> None then map_option f v else map_of xs q)"
  by (cases v) auto

lemma written_lookup:
  "map_of (writtenDoc d) ''namespace'' = Some (GString (dd_Namespace d))" "map_of (writtenDoc d) ''type'' = Some (GString (dd_Type d))"
  "map_of (writtenDoc d) ''id'' = Some (GString (dd_ID d))" "map_of (writtenDoc d) ''revision'' = Some (GFloat (of_int (dd_Revision d)))"
  "map_of (writtenDoc d) ''state'' = (if dd_State d = [] then None else Some (GMap (map (\<lambda>(k, v). (k, GString v)) (dd_State d))))"
  "map_of (writtenDoc d) ''author'' = map_option marshalIdentity (dd_Author d)"
  "map_of (writtenDoc d) ''dimension'' = (if dd_Dimension d = '''' then None else Some (GString (dd_Dimension d)))"
  "map_of (writtenDoc d) ''phase'' = (if dd_Phase d = '''' then None else Some (GString (dd_Phase d)))"
  "map_of (writtenDoc d) ''domain'' = (if dd_Domain d = '''' then None else Some (GString (dd_Domain d)))"
  "map_of (writtenDoc d) ''relationships'' = (if dd_Relationships d = [] then None
     else Some (GMap (map (\<lambda>(k, v). (k, targetsDoc v)) (dd_Relationships d))))"
  "map_of (writtenDoc d) ''changeLog'' = (if dd_ChangeLog d = [] then None else Some (GList (map logDoc (dd_ChangeLog d))))"
  "map_of (writtenDoc d) ''provenance'' = (if dd_Provenance d = '''' then None else Some (GString (dd_Provenance d)))"
  "map_of (writtenDoc d) ''sourcePromptHash'' = (if dd_SourcePromptHash d = '''' then None else Some (GString (dd_SourcePromptHash d)))"
  "map_of (writtenDoc d) ''confidence'' = map_option GFloat (dd_Confidence d)"
  "map_of (writtenDoc d) ''sourceCommitSha'' = (if dd_SourceCommitSha d = '''' then None else Some (GString (dd_SourceCommitSha d)))"
  "map_of (writtenDoc d) ''captureMeta'' = map_option metaDoc (dd_CaptureMeta d)"
  "map_of (writtenDoc d) ''content'' = Some (case dd_Content d of None \<Rightarrow> GNil | Some m \<Rightarrow> GMap m)"
  by (simp_all add: writtenDoc_def map_of_optional map_of_unless map_of_present del: map_of_append)

lemma present_keys: "map fst (case v of None \<Rightarrow> [] | Some a \<Rightarrow> [(k, f a)]) = (if v = None then [] else [k])"
  by (cases v) auto

lemma written_key_list: "\<exists>cs. map fst (writtenDoc d) = concat (map (\<lambda>(c, k). if c then [] else [k]) cs) \<and> map snd cs = docKeys"
proof -
  have o: "map fst (optional k v) = (if v = '''' then [] else [k])" for k v by (simp add: optional_def)
  have u: "map fst (if c then [] else [(k, v :: gvalue)]) = (if c then [] else [k :: string])" for c k v by simp
  show ?thesis
    by (rule exI [of _ "[(False, ''namespace''), (False, ''type''), (False, ''id''), (False, ''revision''),
      (dd_State d = [], ''state''), (dd_Author d = None, ''author''), (dd_Dimension d = '''', ''dimension''), (dd_Phase d = '''', ''phase''),
      (dd_Domain d = '''', ''domain''), (dd_Relationships d = [], ''relationships''), (dd_ChangeLog d = [], ''changeLog''),
      (dd_Provenance d = '''', ''provenance''), (dd_SourcePromptHash d = '''', ''sourcePromptHash''),
      (dd_Confidence d = None, ''confidence''), (dd_SourceCommitSha d = '''', ''sourceCommitSha''),
      (dd_CaptureMeta d = None, ''captureMeta''), (False, ''content'')]"])
      (simp add: writtenDoc_def o u present_keys docKeys_def split del: if_split)
qed

lemma chosen_keys:
  "set (concat (map (\<lambda>(c, k). if c then [] else [k]) cs)) \<subseteq> set (map snd cs)"
  "distinct (map snd cs) \<Longrightarrow> distinct (concat (map (\<lambda>(c, k). if c then [] else [k]) cs))"
proof -
  show sub: "set (concat (map (\<lambda>(c, k). if c then [] else [k]) cs)) \<subseteq> set (map snd cs)" for cs :: "(bool \<times> 'a) list"
    by (force split: if_splits)
  show "distinct (map snd cs) \<Longrightarrow> distinct (concat (map (\<lambda>(c, k). if c then [] else [k]) cs))"
  proof (induction cs)
    case (Cons p cs)
    obtain c k where p: "p = (c, k)" by (cases p)
    have "k \<notin> set (concat (map (\<lambda>(c, k). if c then [] else [k]) cs))"
      using subsetD [OF sub [of cs]] Cons.prems by (auto simp only: p list.map snd_conv distinct.simps)
    then show ?case using Cons
      by (cases c) (simp_all only: p list.map concat.simps prod.case if_True if_False append.simps distinct.simps snd_conv simp_thms)
  qed simp
qed

lemma written_keys: "set (map fst (writtenDoc d)) \<subseteq> set docKeys" "distinct (map fst (writtenDoc d))"
proof -
  obtain cs where cs: "map fst (writtenDoc d) = concat (map (\<lambda>(c, k). if c then [] else [k]) cs)" "map snd cs = docKeys"
    using written_key_list by blast
  show "set (map fst (writtenDoc d)) \<subseteq> set docKeys" unfolding cs(1) using chosen_keys(1) [of cs] cs(2) by simp
  have "distinct (map snd cs)" unfolding cs(2) by (simp add: docKeys_def)
  then show "distinct (map fst (writtenDoc d))" unfolding cs(1) by (rule chosen_keys(2))
qed

lemma written_field:
  assumes "k \<in> set docKeys"
  shows "fieldOf (writtenDoc d) k = (case map_of (writtenDoc d) k of None \<Rightarrow> GNil | Some v \<Rightarrow> v)"
proof (rule fieldOf_map_of)
  have "list_all (\<lambda>q. equal_fold q k \<longleftrightarrow> q = k) docKeys" using docKeys_fold assms unfolding list_all_iff by blast
  then show "list_all (\<lambda>(q, v). equal_fold q k \<longleftrightarrow> q = k) (writtenDoc d)"
    using written_keys(1) [of d] by (fastforce simp: list_all_iff)
qed (rule written_keys(2))

definition canonicalBy :: "AuthorIdentity \<Rightarrow> bool" where
  "canonicalBy a = (au_Kind a = KindUser \<or> IsAuthorKind (au_Kind a) \<and> au_Name a \<noteq> '''')"

definition canonicalDoc :: "draftDoc \<Rightarrow> bool" where
  "canonicalDoc d = ((case dd_Author d of None \<Rightarrow> True | Some a \<Rightarrow> canonicalBy a) \<and> list_all (\<lambda>e. canonicalBy (dl_By e)) (dd_ChangeLog d))"

lemma canonicalBy_decode: "canonicalBy a \<Longrightarrow> decodeIdentity (marshalIdentity a) = Some a"
  by (cases a) (auto simp: canonicalBy_def identity_defs)

lemma those_map: "(\<And>y. y \<in> set ys \<Longrightarrow> g (f y) = Some y) \<Longrightarrow> those (map g (map f ys)) = Some ys"
  by (induction ys) auto

lemma asLog_logDoc: "canonicalBy (dl_By e) \<Longrightarrow> asLog (logDoc e) = Some e"
  using canonicalBy_decode [of "dl_By e"]
  by (simp add: asLog_def logDoc_def asBy_def fieldOf_def to_lower_def is_upper_def del: decodeIdentity.simps)

lemma asTexts_targetsDoc: "asTexts (targetsDoc ts) = Some ts"
  using those_map [of _ asText GString] by (cases ts) (simp_all add: targetsDoc_def)

lemma asMeta_metaDoc: "asMeta (metaDoc m) = Some (Some m)"
  by (auto simp: asMeta_def metaDoc_def optional_def fieldOf_def to_lower_def is_upper_def intro: CaptureMeta.equality)

lemma asTable_pairs: "(\<And>v. f (g v) = Some v) \<Longrightarrow> asTable f (GMap (map (\<lambda>(k, v). (k, g v)) m)) = Some m"
proof -
  assume "\<And>v. f (g v) = Some v"
  then have "those (map (\<lambda>(k, w). map_option (Pair k) (f w)) (map (\<lambda>(k, v). (k, g v)) m)) = Some m"
    by (intro those_map) auto
  then show ?thesis by (simp add: asTable_def del: map_map)
qed

lemma written_reads_back:
  assumes "canonicalDoc d"
  shows "readDoc (writtenDoc d) = Some d"
proof -
  have f: "fieldOf (writtenDoc d) k = (case map_of (writtenDoc d) k of None \<Rightarrow> GNil | Some v \<Rightarrow> v)" if "List.member docKeys k" for k
    using that written_field by (simp add: List.member_iff)
  have texts: "those (map (\<lambda>k. asText (fieldOf (writtenDoc d) k)) [''namespace'', ''type'', ''id'', ''dimension'', ''phase'', ''domain'',
        ''provenance'', ''sourcePromptHash'', ''sourceCommitSha'']) =
      Some [dd_Namespace d, dd_Type d, dd_ID d, dd_Dimension d, dd_Phase d, dd_Domain d, dd_Provenance d, dd_SourcePromptHash d, dd_SourceCommitSha d]"
    by (simp add: f docKeys_def written_lookup)
  have logs: "those (map asLog (map logDoc (dd_ChangeLog d))) = Some (dd_ChangeLog d)"
    using assms by (intro those_map asLog_logDoc) (simp add: canonicalDoc_def list_all_iff)
  have s: "asTable asText (fieldOf (writtenDoc d) ''state'') = Some (dd_State d)"
    using asTable_pairs [of asText GString "dd_State d"] by (simp add: f docKeys_def written_lookup) (simp add: asTable_def)
  have r: "asTable asTexts (fieldOf (writtenDoc d) ''relationships'') = Some (dd_Relationships d)"
    using asTable_pairs [of asTexts targetsDoc "dd_Relationships d"] asTexts_targetsDoc
    by (simp add: f docKeys_def written_lookup) (simp add: asTable_def)
  have l: "asLogs (fieldOf (writtenDoc d) ''changeLog'') = Some (dd_ChangeLog d)"
    using logs by (simp add: f docKeys_def written_lookup asLogs_def del: map_map)
  have a: "asAuthor (fieldOf (writtenDoc d) ''author'') = Some (dd_Author d)"
  proof (cases "dd_Author d")
    case (Some who)
    then have "decodeIdentity (marshalIdentity who) = Some who" "marshalIdentity who \<noteq> GNil"
      using assms canonicalBy_decode by (simp_all add: canonicalDoc_def marshalIdentity_def)
    then show ?thesis using Some by (simp add: f docKeys_def written_lookup asAuthor_def del: decodeIdentity.simps)
  qed (simp add: f docKeys_def written_lookup asAuthor_def)
  have o: "asWhole (fieldOf (writtenDoc d) ''revision'') = Some (dd_Revision d)"
    "asRat (fieldOf (writtenDoc d) ''confidence'') = Some (dd_Confidence d)"
    "asMeta (fieldOf (writtenDoc d) ''captureMeta'') = Some (dd_CaptureMeta d)"
    "asContent (fieldOf (writtenDoc d) ''content'') = Some (dd_Content d)"
    by (simp_all add: f docKeys_def written_lookup asMeta_metaDoc asContent_def split: option.split) (simp add: asMeta_def)
  show ?thesis unfolding readDoc_def texts s r l a o by simp
qed

section \<open>Resolving a draft\<close>

lemma find_write:
  "find (\<lambda>f. fl_Name f = q) (map (\<lambda>f. if fl_Name f = nm then f\<lparr>fl_Contents := body, fl_Updated := now\<rparr> else f) fs)
     = (if q = nm then map_option (\<lambda>f. f\<lparr>fl_Contents := body, fl_Updated := now\<rparr>) (find (\<lambda>f. fl_Name f = q) fs)
        else find (\<lambda>f. fl_Name f = q) fs)"
  for fs :: "draftFile list"
  by (induction fs) auto

lemma findDraft_write:
  "findDraft (writeDraft tree project nm body now) p q = (if p = project \<and> q = nm
     then map_option (\<lambda>f. f\<lparr>fl_Contents := body, fl_Updated := now\<rparr>) (findDraft tree p q) else findDraft tree p q)"
proof -
  have files: "projectFiles (writeDraft tree project nm body now) p = (if p = project
      then map (\<lambda>f. if fl_Name f = nm then f\<lparr>fl_Contents := body, fl_Updated := now\<rparr> else f) (projectFiles tree p) else projectFiles tree p)"
    unfolding projectFiles_def writeDraft_def get_or_def by (induction tree) auto
  show ?thesis by (simp add: findDraft_def files find_write)
qed

lemma resolvedDoc_state: "get_or (dd_State (resolvedDoc today by d)) ''noteState'' '''' = ''resolved''"
  by (simp add: resolvedDoc_def get_or_putKey)

lemma resolvedDoc_canonical: "canonicalDoc d \<Longrightarrow> canonicalBy by \<Longrightarrow> canonicalDoc (resolvedDoc today by d)"
  by (simp add: canonicalDoc_def resolvedDoc_def)

text \<open>C20: Resolving a draft note is recorded and final.  For a note draft that reads as a document
  struct with canonical identities, resolved by a canonical identity, and an encoder whose
  output decodes to what was written: the rewritten file reads back as the struct with the
  note state resolved, every other state as before, one more change-log entry (open to
  resolved, dated today, by the authority) and every other field of the struct as before; the
  file holds the fields of the struct only (a key the struct does not have is lost); every
  other draft is as before; and resolving the note again, by anyone, reports it as already
  resolved and changes nothing.\<close>
theorem resolve_draft_recorded:
  assumes run: "resolveDraftNote x tree project nm by = Inr (tree', False)"
    and found: "findDraft tree project nm = Some f" "dec_json (dx_decoding x) (fl_Contents f) = Some m" "readDoc m = Some d"
    and canonical: "canonicalDoc d" "canonicalBy by"
    and decoded: "dec_json (dx_decoding x) (dx_encode x (writtenDoc (resolvedDoc (x_today (dx_store x)) by d)))
      = Some (writtenDoc (resolvedDoc (x_today (dx_store x)) by d))"
  shows "(\<exists>f' m' d'. findDraft tree' project nm = Some f' \<and> dec_json (dx_decoding x) (fl_Contents f') = Some m' \<and> readDoc m' = Some d'
       \<and> (\<forall>k. get_or (dd_State d') k '''' = (if k = ''noteState'' then ''resolved'' else get_or (dd_State d) k ''''))
       \<and> dd_ChangeLog d' = dd_ChangeLog d @ [\<lparr>dl_Date = x_today (dx_store x), dl_Domain = ''noteState'', dl_From = ''open'',
            dl_To = ''resolved'', dl_By = by\<rparr>]
       \<and> d'\<lparr>dd_State := dd_State d, dd_ChangeLog := dd_ChangeLog d\<rparr> = d \<and> set (map fst m') \<subseteq> set docKeys)
    \<and> resolveDraftNote x tree' project nm by' = Inr (tree', True)
    \<and> (p = project \<and> q = nm \<or> findDraft tree' p q = findDraft tree p q)"
proof -
  let ?r = "resolvedDoc (x_today (dx_store x)) by d"
  have t: "tree' = writeDraft tree project nm (dx_encode x (writtenDoc ?r)) (x_now (dx_store x))"
    using run found by (auto simp: resolveDraftNote_def split: if_splits)
  have again: "readDoc (writtenDoc ?r) = Some ?r"
    using resolvedDoc_canonical [OF canonical] by (rule written_reads_back)
  have stored: "findDraft tree' project nm = Some (f\<lparr>fl_Contents := dx_encode x (writtenDoc ?r), fl_Updated := x_now (dx_store x)\<rparr>)"
    using found(1) by (simp add: t findDraft_write)
  have camel: "StateKeyCamel DomainNoteState = ''noteState''" by code_simp
  have "\<forall>k. get_or (dd_State ?r) k '''' = (if k = ''noteState'' then ''resolved'' else get_or (dd_State d) k '''')"
    by (simp add: resolvedDoc_def get_or_putKey)
  moreover have "dd_ChangeLog ?r = dd_ChangeLog d @ [\<lparr>dl_Date = x_today (dx_store x), dl_Domain = ''noteState'', dl_From = ''open'',
      dl_To = ''resolved'', dl_By = by\<rparr>]" by (simp add: resolvedDoc_def camel)
  moreover have "?r\<lparr>dd_State := dd_State d, dd_ChangeLog := dd_ChangeLog d\<rparr> = d" by (simp add: resolvedDoc_def)
  ultimately have "\<exists>f' m' d'. findDraft tree' project nm = Some f' \<and> dec_json (dx_decoding x) (fl_Contents f') = Some m' \<and> readDoc m' = Some d'
      \<and> (\<forall>k. get_or (dd_State d') k '''' = (if k = ''noteState'' then ''resolved'' else get_or (dd_State d) k ''''))
      \<and> dd_ChangeLog d' = dd_ChangeLog d @ [\<lparr>dl_Date = x_today (dx_store x), dl_Domain = ''noteState'', dl_From = ''open'',
           dl_To = ''resolved'', dl_By = by\<rparr>]
      \<and> d'\<lparr>dd_State := dd_State d, dd_ChangeLog := dd_ChangeLog d\<rparr> = d \<and> set (map fst m') \<subseteq> set docKeys"
    using decoded again written_keys(1) [of ?r]
    by (intro exI [of _ "f\<lparr>fl_Contents := dx_encode x (writtenDoc ?r), fl_Updated := x_now (dx_store x)\<rparr>"]
        exI [of _ "writtenDoc ?r"] exI [of _ ?r] conjI stored) simp_all
  moreover have "resolveDraftNote x tree' project nm by' = Inr (tree', True)"
    using decoded again resolvedDoc_state [of "x_today (dx_store x)" "by" d] by (simp add: resolveDraftNote_def stored)
  moreover have "p = project \<and> q = nm \<or> findDraft tree' p q = findDraft tree p q" by (simp add: t findDraft_write)
  ultimately show ?thesis by blast
qed

text \<open>A dismissed note is resolved too, and the log says it was open.\<close>

lemma dismissed_is_resolved:
  "map_option (\<lambda>d. (dd_State d, map dl_From (dd_ChangeLog d)))
     (map_option (resolvedDoc ''2024-01-02'' (User ''ann'')) (readDoc [(''type'', GString ''cmt''), (''state'', GMap [(''noteState'', GString ''dismissed'')])]))
   = Some ([(''noteState'', ''resolved'')], [''open''])"
  by code_simp

text \<open>The struct drops the fields it does not have, and a kebab-case state key stays beside the new
  one.\<close>

lemma resolve_drops_fields:
  "map_option (\<lambda>m. (map_of m ''instanceVersion'', map_of m ''created'', map_of m ''dimensionsSecondary'',
       case map_of m ''state'' of Some (GMap st) \<Rightarrow> (map_of st ''note-state'', map_of st ''noteState'') | _ \<Rightarrow> (None, None)))
     (map_option (\<lambda>d. writtenDoc (resolvedDoc ''2024-01-02'' (User ''ann'') d))
       (readDoc [(''type'', GString ''cmt''), (''instanceVersion'', GFloat 3), (''created'', GString ''2024-01-01''),
          (''dimensionsSecondary'', GList []), (''state'', GMap [(''note-state'', GString ''open'')])]))
   = Some (None, None, None, Some (GString ''open''), Some (GString ''resolved''))"
  by code_simp

section \<open>Resolving a line\<close>

lemma NewDraft_absent: "NewDraft x tree req = Inr (tree', d) \<Longrightarrow> findDraft tree (nd_Project req) (jsonName (nd_Type req) (nd_ID req)) = None"
  by (auto simp: NewDraft_def newDraftFile_def Let_def split: option.splits sum.splits if_splits)

lemma resolveDraft_keeps:
  assumes "resolveDraftNote x tree project nm by = Inr (tree', already)"
  shows "findDraft tree' p q = None \<longleftrightarrow> findDraft tree p q = None"
  using assms findDraft_write by (auto simp: resolveDraftNote_def split: option.splits if_splits)

lemma map_sum_Inr: "map_sum f g v = Inr z \<longleftrightarrow> (\<exists>y. v = Inr y \<and> g y = z)"
  by (cases v) auto

lemma scaffoldNote_db: "scaffoldNote x ws project i domain by rels bytes = Inr (ws', d) \<Longrightarrow> ws_db ws' = ws_db ws"
  by (auto simp: scaffoldNote_def split: sum.splits)

lemma NoteReply_db:
  assumes "NoteReply x ws req = Some (Inr (ws', res))"
  shows "ws_db ws' = ws_db ws"
proof -
  obtain project i domain rels bytes d where "scaffoldNote x ws project i domain (rp_By req) rels bytes = Inr (ws', d)"
    using assms unfolding NoteReply_def Let_def
    by (auto split: if_splits sum.split_asm option.split_asm simp: map_sum_Inr)
  then show ?thesis by (rule scaffoldNote_db)
qed

lemma attachReply_db: "attachReply x ws req = Some (Inr (ws', i)) \<Longrightarrow> ws_db ws' = ws_db ws"
  by (auto simp: attachReply_def map_sum_Inr split: if_splits dest!: NoteReply_db)

text \<open>A note line with a draft and an open first unit cannot be resolved: the call advances the draft
  and then tries to scaffold a second draft under the same name, so it always ends in an
  error; nothing is published.\<close>
theorem draft_blocks_resolution:
  assumes "ResolveNote x ws req = Some (out, ws')" and "trim_space (rv_ReplyBody req) = ''''"
    and "ownLine (dx_store x) True True (rv_Target req) = Inr r" and "x_project (dx_store x) = Some (project, repo)"
    and "findDraft (ws_drafts ws) project (jsonName ''cmt'' (ref_ID r)) = Some f"
    and "UnitsByLine (x_decode (dx_store x)) (ws_db ws) (ref_Namespace r) ''cmt'' (ref_ID r) = Some (u # us)"
    and "sv_NoteState (u_StateVector u) \<noteq> ''resolved''"
  shows "(\<exists>e. out = Inl e) \<and> ws_db ws' = ws_db ws"
proof -
  have ns: "ref_Namespace r = x_namespace (dx_store x)"
    using assms(3) by (auto simp: ownLine_def split: sum.splits if_splits)
  have fail: "(\<exists>e. fst (resolvePublishedNote x (ws\<lparr>ws_drafts := tree\<rparr>) project (x_namespace (dx_store x)) (ref_ID r) who) = Inl e)
      \<and> ws_db (snd (resolvePublishedNote x (ws\<lparr>ws_drafts := tree\<rparr>) project (x_namespace (dx_store x)) (ref_ID r) who)) = ws_db ws"
    if "findDraft tree project (jsonName ''cmt'' (ref_ID r)) \<noteq> None" for tree who
  proof -
    have "\<exists>e. NewDraft (staged x (u_ContentPayload u)) tree
        (noteRequest project (x_namespace (dx_store x)) (ref_ID r) '''' who (u_Relationships u)) = Inl e"
      using that NewDraft_absent by (cases "NewDraft (staged x (u_ContentPayload u)) tree
        (noteRequest project (x_namespace (dx_store x)) (ref_ID r) '''' who (u_Relationships u))") (fastforce simp: noteRequest_def)+
    then show ?thesis using assms(6,7) ns by (auto simp: resolvePublishedNote_def)
  qed
  have line: "(\<exists>e. fst (resolveLine x ws project r (rv_By req) '''') = Inl e) \<and> ws_db (snd (resolveLine x ws project r (rv_By req) '''')) = ws_db ws"
  proof (cases "resolveDraftNote x (ws_drafts ws) project (jsonName ''cmt'' (ref_ID r)) (rv_By req)")
    case (Inl e)
    then show ?thesis using assms(5) by (simp add: resolveLine_def)
  next
    case (Inr p)
    obtain tree already where p: "p = (tree, already)" by (cases p)
    have "findDraft tree project (jsonName ''cmt'' (ref_ID r)) \<noteq> None"
      using resolveDraft_keeps [OF Inr [unfolded p]] assms(5) by simp
    from fail [OF this, of "rv_By req"] show ?thesis
      using Inr assms(5-7) by (auto simp: resolveLine_def p Let_def split: prod.splits sum.splits)
  qed
  consider e where "out = Inl e" "ws' = ws" | "(out, ws') = resolveLine x ws project r (rv_By req) ''''"
    using assms(1-4) by (auto simp: ResolveNote_def attachReply_def Let_def split: if_splits)
  then show ?thesis using line by cases (auto simp: prod_eq_iff)
qed

text \<open>Resolving a published note never settles while its first listed unit is open: the units of a
  line come in the order of their forms, so that is an old instance, and each further
  resolution that succeeds publishes yet another one instead of reporting the note as
  already resolved.\<close>
theorem resolution_never_settles:
  assumes "ResolveNote x ws req = Some (Inr res, ws')"
    and "ownLine (dx_store x) True True (rv_Target req) = Inr r"
    and "UnitsByLine (x_decode (dx_store x)) (ws_db ws) (ref_Namespace r) ''cmt'' (ref_ID r) = Some (u # us)"
    and "sv_NoteState (u_StateVector u) \<noteq> ''resolved''"
  shows "rn_Published res \<and> \<not> rn_AlreadyResolved res
    \<and> (\<exists>tree pub. Publish x (ws\<lparr>ws_drafts := tree\<rparr>) (''cmt:'' @ ref_ID r) \<lparr>po_Project = '''', po_InstanceVersion = 0\<rparr> = (Inr pub, ws'))"
proof -
  have ns: "ref_Namespace r = x_namespace (dx_store x)"
    using assms(2) by (auto simp: ownLine_def split: sum.splits if_splits)
  obtain project repo ws1 i where p: "x_project (dx_store x) = Some (project, repo)" "attachReply x ws req = Some (Inr (ws1, i))"
    "resolveLine x ws1 project r (rv_By req) i = (Inr res, ws')"
    using assms(1,2) by (auto simp: ResolveNote_def Let_def split: if_splits option.splits sum.splits)
  have db1: "ws_db ws1 = ws_db ws" using attachReply_db [OF p(2)] .
  from p(3) obtain mid r1 where t: "resolvePublishedNote x mid project (x_namespace (dx_store x)) (ref_ID r) (rv_By req) = (Inr r1, ws')"
    "rn_Published res" "\<not> rn_AlreadyResolved res" "ws_db mid = ws_db ws"
    using assms(3,4) db1 by (auto simp: resolveLine_def Let_def split: sum.splits prod.splits if_splits)
  have u: "UnitsByLine (x_decode (dx_store x)) (ws_db mid) (x_namespace (dx_store x)) ''cmt'' (ref_ID r) = Some (u # us)"
    using assms(3) ns t(4) by simp
  from t(1) u assms(4) obtain tree pub where "Publish x (mid\<lparr>ws_drafts := tree\<rparr>) (''cmt:'' @ ref_ID r) \<lparr>po_Project = '''', po_InstanceVersion = 0\<rparr> = (Inr pub, ws')"
    by (auto simp: resolvePublishedNote_def split: sum.splits prod.splits)
  moreover have "mid\<lparr>ws_drafts := tree\<rparr> = ws\<lparr>ws_drafts := tree\<rparr>" using t(4) by (cases ws, cases mid) simp
  ultimately show ?thesis using t(2,3) by auto
qed

section \<open>What the gates see of a note draft\<close>

lemma staged_simps [simp]:
  "dx_store (staged x b) = dx_store x" "dx_decoding (staged x b) = dx_decoding x" "dx_encode (staged x b) = dx_encode x"
  "dx_root (staged x b) = dx_root x" "scanDraft (staged x b) = scanDraft x" "draftPathOf (staged x b) = draftPathOf x"
  by (simp_all add: staged_def scanDraft_def draftPathOf_def fun_eq_iff)

lemma draftTargets_single:
  "t \<noteq> '''' \<Longrightarrow> draftTargets [\<lparr>rel_Type = f, rel_Target = t\<rparr>] g = (if g = f then [t] else [])"
  by (simp add: draftTargets_def)

lemma mergeInto_other: "list_all (\<lambda>p. fst p \<noteq> k) c \<Longrightarrow> map_of (mergeInto m c) k = map_of m k"
proof (induction c arbitrary: m)
  case (Cons p c)
  obtain q v where p: "p = (q, v)" by (cases p)
  have "map_of (filter (\<lambda>p. fst p \<noteq> q) m) k = map_of m k" using Cons.prems by (induction m) (auto simp: p)
  then have "map_of (putKey m q v) k = map_of m k" using Cons.prems by (auto simp: putKey_def p)
  then show ?case using Cons by (simp add: mergeInto_def p)
qed (simp add: mergeInto_def)

lemma mergeInto_put: "map_of (mergeInto m (putKey c k v)) k = Some v"
proof -
  have "mergeInto m (putKey c k v) = mergeInto (putKey m k v) (filter (\<lambda>p. fst p \<noteq> k) c)"
    by (simp add: mergeInto_def putKey_def [of c])
  also have "map_of \<dots> k = map_of (putKey m k v) k" by (rule mergeInto_other) (simp add: list_all_iff)
  finally show ?thesis by (simp add: putKey_def)
qed

lemma note_scans:
  fixes x :: draftContext and content :: "gvalue gomap"
  assumes new: "scaffoldNote x ws project i domain by [\<lparr>rel_Type = f, rel_Target = t\<rparr>] (dx_encode x content) = Inr (ws', d)"
    and rel: "List.member relationshipFields f" "t \<noteq> ''''"
    and rq: "rq = noteRequest project (x_namespace (dx_store x)) i domain by [\<lparr>rel_Type = f, rel_Target = t\<rparr>]"
    and doc: "doc = draftDocument (x_today (dx_store x)) rq (mergeInto (placeholders ''cmt'') content)"
    and decoded: "dec_json (dx_decoding x) (dx_encode x content) = Some content" "dec_json (dx_decoding x) (dx_encode x doc) = Some doc"
    and plain: "list_all (\<lambda>(k, v). isStringOrObject v) content"
    and valid: "validDate (x_today (dx_store x))" "validBy by"
  obtains found a where "findDraft (ws_drafts ws') project (jsonName ''cmt'' i) = Some found" "scanDraft x project found = Inr (Some a)"
    "Type a = ''cmt''" "Namespace a = x_namespace (dx_store x)" "ID a = i" "Relations a = [(f, [t])]"
    "get_or (States a) DomainNoteState '''' = ''open''" "ContentFields a = Some (mergeInto (placeholders ''cmt'') content)"
proof -
  obtain tree where n: "NewDraft (staged x (dx_encode x content)) (ws_drafts ws) rq = Inr (tree, d)" "ws' = ws\<lparr>ws_drafts := tree\<rparr>"
    using new by (auto simp: scaffoldNote_def rq split: sum.splits)
  let ?c = "mergeInto (placeholders ''cmt'') content"
  have c: "draftContent (staged x (dx_encode x content)) rq [] = Inr ?c"
    using decoded(1) by (simp add: draftContent_def rq noteRequest_def stagedPath_def staged_def mergeInto_def)
  have p: "list_all (\<lambda>(k, v). isStringOrObject v) ?c" using mergeInto_values [OF placeholders_strings plain] .
  have v: "validCapture rq" "validBy (nd_By rq)" using valid(2) by (simp_all add: validCapture_def rq noteRequest_def noCapture_def)
  have s: "map_option (scanDraft x project) (findDraft tree project (jsonName ''cmt'' i))
      = Some (Inr (Some (scaffoldArtifact (dr_Path d) (x_today (dx_store x)) rq ?c)))"
    using NewDraft_scans [OF n(1) c, unfolded staged_simps, OF _ p valid(1) v(2,1)] decoded(2) doc by (simp add: rq noteRequest_def)
  let ?a = "scaffoldArtifact (dr_Path d) (x_today (dx_store x)) rq ?c"
  obtain found where found: "findDraft tree project (jsonName ''cmt'' i) = Some found" "scanDraft x project found = Inr (Some ?a)"
    using s by auto
  have "map (\<lambda>g. (g, draftTargets (nd_Relationships rq) g)) (filter (\<lambda>g. draftTargets (nd_Relationships rq) g \<noteq> []) relationshipFields) = [(f, [t])]"
    using rel by (auto simp: rq noteRequest_def draftTargets_single relationshipFields_def)
  then have r: "Relations ?a = [(f, [t])]" by (simp add: scaffoldArtifact_def Let_def)
  have "get_or (map (\<lambda>g. (g, draftDefaultState ''cmt'' g)) (filter (\<lambda>g. g \<in> set (OwnedDomains ''cmt'')) stateFields)) DomainNoteState '''' = ''open''"
    by code_simp
  then have o: "get_or (States ?a) DomainNoteState '''' = ''open''" by (simp add: scaffoldArtifact_def Let_def rq noteRequest_def)
  show ?thesis
    by (rule that [of found ?a]) (use found n(2) r o in \<open>simp_all add: scaffoldArtifact_def Let_def rq noteRequest_def\<close>)
qed

text \<open>A reply never opens a gate: the draft a reply creates is a note of the repository wired to its
  parent alone, so whatever subject a transition gate looks at, the notes it collects from this
  draft are none.\<close>
theorem reply_never_gates:
  assumes "NoteReply x ws req = Some (Inr (ws', res))"
    and "ownLine (dx_store x) True True (rp_Parent req) = Inr r" and "x_project (dx_store x) = Some (project, repo)"
    and "noteDomain (rp_Domain req) = Inr domain"
    and "content = replyContent (trim_space (rp_Body req))"
    and "doc = draftDocument (x_today (dx_store x)) (noteRequest project (x_namespace (dx_store x)) (ry_ID res) domain (rp_By req)
          [\<lparr>rel_Type = ''replies-to'', rel_Target = refLine r\<rparr>]) (mergeInto (placeholders ''cmt'') content)"
    and "dec_json (dx_decoding x) (dx_encode x content) = Some content" and "dec_json (dx_decoding x) (dx_encode x doc) = Some doc"
    and "validDate (x_today (dx_store x))" and "validBy (rp_By req)"
  shows "\<exists>found a. findDraft (ws_drafts ws') project (jsonName ''cmt'' (ry_ID res)) = Some found \<and> scanDraft x project found = Inr (Some a)
    \<and> Type a = ''cmt'' \<and> Relations a = [(''replies-to'', [ry_Parent res])] \<and> ry_Parent res = refLine r \<and> draftNotes [a] subject = []"
proof -
  obtain d where new: "scaffoldNote x ws project (ry_ID res) domain (rp_By req) [\<lparr>rel_Type = ''replies-to'', rel_Target = refLine r\<rparr>] (dx_encode x content) = Inr (ws', d)"
    and parent: "ry_Parent res = refLine r"
    using assms(1-5) by (auto simp: NoteReply_def Let_def map_sum_Inr split: if_splits option.splits)
  have plain: "list_all (\<lambda>(k, v). isStringOrObject v) content" by (simp add: assms(5) replyContent_def)
  have rel: "List.member relationshipFields ''replies-to''" "refLine r \<noteq> ''''" by (simp_all add: relationshipFields_def refLine_def)
  obtain found a where a: "findDraft (ws_drafts ws') project (jsonName ''cmt'' (ry_ID res)) = Some found" "scanDraft x project found = Inr (Some a)"
    "Type a = ''cmt''" "Relations a = [(''replies-to'', [refLine r])]"
    by (rule note_scans [OF new rel refl assms(6,7,8) plain assms(9,10)])
  have "draftNotes [a] subject = []" by (simp add: draftNotes_def discussesTargetArtifact_def a(4) get_or_def)
  then show ?thesis using a parent by auto
qed


section \<open>Samples\<close>

definition sampleNoteDoc :: draftDoc where
  "sampleNoteDoc = \<lparr>dd_Namespace = ''core'', dd_Type = ''cmt'', dd_ID = ''n'', dd_Revision = 1,
     dd_State = [(''contentState'', ''draft''), (''existenceState'', ''active''), (''noteState'', ''open'')],
     dd_Author = Some (User ''ann''), dd_Dimension = '''', dd_Phase = '''', dd_Domain = '''',
     dd_Relationships = [(''discusses'', Some [''core/mbr:m''])],
     dd_ChangeLog = map (\<lambda>(d, v). \<lparr>dl_Date = ''2024-01-01'', dl_Domain = d, dl_From = ''-'', dl_To = v, dl_By = User ''ann''\<rparr>)
       [(''contentState'', ''draft''), (''existenceState'', ''active''), (''noteState'', ''open'')],
     dd_Provenance = ''human'', dd_SourcePromptHash = '''', dd_Confidence = None, dd_SourceCommitSha = '''', dd_CaptureMeta = None,
     dd_Content = Some [(''role'', GString ''review''), (''verdict'', GString ''approve''), (''notes'', GList [])]\<rparr>"

definition sampleResolved :: draftDoc where
  "sampleResolved = resolvedDoc ''2024-01-02'' (User ''bob'') sampleNoteDoc"

lemma sampleNote_canonical: "canonicalDoc sampleNoteDoc" "canonicalDoc sampleResolved" "canonicalBy (User ''bob'')"
  by code_simp+

lemma sampleNote_reads_back: "readDoc (writtenDoc sampleNoteDoc) = Some sampleNoteDoc"
  by (rule written_reads_back [OF sampleNote_canonical(1)])

definition noteTree :: draft_tree where
  "noteTree = [(''p'', [\<lparr>fl_Name = ''cmt-n.json'', fl_Contents = ''old'', fl_Updated = ''''\<rparr>])]"

definition noteUnit :: "int \<Rightarrow> string \<Rightarrow> Unit" where
  "noteUnit v state = (storedUnit ''core'' ''cmt'' ''n'' (blankVector\<lparr>sv_NoteState := state\<rparr>) [(''discusses'', ''core/mbr:m'')])
     \<lparr>u_Identity := \<lparr>id_Namespace = ''core'', id_Type = ''cmt'', id_ID = ''n'', id_InstanceVersion = v\<rparr>,
      u_CanonicalIdentityForm := ''core/cmt:n:'' @ itoa v\<rparr>"

definition noteUnits :: "Unit gomap" where
  "noteUnits = [(''one'', noteUnit 1 ''open''), (''two'', noteUnit 2 ''resolved''), (''mbr'', storedUnit ''core'' ''mbr'' ''m'' blankVector [])]"

definition noteContext :: draftContext where
  "noteContext = sampleDraftContext\<lparr>dx_store := (dx_store sampleDraftContext)\<lparr>x_decode := map_of noteUnits,
       x_fields := (\<lambda>s. map_option GMap (dd_Content sampleNoteDoc)), x_project := Some (''p'', ''repo'')\<rparr>,
     dx_encode := (\<lambda>m. ''new''),
     dx_decoding := \<lparr>dec_json = (\<lambda>s. Some (writtenDoc (if s = ''old'' then sampleNoteDoc else sampleResolved))), dec_yaml = (\<lambda>s. None)\<rparr>\<rparr>"

definition noteWorkspace :: "string list \<Rightarrow> draft_tree \<Rightarrow> workspaceState" where
  "noteWorkspace ns tree = \<lparr>ws_db = (case PutUnits tagHash ''now'' empty_db (map (\<lambda>nm.
       (unitPut (dx_store noteContext) ''p'' draftSourceRepo '''' (the (map_of noteUnits nm)))\<lparr>put_UnitJSON := nm\<rparr>) ns) of
     Inl e \<Rightarrow> empty_db | Inr (d, hs) \<Rightarrow> d), ws_drafts = tree\<rparr>"

theorem resolve_draft_recorded_witness:
  "case resolveDraftNote noteContext noteTree ''p'' ''cmt-n.json'' (User ''bob'') of Inl e \<Rightarrow> False
   | Inr (tree, already) \<Rightarrow> resolveDraftNote noteContext tree ''p'' ''cmt-n.json'' (User ''eve'') = Inr (tree, True)"
proof -
  have "case resolveDraftNote noteContext noteTree ''p'' ''cmt-n.json'' (User ''bob'') of Inl e \<Rightarrow> False | Inr (tree, already) \<Rightarrow> \<not> already"
    by code_simp
  then obtain tree where t: "resolveDraftNote noteContext noteTree ''p'' ''cmt-n.json'' (User ''bob'') = Inr (tree, False)"
    by (auto split: sum.splits)
  have f: "findDraft noteTree ''p'' ''cmt-n.json'' = Some \<lparr>fl_Name = ''cmt-n.json'', fl_Contents = ''old'', fl_Updated = ''''\<rparr>"
    by code_simp
  have d: "dec_json (dx_decoding noteContext) (fl_Contents \<lparr>fl_Name = ''cmt-n.json'', fl_Contents = ''old'', fl_Updated = ''''\<rparr>)
      = Some (writtenDoc sampleNoteDoc)" by (simp add: noteContext_def)
  have today: "x_today (dx_store noteContext) = ''2024-01-02''" by (simp add: noteContext_def sampleDraftContext_def)
  have e: "dec_json (dx_decoding noteContext) (dx_encode noteContext (writtenDoc (resolvedDoc (x_today (dx_store noteContext)) (User ''bob'') sampleNoteDoc)))
      = Some (writtenDoc (resolvedDoc (x_today (dx_store noteContext)) (User ''bob'') sampleNoteDoc))"
    unfolding today by (simp add: noteContext_def sampleResolved_def)
  have "readDoc (writtenDoc sampleNoteDoc) = Some sampleNoteDoc" by (rule written_reads_back [OF sampleNote_canonical(1)])
  from resolve_draft_recorded [OF t f d this sampleNote_canonical(1,3) e, of "User ''eve''"]
  have "resolveDraftNote noteContext tree ''p'' ''cmt-n.json'' (User ''eve'') = Inr (tree, True)" by blast
  then show ?thesis using t by simp
qed

definition resolveRequest :: ResolveNoteRequest where
  "resolveRequest = \<lparr>rv_Target = ''cmt:n'', rv_By = User ''bob'', rv_ReplyBody = ''''\<rparr>"

definition noteLine :: reference where
  "noteLine = \<lparr>ref_Namespace = ''core'', ref_Type = ''cmt'', ref_ID = ''n'', ref_Version = 0, ref_HasVersion = False\<rparr>"

lemma sample_line:
  "ownLine (dx_store noteContext) True True (rv_Target resolveRequest) = Inr noteLine"
  "x_project (dx_store noteContext) = Some (''p'', ''repo'')" "trim_space (rv_ReplyBody resolveRequest) = ''''"
  by code_simp+

lemma sample_units:
  "(case UnitsByLine (x_decode (dx_store noteContext)) (ws_db (noteWorkspace [''mbr'', ''one'', ''two''] tree))
      (ref_Namespace noteLine) ''cmt'' (ref_ID noteLine) of None \<Rightarrow> False | Some [] \<Rightarrow> False
    | Some (u # us) \<Rightarrow> sv_NoteState (u_StateVector u) = ''open'')"
  by code_simp

theorem draft_blocks_resolution_witness:
  "(case ResolveNote noteContext (noteWorkspace [''mbr'', ''one'', ''two''] noteTree) resolveRequest of
      None \<Rightarrow> False | Some (out, ws) \<Rightarrow> ws_db ws = ws_db (noteWorkspace [''mbr'', ''one'', ''two''] noteTree))"
proof -
  let ?ws = "noteWorkspace [''mbr'', ''one'', ''two''] noteTree"
  have "ResolveNote noteContext ?ws resolveRequest \<noteq> None"
    unfolding ResolveNote_def Let_def sample_line(1,2) by (simp add: attachReply_def sample_line(3))
  then obtain out ws' where r: "ResolveNote noteContext ?ws resolveRequest = Some (out, ws')" by auto
  obtain u us where u: "UnitsByLine (x_decode (dx_store noteContext)) (ws_db ?ws) (ref_Namespace noteLine) ''cmt'' (ref_ID noteLine) = Some (u # us)"
    "sv_NoteState (u_StateVector u) = ''open''"
    using sample_units [of noteTree] by (auto split: option.splits list.splits)
  have f: "findDraft (ws_drafts ?ws) ''p'' (jsonName ''cmt'' (ref_ID noteLine)) = Some \<lparr>fl_Name = ''cmt-n.json'', fl_Contents = ''old'', fl_Updated = ''''\<rparr>"
    by code_simp
  have "ws_db ws' = ws_db ?ws"
    using draft_blocks_resolution [OF r sample_line(3,1,2) f u(1)] u(2) by simp
  then show ?thesis using r by simp
qed

lemma sample_again:
  "(case ResolveNote noteContext (noteWorkspace [''mbr'', ''one'', ''two''] []) resolveRequest of
      Some (Inr res, ws) \<Rightarrow> map fst (refs (ws_db ws)) = [''core/mbr:m:1'', ''core/cmt:n:1'', ''core/cmt:n:2'', ''core/cmt:n:3''] | _ \<Rightarrow> False)"
  by code_simp

theorem resolution_never_settles_witness:
  "(case ResolveNote noteContext (noteWorkspace [''mbr'', ''one'', ''two''] []) resolveRequest of
      Some (Inr res, ws) \<Rightarrow> rn_Published res \<and> \<not> rn_AlreadyResolved res | _ \<Rightarrow> False)"
proof -
  let ?ws = "noteWorkspace [''mbr'', ''one'', ''two''] []"
  obtain res ws' where r: "ResolveNote noteContext ?ws resolveRequest = Some (Inr res, ws')"
    using sample_again by (auto split: option.split_asm prod.split_asm sum.split_asm)
  obtain u us where u: "UnitsByLine (x_decode (dx_store noteContext)) (ws_db ?ws) (ref_Namespace noteLine) ''cmt'' (ref_ID noteLine) = Some (u # us)"
    "sv_NoteState (u_StateVector u) = ''open''"
    using sample_units [of "[]"] by (auto split: option.splits list.splits)
  have "rn_Published res \<and> \<not> rn_AlreadyResolved res"
    using resolution_never_settles [OF r sample_line(1) u(1)] u(2) by simp
  then show ?thesis using r by simp
qed

text \<open>A context whose codec knows the content and the document of one call.\<close>

definition codecContext :: "gvalue gomap \<Rightarrow> NewDraftRequest \<Rightarrow> draftContext" where
  "codecContext content rq = noteContext\<lparr>dx_encode := (\<lambda>m. if has_key m ''content'' then ''D'' else ''C''),
     dx_decoding := \<lparr>dec_json = (\<lambda>s. Some (if s = ''C'' then content
       else draftDocument ''2024-01-02'' rq (mergeInto (placeholders ''cmt'') content))), dec_yaml = (\<lambda>s. None)\<rparr>\<rparr>"

definition sampleReply :: NoteReplyRequest where
  "sampleReply = \<lparr>rp_Parent = ''cmt:n'', rp_By = User ''bob'', rp_Body = '' done '', rp_Domain = ''''\<rparr>"

definition replyRequest :: NewDraftRequest where
  "replyRequest = noteRequest ''p'' ''core'' ''n-reply'' '''' (User ''bob'') [\<lparr>rel_Type = ''replies-to'', rel_Target = ''core/cmt:n''\<rparr>]"

definition replyContext :: draftContext where
  "replyContext = codecContext (replyContent ''done'') replyRequest"

theorem reply_never_gates_witness:
  "\<exists>a. Relations a = [(''replies-to'', [''core/cmt:n''])] \<and> draftNotes [a] \<lparr>ref_Namespace = ''core'', ref_Type = ''mbr'', ref_ID = ''m'', ref_Version = 0, ref_HasVersion = False\<rparr> = []"
proof -
  let ?ws = "noteWorkspace [''mbr'', ''one''] []"
  have "case NoteReply replyContext ?ws sampleReply of Some (Inr (ws, res)) \<Rightarrow> ry_ID res = ''n-reply'' | _ \<Rightarrow> False" by code_simp
  then obtain ws' res where r: "NoteReply replyContext ?ws sampleReply = Some (Inr (ws', res))" "ry_ID res = ''n-reply''"
    by (auto split: option.splits sum.splits prod.splits)
  have l: "ownLine (dx_store replyContext) True True (rp_Parent sampleReply) = Inr noteLine"
    "x_project (dx_store replyContext) = Some (''p'', ''repo'')" "noteDomain (rp_Domain sampleReply) = Inr ''''"
    "replyContent ''done'' = replyContent (trim_space (rp_Body sampleReply))" "refLine noteLine = ''core/cmt:n''"
    by code_simp+
  have today: "x_today (dx_store replyContext) = ''2024-01-02''" "x_namespace (dx_store replyContext) = ''core''" "rp_By sampleReply = User ''bob''"
    by (simp_all add: replyContext_def codecContext_def noteContext_def sampleDraftContext_def sampleReply_def)
  let ?doc = "draftDocument ''2024-01-02'' replyRequest (mergeInto (placeholders ''cmt'') (replyContent ''done''))"
  have d: "?doc = draftDocument (x_today (dx_store replyContext)) (noteRequest ''p'' (x_namespace (dx_store replyContext)) (ry_ID res) '''' (rp_By sampleReply)
      [\<lparr>rel_Type = ''replies-to'', rel_Target = refLine noteLine\<rparr>]) (mergeInto (placeholders ''cmt'') (replyContent ''done''))"
    by (simp add: today r(2) l(5) replyRequest_def)
  have "has_key ?doc ''content''" "\<not> has_key (replyContent ''done'') ''content''"
    by (simp_all add: has_key_def document_lookup replyContent_def)
  then have c: "dec_json (dx_decoding replyContext) (dx_encode replyContext (replyContent ''done'')) = Some (replyContent ''done'')"
    "dec_json (dx_decoding replyContext) (dx_encode replyContext ?doc) = Some ?doc"
    by (simp_all add: replyContext_def codecContext_def)
  have v: "validDate (x_today (dx_store replyContext))" "validBy (rp_By sampleReply)" unfolding today by code_simp+
  obtain a where "Relations a = [(''replies-to'', [ry_Parent res])]" "ry_Parent res = refLine noteLine"
    "draftNotes [a] \<lparr>ref_Namespace = ''core'', ref_Type = ''mbr'', ref_ID = ''m'', ref_Version = 0, ref_HasVersion = False\<rparr> = []"
    using reply_never_gates [OF r(1) l(1-4) d c v] by blast
  then show ?thesis unfolding l(5) by auto
qed

definition sampleNoteRequest :: NoteDraftRequest where
  "sampleNoteRequest = \<lparr>nq_Target = ''mbr:m'', nq_Role = ''review'', nq_Domain = ''Planning'', nq_By = User ''bob'', nq_ContentFile = ''''\<rparr>"

definition reviewContent :: "gvalue gomap" where
  "reviewContent = [(''role'', GString ''review''), (''verdict'', GString ''''), (''notes'', GList [])]"

definition reviewRequest :: NewDraftRequest where
  "reviewRequest = noteRequest ''p'' ''core'' ''m-review-2'' ''Planning'' (User ''bob'') [\<lparr>rel_Type = ''discusses'', rel_Target = ''core/mbr:m''\<rparr>]"

definition reviewContext :: draftContext where
  "reviewContext = codecContext reviewContent reviewRequest"

definition memberLine :: reference where
  "memberLine = \<lparr>ref_Namespace = ''core'', ref_Type = ''mbr'', ref_ID = ''m'', ref_Version = 0, ref_HasVersion = False\<rparr>"


end
