(* ===== verification/Runtime_Relations.thy ===== *)
theory Runtime_Relations
  imports Store_Units
begin

text \<open>
  The read side of the runtime over the canonical store: reference resolution
  (\<open>runtime/resolver.go\<close>), the traversal of relationships in both directions
  (\<open>runtime/relations.go\<close>), the history of a line (\<open>runtime/timeline.go\<close>) and the search of a
  project (\<open>runtime/knowledge.go\<close>).  The decoder of a unit file is the argument \<open>dec\<close>, as in
  the unit projection of the store; \<open>projects\<close> is the list of project ids the workspace
  returns, in its order.  A runtime without a store is not modelled.
\<close>

datatype relation_error =
    UnparsableReference string ref_error
  | UnqualifiedReference string
  | StoreReadFailure
  | NoUnitWithForm string
  | SearchWithoutProject

section \<open>Resolution\<close>

definition Object :: "(string \<Rightarrow> Unit option) \<Rightarrow> db \<Rightarrow> string \<Rightarrow> relation_error + Unit option" where
  "Object dec d form = (case UnitAt dec d form of None \<Rightarrow> Inl StoreReadFailure | Some r \<Rightarrow> Inr r)"

definition ResolveLine :: "(string \<Rightarrow> Unit option) \<Rightarrow> db \<Rightarrow> string \<Rightarrow> string \<Rightarrow> string \<Rightarrow> relation_error + Unit list" where
  "ResolveLine dec d ns t i = (case UnitsByLine dec d ns t i of
       None \<Rightarrow> Inl StoreReadFailure
     | Some us \<Rightarrow> Inr (sort_key (\<lambda>u. id_InstanceVersion (u_Identity u)) us))"

definition namespaceCandidates :: "string list" where
  "namespaceCandidates = [''eka'', ''walkie'', ''nest'', ''probe'']"

definition findUniqueNamespace :: "(string \<Rightarrow> Unit option) \<Rightarrow> db \<Rightarrow> string \<Rightarrow> string \<Rightarrow> string" where
  "findUniqueNamespace dec d t i =
     (case find (\<lambda>ns. case ResolveLine dec d ns t i of Inl _ \<Rightarrow> False | Inr us \<Rightarrow> us \<noteq> []) namespaceCandidates of
        None \<Rightarrow> '''' | Some ns \<Rightarrow> ns)"

definition resolveQualified :: "(string \<Rightarrow> Unit option) \<Rightarrow> db \<Rightarrow> string \<Rightarrow> reference \<Rightarrow> relation_error + Unit option" where
  "resolveQualified dec d ns r =
     (if ref_HasVersion r
      then Object dec d (ns @ ''/'' @ ref_Type r @ '':'' @ ref_ID r @ '':'' @ itoa (ref_Version r))
      else case ResolveLine dec d ns (ref_Type r) (ref_ID r) of
          Inl e \<Rightarrow> Inl e
        | Inr us \<Rightarrow> Inr (if us = [] then None else Some (last us)))"

definition Resolve :: "(string \<Rightarrow> Unit option) \<Rightarrow> db \<Rightarrow> string \<Rightarrow> relation_error + Unit option" where
  "Resolve dec d form = (case parseReference form '''' '''' of
       Inl e \<Rightarrow> Inl (UnparsableReference form e)
     | Inr r \<Rightarrow>
         if ref_Namespace r = '''' then
           (let ns = findUniqueNamespace dec d (ref_Type r) (ref_ID r) in
            if ns \<noteq> '''' then resolveQualified dec d ns r else Inl (UnqualifiedReference form))
         else resolveQualified dec d (ref_Namespace r) r)"

section \<open>Relationships\<close>

record Relation =
  re_Type :: string
  re_Target :: string

definition outgoing :: "Relationship \<Rightarrow> Relation" where
  "outgoing rel = \<lparr>re_Type = rel_Type rel, re_Target = rel_Target rel\<rparr>"

definition From :: "(string \<Rightarrow> Unit option) \<Rightarrow> db \<Rightarrow> string \<Rightarrow> relation_error + Relation list" where
  "From dec d form = (case Object dec d form of
       Inl e \<Rightarrow> Inl e
     | Inr None \<Rightarrow> Inl (NoUnitWithForm form)
     | Inr (Some u) \<Rightarrow> Inr (map outgoing (u_Relationships u)))"

definition targetsEqual :: "string \<Rightarrow> string \<Rightarrow> bool" where
  "targetsEqual a b = (case (parseReference a '''' '''', parseReference b '''' '''') of
       (Inr ra, Inr rb) \<Rightarrow> ref_Namespace ra = ref_Namespace rb \<and> ref_Type ra = ref_Type rb \<and> ref_ID ra = ref_ID rb
     | _ \<Rightarrow> a = b)"

text \<open>The edges of one unit that point at the target, and the two loops over projects and
  units with the edges seen so far.\<close>

definition incoming :: "string \<Rightarrow> Unit \<Rightarrow> Relation list" where
  "incoming target u = map (\<lambda>rel. \<lparr>re_Type = rel_Type rel, re_Target = u_CanonicalIdentityForm u\<rparr>)
     (filter (\<lambda>rel. targetsEqual (rel_Target rel) target) (u_Relationships u))"

fun addRelations :: "Relation list \<Rightarrow> Relation list \<Rightarrow> Relation list" where
  "addRelations out [] = out"
| "addRelations out (r # rs) = addRelations (if List.member out r then out else out @ [r]) rs"

fun scanProjects :: "(string \<Rightarrow> Unit option) \<Rightarrow> db \<Rightarrow> string \<Rightarrow> Relation list \<Rightarrow> string list \<Rightarrow> relation_error + Relation list" where
  "scanProjects dec d target out [] = Inr out"
| "scanProjects dec d target out (p # ps) = (case UnitsByProject dec d p of
       None \<Rightarrow> Inl StoreReadFailure
     | Some us \<Rightarrow> scanProjects dec d target (addRelations out (concat (map (incoming target) us))) ps)"

definition To :: "(string \<Rightarrow> Unit option) \<Rightarrow> db \<Rightarrow> string list \<Rightarrow> string \<Rightarrow> relation_error + Relation list" where
  "To dec d projects target = scanProjects dec d target [] projects"

fun resolveTargets :: "(string \<Rightarrow> Unit option) \<Rightarrow> db \<Rightarrow> Unit list \<Rightarrow> Relation list \<Rightarrow> relation_error + Unit list" where
  "resolveTargets dec d out [] = Inr out"
| "resolveTargets dec d out (r # rs) = (case Resolve dec d (re_Target r) of
       Inl e \<Rightarrow> Inl e
     | Inr None \<Rightarrow> resolveTargets dec d out rs
     | Inr (Some u) \<Rightarrow>
         resolveTargets dec d
           (if List.member (map u_CanonicalIdentityForm out) (u_CanonicalIdentityForm u) then out else out @ [u]) rs)"

definition resolveUnique :: "(string \<Rightarrow> Unit option) \<Rightarrow> db \<Rightarrow> Relation list \<Rightarrow> relation_error + Unit list" where
  "resolveUnique dec d rels = (case resolveTargets dec d [] rels of
       Inl e \<Rightarrow> Inl e
     | Inr us \<Rightarrow> Inr (sort_key u_CanonicalIdentityForm us))"

definition Upstream :: "(string \<Rightarrow> Unit option) \<Rightarrow> db \<Rightarrow> string \<Rightarrow> relation_error + Unit list" where
  "Upstream dec d form = (case From dec d form of Inl e \<Rightarrow> Inl e | Inr rels \<Rightarrow> resolveUnique dec d rels)"

definition Downstream :: "(string \<Rightarrow> Unit option) \<Rightarrow> db \<Rightarrow> string list \<Rightarrow> string \<Rightarrow> relation_error + Unit list" where
  "Downstream dec d projects form = (case To dec d projects form of Inl e \<Rightarrow> Inl e | Inr rels \<Rightarrow> resolveUnique dec d rels)"

section \<open>Timeline and search\<close>

record TimelineEntry =
  tl_Form :: string
  tl_InstanceVersion :: int
  tl_Revision :: int
  tl_ObjectHash :: string
  tl_ChangeLog :: "UnitLogEntry list"

definition timelineEntry :: "Unit \<Rightarrow> TimelineEntry" where
  "timelineEntry u = \<lparr>tl_Form = u_CanonicalIdentityForm u, tl_InstanceVersion = id_InstanceVersion (u_Identity u),
     tl_Revision = u_Revision u, tl_ObjectHash = u_Digest u, tl_ChangeLog = u_ChangeLog u\<rparr>"

definition Line :: "(string \<Rightarrow> Unit option) \<Rightarrow> db \<Rightarrow> string \<Rightarrow> string \<Rightarrow> string \<Rightarrow> relation_error + TimelineEntry list" where
  "Line dec d ns t i = (case ResolveLine dec d ns t i of Inl e \<Rightarrow> Inl e | Inr us \<Rightarrow> Inr (map timelineEntry us))"

record SearchQuery =
  sq_ProjectID :: string
  sq_Namespace :: string
  sq_Type :: string
  sq_ID :: string
  sq_Dimension :: string
  sq_Domain :: string
  sq_Phase :: string

definition matchesQuery :: "SearchQuery \<Rightarrow> Unit \<Rightarrow> bool" where
  "matchesQuery q u \<longleftrightarrow>
     (sq_Namespace q = '''' \<or> id_Namespace (u_Identity u) = sq_Namespace q)
     \<and> (sq_Type q = '''' \<or> id_Type (u_Identity u) = sq_Type q)
     \<and> (sq_ID q = '''' \<or> id_ID (u_Identity u) = sq_ID q)
     \<and> (sq_Dimension q = '''' \<or> cl_Dimension (u_Classification u) = sq_Dimension q)
     \<and> (sq_Domain q = '''' \<or> cl_Domain (u_Classification u) = sq_Domain q)
     \<and> (sq_Phase q = '''' \<or> u_Phase u = sq_Phase q)"

definition Search :: "(string \<Rightarrow> Unit option) \<Rightarrow> db \<Rightarrow> SearchQuery \<Rightarrow> relation_error + Unit list" where
  "Search dec d q = (if sq_ProjectID q = '''' then Inl SearchWithoutProject
     else case UnitsByProject dec d (sq_ProjectID q) of
         None \<Rightarrow> Inl StoreReadFailure
       | Some us \<Rightarrow> Inr (filter (matchesQuery q) us))"

section \<open>Resolution: lemmas\<close>

lemma ResolveLine_Inr:
  "ResolveLine dec d ns t i = Inr us \<longleftrightarrow>
     (\<exists>vs. UnitsByLine dec d ns t i = Some vs \<and> us = sort_key (\<lambda>u. id_InstanceVersion (u_Identity u)) vs)"
  by (auto simp: ResolveLine_def split: option.splits)

lemma sorted_last: "sorted (map f xs) \<Longrightarrow> x \<in> set xs \<Longrightarrow> f x \<le> f (last xs)"
  by (cases xs rule: rev_cases) (auto simp: sorted_append)

lemma Object_Inr: "Object dec d form = Inr r \<longleftrightarrow> UnitAt dec d form = Some r"
  by (auto simp: Object_def split: option.splits)

text \<open>A store whose references can all be read: each row is stored under its own form, its
  unit decodes and carries the form and the identity columns of the row, and the form is a
  canonical form the reference parser accepts.\<close>

definition readable :: "(string \<Rightarrow> Unit option) \<Rightarrow> db \<Rightarrow> bool" where
  "readable dec d \<longleftrightarrow> distinct (map fst (refs d)) \<and>
     (\<forall>(f, row) \<in> set (refs d). r_Form (row_ref row) = f \<and> trim_space f = f \<and>
        (\<exists>u. rowUnit dec d (f, row) = Some u \<and> u_CanonicalIdentityForm u = f \<and> identityWellformed (u_Identity u)
           \<and> onLine (id_Namespace (u_Identity u)) (id_Type (u_Identity u)) (id_ID (u_Identity u)) (row_ref row)))"

lemma readable_row:
  assumes "readable dec d" "(f, row) \<in> set (refs d)"
  obtains u where "rowUnit dec d (f, row) = Some u" "u_CanonicalIdentityForm u = f" "identityWellformed (u_Identity u)"
    "onLine (id_Namespace (u_Identity u)) (id_Type (u_Identity u)) (id_ID (u_Identity u)) (row_ref row)"
    "trim_space f = f" "r_Form (row_ref row) = f" "CanonicalForm (u_Identity u) = f" "UnitAt dec d f = Some (Some u)"
proof -
  from assms obtain u where u: "rowUnit dec d (f, row) = Some u" "u_CanonicalIdentityForm u = f" "identityWellformed (u_Identity u)"
    "onLine (id_Namespace (u_Identity u)) (id_Type (u_Identity u)) (id_ID (u_Identity u)) (row_ref row)"
    "trim_space f = f" "r_Form (row_ref row) = f" unfolding readable_def by fast
  have "CanonicalForm (u_Identity u) = f" using u(1)
    by (auto simp: rowUnit_def decodeUnit_def DecodeUnit_def split: option.splits if_splits)
  moreover have "map_of (refs d) f = Some row" using assms by (simp add: readable_def)
  then have "UnitAt dec d f = Some (Some u)" using u(1,6) by (simp add: UnitAt_def Ref_of_def rowUnit_def)
  ultimately show thesis using that u by blast
qed

lemma readable_unit:
  assumes "readable dec d" "UnitAt dec d f = Some (Some u)"
  obtains row where "(f, row) \<in> set (refs d)" "rowUnit dec d (f, row) = Some u"
proof -
  from assms(2) obtain row where m: "map_of (refs d) f = Some row"
    by (auto simp: UnitAt_def Ref_of_def split: option.splits)
  then have r: "(f, row) \<in> set (refs d)" by (rule map_of_SomeD)
  obtain v where "rowUnit dec d (f, row) = Some v" "UnitAt dec d f = Some (Some v)" by (rule readable_row [OF assms(1) r])
  with assms(2) r that show thesis by simp
qed

lemma readable_stored:
  assumes "readable dec d" "UnitAt dec d f = Some (Some u)"
  shows "u_CanonicalIdentityForm u = f" "identityWellformed (u_Identity u)" "trim_space f = f" "CanonicalForm (u_Identity u) = f"
proof -
  obtain row where r: "(f, row) \<in> set (refs d)" "rowUnit dec d (f, row) = Some u" by (rule readable_unit [OF assms])
  obtain v where v: "rowUnit dec d (f, row) = Some v" "u_CanonicalIdentityForm v = f" "identityWellformed (u_Identity v)"
    "trim_space f = f" "CanonicalForm (u_Identity v) = f" by (rule readable_row [OF assms(1) r(1)])
  have "v = u" using v(1) r(2) by simp
  with v show "u_CanonicalIdentityForm u = f" "identityWellformed (u_Identity u)"
    "trim_space f = f" "CanonicalForm (u_Identity u) = f" by simp_all
qed

lemma readable_row_iff:
  assumes "readable dec d" "(f, row) \<in> set (refs d)"
  shows "rowUnit dec d (f, row) = Some u \<longleftrightarrow> f = u_CanonicalIdentityForm u \<and> UnitAt dec d f = Some (Some u)"
proof -
  obtain v where "rowUnit dec d (f, row) = Some v" "u_CanonicalIdentityForm v = f" "UnitAt dec d f = Some (Some v)"
    by (rule readable_row [OF assms])
  then show ?thesis by auto
qed

lemma readable_row_decodes: "readable dec d \<Longrightarrow> p \<in> set (refs d) \<Longrightarrow> rowUnit dec d p \<noteq> None"
  by (cases p) (auto elim: readable_row)

lemma readable_query:
  assumes "readable dec d"
  obtains us where "unitsByQuery dec d cond = Some us"
proof -
  let ?rows = "sort_key fst (filter (\<lambda>(form, row). cond (row_ref row)) (refs d))"
  have "set ?rows \<subseteq> set (refs d)" unfolding set_sort set_filter by blast
  then have some: "None \<noteq> rowUnit dec d p" if "p \<in> set ?rows" for p
    using readable_row_decodes [OF assms subsetD [OF _ that]] by metis
  have "None \<notin> rowUnit dec d ` set ?rows"
    by (rule notI, erule imageE) (drule some, erule notE, assumption)
  then have "None \<notin> set (map (rowUnit dec d) ?rows)" by (simp only: set_map not_False_eq_True)
  then have "unitsByQuery dec d cond \<noteq> None" unfolding unitsByQuery_def by (simp only: those_None not_False_eq_True)
  then obtain us where "unitsByQuery dec d cond = Some us" by (cases "unitsByQuery dec d cond") simp_all
  then show thesis by (rule that)
qed

lemma readable_query_mem:
  assumes "readable dec d" "unitsByQuery dec d cond = Some us"
  shows "u \<in> set us \<longleftrightarrow> UnitAt dec d (u_CanonicalIdentityForm u) = Some (Some u)
     \<and> (\<exists>row. (u_CanonicalIdentityForm u, row) \<in> set (refs d) \<and> cond (row_ref row))"
proof -
  have e: "((f, row) \<in> set (refs d) \<and> cond (row_ref row) \<and> rowUnit dec d (f, row) = Some u)
    \<longleftrightarrow> (f = u_CanonicalIdentityForm u \<and> UnitAt dec d f = Some (Some u) \<and> (f, row) \<in> set (refs d) \<and> cond (row_ref row))" for f row
  proof (cases "(f, row) \<in> set (refs d)")
    case True
    show ?thesis unfolding readable_row_iff [OF assms(1) True] by (rule iffI; elim conjE; intro conjI; assumption)
  qed simp
  have "(\<exists>f row. f = c \<and> A f \<and> B f row \<and> C row) \<longleftrightarrow> A c \<and> (\<exists>row. B c row \<and> C row)"
    for c :: string and A and B and C :: "ref_row \<Rightarrow> bool" by blast
  from this [of "u_CanonicalIdentityForm u" "\<lambda>f. UnitAt dec d f = Some (Some u)" "\<lambda>f row. (f, row) \<in> set (refs d)"
      "\<lambda>row. cond (row_ref row)"]
  show ?thesis unfolding unitsByQuery_mem [OF assms(2)] e .
qed

lemma query_forms:
  assumes "readable dec d" "unitsByQuery dec d cond = Some us"
  shows "map u_CanonicalIdentityForm us = map fst (sort_key fst (filter (\<lambda>(form, row). cond (row_ref row)) (refs d)))"
proof -
  let ?rows = "sort_key fst (filter (\<lambda>(form, row). cond (row_ref row)) (refs d))"
  have m: "map (rowUnit dec d) ?rows = map Some us" using assms(2) by (simp add: unitsByQuery_def those_Some)
  have "u_CanonicalIdentityForm (us ! k) = fst (?rows ! k)" if "k < length us" for k
  proof -
    have len: "length ?rows = length us" using m by (metis length_map)
    then have "?rows ! k \<in> set ?rows" using that nth_mem by metis
    then have "?rows ! k \<in> set (refs d)" by simp
    moreover have "rowUnit dec d (?rows ! k) = Some (us ! k)" using m len that by (metis nth_map)
    ultimately show ?thesis using readable_row_iff [OF assms(1), of "fst (?rows ! k)" "snd (?rows ! k)" "us ! k"] by simp
  qed
  then show ?thesis using arg_cong [OF m, of length] by (intro nth_equalityI) auto
qed

lemma distinct_map_sort_filter: "distinct (map f xs) \<Longrightarrow> distinct (map f (sort_key g (filter P xs)))"
  by (auto simp: distinct_map intro: inj_on_subset)

lemma query_distinct:
  assumes "readable dec d" "unitsByQuery dec d cond = Some us"
  shows "distinct (map u_CanonicalIdentityForm us)"
  unfolding query_forms [OF assms]
  using assms(1) by (intro distinct_map_sort_filter) (simp add: readable_def)

lemma lineIdentity:
  assumes "readable dec d" "UnitsByLine dec d ns t i = Some us" "u \<in> set us"
  shows "u_Identity u = \<lparr>id_Namespace = ns, id_Type = t, id_ID = i, id_InstanceVersion = id_InstanceVersion (u_Identity u)\<rparr>"
    and "UnitAt dec d (u_CanonicalIdentityForm u) = Some (Some u)"
proof -
  from assms(3) readable_query_mem [OF assms(1) assms(2) [unfolded UnitsByLine_def], of u] obtain row where
    r: "(u_CanonicalIdentityForm u, row) \<in> set (refs d)" "onLine ns t i (row_ref row)"
    and at: "UnitAt dec d (u_CanonicalIdentityForm u) = Some (Some u)" by blast
  show "UnitAt dec d (u_CanonicalIdentityForm u) = Some (Some u)" by (rule at)
  obtain v where v: "UnitAt dec d (u_CanonicalIdentityForm u) = Some (Some v)"
    "onLine (id_Namespace (u_Identity v)) (id_Type (u_Identity v)) (id_ID (u_Identity v)) (row_ref row)"
    by (rule readable_row [OF assms(1) r(1)])
  have "v = u" using v(1) at by simp
  with v(2) r(2) have "id_Namespace (u_Identity u) = ns \<and> id_Type (u_Identity u) = t \<and> id_ID (u_Identity u) = i"
    by (simp add: onLine_def)
  then show "u_Identity u = \<lparr>id_Namespace = ns, id_Type = t, id_ID = i, id_InstanceVersion = id_InstanceVersion (u_Identity u)\<rparr>"
    by (cases "u_Identity u") simp
qed

lemma line_versions:
  assumes "readable dec d" "UnitsByLine dec d ns t i = Some us"
  shows "distinct (map (\<lambda>u. id_InstanceVersion (u_Identity u)) us)"
proof -
  have "u_CanonicalIdentityForm u = CanonicalForm (u_Identity u)" if "u \<in> set us" for u
    using readable_stored(4) [OF assms(1) lineIdentity(2) [OF assms that]] by simp
  then have "inj_on (\<lambda>u. id_InstanceVersion (u_Identity u)) (set us)"
    using query_distinct [OF assms(1) assms(2) [unfolded UnitsByLine_def]] lineIdentity(1) [OF assms]
    by (intro inj_onI) (metis distinct_map inj_onD)
  moreover have "distinct us" using query_distinct [OF assms(1) assms(2) [unfolded UnitsByLine_def]] by (simp add: distinct_map)
  ultimately show ?thesis by (simp add: distinct_map)
qed

text \<open>C13: On a readable store the timeline of the line a qualified form names is exactly the
  references on that line, one entry per instance, in strictly ascending instance version,
  and the form resolves to the unit of the last entry (to nothing when there is none).\<close>

theorem line_history:
  assumes "readable dec d" and "parseReference form '''' '''' = Inr r"
    and "ref_Namespace r \<noteq> ''''" and "\<not> ref_HasVersion r"
  shows "\<exists>us. Line dec d (ref_Namespace r) (ref_Type r) (ref_ID r) = Inr (map timelineEntry us)
    \<and> sorted_wrt (<) (map (\<lambda>u. tl_InstanceVersion (timelineEntry u)) us)
    \<and> set (map (\<lambda>u. tl_Form (timelineEntry u)) us)
        = {f. \<exists>row. (f, row) \<in> set (refs d) \<and> onLine (ref_Namespace r) (ref_Type r) (ref_ID r) (row_ref row)}
    \<and> Resolve dec d form = Inr (if us = [] then None else Some (last us))"
proof -
  let ?on = "onLine (ref_Namespace r) (ref_Type r) (ref_ID r)"
  obtain vs where q: "unitsByQuery dec d ?on = Some vs" by (rule readable_query [OF assms(1)])
  then have l: "UnitsByLine dec d (ref_Namespace r) (ref_Type r) (ref_ID r) = Some vs" by (simp add: UnitsByLine_def)
  define us where "us = sort_key (\<lambda>u. id_InstanceVersion (u_Identity u)) vs"
  have r: "ResolveLine dec d (ref_Namespace r) (ref_Type r) (ref_ID r) = Inr us" by (simp add: ResolveLine_def l us_def)
  have "distinct (map (\<lambda>u. id_InstanceVersion (u_Identity u)) us)" "sorted (map (\<lambda>u. id_InstanceVersion (u_Identity u)) us)"
    using line_versions [OF assms(1) l] by (simp_all add: us_def distinct_map)
  then have "sorted_wrt (<) (map (\<lambda>u. tl_InstanceVersion (timelineEntry u)) us)"
    by (simp add: strict_sorted_iff timelineEntry_def)
  moreover have "set (map (\<lambda>u. tl_Form (timelineEntry u)) us) = set (map u_CanonicalIdentityForm vs)"
    by (simp add: us_def timelineEntry_def)
  moreover have "set (map u_CanonicalIdentityForm vs) = {f. \<exists>row. (f, row) \<in> set (refs d) \<and> ?on (row_ref row)}"
    unfolding query_forms [OF assms(1) q] by force
  moreover have "Resolve dec d form = Inr (if us = [] then None else Some (last us))"
    using assms(2-4) r by (simp add: Resolve_def resolveQualified_def)
  moreover have "Line dec d (ref_Namespace r) (ref_Type r) (ref_ID r) = Inr (map timelineEntry us)" using r by (simp add: Line_def)
  ultimately show ?thesis by (intro exI [of _ us]) simp
qed

section \<open>Traversal\<close>

lemma resolveTargets_spec:
  assumes "resolveTargets dec d out rs = Inr us" "distinct (map u_CanonicalIdentityForm out)"
  shows "distinct (map u_CanonicalIdentityForm us)
    \<and> u_CanonicalIdentityForm ` set us = u_CanonicalIdentityForm ` (set out \<union> {u. \<exists>r \<in> set rs. Resolve dec d (re_Target r) = Inr (Some u)})
    \<and> set us \<subseteq> set out \<union> {u. \<exists>r \<in> set rs. Resolve dec d (re_Target r) = Inr (Some u)}
    \<and> {r \<in> set rs. \<exists>e. Resolve dec d (re_Target r) = Inl e} = {}"
  using assms
proof (induction rs arbitrary: out)
  case (Cons r rs)
  consider "Resolve dec d (re_Target r) = Inr None"
    | u where "Resolve dec d (re_Target r) = Inr (Some u)" "u_CanonicalIdentityForm u \<in> u_CanonicalIdentityForm ` set out"
    | u where "Resolve dec d (re_Target r) = Inr (Some u)" "u_CanonicalIdentityForm u \<notin> u_CanonicalIdentityForm ` set out"
    using Cons.prems(1) by (auto split: sum.splits option.splits)
  then show ?case
  proof cases
    case 1
    with Cons.IH [of out] Cons.prems show ?thesis by auto
  next
    case 2
    with Cons.IH [of out] Cons.prems show ?thesis by auto
  next
    case 3
    with Cons.IH [of "out @ [u]"] Cons.prems show ?thesis by auto
  qed
qed simp

lemma resolveTargets_error:
  "resolveTargets dec d out rs = Inl e \<Longrightarrow> \<exists>r \<in> set rs. Resolve dec d (re_Target r) = Inl e"
  by (induction rs arbitrary: out) (auto split: sum.splits option.splits)

text \<open>The failures of the upstream traversal: the form has no unit, or one of its targets
  resolves to an error, and that error is returned.\<close>

lemma upstream_error:
  assumes "Upstream dec d form = Inl e"
  shows "From dec d form = Inl e \<or> (\<exists>rels. From dec d form = Inr rels \<and> (\<exists>r \<in> set rels. Resolve dec d (re_Target r) = Inl e))"
  using assms by (auto simp: Upstream_def resolveUnique_def dest: resolveTargets_error split: sum.splits)

lemma addRelations_set: "set (addRelations out rs) = set out \<union> set rs"
  by (induction rs arbitrary: out) auto

lemma addRelations_distinct: "distinct out \<Longrightarrow> distinct (addRelations out rs)"
  by (induction rs arbitrary: out) auto

lemma scanProjects_spec:
  assumes "scanProjects dec d target out ps = Inr rels" "distinct out"
  shows "distinct rels \<and> set rels = set out \<union> {r. \<exists>p \<in> set ps. \<exists>us. UnitsByProject dec d p = Some us \<and> (\<exists>u \<in> set us. r \<in> set (incoming target u))}"
  using assms
proof (induction ps arbitrary: out)
  case (Cons p ps)
  then obtain us where us: "UnitsByProject dec d p = Some us" by (auto split: option.splits)
  let ?new = "addRelations out (concat (map (incoming target) us))"
  from Cons.IH [of ?new] Cons.prems us
  have "distinct rels \<and> set rels = set ?new \<union> {r. \<exists>p \<in> set ps. \<exists>us. UnitsByProject dec d p = Some us \<and> (\<exists>u \<in> set us. r \<in> set (incoming target u))}"
    by (simp add: addRelations_distinct)
  then show ?case using us by (auto simp: addRelations_set)
qed simp

lemma resolve_stored:
  assumes "readable dec d" "UnitAt dec d f = Some (Some v)"
  shows "Resolve dec d f = Inr (Some v)"
    and "parseReference f '''' '''' = Inr (refOf (u_Identity v))"
proof -
  note s = readable_stored [OF assms]
  show p: "parseReference f '''' '''' = Inr (refOf (u_Identity v))"
    using parse_form [OF s(2)] s(3,4) by simp
  have "id_Namespace (u_Identity v) @ ''/'' @ id_Type (u_Identity v) @ '':'' @ id_ID (u_Identity v) @ '':''
      @ itoa (id_InstanceVersion (u_Identity v)) = f" using s(4) unfolding CanonicalForm_def .
  then show "Resolve dec d f = Inr (Some v)"
    using p s(2) assms(2) by (simp add: Resolve_def refOf_def identityWellformed_def resolveQualified_def Object_def)
qed

lemma resolved_on_line:
  assumes "readable dec d" "parseReference t '''' '''' = Inr r" "ref_Namespace r \<noteq> ''''" "Resolve dec d t = Inr (Some u)"
  shows "UnitAt dec d (u_CanonicalIdentityForm u) = Some (Some u)"
    and "id_Namespace (u_Identity u) = ref_Namespace r \<and> id_Type (u_Identity u) = ref_Type r \<and> id_ID (u_Identity u) = ref_ID r"
proof -
  have res: "resolveQualified dec d (ref_Namespace r) r = Inr (Some u)" using assms(2-4) by (simp add: Resolve_def)
  have "UnitAt dec d (u_CanonicalIdentityForm u) = Some (Some u) \<and> id_Namespace (u_Identity u) = ref_Namespace r
      \<and> id_Type (u_Identity u) = ref_Type r \<and> id_ID (u_Identity u) = ref_ID r"
  proof (cases "ref_HasVersion r")
    case True
    let ?i = "\<lparr>id_Namespace = ref_Namespace r, id_Type = ref_Type r, id_ID = ref_ID r, id_InstanceVersion = ref_Version r\<rparr>"
    have at: "UnitAt dec d (CanonicalForm ?i) = Some (Some u)"
      using res True by (simp add: resolveQualified_def Object_Inr CanonicalForm_def)
    note s = readable_stored [OF assms(1) at]
    have "identityWellformed ?i" using parsed_identity [OF assms(2,3) True] by blast
    then have "parseReference (CanonicalForm ?i) '''' '''' = Inr (refOf ?i)" by (rule parse_form) (rule s(3))
    then have "refOf (u_Identity u) = refOf ?i" using resolve_stored(2) [OF assms(1) at] by simp
    then show ?thesis using at s(1) by (simp add: refOf_def)
  next
    case False
    then obtain us vs where us: "UnitsByLine dec d (ref_Namespace r) (ref_Type r) (ref_ID r) = Some vs"
      "us = sort_key (\<lambda>u. id_InstanceVersion (u_Identity u)) vs" "us \<noteq> []" "u = last us"
      using res by (auto simp: resolveQualified_def ResolveLine_Inr split: sum.splits if_splits)
    have "u \<in> set us" unfolding us(4) by (rule last_in_set [OF us(3)])
    then have "u \<in> set vs" unfolding us(2) set_sort .
    from lineIdentity [OF assms(1) us(1) this] show ?thesis
      by (metis Identity.select_convs(1,2,3))
  qed
  then show "UnitAt dec d (u_CanonicalIdentityForm u) = Some (Some u)"
    "id_Namespace (u_Identity u) = ref_Namespace r \<and> id_Type (u_Identity u) = ref_Type r \<and> id_ID (u_Identity u) = ref_ID r" by simp_all
qed

lemma To_readable:
  assumes "readable dec d"
  obtains rels where "To dec d projects target = Inr rels"
    "set rels = {r. \<exists>p \<in> set projects. \<exists>us. UnitsByProject dec d p = Some us \<and> (\<exists>u \<in> set us. r \<in> set (incoming target u))}"
proof -
  have "\<exists>rels. scanProjects dec d target out projects = Inr rels" for out
  proof (induction projects arbitrary: out)
    case (Cons p ps)
    obtain us where "unitsByQuery dec d (\<lambda>r. r_ProjectID r = p) = Some us" by (rule readable_query [OF assms])
    then show ?case using Cons.IH by (simp add: UnitsByProject_def)
  qed simp
  then obtain rels where "scanProjects dec d target [] projects = Inr rels" by blast
  then show thesis using that scanProjects_spec [of dec d target "[]" projects rels] by (simp add: To_def)
qed

lemma incoming_stored:
  assumes "readable dec d" "UnitsByProject dec d p = Some us" "u \<in> set us" "r \<in> set (incoming target u)"
  shows "UnitAt dec d (re_Target r) = Some (Some u)"
  using assms(3,4) readable_query_mem [OF assms(1) assms(2) [unfolded UnitsByProject_def], of u] by (auto simp: incoming_def)

lemma Downstream_readable:
  assumes "readable dec d"
  obtains ds where "Downstream dec d projects form = Inr ds"
    "set ds = {u. \<exists>p \<in> set projects. \<exists>us. UnitsByProject dec d p = Some us \<and> u \<in> set us \<and> incoming form u \<noteq> []}"
proof -
  let ?S = "{u. \<exists>p \<in> set projects. \<exists>us. UnitsByProject dec d p = Some us \<and> u \<in> set us \<and> incoming form u \<noteq> []}"
  obtain rels where to: "To dec d projects form = Inr rels"
    and rels: "set rels = {r. \<exists>p \<in> set projects. \<exists>us. UnitsByProject dec d p = Some us \<and> (\<exists>u \<in> set us. r \<in> set (incoming form u))}"
    by (rule To_readable [OF assms])
  have stored: "\<exists>u. Resolve dec d (re_Target r) = Inr (Some u) \<and> UnitAt dec d (re_Target r) = Some (Some u)" if "r \<in> set rels" for r
    using that rels incoming_stored [OF assms] resolve_stored(1) [OF assms] by fast
  obtain us where us: "resolveTargets dec d [] rels = Inr us"
    using resolveTargets_error [of dec d "[]" rels] stored by (cases "resolveTargets dec d [] rels") fastforce+
  note spec = resolveTargets_spec [OF us, simplified]
  have R: "{u. \<exists>r \<in> set rels. Resolve dec d (re_Target r) = Inr (Some u)} = ?S"
  proof (intro set_eqI iffI)
    fix u assume "u \<in> {u. \<exists>r \<in> set rels. Resolve dec d (re_Target r) = Inr (Some u)}"
    then obtain r where r: "r \<in> set rels" "Resolve dec d (re_Target r) = Inr (Some u)" by blast
    then obtain p vs w where w: "p \<in> set projects" "UnitsByProject dec d p = Some vs" "w \<in> set vs" "r \<in> set (incoming form w)"
      unfolding rels by blast
    have "Resolve dec d (re_Target r) = Inr (Some w)" by (rule resolve_stored(1) [OF assms incoming_stored [OF assms w(2-4)]])
    then have "w = u" using r(2) by simp
    moreover from w(4) have "incoming form w \<noteq> []" by (cases "incoming form w") simp_all
    ultimately show "u \<in> ?S" using w(1-3) by blast
  next
    fix u assume "u \<in> ?S"
    then obtain p vs where w: "p \<in> set projects" "UnitsByProject dec d p = Some vs" "u \<in> set vs" "incoming form u \<noteq> []" by blast
    from w(4) obtain r where r: "r \<in> set (incoming form u)" by (cases "incoming form u") auto
    have "Resolve dec d (re_Target r) = Inr (Some u)" by (rule resolve_stored(1) [OF assms incoming_stored [OF assms w(2,3) r]])
    moreover have "r \<in> set rels" unfolding rels using w(1-3) r by blast
    ultimately show "u \<in> {u. \<exists>r \<in> set rels. Resolve dec d (re_Target r) = Inr (Some u)}" by blast
  qed
  have inj: "inj_on u_CanonicalIdentityForm ?S"
  proof (rule inj_onI)
    fix u w assume uw: "u \<in> ?S" "w \<in> ?S" "u_CanonicalIdentityForm u = u_CanonicalIdentityForm w"
    have at: "UnitAt dec d (u_CanonicalIdentityForm x) = Some (Some x)" if x: "x \<in> ?S" for x
    proof -
      from x obtain p vs where v: "UnitsByProject dec d p = Some vs" "x \<in> set vs" by blast
      have "unitsByQuery dec d (\<lambda>r. r_ProjectID r = p) = Some vs" using v(1) by (simp only: UnitsByProject_def)
      from readable_query_mem [OF assms this, of x] v(2) show ?thesis by (simp only: simp_thms)
    qed
    have "UnitAt dec d (u_CanonicalIdentityForm u) = Some (Some w)" unfolding uw(3) by (rule at [OF uw(2)])
    then show "u = w" unfolding at [OF uw(1)] by (simp only: option.inject)
  qed
  have "set us \<subseteq> ?S" "u_CanonicalIdentityForm ` set us = u_CanonicalIdentityForm ` ?S" using spec unfolding R by auto
  then have "set us = ?S" using inj by (meson inj_on_image_eq_iff subset_refl)
  then show thesis using that [of "sort_key u_CanonicalIdentityForm us"] to us by (simp add: Downstream_def resolveUnique_def)
qed

section \<open>What a reference denotes\<close>

lemma UnitsByLine_mem:
  assumes "readable dec d" "UnitsByLine dec d ns t i = Some us"
  shows "u \<in> set us \<longleftrightarrow> UnitAt dec d (u_CanonicalIdentityForm u) = Some (Some u)
     \<and> id_Namespace (u_Identity u) = ns \<and> id_Type (u_Identity u) = t \<and> id_ID (u_Identity u) = i" (is "?l \<longleftrightarrow> ?r")
proof
  assume ?l
  from lineIdentity [OF assms this] show ?r by (metis Identity.select_convs(1,2,3))
next
  assume r: ?r
  then have at: "UnitAt dec d (u_CanonicalIdentityForm u) = Some (Some u)" by blast
  obtain row where row: "(u_CanonicalIdentityForm u, row) \<in> set (refs d)"
    "rowUnit dec d (u_CanonicalIdentityForm u, row) = Some u" by (rule readable_unit [OF assms(1) at])
  obtain v where v: "rowUnit dec d (u_CanonicalIdentityForm u, row) = Some v"
    "onLine (id_Namespace (u_Identity v)) (id_Type (u_Identity v)) (id_ID (u_Identity v)) (row_ref row)"
    by (rule readable_row [OF assms(1) row(1)])
  have "onLine ns t i (row_ref row)" using v row(2) r by simp
  with at row(1) readable_query_mem [OF assms(1) assms(2) [unfolded UnitsByLine_def], of u] show ?l by blast
qed

text \<open>What a reference that names its namespace denotes in a store, said without the resolver:
  the unit stored under the canonical form, or for a line form the unit of the line with the
  highest instance version.\<close>

definition storedOn :: "(string \<Rightarrow> Unit option) \<Rightarrow> db \<Rightarrow> reference \<Rightarrow> Unit \<Rightarrow> bool" where
  "storedOn dec d r u \<longleftrightarrow> UnitAt dec d (u_CanonicalIdentityForm u) = Some (Some u) \<and> id_Namespace (u_Identity u) = ref_Namespace r
     \<and> id_Type (u_Identity u) = ref_Type r \<and> id_ID (u_Identity u) = ref_ID r"

definition denotes :: "(string \<Rightarrow> Unit option) \<Rightarrow> db \<Rightarrow> string \<Rightarrow> Unit \<Rightarrow> bool" where
  "denotes dec d target u \<longleftrightarrow> (\<exists>r. parseReference target '''' '''' = Inr r \<and> storedOn dec d r u
     \<and> (if ref_HasVersion r then id_InstanceVersion (u_Identity u) = ref_Version r
        else (\<forall>w. storedOn dec d r w \<longrightarrow> id_InstanceVersion (u_Identity w) \<le> id_InstanceVersion (u_Identity u))))"

definition qualifiedTargets :: "Unit \<Rightarrow> bool" where
  "qualifiedTargets u = list_all (\<lambda>rel. case parseReference (rel_Target rel) '''' '''' of
     Inl _ \<Rightarrow> False | Inr r \<Rightarrow> ref_Namespace r \<noteq> '''') (u_Relationships u)"

lemma resolve_line_form:
  assumes "readable dec d" "parseReference t '''' '''' = Inr r" "ref_Namespace r \<noteq> ''''" "\<not> ref_HasVersion r"
  shows "\<exists>o'. Resolve dec d t = Inr o' \<and> (\<forall>u. o' = Some u \<longleftrightarrow> denotes dec d t u)"
proof -
  obtain vs where "unitsByQuery dec d (onLine (ref_Namespace r) (ref_Type r) (ref_ID r)) = Some vs" by (rule readable_query [OF assms(1)])
  then have l: "UnitsByLine dec d (ref_Namespace r) (ref_Type r) (ref_ID r) = Some vs" by (simp add: UnitsByLine_def)
  let ?v = "\<lambda>u. id_InstanceVersion (u_Identity u)" let ?us = "sort_key ?v vs"
  have mem: "u \<in> set ?us \<longleftrightarrow> storedOn dec d r u" for u using UnitsByLine_mem [OF assms(1) l] by (simp add: storedOn_def)
  have inj: "u = w" if "u \<in> set ?us" "w \<in> set ?us" "?v u = ?v w" for u w
    using line_versions [OF assms(1) l] that by (simp add: distinct_map inj_on_def)
  have top: "?v w \<le> ?v (last ?us)" if "w \<in> set ?us" for w by (rule sorted_last [OF _ that]) simp
  have "(if ?us = [] then None else Some (last ?us)) = Some u \<longleftrightarrow> denotes dec d t u" for u
  proof
    assume "(if ?us = [] then None else Some (last ?us)) = Some u"
    then have u: "?us \<noteq> []" "u = last ?us" by (auto split: if_splits)
    have "storedOn dec d r u" using last_in_set [OF u(1)] mem u(2) by simp
    moreover have "?v w \<le> ?v u" if "storedOn dec d r w" for w using top mem that u(2) by simp
    ultimately show "denotes dec d t u" unfolding denotes_def using assms(2,4) by simp
  next
    assume "denotes dec d t u"
    then have u: "u \<in> set ?us" "\<And>w. w \<in> set ?us \<Longrightarrow> ?v w \<le> ?v u" unfolding denotes_def mem using assms(2,4) by auto
    from u(1) have ne: "?us \<noteq> []" by auto
    have "u = last ?us" by (rule inj [OF u(1) last_in_set [OF ne] order_antisym [OF top [OF u(1)] u(2) [OF last_in_set [OF ne]]]])
    with ne show "(if ?us = [] then None else Some (last ?us)) = Some u" by simp
  qed
  moreover have "Resolve dec d t = Inr (if ?us = [] then None else Some (last ?us))"
    using assms(2-4) l by (simp add: Resolve_def resolveQualified_def ResolveLine_def)
  ultimately show ?thesis by blast
qed

lemma resolve_denotes:
  assumes "readable dec d" "parseReference t '''' '''' = Inr r" "ref_Namespace r \<noteq> ''''"
  shows "\<exists>o'. Resolve dec d t = Inr o' \<and> (\<forall>u. o' = Some u \<longleftrightarrow> denotes dec d t u)"
proof (cases "ref_HasVersion r")
  case True
  let ?i = "\<lparr>id_Namespace = ref_Namespace r, id_Type = ref_Type r, id_ID = ref_ID r, id_InstanceVersion = ref_Version r\<rparr>"
  have res: "Resolve dec d t = Object dec d (CanonicalForm ?i)"
    using assms(2,3) True by (simp add: Resolve_def resolveQualified_def CanonicalForm_def)
  have some: "UnitAt dec d (CanonicalForm ?i) \<noteq> None"
  proof
    assume none: "UnitAt dec d (CanonicalForm ?i) = None"
    then obtain row where "(CanonicalForm ?i, row) \<in> set (refs d)"
      by (auto simp: UnitAt_def Ref_of_def split: option.splits dest: map_of_SomeD)
    then show False using none by (auto elim: readable_row [OF assms(1)])
  qed
  then obtain o' where at: "UnitAt dec d (CanonicalForm ?i) = Some o'" by blast
  have "o' = Some u \<longleftrightarrow> denotes dec d t u" for u
  proof
    assume "o' = Some u"
    then have "Resolve dec d t = Inr (Some u)" using res at by (simp add: Object_Inr)
    note on = resolved_on_line [OF assms this] and s = readable_stored [OF assms(1) at [unfolded \<open>o' = Some u\<close>]]
    have "refOf (u_Identity u) = refOf ?i"
      using resolve_stored(2) [OF assms(1) at [unfolded \<open>o' = Some u\<close>]] parse_form [of ?i] parsed_identity [OF assms(2,3) True] s(3) by simp
    then have "id_InstanceVersion (u_Identity u) = ref_Version r" by (simp add: refOf_def)
    with on show "denotes dec d t u" unfolding denotes_def storedOn_def using assms(2) True by simp
  next
    assume "denotes dec d t u"
    then have u: "UnitAt dec d (u_CanonicalIdentityForm u) = Some (Some u)" "u_Identity u = ?i"
      unfolding denotes_def storedOn_def using assms(2) True by (auto intro: Identity.equality)
    from readable_stored(4) [OF assms(1) u(1)] u at show "o' = Some u" by simp
  qed
  then show ?thesis using res at by (auto simp: Object_def)
next
  case False
  then show ?thesis by (rule resolve_line_form [OF assms])
qed

lemma denotes_stored:
  "denotes dec d t u \<Longrightarrow> UnitAt dec d (u_CanonicalIdentityForm u) = Some (Some u)"
  unfolding denotes_def storedOn_def by (elim exE conjE)

lemma qualified_target:
  assumes "qualifiedTargets v" "rel \<in> set (u_Relationships v)"
  obtains r where "parseReference (rel_Target rel) '''' '''' = Inr r" "ref_Namespace r \<noteq> ''''"
proof -
  have q: "case parseReference (rel_Target rel) '''' '''' of Inl _ \<Rightarrow> False | Inr r \<Rightarrow> ref_Namespace r \<noteq> ''''"
    using assms unfolding qualifiedTargets_def list_all_iff by blast
  show thesis
  proof (cases "parseReference (rel_Target rel) '''' ''''")
    case (Inl e)
    with q show thesis by simp
  next
    case (Inr r)
    with q have "ref_Namespace r \<noteq> ''''" by simp
    with Inr show thesis by (rule that)
  qed
qed

lemma Upstream_readable:
  assumes "readable dec d" "UnitAt dec d f = Some (Some v)" "qualifiedTargets v"
  obtains us where "Upstream dec d f = Inr us" "sorted (map u_CanonicalIdentityForm us)" "distinct (map u_CanonicalIdentityForm us)"
    "set us = {u. \<exists>rel\<in>set (u_Relationships v). denotes dec d (rel_Target rel) u}"
proof -
  let ?rels = "map outgoing (u_Relationships v)" let ?S = "{u. \<exists>rel\<in>set (u_Relationships v). denotes dec d (rel_Target rel) u}"
  have from': "From dec d f = Inr ?rels" using assms(2) by (simp add: From_def Object_def)
  have den: "\<exists>o'. Resolve dec d (re_Target r) = Inr o' \<and> (\<forall>u. o' = Some u \<longleftrightarrow> denotes dec d (re_Target r) u)" if "r \<in> set ?rels" for r
  proof -
    from that obtain rel where rel: "rel \<in> set (u_Relationships v)" "re_Target r = rel_Target rel" by (auto simp: outgoing_def)
    obtain q where "parseReference (rel_Target rel) '''' '''' = Inr q" "ref_Namespace q \<noteq> ''''" by (rule qualified_target [OF assms(3) rel(1)])
    from resolve_denotes [OF assms(1) this] show ?thesis unfolding rel(2) .
  qed
  have no: False if err: "resolveTargets dec d [] ?rels = Inl e" for e
  proof -
    from resolveTargets_error [OF err] obtain r where r: "r \<in> set ?rels" "Resolve dec d (re_Target r) = Inl e" by (rule bexE)
    from den [OF r(1)] r(2) show False by (elim exE conjE) simp
  qed
  obtain ws where ws: "resolveTargets dec d [] ?rels = Inr ws"
    by (cases "resolveTargets dec d [] ?rels") (erule FalseE [OF no], rule that)
  have one: "Resolve dec d (re_Target r) = Inr (Some u) \<longleftrightarrow> denotes dec d (re_Target r) u" if "r \<in> set ?rels" for r u
  proof -
    from den [OF that] obtain o' where "Resolve dec d (re_Target r) = Inr o'" "\<forall>u. o' = Some u \<longleftrightarrow> denotes dec d (re_Target r) u"
      by (elim exE conjE)
    then show ?thesis by simp
  qed
  have R: "{u. \<exists>r \<in> set ?rels. Resolve dec d (re_Target r) = Inr (Some u)} = ?S"
  proof -
    have "(\<exists>r \<in> set ?rels. Resolve dec d (re_Target r) = Inr (Some u)) \<longleftrightarrow> (\<exists>r \<in> set ?rels. denotes dec d (re_Target r) u)" for u
      by (rule bex_cong [OF refl one])
    also have "(\<exists>r \<in> set ?rels. denotes dec d (re_Target r) u) \<longleftrightarrow> (\<exists>rel\<in>set (u_Relationships v). denotes dec d (rel_Target rel) u)" for u
      by (simp add: outgoing_def)
    finally show ?thesis by (simp only:)
  qed
  have "distinct (map u_CanonicalIdentityForm ([] :: Unit list))" by simp
  note spec = resolveTargets_spec [OF ws this, unfolded list.set Un_empty_left R]
  have inj: "inj_on u_CanonicalIdentityForm ?S"
  proof (rule inj_onI)
    fix u w assume uw: "u \<in> ?S" "w \<in> ?S" and e: "u_CanonicalIdentityForm u = u_CanonicalIdentityForm w"
    have at: "UnitAt dec d (u_CanonicalIdentityForm u) = Some (Some u)" if "u \<in> ?S" for u
      using that unfolding mem_Collect_eq by (elim bexE) (rule denotes_stored)
    from at [OF uw(1)] at [OF uw(2)] show "u = w" unfolding e by simp
  qed
  have sp: "distinct (map u_CanonicalIdentityForm ws)" "u_CanonicalIdentityForm ` set ws = u_CanonicalIdentityForm ` ?S" "set ws \<subseteq> ?S"
    by (rule conjunct1 [OF spec], rule conjunct1 [OF conjunct2 [OF spec]], rule conjunct1 [OF conjunct2 [OF conjunct2 [OF spec]]])
  from sp(2) have "set ws = ?S" unfolding inj_on_image_eq_iff [OF inj sp(3) subset_refl] .
  then show thesis using that [of "sort_key u_CanonicalIdentityForm ws"] from' ws sp(1)
    by (simp add: Upstream_def resolveUnique_def distinct_map)
qed

text \<open>C12: On a readable store the upstream traversal of a stored unit whose relationships name
  their namespace returns exactly the units its targets denote (the unit stored under a
  canonical form, the highest instance of a line form), each once, in the order of their
  canonical forms; a target without a stored unit is skipped.\<close>

theorem upstream_exact:
  assumes "readable dec d" and "UnitAt dec d f = Some (Some v)" and "qualifiedTargets v"
  shows "\<exists>us. Upstream dec d f = Inr us \<and> sorted_wrt (<) (map u_CanonicalIdentityForm us)
    \<and> set us = {u. \<exists>rel\<in>set (u_Relationships v). denotes dec d (rel_Target rel) u}"
proof -
  obtain us where us: "Upstream dec d f = Inr us" "sorted (map u_CanonicalIdentityForm us)" "distinct (map u_CanonicalIdentityForm us)"
    "set us = {u. \<exists>rel\<in>set (u_Relationships v). denotes dec d (rel_Target rel) u}" by (rule Upstream_readable [OF assms])
  from us(2,3) have "sorted_wrt (<) (map u_CanonicalIdentityForm us)" by (simp only: strict_sorted_iff simp_thms)
  with us(1,4) show ?thesis by blast
qed

lemma incoming_line:
  assumes "readable dec d" "UnitAt dec d g = Some (Some w)" "parseReference t '''' '''' = Inr r"
  shows "targetsEqual t g \<longleftrightarrow> ref_Namespace r = id_Namespace (u_Identity w) \<and> ref_Type r = id_Type (u_Identity w) \<and> ref_ID r = id_ID (u_Identity w)"
  using assms(3) resolve_stored(2) [OF assms(1,2)] by (simp add: targetsEqual_def refOf_def)

lemma downstream_mem:
  assumes "readable dec d" "UnitAt dec d f = Some (Some v)" "list_all (\<lambda>(g, row). r_ProjectID (row_ref row) \<in> set projects) (refs d)"
  obtains ds where "Downstream dec d projects g = Inr ds" "v \<in> set ds \<longleftrightarrow> (\<exists>rel\<in>set (u_Relationships v). targetsEqual (rel_Target rel) g)"
proof -
  obtain ds where ds: "Downstream dec d projects g = Inr ds"
    "set ds = {w. \<exists>p \<in> set projects. \<exists>us. UnitsByProject dec d p = Some us \<and> w \<in> set us \<and> incoming g w \<noteq> []}"
    by (rule Downstream_readable [OF assms(1)])
  obtain row where row: "(f, row) \<in> set (refs d)" "rowUnit dec d (f, row) = Some v" by (rule readable_unit [OF assms(1,2)])
  let ?p = "r_ProjectID (row_ref row)"
  have p: "?p \<in> set projects" using assms(3) row(1) by (auto simp: list_all_iff)
  obtain vs where vs: "unitsByQuery dec d (\<lambda>r. r_ProjectID r = ?p) = Some vs" by (rule readable_query [OF assms(1)])
  have "v \<in> set vs" using readable_query_mem [OF assms(1) vs, of v] readable_stored(1) [OF assms(1,2)] assms(2) row(1) by auto
  then have "v \<in> set ds \<longleftrightarrow> incoming g v \<noteq> []" using p vs unfolding ds(2) by (auto simp: UnitsByProject_def)
  also have "\<dots> \<longleftrightarrow> (\<exists>rel\<in>set (u_Relationships v). targetsEqual (rel_Target rel) g)"
    by (auto simp: incoming_def filter_empty_conv)
  finally show thesis by (rule that [OF ds(1)])
qed

definition sameLineUnits :: "Unit \<Rightarrow> Unit \<Rightarrow> bool" where
  "sameLineUnits u w \<longleftrightarrow> id_Namespace (u_Identity u) = id_Namespace (u_Identity w) \<and> id_Type (u_Identity u) = id_Type (u_Identity w)
     \<and> id_ID (u_Identity u) = id_ID (u_Identity w)"

text \<open>C11: The two directions of the traversal agree. On a readable store whose projects are all
  listed, for a stored unit v whose relationships name their namespace and any stored unit w,
  neither traversal fails, and v is downstream of w exactly when a unit of the line of w is
  upstream of v, or v has an edge to an instance of that line that is not stored.\<close>

theorem neighbours_dual:
  assumes "readable dec d" and "UnitAt dec d f = Some (Some v)" and "qualifiedTargets v"
    and "list_all (\<lambda>(g, row). r_ProjectID (row_ref row) \<in> set projects) (refs d)" and "UnitAt dec d g = Some (Some w)"
  shows "\<exists>us ds. Upstream dec d f = Inr us \<and> Downstream dec d projects g = Inr ds
    \<and> (v \<in> set ds \<longleftrightarrow> (\<exists>u\<in>set us. sameLineUnits u w)
         \<or> (\<exists>rel\<in>set (u_Relationships v). targetsEqual (rel_Target rel) g \<and> Resolve dec d (rel_Target rel) = Inr None))"
proof -
  obtain us where us: "Upstream dec d f = Inr us" "set us = {u. \<exists>rel\<in>set (u_Relationships v). denotes dec d (rel_Target rel) u}"
    by (rule Upstream_readable [OF assms(1-3)])
  obtain ds where ds: "Downstream dec d projects g = Inr ds" "v \<in> set ds \<longleftrightarrow> (\<exists>rel\<in>set (u_Relationships v). targetsEqual (rel_Target rel) g)"
    by (rule downstream_mem [OF assms(1,2,4)])
  have edge: "targetsEqual (rel_Target rel) g \<longleftrightarrow> (\<exists>u. denotes dec d (rel_Target rel) u \<and> sameLineUnits u w)
      \<or> targetsEqual (rel_Target rel) g \<and> Resolve dec d (rel_Target rel) = Inr None" if rel: "rel \<in> set (u_Relationships v)" for rel
  proof -
    obtain r where r: "parseReference (rel_Target rel) '''' '''' = Inr r" "ref_Namespace r \<noteq> ''''" by (rule qualified_target [OF assms(3) rel])
    note line = incoming_line [OF assms(1,5) r(1)]
    have same: "sameLineUnits u w \<longleftrightarrow> targetsEqual (rel_Target rel) g" if "denotes dec d (rel_Target rel) u" for u
      using that r(1) unfolding denotes_def storedOn_def sameLineUnits_def line by auto
    from resolve_denotes [OF assms(1) r] obtain o' where "Resolve dec d (rel_Target rel) = Inr o'" "\<forall>u. o' = Some u \<longleftrightarrow> denotes dec d (rel_Target rel) u"
      by blast
    then show ?thesis using same by (cases o') auto
  qed
  have "v \<in> set ds \<longleftrightarrow> (\<exists>u\<in>set us. sameLineUnits u w)
      \<or> (\<exists>rel\<in>set (u_Relationships v). targetsEqual (rel_Target rel) g \<and> Resolve dec d (rel_Target rel) = Inr None)"
    unfolding ds(2) us(2) using edge by blast
  with us(1) ds(1) show ?thesis by blast
qed

section \<open>A sample workspace\<close>

definition lensUnit :: "string \<Rightarrow> string \<Rightarrow> string \<Rightarrow> int \<Rightarrow> (string \<times> string) list \<Rightarrow> Unit" where
  "lensUnit ns t i v rels =
     (let ident = \<lparr>id_Namespace = ns, id_Type = t, id_ID = i, id_InstanceVersion = v\<rparr> in
      \<lparr>u_Identity = ident, u_CanonicalIdentityForm = CanonicalForm ident, u_Revision = 1,
       u_Author = User ''ann'', u_Created = ''2026-01-01'', u_Updated = ''2026-01-01'',
       u_StateVector = \<lparr>sv_ContentState = ''accepted'', sv_ExecutionState = '''', sv_PlanningState = '''',
         sv_ContainerState = '''', sv_ExistenceState = '''', sv_NoteState = ''''\<rparr>,
       u_ChangeLog = [], u_Relationships = map (\<lambda>(ty, tg). \<lparr>rel_Type = ty, rel_Target = tg\<rparr>) rels,
       u_Classification = \<lparr>cl_Dimension = '''', cl_DimensionsSecondary = [], cl_Domain = ''''\<rparr>,
       u_Phase = '''', u_Provenance = '''', u_SourcePromptHash = '''', u_Confidence = 0, u_SourceCommitSha = '''',
       u_CaptureMeta = \<lparr>Classifier = '''', DedupeKey = ''''\<rparr>,
       u_Content = \<lparr>cr_Representation = ContentRepresentation, cr_File = ''content.md''\<rparr>,
       u_ContentPayload = '''', u_UnitDir = '''', u_Digest = ''''\<rparr>)"

text \<open>A store of given units in one project, each archived under its own form, and its decoder.\<close>

definition lensDecode :: "Unit list \<Rightarrow> string \<Rightarrow> Unit option" where
  "lensDecode us = map_of (map (\<lambda>u. (u_CanonicalIdentityForm u, u)) us)"

definition lensStore :: "Unit list \<Rightarrow> db" where
  "lensStore us =
     \<lparr>payloads = map (\<lambda>u. (u_CanonicalIdentityForm u, \<lparr>p_unit = u_CanonicalIdentityForm u, p_content = '''', p_prev = '''', p_created = ''''\<rparr>)) us,
      refs = map (\<lambda>u. (u_CanonicalIdentityForm u,
        \<lparr>row_ref = \<lparr>r_Form = u_CanonicalIdentityForm u, r_ObjectHash = u_CanonicalIdentityForm u, r_ProjectID = ''p'', r_SourceRepo = ''s'',
           r_Namespace = id_Namespace (u_Identity u), r_Type = id_Type (u_Identity u), r_ID = id_ID (u_Identity u),
           r_InstanceVersion = id_InstanceVersion (u_Identity u), r_Revision = 1, r_Dimension = '''', r_Domain = '''',
           r_Phase = '''', r_UpdatedAt = ''''\<rparr>, row_number = 0, row_group = ''''\<rparr>)) us\<rparr>"

definition lensSample :: "Unit list" where
  "lensSample = [lensUnit ''core'' ''sto'' ''x'' 1 [(''depends-on'', ''core/adr:a''), (''realizes'', ''core/req:r:1'')],
     lensUnit ''core'' ''adr'' ''a'' 1 [], lensUnit ''core'' ''adr'' ''a'' 2 [(''derives-from'', ''core/req:r:1'')],
     lensUnit ''core'' ''req'' ''r'' 1 []]"

lemma lensSample_readable: "readable (lensDecode lensSample) (lensStore lensSample)"
proof -
  have "distinct (map fst (refs (lensStore lensSample)))" by code_simp
  moreover have "list_all (\<lambda>(f, row). r_Form (row_ref row) = f \<and> trim_space f = f \<and>
     (case rowUnit (lensDecode lensSample) (lensStore lensSample) (f, row) of None \<Rightarrow> False
      | Some u \<Rightarrow> u_CanonicalIdentityForm u = f \<and> identityWellformed (u_Identity u)
         \<and> onLine (id_Namespace (u_Identity u)) (id_Type (u_Identity u)) (id_ID (u_Identity u)) (row_ref row)))
     (refs (lensStore lensSample))" by code_simp
  ultimately show ?thesis unfolding readable_def list_all_iff by (fastforce split: option.split_asm)
qed

definition formsOf :: "relation_error + Unit list \<Rightarrow> string list" where
  "formsOf r = (case r of Inl _ \<Rightarrow> [] | Inr us \<Rightarrow> map u_CanonicalIdentityForm us)"

theorem line_history_witness:
  "\<exists>us. Line (lensDecode lensSample) (lensStore lensSample) ''core'' ''adr'' ''a'' = Inr (map timelineEntry us)
    \<and> map (\<lambda>u. tl_InstanceVersion (timelineEntry u)) us = [1, 2]
    \<and> Resolve (lensDecode lensSample) (lensStore lensSample) ''core/adr:a'' = Inr (Some (last us))"
proof -
  let ?r = "\<lparr>ref_Namespace = ''core'', ref_Type = ''adr'', ref_ID = ''a'', ref_Version = 0, ref_HasVersion = False\<rparr>"
  let ?L = "Line (lensDecode lensSample) (lensStore lensSample) ''core'' ''adr'' ''a''"
  have p: "parseReference ''core/adr:a'' '''' '''' = Inr ?r" by code_simp
  have e: "(case ?L of Inl _ \<Rightarrow> [] | Inr es \<Rightarrow> map tl_InstanceVersion es) = [1, 2]" by code_simp
  obtain us where us: "?L = Inr (map timelineEntry us)"
    "Resolve (lensDecode lensSample) (lensStore lensSample) ''core/adr:a'' = Inr (if us = [] then None else Some (last us))"
    using line_history [OF lensSample_readable p] by auto
  then have "map (\<lambda>u. tl_InstanceVersion (timelineEntry u)) us = [1, 2]" using e by (simp add: comp_def)
  moreover from this have "us \<noteq> []" by auto
  ultimately show ?thesis using us by auto
qed

lemma lens_upstream:
  "formsOf (Upstream (lensDecode lensSample) (lensStore lensSample) ''core/sto:x:1'') = [''core/adr:a:2'', ''core/req:r:1'']"
  by code_simp

lemma lens_stored:
  "UnitAt (lensDecode lensSample) (lensStore lensSample) ''core/sto:x:1'' = Some (Some ((lensSample ! 0)\<lparr>u_Digest := ''core/sto:x:1''\<rparr>))"
  "UnitAt (lensDecode lensSample) (lensStore lensSample) ''core/adr:a:1'' = Some (Some ((lensSample ! 1)\<lparr>u_Digest := ''core/adr:a:1''\<rparr>))"
  "qualifiedTargets ((lensSample ! 0)\<lparr>u_Digest := ''core/sto:x:1''\<rparr>)"
  "list_all (\<lambda>(g, row). r_ProjectID (row_ref row) \<in> set [''p'']) (refs (lensStore lensSample))"
  by code_simp+

text \<open>The traversals of the sample: the line form of the record addresses its second instance.\<close>

theorem upstream_exact_witness:
  "\<exists>us. Upstream (lensDecode lensSample) (lensStore lensSample) ''core/sto:x:1'' = Inr us
    \<and> map u_CanonicalIdentityForm us = [''core/adr:a:2'', ''core/req:r:1'']
    \<and> set us = {u. denotes (lensDecode lensSample) (lensStore lensSample) ''core/adr:a'' u
         \<or> denotes (lensDecode lensSample) (lensStore lensSample) ''core/req:r:1'' u}"
proof -
  let ?v = "(lensSample ! 0)\<lparr>u_Digest := ''core/sto:x:1''\<rparr>"
  from upstream_exact [OF lensSample_readable lens_stored(1,3)] obtain us where
    us: "Upstream (lensDecode lensSample) (lensStore lensSample) ''core/sto:x:1'' = Inr us"
      "set us = {u. \<exists>rel\<in>set (u_Relationships ?v). denotes (lensDecode lensSample) (lensStore lensSample) (rel_Target rel) u}" by blast
  have rels: "u_Relationships ?v = [\<lparr>rel_Type = ''depends-on'', rel_Target = ''core/adr:a''\<rparr>, \<lparr>rel_Type = ''realizes'', rel_Target = ''core/req:r:1''\<rparr>]"
    by code_simp
  have "map u_CanonicalIdentityForm us = [''core/adr:a:2'', ''core/req:r:1'']" using lens_upstream us(1) by (simp add: formsOf_def)
  with us(1) us(2) [unfolded rels] show ?thesis by auto
qed

text \<open>The story is downstream of the first instance of the record as well: the second one, of the
  same line, is upstream of the story.\<close>

theorem neighbours_dual_witness:
  "\<exists>us ds. Upstream (lensDecode lensSample) (lensStore lensSample) ''core/sto:x:1'' = Inr us
    \<and> Downstream (lensDecode lensSample) (lensStore lensSample) [''p''] ''core/adr:a:1'' = Inr ds
    \<and> (lensSample ! 0)\<lparr>u_Digest := ''core/sto:x:1''\<rparr> \<in> set ds"
proof -
  let ?D = "lensDecode lensSample" and ?d = "lensStore lensSample" and ?v = "(lensSample ! 0)\<lparr>u_Digest := ''core/sto:x:1''\<rparr>"
    and ?w = "(lensSample ! 1)\<lparr>u_Digest := ''core/adr:a:1''\<rparr>"
  from neighbours_dual [OF lensSample_readable lens_stored(1,3,4,2)] obtain us ds where
    us: "Upstream ?D ?d ''core/sto:x:1'' = Inr us" "Downstream ?D ?d [''p''] ''core/adr:a:1'' = Inr ds"
      "(\<exists>u\<in>set us. sameLineUnits u ?w) \<Longrightarrow> ?v \<in> set ds" by blast
  have "case Upstream ?D ?d ''core/sto:x:1'' of Inl _ \<Rightarrow> False | Inr us \<Rightarrow> list_ex (\<lambda>u. sameLineUnits u ?w) us" by code_simp
  then have "\<exists>u\<in>set us. sameLineUnits u ?w" unfolding us(1) sum.case list_ex_iff .
  with us show ?thesis by blast
qed

text \<open>Targets that do not name a namespace.  The search over four fixed namespaces answers the
  first that has the line although a second one has it too, does not look at any other
  namespace, and the edge is seen from its source only; and one stored target that does not
  parse makes the whole traversal fail.\<close>

definition bareSample :: "Unit list" where
  "bareSample = [lensUnit ''acme'' ''sto'' ''x'' 1 [(''depends-on'', ''adr:a'')], lensUnit ''walkie'' ''adr'' ''a'' 1 [],
     lensUnit ''nest'' ''adr'' ''a'' 1 [], lensUnit ''acme'' ''adr'' ''b'' 1 [],
     lensUnit ''acme'' ''sto'' ''y'' 1 [(''depends-on'', ''acme/adr:b''), (''depends-on'', ''adr:b'')]]"

theorem unqualified_targets:
  "formsOf (Upstream (lensDecode bareSample) (lensStore bareSample) ''acme/sto:x:1'') = [''walkie/adr:a:1'']
   \<and> formsOf (Downstream (lensDecode bareSample) (lensStore bareSample) [''p''] ''walkie/adr:a:1'') = []
   \<and> Upstream (lensDecode bareSample) (lensStore bareSample) ''acme/sto:y:1'' = Inl (UnqualifiedReference ''adr:b'')"
  by (intro conjI) code_simp+

end
