(* ===== verification/Contexts.thy ===== *)
theory Contexts
  imports Runtime_Relations Eng_Domain
begin

text \<open>
  The context engine (\<open>contexts/engine.go\<close>, \<open>helpers.go\<close>, \<open>object.go\<close>): the context object
  around one unit, composed of the runtime reads over the store.  The validity test of a JSON
  payload is the argument \<open>valid\<close>; the serialization of the object is not modelled.  The maps
  of the collector are association lists; the source iterates them only through a sort.
\<close>

datatype context_error =
    ContextRead relation_error
  | NoKnowledgeObject string
  | UnknownArtifactType string
  | UnknownDepth string

section \<open>The object\<close>

definition Schema :: string where "Schema = ''eka-context-v1''"

record FocusContent =
  fc_Representation :: string
  fc_Text :: string
  fc_Fields :: string

record Focus =
  fo_Identity :: Identity
  fo_CanonicalForm :: string
  fo_LineForm :: string
  fo_Number :: nat
  fo_EngineeringDomain :: string
  fo_Stratum :: nat
  fo_Revision :: int
  fo_StateVector :: StateVector
  fo_Phase :: string
  fo_Classification :: "Classification option"
  fo_Provenance :: string
  fo_Confidence :: "rat option"
  fo_SourcePromptHash :: string
  fo_SourceCommitSha :: string
  fo_CaptureMeta :: "CaptureMeta option"
  fo_Relationships :: "Relationship list"
  fo_Content :: "FocusContent option"
  fo_ObjectHash :: string

record Entry =
  en_CanonicalForm :: string
  en_LineForm :: string
  en_Number :: nat
  en_Type :: string
  en_ID :: string
  en_Domain :: string
  en_Stratum :: nat
  en_State :: string
  en_Role :: string
  en_ObjectHash :: string

record StratumGroup =
  sg_Stratum :: nat
  sg_Domain :: string
  sg_Units :: "Entry list"

record HistoryEntry =
  hi_CanonicalForm :: string
  hi_InstanceVersion :: int
  hi_Revision :: int
  hi_ObjectHash :: string
  hi_ChangeLog :: "UnitLogEntry list"

record Sections =
  se_Upstream :: "Entry list"
  se_Downstream :: "Entry list"
  se_Dependencies :: "Entry list"
  se_Constraints :: "Entry list"
  se_Decisions :: "Entry list"
  se_Planning :: "Entry list"
  se_Review :: "Entry list"
  se_History :: "HistoryEntry list"

record Summary =
  su_Focus :: nat
  su_Units :: nat
  su_Sections :: nat
  su_History :: nat

record ContextObject =
  cx_Schema :: string
  cx_Kind :: string
  cx_Focus :: Focus
  cx_Depth :: string
  cx_Summary :: Summary
  cx_Strata :: "StratumGroup list"
  cx_Sections :: Sections

definition DepthLocal :: string where "DepthLocal = ''local''"
definition DepthDependency :: string where "DepthDependency = ''dependency''"
definition DepthEngineering :: string where "DepthEngineering = ''engineering''"

definition ParseDepth :: "string \<Rightarrow> string option" where
  "ParseDepth s = (if s = DepthLocal \<or> s = DepthDependency \<or> s = DepthEngineering then Some s else None)"

definition Depths :: "string list" where
  "Depths = [DepthLocal, DepthDependency, DepthEngineering]"

record Options =
  op_NoContent :: bool

section \<open>Helpers\<close>

definition primaryState :: "Unit \<Rightarrow> string" where
  "primaryState u = (let sv = u_StateVector u in
     if sv_ExecutionState sv \<noteq> '''' then sv_ExecutionState sv
     else if sv_ContainerState sv \<noteq> '''' then sv_ContainerState sv
     else if sv_NoteState sv \<noteq> '''' then sv_NoteState sv
     else if sv_PlanningState sv \<noteq> '''' then sv_PlanningState sv
     else sv_ContentState sv)"

text \<open>\<open>Stratum\<close> of a domain held as a string: an unknown domain has stratum 0.\<close>

definition stratumOf :: "string \<Rightarrow> nat" where
  "stratumOf s = (case find (\<lambda>dm. domain_string dm = s) domains of None \<Rightarrow> 0 | Some dm \<Rightarrow> Stratum dm)"

definition domainOf :: "Unit \<Rightarrow> context_error + string" where
  "domainOf u =
     (if cl_Domain (u_Classification u) \<noteq> '''' then Inr (cl_Domain (u_Classification u))
      else case DomainForToken (id_Type (u_Identity u)) of
          None \<Rightarrow> Inl (UnknownArtifactType (id_Type (u_Identity u)))
        | Some dm \<Rightarrow> Inr (domain_string dm))"

definition entryFor :: "Unit \<Rightarrow> string \<Rightarrow> nat \<Rightarrow> Entry" where
  "entryFor u role number =
     (let domain = (case domainOf u of Inl _ \<Rightarrow> '''' | Inr dm \<Rightarrow> dm) in
      \<lparr>en_CanonicalForm = u_CanonicalIdentityForm u, en_LineForm = unitLine u, en_Number = number,
       en_Type = id_Type (u_Identity u), en_ID = id_ID (u_Identity u), en_Domain = domain,
       en_Stratum = stratumOf domain, en_State = primaryState u, en_Role = role, en_ObjectHash = u_Digest u\<rparr>)"

text \<open>\<open>strconv.Atoi\<close>: an optional sign and decimal digits in the 64-bit range.\<close>

definition atoi :: "string \<Rightarrow> int option" where
  "atoi s = (case s of
       [] \<Rightarrow> None
     | c # ds \<Rightarrow>
         if c = CHR ''-'' then
           (if ds \<noteq> '''' \<and> list_all is_digit ds \<and> decimal ds \<le> max_int64 + 1 then Some (- decimal ds) else None)
         else (let ds' = (if c = CHR ''+'' then ds else s) in
           if ds' \<noteq> '''' \<and> list_all is_digit ds' \<and> decimal ds' \<le> max_int64 then Some (decimal ds') else None))"

definition lineFormOfForm :: "string \<Rightarrow> string" where
  "lineFormOfForm form = (case cut_last colon form of
       None \<Rightarrow> form
     | Some (line, sfx) \<Rightarrow> if sfx = '''' then form else (case atoi sfx of None \<Rightarrow> form | Some _ \<Rightarrow> line))"

definition inStratum :: "nat \<Rightarrow> Unit \<Rightarrow> bool" where
  "inStratum s u = (case domainOf u of Inl _ \<Rightarrow> False | Inr dm \<Rightarrow> stratumOf dm = s)"

definition stratumGroup :: "nat gomap \<Rightarrow> string gomap \<Rightarrow> Unit list \<Rightarrow> nat \<Rightarrow> StratumGroup list" where
  "stratumGroup numbers roles units s = (case filter (inStratum s) units of
       [] \<Rightarrow> []
     | u # us \<Rightarrow> (case domainOf u of
           Inl _ \<Rightarrow> []
         | Inr dm \<Rightarrow> [\<lparr>sg_Stratum = s, sg_Domain = dm,
             sg_Units = map (\<lambda>u. entryFor u (get_or roles (unitLine u) '''') (get_or numbers (unitLine u) 0)) (u # us)\<rparr>]))"

definition groupStrata :: "Unit list \<Rightarrow> nat gomap \<Rightarrow> string gomap \<Rightarrow> StratumGroup list" where
  "groupStrata units numbers roles =
     concat (map (stratumGroup numbers roles (sort_key u_CanonicalIdentityForm units)) [1, 2, 3, 4, 5])"

section \<open>The collector\<close>

record collector =
  co_units :: "Unit gomap"
  co_roles :: "string gomap"

definition newCollector :: collector where
  "newCollector = \<lparr>co_units = [], co_roles = []\<rparr>"

definition collectorContains :: "collector \<Rightarrow> string \<Rightarrow> bool" where
  "collectorContains c line = has_key (co_units c) line"

definition collectorAdd :: "collector \<Rightarrow> Unit \<Rightarrow> string \<Rightarrow> collector \<times> bool" where
  "collectorAdd c u role =
     (if has_key (co_units c) (unitLine u) then (c, False)
      else (c\<lparr>co_units := co_units c @ [(unitLine u, u)], co_roles := co_roles c @ [(unitLine u, role)]\<rparr>, True))"

definition collectorSorted :: "collector \<Rightarrow> Unit list" where
  "collectorSorted c = sort_key u_CanonicalIdentityForm (map snd (co_units c))"

definition collectorNumbers :: "db \<Rightarrow> string \<Rightarrow> collector \<Rightarrow> nat gomap" where
  "collectorNumbers d projectID c =
     (if projectID = '''' then []
      else map (\<lambda>(line, u). (line, NumberForLine d projectID (id_Namespace (u_Identity u)) (id_Type (u_Identity u)) (id_ID (u_Identity u))))
             (co_units c))"

section \<open>Collection\<close>

record dependencyContext =
  dc_col :: collector
  dc_upstreamRole :: "string gomap"
  dc_downstreamRole :: "string gomap"
  dc_depRole :: "string gomap"

fun addRoles :: "string gomap \<Rightarrow> Relation list \<Rightarrow> string gomap" where
  "addRoles out [] = out"
| "addRoles out (rel # rels) =
     (let line = lineFormOfForm (re_Target rel) in
      addRoles (if has_key out line then out else out @ [(line, re_Type rel)]) rels)"

definition edgeRoleMap :: "Relation list \<Rightarrow> string gomap" where
  "edgeRoleMap rels = addRoles [] rels"

text \<open>The loop over the upstream and over the downstream units.\<close>

fun addNeighbours :: "string \<Rightarrow> string gomap \<Rightarrow> collector \<Rightarrow> Unit list \<Rightarrow> collector" where
  "addNeighbours focusLine roles c [] = c"
| "addNeighbours focusLine roles c (u # us) =
     addNeighbours focusLine roles
       (if unitLine u = focusLine then c else fst (collectorAdd c u (get_or roles (unitLine u) ''''))) us"

fun addDependencies :: "(string \<Rightarrow> Unit option) \<Rightarrow> db \<Rightarrow> string \<Rightarrow> collector \<Rightarrow> string gomap \<Rightarrow> Relation list
    \<Rightarrow> context_error + collector \<times> string gomap" where
  "addDependencies dec d focusLine c depRole [] = Inr (c, depRole)"
| "addDependencies dec d focusLine c depRole (rel # rels) =
     (if re_Type rel \<noteq> ''depends-on'' \<and> re_Type rel \<noteq> ''derives-from''
      then addDependencies dec d focusLine c depRole rels
      else case Resolve dec d (re_Target rel) of
          Inl e \<Rightarrow> Inl (ContextRead e)
        | Inr None \<Rightarrow> addDependencies dec d focusLine c depRole rels
        | Inr (Some u) \<Rightarrow>
            if unitLine u = focusLine then addDependencies dec d focusLine c depRole rels
            else addDependencies dec d focusLine (fst (collectorAdd c u (re_Type rel)))
                   (if has_key depRole (unitLine u) then depRole else depRole @ [(unitLine u, re_Type rel)]) rels)"

definition collectDependency :: "(string \<Rightarrow> Unit option) \<Rightarrow> db \<Rightarrow> string list \<Rightarrow> Focus \<Rightarrow> context_error + dependencyContext" where
  "collectDependency dec d projects focus =
     (case Upstream dec d (fo_CanonicalForm focus) of
        Inl e \<Rightarrow> Inl (ContextRead e)
      | Inr ups \<Rightarrow> (case From dec d (fo_CanonicalForm focus) of
        Inl e \<Rightarrow> Inl (ContextRead e)
      | Inr fromRels \<Rightarrow>
         (let upRole = edgeRoleMap fromRels;
              c1 = addNeighbours (fo_LineForm focus) upRole newCollector ups in
          case Downstream dec d projects (fo_CanonicalForm focus) of
            Inl e \<Rightarrow> Inl (ContextRead e)
          | Inr downs \<Rightarrow> (case To dec d projects (fo_CanonicalForm focus) of
            Inl e \<Rightarrow> Inl (ContextRead e)
          | Inr toRels \<Rightarrow>
             (let downRole = edgeRoleMap toRels;
                  c2 = addNeighbours (fo_LineForm focus) downRole c1 downs in
              case addDependencies dec d (fo_LineForm focus) c2 [] fromRels of
                Inl e \<Rightarrow> Inl e
              | Inr (c3, depRole) \<Rightarrow>
                  Inr \<lparr>dc_col = c3, dc_upstreamRole = upRole, dc_downstreamRole = downRole, dc_depRole = depRole\<rparr>)))))"

section \<open>The constraint closure\<close>

definition maxConstraintClosure :: nat where "maxConstraintClosure = 64"

text \<open>The inner loop over the upstream units of one collected unit; it ends early at the cap.\<close>

fun joinConstraints :: "Focus \<Rightarrow> nat \<Rightarrow> collector \<Rightarrow> Unit list \<Rightarrow> nat \<times> collector" where
  "joinConstraints focus added c [] = (added, c)"
| "joinConstraints focus added c (h # hs) = (case domainOf h of
       Inl _ \<Rightarrow> joinConstraints focus added c hs
     | Inr dm \<Rightarrow>
         if stratumOf dm \<ge> fo_Stratum focus then joinConstraints focus added c hs
         else if unitLine h = fo_LineForm focus then joinConstraints focus added c hs
         else if collectorContains c (unitLine h) then joinConstraints focus added c hs
         else (let c' = fst (collectorAdd c h ''constraint'') in
               if added + 1 = maxConstraintClosure then (added + 1, c') else joinConstraints focus (added + 1) c' hs))"

fun expandFrom :: "(string \<Rightarrow> Unit option) \<Rightarrow> db \<Rightarrow> Focus \<Rightarrow> nat \<Rightarrow> collector \<Rightarrow> Unit list \<Rightarrow> context_error + collector" where
  "expandFrom dec d focus added c [] = Inr c"
| "expandFrom dec d focus added c (u # us) = (case Upstream dec d (u_CanonicalIdentityForm u) of
       Inl e \<Rightarrow> Inl (ContextRead e)
     | Inr hs \<Rightarrow> (case joinConstraints focus added c hs of (added', c') \<Rightarrow>
         if added' = maxConstraintClosure then Inr c' else expandFrom dec d focus added' c' us))"

definition expandConstraints :: "(string \<Rightarrow> Unit option) \<Rightarrow> db \<Rightarrow> collector \<Rightarrow> Focus \<Rightarrow> context_error + collector" where
  "expandConstraints dec d c focus = expandFrom dec d focus 0 c (collectorSorted c)"

section \<open>Sections\<close>

definition roleEntries :: "string gomap \<Rightarrow> nat gomap \<Rightarrow> Unit list \<Rightarrow> Entry list" where
  "roleEntries roles numbers us = concat (map (\<lambda>u. case map_of roles (unitLine u) of
       None \<Rightarrow> [] | Some role \<Rightarrow> [entryFor u role (get_or numbers (unitLine u) 0)]) us)"

definition aboveFocus :: "Focus \<Rightarrow> Unit \<Rightarrow> bool" where
  "aboveFocus focus u = (case domainOf u of Inl _ \<Rightarrow> False | Inr dm \<Rightarrow> stratumOf dm < fo_Stratum focus)"

definition classifySections :: "dependencyContext \<Rightarrow> nat gomap \<Rightarrow> Focus \<Rightarrow> HistoryEntry list \<Rightarrow> Sections" where
  "classifySections dc numbers focus history =
     (let us = collectorSorted (dc_col dc);
          entry = (\<lambda>u. entryFor u (get_or (co_roles (dc_col dc)) (unitLine u) '''') (get_or numbers (unitLine u) 0));
          ofType = (\<lambda>ts. map entry (filter (\<lambda>u. List.member ts (id_Type (u_Identity u))) us)) in
      \<lparr>se_Upstream = roleEntries (dc_upstreamRole dc) numbers us,
       se_Downstream = roleEntries (dc_downstreamRole dc) numbers us,
       se_Dependencies = roleEntries (dc_depRole dc) numbers us,
       se_Constraints = map entry (filter (aboveFocus focus) us),
       se_Decisions = ofType [''adr'', ''dec''],
       se_Planning = ofType [''scp'', ''epc'', ''plan'', ''trc''],
       se_Review = ofType [''rvw'', ''cmt''],
       se_History = history\<rparr>)"

definition entryLists :: "Sections \<Rightarrow> Entry list list" where
  "entryLists s = [se_Upstream s, se_Downstream s, se_Dependencies s, se_Constraints s, se_Decisions s, se_Planning s, se_Review s]"

definition countSections :: "Sections \<Rightarrow> nat" where
  "countSections s = length (filter (\<lambda>es. es \<noteq> []) (entryLists s))"

section \<open>Building\<close>

definition buildFocus :: "(string \<Rightarrow> bool) \<Rightarrow> db \<Rightarrow> Unit \<Rightarrow> string \<Rightarrow> Options \<Rightarrow> context_error + Focus" where
  "buildFocus valid d u projectID opts = (case domainOf u of
       Inl e \<Rightarrow> Inl e
     | Inr domain \<Rightarrow> Inr
        \<lparr>fo_Identity = u_Identity u, fo_CanonicalForm = u_CanonicalIdentityForm u, fo_LineForm = unitLine u,
         fo_Number = (if projectID \<noteq> '''' then NumberForLine d projectID (id_Namespace (u_Identity u))
             (id_Type (u_Identity u)) (id_ID (u_Identity u)) else 0),
         fo_EngineeringDomain = domain, fo_Stratum = stratumOf domain, fo_Revision = u_Revision u,
         fo_StateVector = u_StateVector u, fo_Phase = u_Phase u,
         fo_Classification = (let cl = u_Classification u in
           if cl_Dimension cl \<noteq> '''' \<or> cl_DimensionsSecondary cl \<noteq> [] \<or> cl_Domain cl \<noteq> '''' then Some cl else None),
         fo_Provenance = u_Provenance u,
         fo_Confidence = (if u_Confidence u \<noteq> 0 then Some (u_Confidence u) else None),
         fo_SourcePromptHash = u_SourcePromptHash u, fo_SourceCommitSha = u_SourceCommitSha u,
         fo_CaptureMeta = (let m = u_CaptureMeta u in
           if Classifier m \<noteq> '''' \<or> DedupeKey m \<noteq> '''' then Some m else None),
         fo_Relationships = u_Relationships u,
         fo_Content = (if op_NoContent opts then None
           else if cr_Representation (u_Content u) = StructuredJSON \<and> valid (u_ContentPayload u)
           then Some \<lparr>fc_Representation = cr_Representation (u_Content u), fc_Text = '''', fc_Fields = u_ContentPayload u\<rparr>
           else Some \<lparr>fc_Representation = cr_Representation (u_Content u), fc_Text = u_ContentPayload u, fc_Fields = ''''\<rparr>),
         fo_ObjectHash = u_Digest u\<rparr>)"

definition contextChangeLog :: "UnitLogEntry list \<Rightarrow> UnitLogEntry list" where
  "contextChangeLog entries = map (\<lambda>c. \<lparr>le_Date = le_Date c, le_Domain = le_Domain c, le_From = le_From c,
     le_To = le_To c, le_By = le_By c\<rparr>) entries"

definition historyEntry :: "TimelineEntry \<Rightarrow> HistoryEntry" where
  "historyEntry t = \<lparr>hi_CanonicalForm = tl_Form t, hi_InstanceVersion = tl_InstanceVersion t,
     hi_Revision = tl_Revision t, hi_ObjectHash = tl_ObjectHash t, hi_ChangeLog = contextChangeLog (tl_ChangeLog t)\<rparr>"

definition buildHistory :: "(string \<Rightarrow> Unit option) \<Rightarrow> db \<Rightarrow> Unit \<Rightarrow> context_error + HistoryEntry list" where
  "buildHistory dec d u =
     (case Line dec d (id_Namespace (u_Identity u)) (id_Type (u_Identity u)) (id_ID (u_Identity u)) of
        Inl e \<Rightarrow> Inl (ContextRead e)
      | Inr entries \<Rightarrow> Inr (map historyEntry entries))"

definition spine :: "Focus \<Rightarrow> string \<Rightarrow> HistoryEntry list \<Rightarrow> nat \<Rightarrow> nat \<Rightarrow> StratumGroup list \<Rightarrow> Sections \<Rightarrow> ContextObject" where
  "spine focus depth history units sects strata sections =
     \<lparr>cx_Schema = Schema, cx_Kind = ''context'', cx_Focus = focus, cx_Depth = depth,
      cx_Summary = \<lparr>su_Focus = 1, su_Units = units, su_Sections = sects, su_History = length history\<rparr>,
      cx_Strata = strata, cx_Sections = sections\<rparr>"

definition localContext :: "Unit \<Rightarrow> Focus \<Rightarrow> string \<Rightarrow> HistoryEntry list \<Rightarrow> ContextObject" where
  "localContext u focus depth history = spine focus depth history 1 0
     [\<lparr>sg_Stratum = fo_Stratum focus, sg_Domain = fo_EngineeringDomain focus, sg_Units = [entryFor u '''' (fo_Number focus)]\<rparr>]
     \<lparr>se_Upstream = [], se_Downstream = [], se_Dependencies = [], se_Constraints = [], se_Decisions = [],
      se_Planning = [], se_Review = [], se_History = history\<rparr>"

definition collectedContext :: "db \<Rightarrow> string \<Rightarrow> Focus \<Rightarrow> string \<Rightarrow> HistoryEntry list \<Rightarrow> dependencyContext \<Rightarrow> ContextObject" where
  "collectedContext d projectID focus depth history dc =
     (let numbers = collectorNumbers d projectID (dc_col dc);
          us = collectorSorted (dc_col dc);
          sections = classifySections dc numbers focus history in
      spine focus depth history (length us) (countSections sections)
        (groupStrata us numbers (co_roles (dc_col dc))) sections)"

definition Build :: "(string \<Rightarrow> bool) \<Rightarrow> (string \<Rightarrow> Unit option) \<Rightarrow> db \<Rightarrow> string list \<Rightarrow> string \<Rightarrow> string \<Rightarrow> string \<Rightarrow> Options
    \<Rightarrow> context_error + ContextObject" where
  "Build valid dec d projects subject projectID depth opts =
     (case Resolve dec d subject of
        Inl e \<Rightarrow> Inl (ContextRead e)
      | Inr None \<Rightarrow> Inl (NoKnowledgeObject subject)
      | Inr (Some u) \<Rightarrow> (case buildFocus valid d u projectID opts of
        Inl e \<Rightarrow> Inl e
      | Inr focus \<Rightarrow> (case buildHistory dec d u of
        Inl e \<Rightarrow> Inl e
      | Inr history \<Rightarrow>
          if depth = DepthLocal then Inr (localContext u focus depth history)
          else if depth = DepthDependency \<or> depth = DepthEngineering then
            (case collectDependency dec d projects focus of
               Inl e \<Rightarrow> Inl e
             | Inr dc \<Rightarrow>
                 (case (if depth = DepthEngineering then expandConstraints dec d (dc_col dc) focus else Inr (dc_col dc)) of
                    Inl e \<Rightarrow> Inl e
                  | Inr c \<Rightarrow> Inr (collectedContext d projectID focus depth history (dc\<lparr>dc_col := c\<rparr>))))
          else Inl (UnknownDepth depth))))"

section \<open>The collected set\<close>

text \<open>The collector's invariant: one unit and one role per line, each under its own line, the
  focus line not among them.\<close>

definition colOk :: "string \<Rightarrow> collector \<Rightarrow> bool" where
  "colOk focusLine c \<longleftrightarrow> distinct (map fst (co_units c)) \<and> map fst (co_roles c) = map fst (co_units c)
     \<and> list_all (\<lambda>(line, u). line = unitLine u) (co_units c) \<and> focusLine \<notin> fst ` set (co_units c)"

lemma has_key_keys: "has_key m k \<longleftrightarrow> k \<in> fst ` set m"
  by (auto simp: has_key_def map_of_eq_None_iff)

lemma collectorAdd_units:
  "co_units (fst (collectorAdd c u role)) = co_units c @ (if has_key (co_units c) (unitLine u) then [] else [(unitLine u, u)])"
  by (simp add: collectorAdd_def)

lemma collectorAdd_ok: "colOk fl c \<Longrightarrow> unitLine u \<noteq> fl \<Longrightarrow> colOk fl (fst (collectorAdd c u role))"
  by (auto simp: colOk_def collectorAdd_def has_key_keys)

lemma newCollector_ok: "colOk fl newCollector"
  by (simp add: colOk_def newCollector_def)

lemma union_diff_insert: "A \<union> ({x} - F) \<union> (B - F) = A \<union> (insert x B - F)"
  by blast

lemma subset_step: "A \<subseteq> B \<union> C \<Longrightarrow> B \<subseteq> D \<union> {x} \<Longrightarrow> A \<subseteq> D \<union> insert x C"
  by blast

lemma addNeighbours_ok:
  "colOk fl c \<Longrightarrow> colOk fl (addNeighbours fl roles c us)
     \<and> fst ` set (co_units (addNeighbours fl roles c us)) = fst ` set (co_units c) \<union> (unitLine ` set us - {fl})
     \<and> snd ` set (co_units (addNeighbours fl roles c us)) \<subseteq> snd ` set (co_units c) \<union> set us"
proof (induction us arbitrary: c)
  case (Cons u us)
  let ?c = "if unitLine u = fl then c else fst (collectorAdd c u (get_or roles (unitLine u) ''''))"
  have ok: "colOk fl ?c" using Cons.prems by (simp add: collectorAdd_ok)
  have e: "fst ` set (co_units ?c) = fst ` set (co_units c) \<union> ({unitLine u} - {fl})"
    "snd ` set (co_units ?c) \<subseteq> snd ` set (co_units c) \<union> {u}"
    using Cons.prems by (auto simp: collectorAdd_units has_key_keys colOk_def image_iff)
  note ih = Cons.IH [OF ok]
  have r: "addNeighbours fl roles c (u # us) = addNeighbours fl roles ?c us" by simp
  show ?case unfolding r
  proof (intro conjI)
    show "colOk fl (addNeighbours fl roles ?c us)" by (rule conjunct1 [OF ih])
    show "fst ` set (co_units (addNeighbours fl roles ?c us)) = fst ` set (co_units c) \<union> (unitLine ` set (u # us) - {fl})"
      unfolding conjunct1 [OF conjunct2 [OF ih]] e(1) list.set image_insert by (rule union_diff_insert)
    show "snd ` set (co_units (addNeighbours fl roles ?c us)) \<subseteq> snd ` set (co_units c) \<union> set (u # us)"
      unfolding list.set by (rule subset_step [OF conjunct2 [OF conjunct2 [OF ih]] e(2)])
  qed
qed simp

lemma addDependencies_ok:
  "addDependencies dec d fl c dr rels = Inr (c', dr') \<Longrightarrow> colOk fl c \<Longrightarrow> colOk fl c' \<and> set (co_units c) \<subseteq> set (co_units c')"
proof (induction rels arbitrary: c dr)
  case (Cons rel rels)
  consider (skip) "addDependencies dec d fl c dr rels = Inr (c', dr')"
    | (take) u dr2 where "unitLine u \<noteq> fl" "addDependencies dec d fl (fst (collectorAdd c u (re_Type rel))) dr2 rels = Inr (c', dr')"
    using Cons.prems(1) by (auto split: if_split_asm sum.split_asm option.split_asm)
  then show ?case
  proof cases
    case skip
    then show ?thesis using Cons by blast
  next
    case take
    from Cons.IH [OF take(2) collectorAdd_ok [OF Cons.prems(2) take(1)]] show ?thesis by (auto simp: collectorAdd_units)
  qed
qed simp

lemma collectDependency_ok:
  assumes "collectDependency dec d projects focus = Inr dc"
  obtains ups downs where "Upstream dec d (fo_CanonicalForm focus) = Inr ups" "Downstream dec d projects (fo_CanonicalForm focus) = Inr downs"
    "colOk (fo_LineForm focus) (dc_col dc)"
    "\<forall>u \<in> set ups \<union> set downs. unitLine u \<noteq> fo_LineForm focus
        \<longrightarrow> (\<exists>w \<in> set ups \<union> set downs. unitLine w = unitLine u \<and> (unitLine u, w) \<in> set (co_units (dc_col dc)))"
proof -
  from assms obtain ups fr downs tr c3 dr where r: "Upstream dec d (fo_CanonicalForm focus) = Inr ups"
    "Downstream dec d projects (fo_CanonicalForm focus) = Inr downs"
    "addDependencies dec d (fo_LineForm focus) (addNeighbours (fo_LineForm focus) (edgeRoleMap tr)
       (addNeighbours (fo_LineForm focus) (edgeRoleMap fr) newCollector ups) downs) [] fr = Inr (c3, dr)"
    "dc_col dc = c3"
    by (auto simp: collectDependency_def Let_def split: sum.split_asm prod.split_asm)
  let ?fl = "fo_LineForm focus"
  let ?c1 = "addNeighbours ?fl (edgeRoleMap fr) newCollector ups"
  let ?c2 = "addNeighbours ?fl (edgeRoleMap tr) ?c1 downs"
  note n1 = addNeighbours_ok [OF newCollector_ok, of ?fl "edgeRoleMap fr" ups]
  note n2 = addNeighbours_ok [OF conjunct1 [OF n1], of "edgeRoleMap tr" downs]
  note n3 = addDependencies_ok [OF r(3) conjunct1 [OF n2]]
  have one: "fst ` set (co_units ?c1) = unitLine ` set ups - {?fl}" "snd ` set (co_units ?c1) \<subseteq> set ups"
    using n1 by (simp_all add: newCollector_def)
  have lines: "fst ` set (co_units ?c2) = unitLine ` (set ups \<union> set downs) - {?fl}"
    unfolding conjunct1 [OF conjunct2 [OF n2]] one(1) image_Un Un_Diff ..
  have units: "snd ` set (co_units ?c2) \<subseteq> set ups \<union> set downs"
    by (rule subset_trans [OF conjunct2 [OF conjunct2 [OF n2]] Un_mono [OF one(2) subset_refl]])
  have own: "line = unitLine w" if "(line, w) \<in> set (co_units ?c2)" for line w
    using n2 that by (auto simp: colOk_def list_all_iff)
  show thesis
  proof (rule that [OF r(1,2)])
    show "colOk ?fl (dc_col dc)" using n3 r(4) by simp
    show "\<forall>u \<in> set ups \<union> set downs. unitLine u \<noteq> ?fl
        \<longrightarrow> (\<exists>w \<in> set ups \<union> set downs. unitLine w = unitLine u \<and> (unitLine u, w) \<in> set (co_units (dc_col dc)))"
    proof (intro ballI impI)
    fix u assume "u \<in> set ups \<union> set downs" "unitLine u \<noteq> ?fl"
    then have "unitLine u \<in> fst ` set (co_units ?c2)" unfolding lines by blast
    then obtain w where w: "(unitLine u, w) \<in> set (co_units ?c2)" by force
    then have "w \<in> set ups \<union> set downs" using units by force
    moreover have "unitLine w = unitLine u" using own [OF w] by simp
    moreover have "(unitLine u, w) \<in> set (co_units (dc_col dc))" unfolding r(4) by (rule subsetD [OF conjunct2 [OF n3] w])
    ultimately show "\<exists>w \<in> set ups \<union> set downs. unitLine w = unitLine u \<and> (unitLine u, w) \<in> set (co_units (dc_col dc))" by blast
    qed
  qed
qed

text \<open>What the closure may add to a collector.\<close>

definition closes :: "Focus \<Rightarrow> nat \<Rightarrow> (Unit \<Rightarrow> bool) \<Rightarrow> collector \<Rightarrow> collector \<Rightarrow> bool" where
  "closes focus n P c c' \<longleftrightarrow> colOk (fo_LineForm focus) c' \<and>
     (\<exists>xs. co_units c' = co_units c @ xs \<and> co_roles c' = co_roles c @ map (\<lambda>(line, u). (line, ''constraint'')) xs
        \<and> length xs = n \<and> (\<forall>(line, u) \<in> set xs. aboveFocus focus u \<and> P u))"

lemma closes_refl: "colOk (fo_LineForm focus) c \<Longrightarrow> closes focus 0 P c c"
  by (auto simp: closes_def)

lemma closes_trans:
  assumes "closes focus m P a b" "closes focus n Q b c" "\<And>u. P u \<Longrightarrow> R u" "\<And>u. Q u \<Longrightarrow> R u"
  shows "closes focus (m + n) R a c"
proof -
  obtain xs ys where "co_units b = co_units a @ xs" "co_roles b = co_roles a @ map (\<lambda>(line, u). (line, ''constraint'')) xs"
      "length xs = m" "\<forall>(line, u) \<in> set xs. aboveFocus focus u \<and> P u"
    and "co_units c = co_units b @ ys" "co_roles c = co_roles b @ map (\<lambda>(line, u). (line, ''constraint'')) ys"
      "length ys = n" "\<forall>(line, u) \<in> set ys. aboveFocus focus u \<and> Q u" "colOk (fo_LineForm focus) c"
    using assms(1,2) by (auto simp: closes_def)
  then show ?thesis using assms(3,4) by (auto simp: closes_def intro!: exI [of _ "xs @ ys"])
qed

lemma closes_add:
  assumes "colOk (fo_LineForm focus) c" "unitLine h \<noteq> fo_LineForm focus" "\<not> collectorContains c (unitLine h)" "aboveFocus focus h" "P h"
  shows "closes focus 1 P c (fst (collectorAdd c h ''constraint''))"
  using assms collectorAdd_ok [OF assms(1,2)] by (auto simp: closes_def collectorAdd_def collectorContains_def)

lemma joinConstraints_closes:
  assumes "joinConstraints focus added c hs = (added', c')" "colOk (fo_LineForm focus) c" "added < maxConstraintClosure"
  shows "added \<le> added' \<and> added' \<le> maxConstraintClosure \<and> closes focus (added' - added) (\<lambda>u. u \<in> set hs) c c'"
  using assms
proof (induction hs arbitrary: added c)
  case Nil
  then show ?case by (simp add: closes_refl)
next
  case (Cons h hs)
  let ?c = "fst (collectorAdd c h ''constraint'')"
  let ?join = "aboveFocus focus h \<and> unitLine h \<noteq> fo_LineForm focus \<and> \<not> collectorContains c (unitLine h)"
  have unfold: "joinConstraints focus added c (h # hs) =
      (if ?join then if added + 1 = maxConstraintClosure then (added + 1, ?c) else joinConstraints focus (added + 1) ?c hs
       else joinConstraints focus added c hs)"
    by (simp add: aboveFocus_def Let_def not_less split: sum.split)
  show ?case
  proof (cases ?join)
    case False
    have j: "joinConstraints focus added c hs = (added', c')" using trans [OF sym [OF unfold] Cons.prems(1)] unfolding if_not_P [OF False] .
    note ih = Cons.IH [OF j Cons.prems(2,3)]
    have "closes focus (0 + (added' - added)) (\<lambda>u. u \<in> set (h # hs)) c c'"
      by (rule closes_trans [OF closes_refl [OF Cons.prems(2), of "\<lambda>_. False"] conjunct2 [OF conjunct2 [OF ih]]]) auto
    then show ?thesis using ih by simp
  next
    case True
    then have one: "closes focus 1 (\<lambda>u. u = h) c ?c" using Cons.prems(2) by (intro closes_add) auto
    then have ok: "colOk (fo_LineForm focus) ?c" by (simp add: closes_def)
    show ?thesis
    proof (cases "added + 1 = maxConstraintClosure")
      case cap: True
      then have e: "added' = added + 1" "c' = ?c" using Cons.prems(1) unfold True by simp_all
      have "closes focus (1 + 0) (\<lambda>u. u \<in> set (h # hs)) c ?c"
        by (rule closes_trans [OF one closes_refl [OF ok, of "\<lambda>_. False"]]) auto
      moreover have "added' - added = 1 + 0" using e(1) by simp
      ultimately have "closes focus (added' - added) (\<lambda>u. u \<in> set (h # hs)) c c'" unfolding e(2) by (simp only:)
      moreover have "added \<le> added'" "added' \<le> maxConstraintClosure" using e(1) cap by simp_all
      ultimately show ?thesis by (intro conjI)
    next
      case False
      then have "joinConstraints focus (added + 1) ?c hs = (added', c')" using Cons.prems(1) unfold True by simp
      from Cons.IH [OF this ok] False Cons.prems(3)
      have ih: "added + 1 \<le> added'" "added' \<le> maxConstraintClosure" "closes focus (added' - (added + 1)) (\<lambda>u. u \<in> set hs) ?c c'" by auto
      have "closes focus (1 + (added' - (added + 1))) (\<lambda>u. u \<in> set (h # hs)) c c'"
        by (rule closes_trans [OF one ih(3)]) auto
      moreover have "1 + (added' - (added + 1)) = added' - added" using ih(1) by simp
      ultimately have "closes focus (added' - added) (\<lambda>u. u \<in> set (h # hs)) c c'" by (simp only:)
      moreover have "added \<le> added'" using ih(1) by simp
      ultimately show ?thesis using ih(2) by (intro conjI)
    qed
  qed
qed

definition upstreamOf :: "(string \<Rightarrow> Unit option) \<Rightarrow> db \<Rightarrow> Unit list \<Rightarrow> Unit \<Rightarrow> bool" where
  "upstreamOf dec d us h \<longleftrightarrow> (\<exists>u \<in> set us. \<exists>hs. Upstream dec d (u_CanonicalIdentityForm u) = Inr hs \<and> h \<in> set hs)"

lemma expandFrom_closes:
  assumes "expandFrom dec d focus added c us = Inr c'" "colOk (fo_LineForm focus) c" "added < maxConstraintClosure"
  shows "\<exists>n \<le> maxConstraintClosure - added. closes focus n (upstreamOf dec d us) c c'"
  using assms
proof (induction us arbitrary: added c)
  case Nil
  then show ?case by (auto intro: closes_refl)
next
  case (Cons u us)
  obtain hs a1 c1 where j: "Upstream dec d (u_CanonicalIdentityForm u) = Inr hs" "joinConstraints focus added c hs = (a1, c1)"
    "(if a1 = maxConstraintClosure then Inr c1 else expandFrom dec d focus a1 c1 us) = Inr c'"
    using Cons.prems(1) by (auto split: sum.split_asm prod.split_asm)
  note cl = joinConstraints_closes [OF j(2) Cons.prems(2,3)]
  have hop: "\<And>h. h \<in> set hs \<Longrightarrow> upstreamOf dec d (u # us) h" using j(1) by (auto simp: upstreamOf_def)
  have later: "\<And>h. upstreamOf dec d us h \<Longrightarrow> upstreamOf dec d (u # us) h" by (auto simp: upstreamOf_def)
  have ok: "colOk (fo_LineForm focus) c1" using cl by (simp add: closes_def)
  show ?case
  proof (cases "a1 = maxConstraintClosure")
    case True
    have "closes focus (a1 - added + 0) (upstreamOf dec d (u # us)) c c1"
      by (rule closes_trans [OF conjunct2 [OF conjunct2 [OF cl]] closes_refl [OF ok, of "\<lambda>_. False"]]) (auto simp: hop)
    then show ?thesis using True j(3) by auto
  next
    case False
    then have "expandFrom dec d focus a1 c1 us = Inr c'" "a1 < maxConstraintClosure" using j(3) cl by auto
    from Cons.IH [OF this(1) ok this(2)] obtain n where n: "n \<le> maxConstraintClosure - a1" "closes focus n (upstreamOf dec d us) c1 c'" by blast
    have "closes focus (a1 - added + n) (upstreamOf dec d (u # us)) c c'"
      by (rule closes_trans [OF conjunct2 [OF conjunct2 [OF cl]] n(2)]) (auto simp: hop later)
    moreover have "a1 - added + n \<le> maxConstraintClosure - added" using n(1) cl by auto
    ultimately show ?thesis by blast
  qed
qed

lemma expandConstraints_closes:
  assumes "expandConstraints dec d c focus = Inr c'" "colOk (fo_LineForm focus) c"
  obtains n where "n \<le> maxConstraintClosure" "closes focus n (upstreamOf dec d (collectorSorted c)) c c'"
  using expandFrom_closes [OF assms(1) [unfolded expandConstraints_def] assms(2)] by (auto simp: maxConstraintClosure_def)

section \<open>Strata\<close>

lemma stratumOf_inj: "stratumOf a = stratumOf b \<Longrightarrow> stratumOf a \<noteq> 0 \<Longrightarrow> a = b"
proof -
  have S: "stratumOf s = (if s = ''Discovery'' then 1 else if s = ''Architecture'' then 2 else if s = ''Planning'' then 3
      else if s = ''Execution'' then 4 else if s = ''Operations'' then 5 else 0)" for s
    by (auto simp: stratumOf_def domains_def)
  assume "stratumOf a = stratumOf b" "stratumOf a \<noteq> 0"
  then show "a = b" unfolding S by (auto split: if_split_asm)
qed

lemma stratumOf_le: "stratumOf s \<le> 5"
  by (auto simp: stratumOf_def domains_def)

definition entryIn :: "nat gomap \<Rightarrow> string gomap \<Rightarrow> Unit \<Rightarrow> Entry" where
  "entryIn numbers roles u = entryFor u (get_or roles (unitLine u) '''') (get_or numbers (unitLine u) 0)"

lemma entryFor_line [simp]: "en_LineForm (entryFor u role n) = unitLine u" "en_CanonicalForm (entryFor u role n) = u_CanonicalIdentityForm u"
  by (simp_all add: entryFor_def Let_def)

lemma entryIn_line [simp]: "en_LineForm (entryIn numbers roles u) = unitLine u" "en_CanonicalForm (entryIn numbers roles u) = u_CanonicalIdentityForm u"
  by (simp_all add: entryIn_def)

lemma stratumGroup_cases:
  "stratumGroup numbers roles us s = [] \<and> filter (inStratum s) us = []
   \<or> (\<exists>dm. stratumOf dm = s \<and> filter (inStratum s) us \<noteq> [] \<and> stratumGroup numbers roles us s
        = [\<lparr>sg_Stratum = s, sg_Domain = dm, sg_Units = map (entryIn numbers roles) (filter (inStratum s) us)\<rparr>])"
proof (cases "filter (inStratum s) us")
  case (Cons u rest)
  then have "inStratum s u" by (metis filter_eq_ConsD)
  then obtain dm where "domainOf u = Inr dm" "stratumOf dm = s" by (auto simp: inStratum_def split: sum.split_asm)
  then show ?thesis using Cons by (auto simp: stratumGroup_def entryIn_def [abs_def])
qed (simp add: stratumGroup_def)

lemma stratumGroup_units: "concat (map sg_Units (stratumGroup numbers roles us s)) = map (entryIn numbers roles) (filter (inStratum s) us)"
  using stratumGroup_cases [of numbers roles us s] by auto

lemma group_units:
  "concat (map sg_Units (concat (map (stratumGroup numbers roles us) ss)))
     = map (entryIn numbers roles) (concat (map (\<lambda>s. filter (inStratum s) us) ss))"
  by (induction ss) (simp_all add: stratumGroup_units)

lemma strata_distinct:
  "distinct us \<Longrightarrow> distinct ss \<Longrightarrow> distinct (concat (map (\<lambda>s. filter (inStratum s) us) ss))"
proof (induction ss)
  case (Cons s ss)
  have "inStratum s u \<Longrightarrow> inStratum t u \<Longrightarrow> s = t" for t u by (auto simp: inStratum_def split: sum.split_asm)
  with Cons show ?case by auto
qed simp

lemma group_order: "sorted_wrt (<) ss \<Longrightarrow> sorted_wrt (<) (map sg_Stratum (concat (map (stratumGroup numbers roles us) ss)))"
proof (induction ss)
  case (Cons s ss)
  have "sg_Stratum ` set (stratumGroup numbers roles us t) \<subseteq> {t}" for t
    using stratumGroup_cases [of numbers roles us t] by auto
  then have later: "sg_Stratum g \<in> set ss" if "g \<in> set (concat (map (stratumGroup numbers roles us) ss))" for g using that by fastforce
  have s: "s < t" if "t \<in> set ss" for t using Cons.prems that by simp
  have ih: "sorted_wrt (<) (map sg_Stratum (concat (map (stratumGroup numbers roles us) ss)))" using Cons by simp
  show ?case using stratumGroup_cases [of numbers roles us s]
  proof
    assume "\<exists>dm. stratumOf dm = s \<and> filter (inStratum s) us \<noteq> [] \<and> stratumGroup numbers roles us s
        = [\<lparr>sg_Stratum = s, sg_Domain = dm, sg_Units = map (entryIn numbers roles) (filter (inStratum s) us)\<rparr>]"
    then obtain g where g: "stratumGroup numbers roles us s = [g]" "sg_Stratum g = s" by auto
    have "\<forall>x \<in> set (map sg_Stratum (concat (map (stratumGroup numbers roles us) ss))). s < x" using s [OF later] by auto
    then show ?thesis using ih g by simp
  qed (use ih in simp)
qed simp

text \<open>A group of the landscape: one stratum, one domain, entries of it in canonical order.\<close>

definition groupOk :: "StratumGroup \<Rightarrow> bool" where
  "groupOk g \<longleftrightarrow> sg_Units g \<noteq> [] \<and> sorted (map en_CanonicalForm (sg_Units g))
     \<and> list_all (\<lambda>e. en_Stratum e = sg_Stratum g \<and> en_Domain e = sg_Domain g) (sg_Units g)"

lemma entry_domain: "domainOf u = Inr dm \<Longrightarrow> en_Domain (entryFor u role n) = dm \<and> en_Stratum (entryFor u role n) = stratumOf dm"
  by (simp add: entryFor_def Let_def)

lemma stratumGroup_ok:
  assumes "sorted (map u_CanonicalIdentityForm us)" "s \<noteq> 0"
  shows "list_all groupOk (stratumGroup numbers roles us s)"
proof -
  have "en_Stratum (entryIn numbers roles u) = s \<and> en_Domain (entryIn numbers roles u) = dm" if "inStratum s u" "stratumOf dm = s" for u dm
  proof -
    from that(1) obtain dm' where dm': "domainOf u = Inr dm'" "stratumOf dm' = s" by (auto simp: inStratum_def split: sum.split_asm)
    then have "dm' = dm" using stratumOf_inj [of dm' dm] that(2) assms(2) by simp
    then show ?thesis using entry_domain [OF dm'(1)] dm'(2) by (simp add: entryIn_def)
  qed
  moreover have "sorted (map u_CanonicalIdentityForm (filter (inStratum s) us))" using assms(1) by (rule sorted_filter)
  ultimately show ?thesis using stratumGroup_cases [of numbers roles us s]
    by (auto simp: groupOk_def list_all_iff comp_def)
qed

lemma collected_lines:
  assumes "colOk fl c"
  shows "map unitLine (map snd (co_units c)) = map fst (co_units c)"
  using assms by (auto simp: colOk_def list_all_iff)

lemma collectorSorted_ok:
  assumes "colOk fl c"
  shows "distinct (map unitLine (collectorSorted c))" "sorted (map u_CanonicalIdentityForm (collectorSorted c))"
    "fl \<notin> unitLine ` set (collectorSorted c)" "length (collectorSorted c) = length (co_units c)"
    "set (collectorSorted c) = snd ` set (co_units c)"
proof -
  have l: "distinct (map unitLine (map snd (co_units c)))" using assms unfolding collected_lines [OF assms] by (simp add: colOk_def)
  from distinct_map_sort_filter [OF this, of u_CanonicalIdentityForm "\<lambda>_. True"]
  show "distinct (map unitLine (collectorSorted c))" by (simp add: collectorSorted_def)
  show "sorted (map u_CanonicalIdentityForm (collectorSorted c))" by (simp add: collectorSorted_def)
  have "unitLine ` set (collectorSorted c) = set (map unitLine (map snd (co_units c)))" by (simp add: collectorSorted_def image_image)
  then show "fl \<notin> unitLine ` set (collectorSorted c)" unfolding collected_lines [OF assms] using assms by (simp add: colOk_def)
  show "length (collectorSorted c) = length (co_units c)" "set (collectorSorted c) = snd ` set (co_units c)"
    by (simp_all add: collectorSorted_def)
qed

section \<open>The built context\<close>

lemma Build_cases:
  assumes "Build valid dec d projects subject projectID depth opts = Inr obj"
  obtains (loc) u focus history where "Resolve dec d subject = Inr (Some u)" "buildFocus valid d u projectID opts = Inr focus"
      "buildHistory dec d u = Inr history" "depth = DepthLocal" "obj = localContext u focus depth history"
  | (col) u focus history dc c where "Resolve dec d subject = Inr (Some u)" "buildFocus valid d u projectID opts = Inr focus"
      "buildHistory dec d u = Inr history" "depth = DepthDependency \<or> depth = DepthEngineering"
      "collectDependency dec d projects focus = Inr dc"
      "(if depth = DepthEngineering then expandConstraints dec d (dc_col dc) focus else Inr (dc_col dc)) = Inr c"
      "obj = collectedContext d projectID focus depth history (dc\<lparr>dc_col := c\<rparr>)"
proof -
  from assms obtain u focus history where r: "Resolve dec d subject = Inr (Some u)" "buildFocus valid d u projectID opts = Inr focus"
      "buildHistory dec d u = Inr history" by (auto simp: Build_def split: sum.split_asm option.split_asm)
  show thesis
  proof (cases "depth = DepthLocal")
    case True
    then have "obj = localContext u focus depth history" using assms r by (simp add: Build_def)
    with r True show thesis by (rule loc)
  next
    case False
    then have dep: "depth = DepthDependency \<or> depth = DepthEngineering" using assms r by (auto simp: Build_def split: if_split_asm)
    obtain dc where dc: "collectDependency dec d projects focus = Inr dc"
      using assms r False dep by (cases "collectDependency dec d projects focus") (simp_all add: Build_def)
    obtain c where c: "(if depth = DepthEngineering then expandConstraints dec d (dc_col dc) focus else Inr (dc_col dc)) = Inr c"
      using assms r False dep dc
      by (cases "if depth = DepthEngineering then expandConstraints dec d (dc_col dc) focus else Inr (dc_col dc)") (simp_all add: Build_def)
    have "obj = collectedContext d projectID focus depth history (dc\<lparr>dc_col := c\<rparr>)"
      using assms r False dep dc c by (simp add: Build_def)
    with r dep dc c show thesis by (rule col)
  qed
qed

lemma expanded_ok:
  assumes "collectDependency dec d projects focus = Inr dc"
    and "(if depth = DepthEngineering then expandConstraints dec d (dc_col dc) focus else Inr (dc_col dc)) = Inr c"
  obtains n where "n \<le> maxConstraintClosure" "depth \<noteq> DepthEngineering \<Longrightarrow> n = 0"
    "closes focus n (upstreamOf dec d (collectorSorted (dc_col dc))) (dc_col dc) c"
proof -
  have ok: "colOk (fo_LineForm focus) (dc_col dc)" by (rule collectDependency_ok [OF assms(1)])
  show thesis
  proof (cases "depth = DepthEngineering")
    case True
    then have "expandConstraints dec d (dc_col dc) focus = Inr c" using assms(2) by simp
    from expandConstraints_closes [OF this ok] True that show thesis by metis
  next
    case False
    then have "c = dc_col dc" using assms(2) by simp
    then show thesis using that [of 0] closes_refl [OF ok] by simp
  qed
qed

lemma sorted_twice: "sort_key u_CanonicalIdentityForm (collectorSorted c) = collectorSorted c"
  unfolding collectorSorted_def by (rule sort_key_id_if_sorted) simp

lemma with_col [simp]:
  "dc_col (dc\<lparr>dc_col := c\<rparr>) = c" "dc_upstreamRole (dc\<lparr>dc_col := c\<rparr>) = dc_upstreamRole dc"
  "dc_downstreamRole (dc\<lparr>dc_col := c\<rparr>) = dc_downstreamRole dc" "dc_depRole (dc\<lparr>dc_col := c\<rparr>) = dc_depRole dc"
  by simp_all

lemma collected_strata:
  assumes "colOk fl (dc_col dc)"
  shows "concat (map sg_Units (cx_Strata (collectedContext d projectID focus depth history dc)))
      = map (entryIn (collectorNumbers d projectID (dc_col dc)) (co_roles (dc_col dc)))
          (concat (map (\<lambda>s. filter (inStratum s) (collectorSorted (dc_col dc))) [1, 2, 3, 4, 5]))"
  by (simp only: collectedContext_def Let_def spine_def ContextObject.select_convs groupStrata_def group_units sorted_twice)

text \<open>C16: The strata of a context are a partition: ascending, each group not empty, of one
  stratum and one domain and in the order of the canonical forms, and no line stands in two
  places.  The entries are at most the units the summary counts.\<close>

theorem context_strata_sound:
  assumes "Build valid dec d projects subject projectID depth opts = Inr obj"
  shows "sorted_wrt (<) (map sg_Stratum (cx_Strata obj)) \<and> list_all groupOk (cx_Strata obj)
    \<and> distinct (map en_LineForm (concat (map sg_Units (cx_Strata obj))))
    \<and> length (concat (map sg_Units (cx_Strata obj))) \<le> su_Units (cx_Summary obj)"
  using assms
proof (cases rule: Build_cases)
  case (loc u focus history)
  then have "fo_Stratum focus = stratumOf (fo_EngineeringDomain focus)" "domainOf u = Inr (fo_EngineeringDomain focus)"
    by (auto simp: buildFocus_def split: sum.split_asm)
  then show ?thesis using loc(5) by (simp add: localContext_def spine_def groupOk_def entry_domain)
next
  case (col u focus history dc c)
  obtain n where "closes focus n (upstreamOf dec d (collectorSorted (dc_col dc))) (dc_col dc) c"
    by (rule expanded_ok [OF col(5,6)])
  then have ok: "colOk (fo_LineForm focus) (dc_col (dc\<lparr>dc_col := c\<rparr>))" by (simp add: closes_def)
  let ?us = "collectorSorted c" and ?ss = "[1, 2, 3, 4, 5] :: nat list"
  let ?flat = "concat (map (\<lambda>s. filter (inStratum s) ?us) ?ss)"
  note srt = collectorSorted_ok [OF ok, simplified]
  have strata: "cx_Strata obj = concat (map (stratumGroup (collectorNumbers d projectID c) (co_roles c) ?us) ?ss)"
    by (simp only: col(7) collectedContext_def Let_def spine_def ContextObject.select_convs groupStrata_def sorted_twice with_col)
  have d: "distinct ?flat" using srt(1) by (intro strata_distinct) (simp_all add: distinct_map)
  have sub: "set ?flat \<subseteq> set ?us" by auto
  have flat: "concat (map sg_Units (cx_Strata obj)) = map (entryIn (collectorNumbers d projectID c) (co_roles c)) ?flat"
    unfolding strata by (rule group_units)
  have "sorted_wrt (<) (map sg_Stratum (cx_Strata obj))" unfolding strata by (rule group_order) simp
  moreover have "list_all groupOk (cx_Strata obj)"
    unfolding strata using stratumGroup_ok [OF srt(2)] by simp
  moreover have "distinct (map en_LineForm (concat (map sg_Units (cx_Strata obj))))"
  proof -
    have "inj_on unitLine (set ?flat)" using srt(1) sub by (auto simp: distinct_map intro: inj_on_subset)
    then show ?thesis unfolding flat using d by (simp only: map_map comp_def entryIn_line distinct_map simp_thms)
  qed
  moreover have "length ?flat \<le> length ?us"
    using d sub by (metis card_length card_mono distinct_card finite_set le_trans)
  then have "length (concat (map sg_Units (cx_Strata obj))) \<le> su_Units (cx_Summary obj)"
    unfolding flat by (simp add: col(7) collectedContext_def Let_def spine_def)
  ultimately show ?thesis by blast
qed

definition sectionOk :: "string \<Rightarrow> Entry list \<Rightarrow> bool" where
  "sectionOk focusLine es \<longleftrightarrow> distinct (map en_LineForm es) \<and> sorted (map en_CanonicalForm es) \<and> focusLine \<notin> set (map en_LineForm es)"

lemma roleEntries_alt:
  "roleEntries roles numbers us = map (\<lambda>u. entryFor u (get_or roles (unitLine u) '''') (get_or numbers (unitLine u) 0))
     (filter (\<lambda>u. has_key roles (unitLine u)) us)"
  by (induction us) (auto simp: roleEntries_def has_key_def get_or_def split: option.splits)

lemma section_filter:
  assumes "distinct (map unitLine us)" "sorted (map u_CanonicalIdentityForm us)" "fl \<notin> unitLine ` set us"
  shows "sectionOk fl (map (\<lambda>u. entryFor u (f u) (g u)) (filter P us))"
proof -
  have "distinct (map unitLine (filter P us))" using assms(1) by (rule distinct_map_filter)
  moreover have "sorted (map u_CanonicalIdentityForm (filter P us))" using assms(2) by (rule sorted_filter)
  ultimately show ?thesis using assms(3) by (auto simp: sectionOk_def comp_def)
qed

text \<open>Every section of a context lists each line once, in the order of the canonical forms,
  and never the focus; the constraints are strictly above the focus; the summary counts the
  sections that are not empty and the entries of the history.\<close>

theorem context_sections_sound:
  assumes "Build valid dec d projects subject projectID depth opts = Inr obj"
  shows "list_all (sectionOk (fo_LineForm (cx_Focus obj))) (entryLists (cx_Sections obj))
    \<and> list_all (\<lambda>e. en_Stratum e < fo_Stratum (cx_Focus obj)) (se_Constraints (cx_Sections obj))
    \<and> su_Sections (cx_Summary obj) = countSections (cx_Sections obj)
    \<and> su_History (cx_Summary obj) = length (se_History (cx_Sections obj)) \<and> su_Focus (cx_Summary obj) = 1"
  using assms
proof (cases rule: Build_cases)
  case (loc u focus history)
  then show ?thesis by (simp add: localContext_def spine_def entryLists_def sectionOk_def countSections_def)
next
  case (col u focus history dc c)
  obtain n where "closes focus n (upstreamOf dec d (collectorSorted (dc_col dc))) (dc_col dc) c"
    by (rule expanded_ok [OF col(5,6)])
  then have ok: "colOk (fo_LineForm focus) (dc_col (dc\<lparr>dc_col := c\<rparr>))" by (simp add: closes_def)
  note sec = section_filter [OF collectorSorted_ok(1-3) [OF ok], simplified]
  have "list_all (sectionOk (fo_LineForm (cx_Focus obj))) (entryLists (cx_Sections obj))"
    by (simp add: col(7) collectedContext_def Let_def spine_def classifySections_def entryLists_def roleEntries_alt sec)
  moreover have "list_all (\<lambda>e. en_Stratum e < fo_Stratum (cx_Focus obj)) (se_Constraints (cx_Sections obj))"
    by (auto simp: col(7) collectedContext_def Let_def spine_def classifySections_def list_all_iff aboveFocus_def entry_domain
        split: sum.split_asm)
  moreover have "su_Sections (cx_Summary obj) = countSections (cx_Sections obj)"
    "su_History (cx_Summary obj) = length (se_History (cx_Sections obj))" "su_Focus (cx_Summary obj) = 1"
    by (simp_all add: col(7) collectedContext_def Let_def spine_def classifySections_def)
  ultimately show ?thesis by blast
qed

lemma get_or_append: "has_key m k \<Longrightarrow> get_or (m @ n) k z = get_or m k z"
  by (auto simp: get_or_def has_key_def map_add_def split: option.splits)

lemma closes_entry:
  assumes "closes focus n P c c'" "colOk fl c" "u \<in> set (collectorSorted c)"
  shows "u \<in> set (collectorSorted c')"
    and "get_or (co_roles c') (unitLine u) '''' = get_or (co_roles c) (unitLine u) ''''"
    and "get_or (collectorNumbers d projectID c') (unitLine u) 0 = get_or (collectorNumbers d projectID c) (unitLine u) 0"
proof -
  obtain xs where xs: "co_units c' = co_units c @ xs" "co_roles c' = co_roles c @ map (\<lambda>(line, u). (line, ''constraint'')) xs"
    using assms(1) by (auto simp: closes_def)
  show "u \<in> set (collectorSorted c')" using assms(3) xs(1) by (auto simp: collectorSorted_def)
  have "unitLine u \<in> set (map unitLine (map snd (co_units c)))" using assms(3) by (auto simp: collectorSorted_def)
  then have "unitLine u \<in> set (map fst (co_units c))" unfolding collected_lines [OF assms(2)] .
  then have units: "has_key (co_units c) (unitLine u)" "has_key (co_roles c) (unitLine u)"
    using assms(2) unfolding has_key_keys set_map [symmetric] by (simp_all add: colOk_def)
  show "get_or (co_roles c') (unitLine u) '''' = get_or (co_roles c) (unitLine u) ''''"
    unfolding xs(2) by (rule get_or_append [OF units(2)])
  have "has_key (collectorNumbers d projectID c) (unitLine u)" if "projectID \<noteq> ''''"
    using units(1) that by (force simp: collectorNumbers_def has_key_keys)
  then show "get_or (collectorNumbers d projectID c') (unitLine u) 0 = get_or (collectorNumbers d projectID c) (unitLine u) 0"
    by (cases "projectID = ''''") (simp_all add: collectorNumbers_def xs(1) get_or_append)
qed

lemma closed_strata:
  assumes "closes focus n P (dc_col dc) c" "colOk fl (dc_col dc)"
  shows "set (concat (map sg_Units (cx_Strata (collectedContext d projectID focus depth history dc))))
      \<subseteq> set (concat (map sg_Units (cx_Strata (collectedContext d projectID focus depth' history (dc\<lparr>dc_col := c\<rparr>)))))"
proof -
  have ok: "colOk (fo_LineForm focus) (dc_col (dc\<lparr>dc_col := c\<rparr>))" using assms(1) by (simp add: closes_def)
  let ?old = "entryIn (collectorNumbers d projectID (dc_col dc)) (co_roles (dc_col dc))"
  let ?new = "entryIn (collectorNumbers d projectID c) (co_roles c)"
  note e = closes_entry [OF assms]
  have same: "?new u = ?old u" if "u \<in> set (collectorSorted (dc_col dc))" for u
    unfolding entryIn_def e(2) [OF that] e(3) [OF that] ..
  have "?old u \<in> ?new ` {u \<in> set (collectorSorted c). inStratum s u}" if "u \<in> set (collectorSorted (dc_col dc))" "inStratum s u" for u s
    using same [OF that(1)] e(1) [OF that(1)] that(2) by force
  then show ?thesis unfolding collected_strata [OF assms(2)] collected_strata [OF ok] by auto
qed

lemma closed_sections:
  assumes "closes focus n P (dc_col dc) c" "colOk fl (dc_col dc)"
  shows "list_all2 (\<lambda>es es'. set es \<subseteq> set es')
      (entryLists (cx_Sections (collectedContext d projectID focus depth history dc)))
      (entryLists (cx_Sections (collectedContext d projectID focus depth' history (dc\<lparr>dc_col := c\<rparr>))))"
proof -
  note e = closes_entry [OF assms]
  have sub: "set (map (\<lambda>u. entryFor u (r u) (get_or (collectorNumbers d projectID (dc_col dc)) (unitLine u) 0)) (filter Q (collectorSorted (dc_col dc))))
      \<subseteq> set (map (\<lambda>u. entryFor u (r' u) (get_or (collectorNumbers d projectID c) (unitLine u) 0)) (filter Q (collectorSorted c)))"
    if "\<And>u. u \<in> set (collectorSorted (dc_col dc)) \<Longrightarrow> r' u = r u" for r r' Q
  proof
    fix x assume "x \<in> set (map (\<lambda>u. entryFor u (r u) (get_or (collectorNumbers d projectID (dc_col dc)) (unitLine u) 0)) (filter Q (collectorSorted (dc_col dc))))"
    then obtain u where u: "u \<in> set (collectorSorted (dc_col dc))" "Q u"
      "x = entryFor u (r u) (get_or (collectorNumbers d projectID (dc_col dc)) (unitLine u) 0)" by auto
    have "x = entryFor u (r' u) (get_or (collectorNumbers d projectID c) (unitLine u) 0)" unfolding u(3) that [OF u(1)] e(3) [OF u(1)] ..
    then show "x \<in> set (map (\<lambda>u. entryFor u (r' u) (get_or (collectorNumbers d projectID c) (unitLine u) 0)) (filter Q (collectorSorted c)))"
      using e(1) [OF u(1)] u(2) by auto
  qed
  show ?thesis
    unfolding collectedContext_def Let_def spine_def classifySections_def entryLists_def roleEntries_alt
    unfolding ContextObject.select_convs Sections.select_convs with_col list_all2_Cons list_all2_Nil
    by (intro conjI sub e(2) refl)
qed

lemma closed_added:
  assumes "closes focus n P (dc_col dc) c" "colOk fl (dc_col dc)"
    and "x \<in> set (concat (map sg_Units (cx_Strata (collectedContext d projectID focus depth history (dc\<lparr>dc_col := c\<rparr>)))))"
  shows "x \<in> set (concat (map sg_Units (cx_Strata (collectedContext d projectID focus depth' history dc))))
    \<or> en_Role x = ''constraint'' \<and> en_Stratum x < fo_Stratum focus"
proof -
  have ok: "colOk (fo_LineForm focus) c" using assms(1) by (simp add: closes_def)
  then have ok': "colOk (fo_LineForm focus) (dc_col (dc\<lparr>dc_col := c\<rparr>))" by simp
  obtain xs where xs: "co_units c = co_units (dc_col dc) @ xs"
    "co_roles c = co_roles (dc_col dc) @ map (\<lambda>(line, u). (line, ''constraint'')) xs"
    "\<forall>(line, u) \<in> set xs. aboveFocus focus u \<and> P u" using assms(1) by (auto simp: closes_def)
  let ?new = "entryIn (collectorNumbers d projectID c) (co_roles c)"
  from assms(3) obtain u s where u: "x = ?new u" "u \<in> set (collectorSorted c)" "s \<in> {1, 2, 3, 4, 5 :: nat}" "inStratum s u"
    unfolding collected_strata [OF ok'] by auto
  show ?thesis
  proof (cases "u \<in> set (collectorSorted (dc_col dc))")
    case True
    note e = closes_entry [OF assms(1,2) True]
    have "x = entryIn (collectorNumbers d projectID (dc_col dc)) (co_roles (dc_col dc)) u"
      unfolding u(1) entryIn_def e(2) e(3) ..
    then show ?thesis unfolding collected_strata [OF assms(2)] using True u(3,4) by auto
  next
    case False
    then obtain line where l: "(line, u) \<in> set xs" using u(2) xs(1) by (auto simp: collectorSorted_def)
    then have above: "aboveFocus focus u" using xs(3) by auto
    have line: "line = unitLine u" using ok l xs(1) by (auto simp: colOk_def list_all_iff)
    then have new: "\<not> has_key (co_units (dc_col dc)) (unitLine u)" using ok l xs(1) by (force simp: colOk_def has_key_keys)
    have roles: "map fst (co_roles (dc_col dc)) = map fst (co_units (dc_col dc))" using assms(2) by (simp add: colOk_def)
    have "map_of (co_roles (dc_col dc)) (unitLine u) = None"
      using new arg_cong [OF roles, of set] by (simp add: has_key_keys map_of_eq_None_iff)
    moreover have "distinct (map fst (map (\<lambda>(line, u). (line, ''constraint'')) xs))"
      using ok xs(1) by (simp add: colOk_def comp_def case_prod_unfold)
    then have "map_of (map (\<lambda>(line, u). (line, ''constraint'')) xs) (unitLine u) = Some ''constraint''"
      using l line by (intro map_of_is_SomeI) force+
    ultimately have "get_or (co_roles c) (unitLine u) '''' = ''constraint''" by (simp add: get_or_def xs(2) map_add_def)
    then have "en_Role x = ''constraint''" by (simp add: u(1) entryIn_def entryFor_def Let_def)
    moreover have "en_Stratum x < fo_Stratum focus" using above
      by (auto simp: u(1) entryIn_def aboveFocus_def entry_domain split: sum.split_asm)
    ultimately show ?thesis by blast
  qed
qed

text \<open>C15: The engineering context is the dependency context with a bounded closure: whenever it
  is built the dependency context is built too, with the same focus and history; it counts at
  most 64 more units; every entry of a section or a stratum of the dependency context is in
  it unchanged, and what its strata add are constraints strictly above the focus.\<close>

theorem engineering_extends_dependency:
  assumes "Build valid dec d projects subject projectID DepthEngineering opts = Inr eng"
  shows "\<exists>obj. Build valid dec d projects subject projectID DepthDependency opts = Inr obj
    \<and> cx_Focus eng = cx_Focus obj \<and> se_History (cx_Sections eng) = se_History (cx_Sections obj)
    \<and> su_Units (cx_Summary obj) \<le> su_Units (cx_Summary eng) \<and> su_Units (cx_Summary eng) \<le> su_Units (cx_Summary obj) + 64
    \<and> list_all2 (\<lambda>es es'. set es \<subseteq> set es') (entryLists (cx_Sections obj)) (entryLists (cx_Sections eng))
    \<and> set (concat (map sg_Units (cx_Strata obj))) \<subseteq> set (concat (map sg_Units (cx_Strata eng)))
    \<and> list_all (\<lambda>x. x \<in> set (concat (map sg_Units (cx_Strata obj)))
          \<or> en_Role x = ''constraint'' \<and> en_Stratum x < fo_Stratum (cx_Focus eng)) (concat (map sg_Units (cx_Strata eng)))"
  using assms
proof (cases rule: Build_cases)
  case (loc u focus history)
  then show ?thesis by (simp add: DepthEngineering_def DepthLocal_def)
next
  case (col u focus history dc c)
  let ?obj = "collectedContext d projectID focus DepthDependency history dc"
  have b: "Build valid dec d projects subject projectID DepthDependency opts = Inr ?obj"
    using col(1-3,5) by (simp add: Build_def DepthDependency_def DepthLocal_def DepthEngineering_def)
  obtain n where n: "n \<le> maxConstraintClosure" "closes focus n (upstreamOf dec d (collectorSorted (dc_col dc))) (dc_col dc) c"
    by (rule expanded_ok [OF col(5,6)])
  have ok: "colOk (fo_LineForm focus) (dc_col dc)" by (rule collectDependency_ok [OF col(5)])
  have len: "length (co_units c) = length (co_units (dc_col dc)) + n" using n(2) by (auto simp: closes_def)
  show ?thesis
  proof (intro exI [of _ ?obj] conjI)
    show "Build valid dec d projects subject projectID DepthDependency opts = Inr ?obj" by (rule b)
    show "cx_Focus eng = cx_Focus ?obj" "se_History (cx_Sections eng) = se_History (cx_Sections ?obj)"
      by (simp_all add: col(7) collectedContext_def Let_def spine_def classifySections_def)
    show "su_Units (cx_Summary ?obj) \<le> su_Units (cx_Summary eng)" "su_Units (cx_Summary eng) \<le> su_Units (cx_Summary ?obj) + 64"
      using n(1) len by (simp_all add: col(7) collectedContext_def Let_def spine_def collectorSorted_def maxConstraintClosure_def)
    show "list_all2 (\<lambda>es es'. set es \<subseteq> set es') (entryLists (cx_Sections ?obj)) (entryLists (cx_Sections eng))"
      unfolding col(7) by (rule closed_sections [OF n(2) ok])
    show "set (concat (map sg_Units (cx_Strata ?obj))) \<subseteq> set (concat (map sg_Units (cx_Strata eng)))"
      unfolding col(7) by (rule closed_strata [OF n(2) ok])
    have "fo_Stratum (cx_Focus eng) = fo_Stratum focus" by (simp add: col(7) collectedContext_def Let_def spine_def)
    then show "list_all (\<lambda>x. x \<in> set (concat (map sg_Units (cx_Strata ?obj)))
          \<or> en_Role x = ''constraint'' \<and> en_Stratum x < fo_Stratum (cx_Focus eng)) (concat (map sg_Units (cx_Strata eng)))"
      unfolding list_all_iff using closed_added [OF n(2) ok] unfolding col(7) by metis
  qed
qed

definition knownDomain :: "Unit \<Rightarrow> bool" where
  "knownDomain u \<longleftrightarrow> (case domainOf u of Inl _ \<Rightarrow> False | Inr dm \<Rightarrow> stratumOf dm \<noteq> 0)"

text \<open>C17: A dependency or engineering context is complete: each unit the two traversals return for
  the focus, on another line than the focus, has its line in the strata, when the domains of
  those units are known.\<close>

theorem context_neighbours_complete:
  assumes "Build valid dec d projects subject projectID depth opts = Inr obj" and "depth \<noteq> DepthLocal"
    and "Upstream dec d (fo_CanonicalForm (cx_Focus obj)) = Inr ups"
    and "Downstream dec d projects (fo_CanonicalForm (cx_Focus obj)) = Inr downs"
    and "list_all knownDomain (ups @ downs)" and "u \<in> set (ups @ downs)" and "unitLine u \<noteq> fo_LineForm (cx_Focus obj)"
  shows "unitLine u \<in> set (map en_LineForm (concat (map sg_Units (cx_Strata obj))))"
  using assms(1)
proof (cases rule: Build_cases)
  case (loc v focus history)
  then show ?thesis using assms(2) by simp
next
  case (col v focus history dc c)
  have f: "cx_Focus obj = focus" by (simp add: col(7) collectedContext_def Let_def spine_def)
  obtain n where n: "closes focus n (upstreamOf dec d (collectorSorted (dc_col dc))) (dc_col dc) c"
    by (rule expanded_ok [OF col(5,6)])
  then have ok: "colOk (fo_LineForm focus) (dc_col (dc\<lparr>dc_col := c\<rparr>))" by (simp add: closes_def)
  obtain ups' downs' where t: "Upstream dec d (fo_CanonicalForm focus) = Inr ups'" "Downstream dec d projects (fo_CanonicalForm focus) = Inr downs'"
    and "colOk (fo_LineForm focus) (dc_col dc)" and cov: "\<forall>u \<in> set ups' \<union> set downs'. unitLine u \<noteq> fo_LineForm focus
        \<longrightarrow> (\<exists>w \<in> set ups' \<union> set downs'. unitLine w = unitLine u \<and> (unitLine u, w) \<in> set (co_units (dc_col dc)))"
    by (rule collectDependency_ok [OF col(5)])
  have "ups' = ups" "downs' = downs" using t assms(3,4) by (simp_all add: f)
  with bspec [OF cov, of u] assms(6,7) f obtain w where w: "w \<in> set (ups @ downs)" "unitLine w = unitLine u" "(unitLine u, w) \<in> set (co_units (dc_col dc))"
    by auto
  have "set (co_units (dc_col dc)) \<subseteq> set (co_units c)" using n by (auto simp: closes_def)
  then have ws: "w \<in> set (collectorSorted c)" using w(3) by (force simp: collectorSorted_def)
  have "knownDomain w" using assms(5) w(1) unfolding list_all_iff by (rule bspec)
  then obtain dm where dm: "domainOf w = Inr dm" "stratumOf dm \<noteq> 0"
    unfolding knownDomain_def by (cases "domainOf w") simp_all
  then have "inStratum (stratumOf dm) w" by (simp add: inStratum_def)
  moreover have "stratumOf dm \<in> {1, 2, 3, 4, 5}" using dm(2) stratumOf_le [of dm] by auto
  ultimately have "w \<in> set (concat (map (\<lambda>s. filter (inStratum s) (collectorSorted c)) [1, 2, 3, 4, 5]))" using ws by auto
  then have "unitLine w \<in> set (map en_LineForm (concat (map sg_Units (cx_Strata obj))))"
    unfolding col(7) collected_strata [OF ok] by (auto simp: image_iff)
  then show ?thesis using w(2) by simp
qed

section \<open>Samples\<close>

definition noContent :: Options where "noContent = \<lparr>op_NoContent = True\<rparr>"

definition contextOf :: "Unit list \<Rightarrow> string \<Rightarrow> string \<Rightarrow> context_error + ContextObject" where
  "contextOf us subject depth = Build (\<lambda>_. True) (lensDecode us) (lensStore us) [''p''] subject ''p'' depth noContent"

definition rolesIn :: "Entry list \<Rightarrow> (string \<times> string) list" where
  "rolesIn es = map (\<lambda>e. (en_CanonicalForm e, en_Role e)) es"

text \<open>What a test reads of a context: the strata, the upstream section, the constraints and the
  count of units.\<close>

definition digest :: "context_error + ContextObject \<Rightarrow> ((nat \<times> (string \<times> string) list) list \<times> (string \<times> string) list \<times> string list \<times> nat) option" where
  "digest r = (case r of Inl _ \<Rightarrow> None
     | Inr obj \<Rightarrow> Some (map (\<lambda>g. (sg_Stratum g, rolesIn (sg_Units g))) (cx_Strata obj), rolesIn (se_Upstream (cx_Sections obj)),
         map en_CanonicalForm (se_Constraints (cx_Sections obj)), su_Units (cx_Summary obj)))"

definition chainSample :: "Unit list" where
  "chainSample = [lensUnit ''core'' ''sto'' ''x'' 1 [(''depends-on'', ''core/adr:a'')],
     lensUnit ''core'' ''adr'' ''a'' 1 [(''derives-from'', ''core/req:r:1'')], lensUnit ''core'' ''req'' ''r'' 1 []]"

lemma chain_engineering:
  "digest (contextOf chainSample ''core/sto:x'' DepthEngineering) =
     Some ([(1, [(''core/req:r:1'', ''constraint'')]), (2, [(''core/adr:a:1'', ''depends-on'')])],
           [(''core/adr:a:1'', ''depends-on'')], [''core/adr:a:1'', ''core/req:r:1''], 2)"
  by code_simp

lemma digest_Some:
  assumes "digest r = Some (strata, ups, cons, n)"
  obtains obj where "r = Inr obj" "map (\<lambda>g. (sg_Stratum g, rolesIn (sg_Units g))) (cx_Strata obj) = strata"
    "rolesIn (se_Upstream (cx_Sections obj)) = ups" "su_Units (cx_Summary obj) = n"
  using assms by (auto simp: digest_def split: sum.split_asm)

lemma chain_context:
  obtains obj where "contextOf chainSample ''core/sto:x'' DepthEngineering = Inr obj"
    "map (\<lambda>g. (sg_Stratum g, rolesIn (sg_Units g))) (cx_Strata obj) = [(1, [(''core/req:r:1'', ''constraint'')]), (2, [(''core/adr:a:1'', ''depends-on'')])]"
    "rolesIn (se_Upstream (cx_Sections obj)) = [(''core/adr:a:1'', ''depends-on'')]" "su_Units (cx_Summary obj) = 2"
  by (rule digest_Some [OF chain_engineering])

theorem context_strata_sound_witness:
  "\<exists>obj. contextOf chainSample ''core/sto:x'' DepthEngineering = Inr obj \<and> map sg_Stratum (cx_Strata obj) = [1, 2]
     \<and> list_all groupOk (cx_Strata obj)"
proof -
  obtain obj where obj: "contextOf chainSample ''core/sto:x'' DepthEngineering = Inr obj"
    "map (\<lambda>g. (sg_Stratum g, rolesIn (sg_Units g))) (cx_Strata obj) = [(1, [(''core/req:r:1'', ''constraint'')]), (2, [(''core/adr:a:1'', ''depends-on'')])]"
    by (rule chain_context)
  from context_strata_sound [OF obj(1) [unfolded contextOf_def]] have g: "list_all groupOk (cx_Strata obj)" by (elim conjE)
  have s: "map sg_Stratum (cx_Strata obj) = [1, 2]" using arg_cong [OF obj(2), of "map fst"] by (simp add: comp_def)
  show ?thesis by (intro exI [of _ obj] conjI obj(1) s g)
qed

theorem context_sections_sound_witness:
  "\<exists>obj. contextOf chainSample ''core/sto:x'' DepthEngineering = Inr obj \<and> rolesIn (se_Upstream (cx_Sections obj)) = [(''core/adr:a:1'', ''depends-on'')]
     \<and> list_all (sectionOk (fo_LineForm (cx_Focus obj))) (entryLists (cx_Sections obj))"
proof -
  obtain obj where obj: "contextOf chainSample ''core/sto:x'' DepthEngineering = Inr obj"
    "rolesIn (se_Upstream (cx_Sections obj)) = [(''core/adr:a:1'', ''depends-on'')]"
    by (rule chain_context)
  from context_sections_sound [OF obj(1) [unfolded contextOf_def]]
  have s: "list_all (sectionOk (fo_LineForm (cx_Focus obj))) (entryLists (cx_Sections obj))" by (elim conjE)
  show ?thesis by (intro exI [of _ obj] conjI obj s)
qed

theorem engineering_extends_dependency_witness:
  "\<exists>eng obj. contextOf chainSample ''core/sto:x'' DepthEngineering = Inr eng \<and> contextOf chainSample ''core/sto:x'' DepthDependency = Inr obj
     \<and> su_Units (cx_Summary eng) = 2 \<and> su_Units (cx_Summary obj) \<le> 2
     \<and> set (concat (map sg_Units (cx_Strata obj))) \<subseteq> set (concat (map sg_Units (cx_Strata eng)))"
proof -
  obtain eng where eng: "contextOf chainSample ''core/sto:x'' DepthEngineering = Inr eng" "su_Units (cx_Summary eng) = 2"
    by (rule chain_context)
  from engineering_extends_dependency [OF eng(1) [unfolded contextOf_def]] eng show ?thesis by (auto simp: contextOf_def)
qed

theorem context_neighbours_complete_witness:
  "\<exists>obj. contextOf chainSample ''core/sto:x'' DepthEngineering = Inr obj
     \<and> ''core/adr:a'' \<in> set (map en_LineForm (concat (map sg_Units (cx_Strata obj))))"
proof -
  let ?D = "lensDecode chainSample" and ?d = "lensStore chainSample"
  obtain obj where obj: "contextOf chainSample ''core/sto:x'' DepthEngineering = Inr obj" by (rule chain_context)
  have "(case contextOf chainSample ''core/sto:x'' DepthEngineering of Inl _ \<Rightarrow> ('''', '''')
       | Inr x \<Rightarrow> (fo_CanonicalForm (cx_Focus x), fo_LineForm (cx_Focus x))) = (''core/sto:x:1'', ''core/sto:x'')" by code_simp
  then have f: "fo_CanonicalForm (cx_Focus obj) = ''core/sto:x:1''" "fo_LineForm (cx_Focus obj) = ''core/sto:x''" using obj by simp_all
  have "(case Upstream ?D ?d ''core/sto:x:1'' of Inl _ \<Rightarrow> [] | Inr us \<Rightarrow> map (\<lambda>u. (unitLine u, knownDomain u)) us) = [(''core/adr:a'', True)]" by code_simp
  then obtain u where u: "Upstream ?D ?d ''core/sto:x:1'' = Inr [u]" "unitLine u = ''core/adr:a''" "knownDomain u"
    by (auto split: sum.split_asm)
  have "(case Downstream ?D ?d [''p''] ''core/sto:x:1'' of Inl _ \<Rightarrow> False | Inr us \<Rightarrow> us = [])" by code_simp
  then have dn: "Downstream ?D ?d [''p''] ''core/sto:x:1'' = Inr []" by (auto split: sum.split_asm)
  from context_neighbours_complete [OF obj [unfolded contextOf_def] _ u(1) [folded f(1)] dn [folded f(1)], of u] u(2,3) f(2) obj
  show ?thesis by (simp add: DepthEngineering_def DepthLocal_def)
qed

text \<open>Three corners.  The line of an edge target is found by cutting a numeric last component, so
  the edge to a line with a numeric id is lost: the unit is collected with no role and stands
  in no upstream section.  A unit whose recorded domain is not one of the five is counted and
  listed as a constraint but stands in no stratum.  A unit of the closure takes the place of
  a target that does not resolve.\<close>

definition cornerSample :: "Unit list" where
  "cornerSample = [lensUnit ''core'' ''sto'' ''x'' 1 [(''depends-on'', ''core/bug:42'')], lensUnit ''core'' ''bug'' ''42'' 1 [],
     lensUnit ''core'' ''sto'' ''y'' 1 [(''depends-on'', ''core/std:s'')],
     (lensUnit ''core'' ''std'' ''s'' 1 [])\<lparr>u_Classification := \<lparr>cl_Dimension = '''', cl_DimensionsSecondary = [], cl_Domain = ''Sales''\<rparr>\<rparr>,
     lensUnit ''core'' ''sto'' ''z'' 1 [(''depends-on'', ''core/adr:a''), (''realizes'', ''core/req:r:9'')],
     lensUnit ''core'' ''adr'' ''a'' 1 [(''derives-from'', ''core/req:r:1'')], lensUnit ''core'' ''req'' ''r'' 1 []]"

theorem context_corners:
  "digest (contextOf cornerSample ''core/sto:x'' DepthDependency) = Some ([(4, [(''core/bug:42:1'', '''')])], [], [], 1)
   \<and> digest (contextOf cornerSample ''core/sto:y'' DepthDependency)
       = Some ([], [(''core/std:s:1'', ''depends-on'')], [''core/std:s:1''], 1)
   \<and> digest (contextOf cornerSample ''core/sto:z'' DepthEngineering)
       = Some ([(1, [(''core/req:r:1'', ''constraint'')]), (2, [(''core/adr:a:1'', ''depends-on'')])],
               [(''core/adr:a:1'', ''depends-on''), (''core/req:r:1'', ''realizes'')], [''core/adr:a:1'', ''core/req:r:1''], 2)"
  by (intro conjI) code_simp+

end
