(* ===== verification/Spec2Isabelle.thy ===== *)
theory Spec2Isabelle
  imports Authoring_Gate Content_Object Store_Lineage Store_Integrity Exchange_Writer Runtime_Gates
    Runtime_Scaffold Runtime_Batch Runtime_Capture Runtime_Relate Runtime_Notes
    Contexts
begin

text \<open>
  A verification development for eka-core, the Go library of the EKA engineering
  knowledge format.

  Parts.  \<open>conformance\<close> is the validator: it classifies authoring files into artifacts;
  \<open>Validate\<close> runs the rules R0 to R13 over them, \<open>ValidateCKO\<close> over one canonical unit at
  publish time.  \<open>store\<close> is the workspace database: an append-only archive of payloads
  addressed by content, with a table of references, one per canonical form.
  \<open>exchange\<close> is the unit model, the package loader and the importer, which writes units into
  a repository.  \<open>runtime\<close> is the service layer; its transition service moves a published unit
  along its state table to the next state, which it publishes in the store; its authoring service keeps mutable drafts outside the store
  and publishes them.  The validator's tables,
  grammar and index are used by all the others; the unit model is used by the store's unit
  projection, the importer, the runtime.

  Theories.
    Prelude: Go's string and number functions over byte strings, association lists for
      maps, sorting lemmas.
    Taxonomy, Eng_Domain, Naming: \<open>conformance/state.go\<close>, \<open>domain.go\<close>, \<open>filename.go\<close>,
      \<open>keys.go\<close>.
    References: the reference grammar of \<open>conformance/rules.go\<close>.
    Report: \<open>report.go\<close>.  Artifacts: the artifact record and the identity index.
    Rules_Core: R1 to R7.  Rules_Projection: R8 and R9.  Rules_Domain: R10 to R12 over
      the worklist search of Graph_Search.  Graph_Pass: R13 of \<open>graph.go\<close>.
    Authoring: the adapters of \<open>artifact.go\<close> and the shared classifier.  Content_Object:
      \<open>content.go\<close>.
    Conformance: the two entry points in \<open>validate.go\<close> and \<open>cko.go\<close>.  Authoring_Gate: what
      a clean classification guarantees, and the file scans.
    Author_Identity: \<open>conformance/identity.go\<close>.
    Store_Model: the tables and operations of \<open>store/payloads.go\<close>, \<open>refs.go\<close>,
      \<open>numbers.go\<close>, \<open>busy.go\<close>.  Store_Lineage: what a history of operations preserves.
      Store_Units: the decoded projection of \<open>store/units.go\<close>.  Store_Integrity: the scan
      of \<open>store/integrity.go\<close>.
    Exchange_Unit, Exchange_Package: \<open>exchange/model.go\<close>, \<open>artifact.go\<close>, \<open>builder.go\<close>,
      \<open>deserialize.go\<close>, \<open>reader.go\<close>.  Exchange_Import, Exchange_Commit, Exchange_Writer:
      the phases of \<open>import.go\<close>, \<open>resolver.go\<close>, \<open>conflict.go\<close> and \<open>integrate.go\<close>.
    Runtime_Transition: \<open>runtime/transition.go\<close> and \<open>container.go\<close>.  Runtime_Gates: the
      theorems about it.
    Runtime_Draft: \<open>runtime/draft.go\<close>, the mutable drafts and their publication.
      Runtime_Publish: what a publish changes and the workspace invariant.  Runtime_Scaffold:
      a new draft read back by the scanner.  Runtime_Batch: \<open>runtime/batch.go\<close>, drafts
      scaffolded and published together.  Runtime_Capture: \<open>runtime/capture.go\<close>, the classifier
      of prompts and the similarity of titles.  Runtime_Relate: \<open>runtime/relate.go\<close>, edges added
      to a published line or a draft.  Runtime_Notes: \<open>runtime/note.go\<close> and
      \<open>runtime/note_resolve.go\<close>, notes, replies and their resolution.
      Runtime_Relations: \<open>resolver.go\<close>, \<open>relations.go\<close>, \<open>timeline.go\<close> and the search of
      \<open>knowledge.go\<close>, the read side over the store.
    Contexts: \<open>contexts\<close>, the context object around one unit: its collection, the bounded
      constraint closure, strata and sections.

  State.  A Go struct is a record with the struct's fields under a prefix, a Go map an
  association list \<open>gomap\<close> or, where the code sorts before it reads, a sorted list; errors
  are values of a datatype per component, in a sum with the result.  The database is a record
  of two tables; a transaction returns the new database or an error, so a rolled back
  transaction is the old value.  The file system under the writer is a list of paths with
  their contents, with an argument saying which calls fail.

  What is shown.  Validator: each rule is equivalent to the condition it
  documents, the two modes agree, search and index lookups are sound and complete.  Store:
  one invariant \<open>wf_db\<close> kept by every operation, from which forward-only puts, the
  guards and the numbers follow.  Exchange: an accepted package satisfies the laws its checks promise,
  an import is atomic and adds exactly its files, the commit order is a permutation that puts
  targets first.  Runtime: every published transition is legal for the validator and passed
  its gates; the plan closure is exactly the set of reachable lines; a publish appends one version to its line and removes its draft, and the
  workspace stays well formed; the upstream and downstream reads of relationships agree.
  Contexts: the strata partition the collected lines and the closure adds a bounded set.

  Interfaces.  Each locale states the contract a client relies on and is interpreted on the
  model's definitions: a forward-only state table in Taxonomy, a line index in Artifacts, a
  searchable graph and a fallible source of targets in Graph_Search.

  Fuel.  The worklist search of R10 runs with the number of artifacts plus one, since each
  expansion marks a new artifact.  The commit loop runs with the number of units, since each
  round emits a unit.  The plan closure runs with \<open>1 + (1 + E) * E\<close> steps for \<open>E\<close> stored
  relationships: each of at most \<open>1 + E\<close> lines is expanded once and adds at most \<open>E\<close> entries.
  Each bound is proved sufficient.

  Not modelled.  The YAML and JSON decoders and the serialization to files are
  arguments of the definitions that use them; so are the digest, the clock, SQLite's own
  behaviour, git and the workspace registry.  The remaining services of \<open>runtime\<close>, \<open>sync\<close>,
  \<open>view\<close>, \<open>machine\<close> and \<open>codegraph\<close> are outside the development so far.  Message
  texts are represented by the constructor and its data.
\<close>

end
